(* ===== verification/Prelude.thy ===== *)
theory Prelude
  imports Main "HOL-Library.Word"
begin

section \<open>Prelude: errors, strings, numerals and bytes\<close>

text \<open>
  What the components share. A JavaScript exception is a value of type \<open>js_error\<close> (its
  class, its optional \<open>code\<close> property, its message and the string properties \<open>data\<close>,
  \<open>info.error.data\<close> and \<open>error.data\<close> an RPC error may carry), a call that may throw returns
  \<open>js_error + 'a\<close> (\<open>Throw\<close> is \<open>Inl\<close>, \<open>Ok\<close> is \<open>Inr\<close>). \<open>process.exit\<close> travels
  like an exception of the kind \<open>ProcessExit\<close>, whose code is the exit status, and is caught by nothing. Strings are ASCII
  (\<open>char list\<close>), a \<open>Uint8Array\<close> is a list of 8-bit words, \<open>bigint\<close> is \<open>int\<close> and a
  \<open>number\<close> that the code only uses as a non-negative integer is \<open>nat\<close>. The
  JavaScript built-ins the sources use (\<open>toString\<close>, \<open>BigInt(s)\<close>, \<open>toLowerCase\<close>,
  \<open>includes\<close>, \<open>trim\<close>, \<open>DataView\<close> accessors) are defined here. The functions of the
  third-party \<open>ethers\<close> package are not: they are the fields of the record \<open>ethers\<close>,
  an argument of every definition that uses them.
\<close>

named_theorems res_simps "unfolding rules for results that may throw"
named_theorems codec_simps "lengths and slices of byte layouts"

subsection \<open>Exceptions\<close>

datatype err_kind =
    DeferDeliveryError | RetriableDeliveryError | PermanentDeliveryError
  | AllWalletsBusyError | UnknownWalletError
  | CorrelationError | ReceiptNotReadyError | UnknownChainError | QueueError
  | QuoterNotAuthorizedError | OracleNotAuthorizedError | CoinGeckoError | BadRequest
  | MaxRetriesPerRequestError | RangeError | TypeError | PlainError | ForeignError | ProcessExit

record js_error =
  ekind :: err_kind
  ecode :: "string option"
  emessage :: string
  edata :: "string option"
  einfo_error_data :: "string option"
  eerror_data :: "string option"

type_synonym 'a res = "js_error + 'a"

abbreviation Ok :: "'a \<Rightarrow> 'a res" where
  "Ok \<equiv> Inr"

abbreviation Throw :: "js_error \<Rightarrow> 'a res" where
  "Throw \<equiv> Inl"

definition new_error :: "err_kind \<Rightarrow> string \<Rightarrow> js_error" where
  "new_error k m = \<lparr>ekind = k, ecode = None, emessage = m,
     edata = None, einfo_error_data = None, eerror_data = None\<rparr>"

definition coded_error :: "err_kind \<Rightarrow> string \<Rightarrow> string \<Rightarrow> js_error" where
  "coded_error k c m = \<lparr>ekind = k, ecode = Some c, emessage = m,
     edata = None, einfo_error_data = None, eerror_data = None\<rparr>"

definition process_exit :: "nat \<Rightarrow> js_error" where
  "process_exit status = coded_error ProcessExit (if status = 0 then ''0'' else ''1'') ''process.exit''"

lemma new_error_sel [simp]:
  "ekind (new_error k m) = k" "ecode (new_error k m) = None" "emessage (new_error k m) = m"
  by (simp_all add: new_error_def)

lemma coded_error_sel [simp]:
  "ekind (coded_error k c m) = k" "ecode (coded_error k c m) = Some c"
  "emessage (coded_error k c m) = m"
  by (simp_all add: coded_error_def)

text \<open>\<open>String(err)\<close>: the name of the class, then the message.\<close>

fun error_name :: "err_kind \<Rightarrow> string" where
  "error_name DeferDeliveryError = ''DeferDeliveryError''"
| "error_name RetriableDeliveryError = ''RetriableDeliveryError''"
| "error_name PermanentDeliveryError = ''PermanentDeliveryError''"
| "error_name AllWalletsBusyError = ''AllWalletsBusyError''"
| "error_name UnknownWalletError = ''UnknownWalletError''"
| "error_name CorrelationError = ''CorrelationError''"
| "error_name ReceiptNotReadyError = ''ReceiptNotReadyError''"
| "error_name UnknownChainError = ''UnknownChainError''"
| "error_name QueueError = ''QueueError''"
| "error_name QuoterNotAuthorizedError = ''QuoterNotAuthorizedError''"
| "error_name OracleNotAuthorizedError = ''OracleNotAuthorizedError''"
| "error_name CoinGeckoError = ''CoinGeckoError''"
| "error_name MaxRetriesPerRequestError = ''MaxRetriesPerRequestError''"
| "error_name RangeError = ''RangeError''"
| "error_name TypeError = ''TypeError''"
| "error_name _ = ''Error''"

definition js_String :: "js_error \<Rightarrow> string" where
  "js_String e = error_name (ekind e) @ '': '' @ emessage e"

definition bind_res :: "'a res \<Rightarrow> ('a \<Rightarrow> 'b res) \<Rightarrow> 'b res" where
  [res_simps]: "bind_res r f = (case r of Inl e \<Rightarrow> Inl e | Inr x \<Rightarrow> f x)"

lemma bind_res_simps [simp]:
  "bind_res (Inl e) f = Inl e" "bind_res (Inr x) f = f x"
  by (simp_all add: bind_res_def)

lemma bind_res_Ok_right [simp]: "bind_res r Inr = r"
  by (cases r) simp_all

lemma bind_res_Ok_iff: "bind_res r f = Inr y \<longleftrightarrow> (\<exists>x. r = Inr x \<and> f x = Inr y)"
  by (cases r) simp_all

definition guard_res :: "bool \<Rightarrow> js_error \<Rightarrow> unit res" where
  "guard_res b e = (if b then Throw e else Ok ())"

lemma guard_res_Ok [simp]: "guard_res b e = Ok u \<longleftrightarrow> \<not> b"
  by (simp add: guard_res_def)

lemma guard_res_simps [simp]: "guard_res False e = Ok ()" "guard_res True e = Throw e"
  by (simp_all add: guard_res_def)

lemma if_throw_Ok: "(if b then Throw e else r) = Ok v \<longleftrightarrow> \<not> b \<and> r = Ok v"
  by simp

lemma if_none_Ok: "(if b then Ok None else r) = Ok (Some v) \<longleftrightarrow> \<not> b \<and> r = Ok (Some v)"
  by simp

text \<open>\<open>try \<dots> catch\<close> around a call whose failure is turned into another outcome.\<close>

definition catch_res :: "'a res \<Rightarrow> (js_error \<Rightarrow> 'a res) \<Rightarrow> 'a res" where
  [res_simps]: "catch_res r h = (case r of Inl e \<Rightarrow> h e | Inr x \<Rightarrow> Inr x)"

lemma catch_res_simps [simp]: "catch_res (Inl e) h = h e" "catch_res (Inr x) h = Inr x"
  by (simp_all add: catch_res_def)

lemma bind_res_cong [fundef_cong]:
  "r = r' \<Longrightarrow> (\<And>x. r' = Inr x \<Longrightarrow> f x = g x) \<Longrightarrow> bind_res r f = bind_res r' g"
  by (cases r') simp_all

text \<open>\<open>Promise\<close>-valued maps over a list: the first failure in list order is the result.\<close>

fun map_res :: "('a \<Rightarrow> 'b res) \<Rightarrow> 'a list \<Rightarrow> 'b list res" where
  "map_res f [] = Inr []"
| "map_res f (x # xs) =
     bind_res (f x) (\<lambda>y. bind_res (map_res f xs) (\<lambda>ys. Inr (y # ys)))"

lemma map_res_Ok_iff:
  "map_res f xs = Inr ys \<longleftrightarrow> list_all2 (\<lambda>x y. f x = Inr y) xs ys"
proof (induction xs arbitrary: ys)
  case Nil
  then show ?case by auto
next
  case (Cons x xs)
  then show ?case
    by (cases ys) (auto simp: bind_res_Ok_iff)
qed

subsection \<open>Decimal numerals and \<open>BigInt(string)\<close>\<close>

definition digit_char :: "nat \<Rightarrow> char" where
  "digit_char d = char_of (48 + d)"

definition is_digit :: "char \<Rightarrow> bool" where
  "is_digit c \<longleftrightarrow> 48 \<le> (of_char c :: nat) \<and> (of_char c :: nat) \<le> 57"

definition digit_val :: "char \<Rightarrow> nat" where
  "digit_val c = of_char c - 48"

fun show_nat :: "nat \<Rightarrow> string" where
  "show_nat n = (if n < 10 then [digit_char n] else show_nat (n div 10) @ [digit_char (n mod 10)])"

declare show_nat.simps [simp del]

definition show_int :: "int \<Rightarrow> string" where
  "show_int i = (if i < 0 then ''-'' @ show_nat (nat (- i)) else show_nat (nat i))"

definition dec_val :: "string \<Rightarrow> nat" where
  "dec_val s = foldl (\<lambda>a c. a * 10 + digit_val c) 0 s"

lemma dec_val_Nil [simp]: "dec_val [] = 0"
  by (simp add: dec_val_def)

lemma dec_val_snoc [simp]: "dec_val (s @ [c]) = dec_val s * 10 + digit_val c"
  by (simp add: dec_val_def)

lemma digit_char_props:
  assumes "d < 10"
  shows "is_digit (digit_char d)" and "digit_val (digit_char d) = d"
  using assms by (simp_all add: is_digit_def digit_char_def digit_val_def)

lemma show_nat_digits: "\<forall>c \<in> set (show_nat n). is_digit c"
proof (induction n rule: show_nat.induct)
  case (1 n)
  then show ?case
    by (cases "n < 10") (auto simp: show_nat.simps [of n] digit_char_props)
qed

lemma show_nat_nonempty [simp]: "show_nat n \<noteq> []"
  by (subst show_nat.simps) simp

lemma dec_val_show_nat [simp]: "dec_val (show_nat n) = n"
proof (induction n rule: show_nat.induct)
  case (1 n)
  show ?case
  proof (cases "n < 10")
    case True
    then show ?thesis
      using dec_val_snoc [of "[]" "digit_char n"]
      by (simp add: show_nat.simps [of n] digit_char_props)
  next
    case False
    with "1.IH" show ?thesis
      by (simp add: show_nat.simps [of n] digit_char_props)
  qed
qed

lemma show_nat_inject: "show_nat a = show_nat b \<longleftrightarrow> a = b"
  by (metis dec_val_show_nat)

text \<open>
  \<open>BigInt(s)\<close> on a string (StringToBigInt): surrounding white space is dropped, the empty
  string is 0, a decimal may carry a sign, a \<open>0x\<close>, \<open>0o\<close> or \<open>0b\<close> literal may not;
  anything else throws a \<open>SyntaxError\<close>, here \<open>None\<close>.
\<close>

definition is_space :: "char \<Rightarrow> bool" where
  "is_space c \<longleftrightarrow> of_char c \<in> {9, 10, 11, 12, 13, 32 :: nat}"

definition js_trim :: "string \<Rightarrow> string" where
  "js_trim s = rev (dropWhile is_space (rev (dropWhile is_space s)))"

lemma js_trim_id:
  assumes "s \<noteq> []" and "\<not> is_space (hd s)" and "\<not> is_space (last s)"
  shows "js_trim s = s"
proof -
  have "dropWhile is_space s = s" using assms(1,2) by (cases s) simp_all
  moreover have "dropWhile is_space (rev s) = rev s" using assms(1,3) by (cases s rule: rev_cases) simp_all
  ultimately show ?thesis by (simp add: js_trim_def)
qed

lemma js_trim_keeps:
  assumes "c \<in> set s" and "\<not> is_space c"
  shows "c \<in> set (js_trim s)"
proof -
  have "x \<in> set t \<Longrightarrow> \<not> is_space x \<Longrightarrow> x \<in> set (dropWhile is_space t)" for x t
    by (induction t) auto
  then show ?thesis using assms by (simp add: js_trim_def)
qed

definition radix_digit :: "nat \<Rightarrow> char \<Rightarrow> nat option" where
  "radix_digit r c =
     (let n = of_char c :: nat;
          d = (if 48 \<le> n \<and> n \<le> 57 then n - 48
               else if 97 \<le> n \<and> n \<le> 102 then n - 87
               else if 65 \<le> n \<and> n \<le> 70 then n - 55 else 99)
      in if d < r then Some d else None)"

fun radix_val :: "nat \<Rightarrow> nat \<Rightarrow> string \<Rightarrow> nat option" where
  "radix_val r acc [] = Some acc"
| "radix_val r acc (c # cs) =
     (case radix_digit r c of None \<Rightarrow> None | Some d \<Rightarrow> radix_val r (acc * r + d) cs)"

definition unsigned_literal :: "nat \<Rightarrow> string \<Rightarrow> int option" where
  "unsigned_literal r s = (if s = [] then None else map_option int (radix_val r 0 s))"

definition js_BigInt :: "string \<Rightarrow> int option" where
  "js_BigInt raw =
     (let s = js_trim raw in
      if s = [] then Some 0
      else if take 2 s \<in> {''0x'', ''0X''} then unsigned_literal 16 (drop 2 s)
      else if take 2 s \<in> {''0o'', ''0O''} then unsigned_literal 8 (drop 2 s)
      else if take 2 s \<in> {''0b'', ''0B''} then unsigned_literal 2 (drop 2 s)
      else if hd s = CHR ''-'' then map_option uminus (unsigned_literal 10 (tl s))
      else if hd s = CHR ''+'' then unsigned_literal 10 (tl s)
      else unsigned_literal 10 s)"

lemma radix_digit_decimal: "is_digit c \<Longrightarrow> radix_digit 10 c = Some (digit_val c)"
  by (auto simp: radix_digit_def is_digit_def digit_val_def Let_def)

lemma radix_val_decimal:
  "\<forall>c \<in> set s. is_digit c \<Longrightarrow>
   radix_val 10 acc s = Some (foldl (\<lambda>a c. a * 10 + digit_val c) acc s)"
  by (induction s arbitrary: acc) (simp_all add: radix_digit_decimal)

lemma digit_not_space: "is_digit c \<Longrightarrow> \<not> is_space c"
  by (auto simp: is_digit_def is_space_def)

lemma js_trim_digits:
  assumes "\<forall>c \<in> set s. is_digit c"
  shows "js_trim s = s"
proof -
  have hd_keep: "dropWhile is_space t = t" if "\<forall>c \<in> set t. is_digit c" for t
    using that by (cases t) (auto dest: digit_not_space)
  show ?thesis
    using hd_keep [of s] hd_keep [of "rev s"] assms by (simp add: js_trim_def)
qed

text \<open>\<open>BigInt(n.toString())\<close> is the identity: the payload's decimal strings lose nothing.\<close>

lemma js_BigInt_digits:
  assumes ne: "s \<noteq> []" and d: "\<forall>c \<in> set s. is_digit c"
  shows "js_BigInt s = Some (int (dec_val s))"
proof -
  have "is_digit (hd s)" using d ne by simp
  then have h: "hd s \<noteq> CHR ''-''" "hd s \<noteq> CHR ''+''"
    by (auto simp: is_digit_def)
  have pre: "take 2 s \<noteq> [a, b]" if "\<not> is_digit b" for a b
  proof
    assume "take 2 s = [a, b]"
    then have "b \<in> set (take 2 s)" by simp
    then have "b \<in> set s" by (rule in_set_takeD)
    with d that show False by simp
  qed
  have "take 2 s \<notin> {''0x'', ''0X''}" "take 2 s \<notin> {''0o'', ''0O''}" "take 2 s \<notin> {''0b'', ''0B''}"
    using pre by (auto simp: is_digit_def)
  then show ?thesis
    using h ne radix_val_decimal [OF d, of 0] js_trim_digits [OF d]
    by (simp add: js_BigInt_def Let_def unsigned_literal_def dec_val_def)
qed

lemma js_BigInt_show_nat [simp]: "js_BigInt (show_nat n) = Some (int n)"
  by (simp add: js_BigInt_digits show_nat_digits)

lemma js_BigInt_show_int:
  assumes "0 \<le> i"
  shows "js_BigInt (show_int i) = Some i"
  using assms by (simp add: show_int_def)

text \<open>\<open>value.toString(16)\<close>.\<close>

definition hex_digit :: "nat \<Rightarrow> char" where
  "hex_digit d = (if d < 10 then char_of (48 + d) else char_of (87 + d))"

fun show_hex :: "nat \<Rightarrow> string" where
  "show_hex n = (if n < 16 then [hex_digit n] else show_hex (n div 16) @ [hex_digit (n mod 16)])"

declare show_hex.simps [simp del]

lemma radix_hex_digit: "d < 16 \<Longrightarrow> radix_digit 16 (hex_digit d) = Some d"
  by (auto simp: radix_digit_def hex_digit_def Let_def)

lemma radix_val_append:
  "radix_val r acc (s @ t) = (case radix_val r acc s of None \<Rightarrow> None | Some a \<Rightarrow> radix_val r a t)"
  by (induction s arbitrary: acc) (simp_all split: option.splits)

lemma radix_val_show_hex: "radix_val 16 0 (show_hex n) = Some n"
proof (induction n rule: show_hex.induct)
  case (1 n)
  then show ?case
    by (cases "n < 16") (simp_all add: show_hex.simps [of n] radix_val_append radix_hex_digit)
qed

lemma length_show_hex: "length (show_hex n) \<le> k \<longleftrightarrow> n < 16 ^ k \<and> 0 < k"
proof (induction n arbitrary: k rule: show_hex.induct)
  case (1 n)
  show ?case
  proof (cases "n < 16")
    case True
    have "(16 :: nat) \<le> 16 ^ k" if "0 < k" using that by (cases k) simp_all
    with True show ?thesis by (auto simp: show_hex.simps [of n])
  next
    case False
    show ?thesis
    proof (cases k)
      case 0
      then show ?thesis by (subst show_hex.simps) simp
    next
      case (Suc j)
      have "n < 16 ^ k \<longleftrightarrow> n div 16 < 16 ^ j" using Suc by (simp add: less_mult_imp_div_less div_less_iff_less_mult mult.commute)
      moreover have "n div 16 < 16 ^ j \<longrightarrow> 0 < j" using False by (cases j) auto
      ultimately show ?thesis using False Suc "1.IH" [of j] by (subst show_hex.simps) auto
    qed
  qed
qed

text \<open>\<open>bigint\<close> division truncates towards zero (the divisors in the sources are not zero).\<close>

definition bigint_div :: "int \<Rightarrow> int \<Rightarrow> int" where
  "bigint_div a b = sgn a * sgn b * (\<bar>a\<bar> div \<bar>b\<bar>)"

lemma bigint_div_nonneg: "0 \<le> a \<Longrightarrow> 0 < b \<Longrightarrow> bigint_div a b = a div b"
  by (cases "a = 0") (simp_all add: bigint_div_def)

lemma bigint_div_ge_0: "0 \<le> a \<Longrightarrow> 0 < b \<Longrightarrow> 0 \<le> bigint_div a b"
  by (simp add: bigint_div_nonneg pos_imp_zdiv_nonneg_iff)

lemma bigint_div_mono: "0 \<le> a \<Longrightarrow> a \<le> a' \<Longrightarrow> 0 < b \<Longrightarrow> bigint_div a b \<le> bigint_div a' b"
  by (simp add: bigint_div_nonneg zdiv_mono1)

subsection \<open>Strings\<close>

definition lower_char :: "char \<Rightarrow> char" where
  "lower_char c = (let n = of_char c :: nat in if 65 \<le> n \<and> n \<le> 90 then char_of (n + 32) else c)"

definition toLowerCase :: "string \<Rightarrow> string" where
  "toLowerCase s = map lower_char s"

lemma lower_char_idem [simp]: "lower_char (lower_char c) = lower_char c"
  by (auto simp: lower_char_def Let_def)

lemma toLowerCase_idem [simp]: "toLowerCase (toLowerCase s) = toLowerCase s"
  by (simp add: toLowerCase_def)

definition upper_char :: "char \<Rightarrow> char" where
  "upper_char c = (let n = of_char c :: nat in if 97 \<le> n \<and> n \<le> 122 then char_of (n - 32) else c)"

definition toUpperCase :: "string \<Rightarrow> string" where
  "toUpperCase s = map upper_char s"

lemma length_toLowerCase [simp]: "length (toLowerCase s) = length s"
  by (simp add: toLowerCase_def)

fun str_includes :: "string \<Rightarrow> string \<Rightarrow> bool" where
  "str_includes [] p = (p = [])"
| "str_includes (c # cs) p = (take (length p) (c # cs) = p \<or> str_includes cs p)"

definition starts_with :: "string \<Rightarrow> string \<Rightarrow> bool" where
  "starts_with p s = (take (length p) s = p)"

fun join_with :: "string \<Rightarrow> string list \<Rightarrow> string" where
  "join_with sep [] = []"
| "join_with sep [x] = x"
| "join_with sep (x # y # ys) = x @ sep @ join_with sep (y # ys)"

text \<open>\<open>s.split(c)\<close> for a separator of one character, and \<open>s.replace(c, "")\<close>, which drops the first one.\<close>

fun str_split :: "char \<Rightarrow> string \<Rightarrow> string list" where
  "str_split sep [] = [[]]"
| "str_split sep (c # cs) =
     (if c = sep then [] # str_split sep cs
      else (case str_split sep cs of [] \<Rightarrow> [[c]] | w # ws \<Rightarrow> (c # w) # ws))"

fun drop_first :: "char \<Rightarrow> string \<Rightarrow> string" where
  "drop_first c [] = []"
| "drop_first c (x # xs) = (if x = c then xs else x # drop_first c xs)"

lemma str_split_no_sep: "c \<notin> set s \<Longrightarrow> str_split c s = [s]"
  by (induction s) auto

lemma str_split_append: "c \<notin> set s \<Longrightarrow> str_split c (s @ c # t) = s # str_split c t"
  by (induction s) auto

lemma drop_first_append: "c \<notin> set s \<Longrightarrow> drop_first c (s @ c # t) = s @ t"
  by (induction s) auto

subsection \<open>Bytes: big-endian integers and buffers\<close>

type_synonym bytes = "8 word list"

fun be_encode :: "nat \<Rightarrow> nat \<Rightarrow> bytes" where
  "be_encode 0 v = []"
| "be_encode (Suc k) v = word_of_nat (v div 256 ^ k) # be_encode k v"

definition be_decode :: "bytes \<Rightarrow> nat" where
  "be_decode bs = foldl (\<lambda>a b. a * 256 + unat b) 0 bs"

lemma length_be_encode [simp, codec_simps]: "length (be_encode k v) = k"
  by (induction k) simp_all

lemma be_foldl: "foldl (\<lambda>a b. a * 256 + unat (b :: 8 word)) a bs = a * 256 ^ length bs + be_decode bs"
proof (induction bs arbitrary: a)
  case Nil
  then show ?case by (simp add: be_decode_def)
next
  case (Cons b bs)
  have "be_decode (b # bs) = unat b * 256 ^ length bs + be_decode bs"
    using Cons.IH [of "unat b"] by (simp add: be_decode_def)
  then show ?case using Cons.IH [of "a * 256 + unat b"] by (simp add: algebra_simps)
qed

lemma be_decode_Nil [simp]: "be_decode [] = 0"
  by (simp add: be_decode_def)

lemma be_decode_Cons: "be_decode (b # bs) = unat b * 256 ^ length bs + be_decode bs"
  using be_foldl [of "unat b" bs] by (simp add: be_decode_def)

lemma be_decode_zeros [simp]: "be_decode (replicate n 0 @ bs) = be_decode bs"
  by (induction n) (simp_all add: be_decode_Cons)

lemma be_decode_encode_mod: "be_decode (be_encode k v) = v mod 256 ^ k"
proof (induction k)
  case 0
  then show ?case by simp
next
  case (Suc k)
  have "unat (word_of_nat (v div 256 ^ k) :: 8 word) = v div 256 ^ k mod 256"
    by (simp add: unat_of_nat)
  then have "be_decode (be_encode (Suc k) v) = (v div 256 ^ k mod 256) * 256 ^ k + v mod 256 ^ k"
    using Suc by (simp add: be_decode_Cons)
  also have "\<dots> = v mod (256 ^ k * 256)"
    by (metis mod_mult2_eq mult.commute)
  finally show ?case by (simp add: mult.commute)
qed

lemma be_decode_encode [simp]: "v < 256 ^ k \<Longrightarrow> be_decode (be_encode k v) = v"
  by (simp add: be_decode_encode_mod)

lemma be_decode_less: "be_decode bs < 256 ^ length bs"
proof (induction bs)
  case Nil
  then show ?case by simp
next
  case (Cons b bs)
  have "unat b + 1 \<le> 256" using unsigned_less [of b, where 'a = nat] by simp
  from mult_le_mono1 [OF this, of "256 ^ length bs"]
  have "unat b * 256 ^ length bs + 256 ^ length bs \<le> 256 * 256 ^ length bs"
    unfolding add_mult_distrib mult_1 .
  with Cons.IH show ?case unfolding be_decode_Cons length_Cons power_Suc by linarith
qed

lemma word8_of_nat_add: "(word_of_nat (w * 256 + n) :: 8 word) = word_of_nat n"
  by (simp only: word_of_nat_eq_iff take_bit_eq_mod) simp

lemma be_encode_add: "be_encode k (w * 256 ^ k + v) = be_encode k v"
proof (induction k arbitrary: w v)
  case 0
  then show ?case by simp
next
  case (Suc k)
  have eq: "w * 256 ^ Suc k + v = (w * 256) * 256 ^ k + v" by simp
  have tl_eq: "be_encode k (w * 256 ^ Suc k + v) = be_encode k v"
    unfolding eq by (rule Suc.IH)
  have "(w * 256 ^ Suc k + v) div 256 ^ k = w * 256 + v div 256 ^ k"
    unfolding eq by (subst div_mult_self3) simp_all
  with tl_eq show ?case by (simp only: be_encode.simps word8_of_nat_add)
qed

lemma be_encode_decode [simp]: "be_encode (length bs) (be_decode bs) = bs"
proof (induction bs)
  case Nil
  then show ?case by simp
next
  case (Cons b bs)
  have "(unat b * 256 ^ length bs + be_decode bs) div 256 ^ length bs = unat b"
    using be_decode_less [of bs] by simp
  then show ?case
    using Cons be_encode_add [of "length bs" "unat b" "be_decode bs"]
    by (simp add: be_decode_Cons)
qed

lemma be_encode_decode_len: "length bs = k \<Longrightarrow> be_encode k (be_decode bs) = bs"
  using be_encode_decode by blast

text \<open>\<open>out.set(bs, off)\<close> and the \<open>DataView\<close> setters write into a fixed buffer in place.\<close>

definition buf_set :: "nat \<Rightarrow> bytes \<Rightarrow> bytes \<Rightarrow> bytes" where
  "buf_set off bs buf = take off buf @ bs @ drop (off + length bs) buf"

definition subarray :: "nat \<Rightarrow> nat \<Rightarrow> bytes \<Rightarrow> bytes" where
  "subarray a b bs = take (b - a) (drop a bs)"

lemma length_buf_set [simp, codec_simps]:
  "off + length bs \<le> length buf \<Longrightarrow> length (buf_set off bs buf) = length buf"
  by (simp add: buf_set_def)

text \<open>Writing a zero-filled buffer front to back without gaps is concatenation.\<close>

lemma buf_set_front:
  assumes "length pre = off"
  shows "buf_set off bs (pre @ replicate (length bs + n) 0) = (pre @ bs) @ replicate n 0"
  using assms by (simp add: buf_set_def replicate_add)

text \<open>\<open>out.set(bs, off)\<close> with its bounds check.\<close>

definition js_set :: "nat \<Rightarrow> bytes \<Rightarrow> bytes \<Rightarrow> bytes res" where
  "js_set off bs buf =
     (if length buf < off + length bs then Throw (new_error RangeError ''offset is out of bounds'')
      else Ok (buf_set off bs buf))"

definition set_byte :: "nat \<Rightarrow> int \<Rightarrow> bytes \<Rightarrow> bytes" where
  "set_byte i v buf = buf_set i [word_of_int v] buf"

definition get_uint :: "nat \<Rightarrow> nat \<Rightarrow> bytes \<Rightarrow> nat" where
  "get_uint n off bs = be_decode (subarray off (off + n) bs)"

lemmas slice_simps = get_uint_def subarray_def take_append drop_append

lemma length_set_byte [simp]: "i < length buf \<Longrightarrow> length (set_byte i v buf) = length buf"
  by (simp add: set_byte_def)

lemma js_set_Ok: "js_set off bs buf = Ok buf' \<Longrightarrow> length buf' = length buf"
  by (auto simp: js_set_def split: if_splits)

subsection \<open>The ethers package\<close>

text \<open>
  The functions of \<open>ethers\<close> v6 that the services call. They are third-party code: every
  definition that uses one takes the record as an argument, and \<open>ethers_hex_laws\<close> states
  the documented behaviour the byte layouts rest on (\<open>hexlify\<close> gives a string from which
  \<open>getBytes\<close> recovers the bytes, in lower case; \<open>zeroPadValue\<close> left-pads with zero
  bytes; \<open>isHexString(s, n)\<close> accepts the encodings of \<open>n\<close> bytes; \<open>toBeHex(v, n)\<close> is
  the \<open>n\<close>-byte big-endian encoding of a value that fits).
\<close>

record ethers =
  keccak256 :: "bytes \<Rightarrow> string"
  hexlify :: "bytes \<Rightarrow> string"
  getBytes :: "string \<Rightarrow> bytes res"
  getAddress :: "string \<Rightarrow> string res"
  zeroPadValue :: "string \<Rightarrow> nat \<Rightarrow> string res"
  isHexString :: "string \<Rightarrow> nat \<Rightarrow> bool"
  toBeHex :: "int \<Rightarrow> nat \<Rightarrow> string res"
  toUtf8Bytes :: "string \<Rightarrow> bytes"

definition ethers_hex_laws :: "ethers \<Rightarrow> bool" where
  "ethers_hex_laws eth \<longleftrightarrow>
     (\<forall>bs. getBytes eth (hexlify eth bs) = Ok bs) \<and>
     (\<forall>bs. toLowerCase (hexlify eth bs) = hexlify eth bs) \<and>
     (\<forall>s n. isHexString eth s n \<longrightarrow> (\<exists>bs. getBytes eth s = Ok bs \<and> length bs = n)) \<and>
     (\<forall>bs. isHexString eth (hexlify eth bs) (length bs)) \<and>
     (\<forall>v n. 0 \<le> v \<and> v < 256 ^ n \<longrightarrow> toBeHex eth v n = Ok (hexlify eth (be_encode n (nat v))))"

end
