(* ===== verification/Effects.thy ===== *)
theory Effects
  imports Prelude
begin

section \<open>Effectful code\<close>

text \<open>
  The roles are asynchronous functions that read and write a shared state and may throw. An
  effect is a function from the state to a result and the state it leaves; a throw keeps the
  state reached so far, as JavaScript does. \<open>bindM\<close> is sequencing, \<open>attemptM\<close> is
  \<open>try\<close> with a continuation for each outcome. \<open>valid P m Q E\<close> is the triple of the
  program logic the role proofs are written in: from a state in \<open>P\<close> the code ends normally
  in \<open>Q\<close> or throws in \<open>E\<close>; its rules are the collection \<open>valid_rules\<close>.
\<close>

type_synonym ('s, 'a) eff = "'s \<Rightarrow> 'a res \<times> 's"

named_theorems valid_rules "rules of the triple for effects"

definition returnM :: "'a \<Rightarrow> ('s, 'a) eff" where
  "returnM x s = (Ok x, s)"

definition throwM :: "js_error \<Rightarrow> ('s, 'a) eff" where
  "throwM e s = (Throw e, s)"

definition liftM :: "'a res \<Rightarrow> ('s, 'a) eff" where
  "liftM r s = (r, s)"

definition bindM :: "('s, 'a) eff \<Rightarrow> ('a \<Rightarrow> ('s, 'b) eff) \<Rightarrow> ('s, 'b) eff" where
  "bindM m f s = (case m s of (Inl e, s') \<Rightarrow> (Throw e, s') | (Inr x, s') \<Rightarrow> f x s')"

definition attemptM ::
  "('s, 'a) eff \<Rightarrow> ('a \<Rightarrow> ('s, 'b) eff) \<Rightarrow> (js_error \<Rightarrow> ('s, 'b) eff) \<Rightarrow> ('s, 'b) eff" where
  "attemptM m f h s = (case m s of (Inl e, s') \<Rightarrow> h e s' | (Inr x, s') \<Rightarrow> f x s')"

lemma bindM_attempt: "bindM m f = attemptM m f throwM"
  by (rule ext) (simp add: bindM_def attemptM_def throwM_def split: prod.splits sum.splits)

lemma bindM_Ok_iff:
  "bindM m f s = (Ok y, s') \<longleftrightarrow> (\<exists>x s1. m s = (Ok x, s1) \<and> f x s1 = (Ok y, s'))"
  by (auto simp: bindM_def split: prod.splits sum.splits)

fun forM :: "'a list \<Rightarrow> ('a \<Rightarrow> ('s, unit) eff) \<Rightarrow> ('s, unit) eff" where
  "forM [] f = returnM ()"
| "forM (x # xs) f = bindM (f x) (\<lambda>_. forM xs f)"

abbreviation thenM :: "('s, unit) eff \<Rightarrow> ('s, 'b) eff \<Rightarrow> ('s, 'b) eff" where
  "thenM m k \<equiv> bindM m (\<lambda>_. k)"

definition valid ::
  "('s \<Rightarrow> bool) \<Rightarrow> ('s, 'a) eff \<Rightarrow> ('a \<Rightarrow> 's \<Rightarrow> bool) \<Rightarrow> (js_error \<Rightarrow> 's \<Rightarrow> bool) \<Rightarrow> bool" where
  "valid P m Q E \<longleftrightarrow>
     (\<forall>s. P s \<longrightarrow> (case m s of (Inl e, s') \<Rightarrow> E e s' | (Inr x, s') \<Rightarrow> Q x s'))"

lemma validI:
  assumes "\<And>s x s'. P s \<Longrightarrow> m s = (Ok x, s') \<Longrightarrow> Q x s'"
    and "\<And>s e s'. P s \<Longrightarrow> m s = (Throw e, s') \<Longrightarrow> E e s'"
  shows "valid P m Q E"
  using assms by (auto simp: valid_def split: prod.splits sum.splits)

lemma validD:
  assumes "valid P m Q E" and "P s"
  shows "m s = (Ok x, s') \<Longrightarrow> Q x s'" and "m s = (Throw e, s') \<Longrightarrow> E e s'"
  using assms by (fastforce simp: valid_def)+

lemma valid_weaken:
  assumes "valid P' m Q' E'" and "\<And>s. P s \<Longrightarrow> P' s"
    and "\<And>x s. Q' x s \<Longrightarrow> Q x s" and "\<And>e s. E' e s \<Longrightarrow> E e s"
  shows "valid P m Q E"
  using assms by (fastforce simp: valid_def split: prod.splits sum.splits)

lemma valid_pre: "valid P' m Q E \<Longrightarrow> (\<And>s. P s \<Longrightarrow> P' s) \<Longrightarrow> valid P m Q E"
  by (erule valid_weaken) simp_all

lemma valid_return [valid_rules]: "(\<And>s. P s \<Longrightarrow> Q x s) \<Longrightarrow> valid P (returnM x) Q E"
  by (simp add: valid_def returnM_def)

lemma valid_throw [valid_rules]: "(\<And>s. P s \<Longrightarrow> E e s) \<Longrightarrow> valid P (throwM e) Q E"
  by (simp add: valid_def throwM_def)

lemma valid_lift [valid_rules]:
  "(\<And>x s. r = Ok x \<Longrightarrow> P s \<Longrightarrow> Q x s) \<Longrightarrow> (\<And>e s. r = Throw e \<Longrightarrow> P s \<Longrightarrow> E e s) \<Longrightarrow>
   valid P (liftM r) Q E"
  by (auto simp: valid_def liftM_def split: sum.splits)

lemma valid_bind:
  assumes "valid P m R E" and "\<And>x. valid (R x) (f x) Q E"
  shows "valid P (bindM m f) Q E"
  using assms by (fastforce simp: valid_def bindM_def split: prod.splits sum.splits)

lemma valid_attempt:
  assumes "valid P m R X" and "\<And>x. valid (R x) (f x) Q E" and "\<And>e. valid (X e) (h e) Q E"
  shows "valid P (attemptM m f h) Q E"
  using assms by (fastforce simp: valid_def attemptM_def split: prod.splits sum.splits)

lemma valid_if [valid_rules]:
  "(b \<Longrightarrow> valid P m Q E) \<Longrightarrow> (\<not> b \<Longrightarrow> valid P m' Q E) \<Longrightarrow> valid P (if b then m else m') Q E"
  by simp

lemma valid_option [valid_rules]:
  "(v = None \<Longrightarrow> valid P m Q E) \<Longrightarrow> (\<And>x. v = Some x \<Longrightarrow> valid P (f x) Q E) \<Longrightarrow>
   valid P (case v of None \<Rightarrow> m | Some x \<Rightarrow> f x) Q E"
  by (cases v) simp_all

lemma valid_prod [valid_rules]:
  "(\<And>x y. v = (x, y) \<Longrightarrow> valid P (f x y) Q E) \<Longrightarrow> valid P (case v of (x, y) \<Rightarrow> f x y) Q E"
  by (cases v) simp

lemma valid_assume: "(\<And>s. P s \<Longrightarrow> valid (\<lambda>s'. s' = s) m Q E) \<Longrightarrow> valid P m Q E"
  by (auto simp: valid_def)

lemma valid_ex: "(\<And>y. B y \<Longrightarrow> valid (A y) m Q E) \<Longrightarrow> valid (\<lambda>s. \<exists>y. A y s \<and> B y) m Q E"
  by (rule validI) (elim exE conjE, blast dest: validD)+

lemma valid_conj:
  "valid P m Q E \<Longrightarrow> valid P' m Q' E' \<Longrightarrow>
   valid (\<lambda>s. P s \<and> P' s) m (\<lambda>x s. Q x s \<and> Q' x s) (\<lambda>e s. E e s \<and> E' e s)"
  by (fastforce simp: valid_def split: prod.splits sum.splits)

text \<open>An effect that only moves the state along a reflexive, transitive relation.\<close>

definition moves :: "('s \<Rightarrow> 's \<Rightarrow> bool) \<Rightarrow> ('s, 'a) eff \<Rightarrow> bool" where
  "moves R m \<longleftrightarrow> (\<forall>s. R s (snd (m s)))"

named_theorems moves_rules "compositional rules for moves"

lemma movesD: "moves R m \<Longrightarrow> m s = (x, s') \<Longrightarrow> R s s'"
  unfolding moves_def by (metis snd_conv)

locale preorder_effects =
  fixes R :: "'s \<Rightarrow> 's \<Rightarrow> bool"
  assumes refl_R: "R s s" and trans_R: "R s t \<Longrightarrow> R t u \<Longrightarrow> R s u"
begin

lemma moves_pure:
  shows "moves R (returnM x)" and "moves R (throwM e)" and "moves R (liftM r)"
  by (simp_all add: moves_def returnM_def throwM_def liftM_def refl_R)

lemma moves_attempt:
  assumes "moves R m" and "\<And>x. moves R (f x)" and "\<And>e. moves R (h e)"
  shows "moves R (attemptM m f h)"
  unfolding moves_def
proof
  fix s
  obtain r t where m: "m s = (r, t)" by fastforce
  then have "R s t" using assms(1) by (blast intro: movesD)
  moreover have "R t (snd (attemptM m f h s))"
    using m assms(2,3) by (cases r) (simp_all add: attemptM_def moves_def)
  ultimately show "R s (snd (attemptM m f h s))" by (rule trans_R)
qed

lemma moves_bind:
  assumes "moves R m" and "\<And>x. moves R (f x)"
  shows "moves R (bindM m f)"
  unfolding bindM_attempt by (intro moves_attempt assms moves_pure)

lemma moves_for:
  assumes "\<And>x. moves R (f x)"
  shows "moves R (forM xs f)"
  by (induction xs) (auto intro: moves_pure moves_bind assms)

lemma moves_cases:
  shows "(b \<Longrightarrow> moves R m) \<Longrightarrow> (\<not> b \<Longrightarrow> moves R m') \<Longrightarrow> moves R (if b then m else m')"
    and "moves R m \<Longrightarrow> (\<And>x. moves R (f x)) \<Longrightarrow> moves R (case v of None \<Rightarrow> m | Some x \<Rightarrow> f x)"
    and "(\<And>x y. moves R (g x y)) \<Longrightarrow> moves R (case p of (x, y) \<Rightarrow> g x y)"
  by (auto split: option.splits prod.splits)

lemmas moves_intros = moves_pure moves_bind moves_attempt moves_for moves_cases

end

end
