(* ===== verification/Relay_Types.thy ===== *)
theory Relay_Types
  imports Prelude
begin

section \<open>The relayer bot's data\<close>

text \<open>
  The types the roles of \<open>relayer-bot\<close> exchange: the persisted relay payload, the decoded
  source event, the VAA identity (\<open>relay/interfaces.ts\<close>), the queue message and delivery
  (\<open>queue/queue.ts\<close>), the chain configuration (\<open>chains.ts\<close>) and the part of the service
  configuration the roles read (\<open>config.ts\<close>). Two TypeScript interfaces often share a
  property name; each record prefixes its fields with a short tag.
\<close>

type_synonym chainId = nat

record relay_payload =
  rp_emitterChain :: chainId
  rp_emitterAddress :: string
  rp_sequence :: string
  rp_sourceTxHash :: string
  rp_dstChain :: chainId
  rp_dstAddr :: string
  rp_gasLimit :: string
  rp_requestBytes :: string

record vaa_id =
  vid_emitterChain :: chainId
  vid_emitterAddress :: string
  vid_sequence :: int
  vid_sourceTxHash :: "string option"

record decoded_event =
  ev_sourceChainId :: chainId
  ev_destinationChainId :: chainId
  ev_relayerAddress :: string
  ev_eventTxHash :: string
  ev_blockNumber :: nat
  ev_logIndex :: nat
  ev_payload :: relay_payload

text \<open>
  \<open>vaaIdFromPayload\<close> parses the decimal sequence with \<open>BigInt\<close>, which throws on a
  string that is not an integer.
\<close>

definition vaaIdFromPayload :: "relay_payload \<Rightarrow> vaa_id res" where
  "vaaIdFromPayload p =
     (case js_BigInt (rp_sequence p) of
        None \<Rightarrow> Throw (new_error ForeignError (''Cannot convert '' @ rp_sequence p @ '' to a BigInt''))
      | Some n \<Rightarrow> Ok \<lparr>vid_emitterChain = rp_emitterChain p,
                     vid_emitterAddress = rp_emitterAddress p,
                     vid_sequence = n,
                     vid_sourceTxHash = Some (rp_sourceTxHash p)\<rparr>)"

text \<open>What the delivery module is asked and answers.\<close>

record prepare_request =
  pq_destinationChainId :: chainId
  pq_payload :: relay_payload
  pq_retryAttempt :: nat

record prepared_delivery =
  pd_to :: string
  pd_callData :: string
  pd_vaaHash :: string
  pd_gasLimit :: int
  pd_feeOverrides :: "(string \<times> int) list"

datatype prepare_result = ReadyToSend prepared_delivery | AlreadyConsumed

record receipt_info =
  ri_status :: nat
  ri_blockNumber :: nat
  ri_gasUsed :: "int option"
  ri_gasLimit :: "int option"

subsection \<open>Queue messages\<close>

record relay_message =
  transaction_hash :: string
  chain_id :: chainId
  msg_relayer_address :: string
  transaction_data :: relay_payload
  msg_retry_count :: nat
  replace_nonce :: "nat option"

record delivery =
  message :: relay_message
  d_partition :: chainId
  receiptHandle :: nat
  deliveryAttempt :: nat

subsection \<open>Configuration\<close>

record chain_config =
  cc_chainId :: chainId
  cc_name :: string
  cc_rpcUrl :: string
  cc_specialRelayerAddress :: "string option"
  cc_coreBridgeAddress :: "string option"
  cc_expectedTransceiver :: "string option"
  cc_confirmations :: nat
  cc_genesisBlock :: int
  cc_evmChainId :: "nat option"

record delivery_config =
  gasLimitBufferBps :: nat
  retryAdditionalGasPct :: nat
  gasPriceBumpBps :: nat
  maxGasPriceWei :: int

record relayer_config =
  rc_chains :: "chain_config list"
  scanBlockRange :: nat
  scanLoopDelayMs :: nat
  cronIntervalMin :: nat
  maxRetries_cfg :: nat
  submittedTimeoutMin :: nat
  vaaTimeoutMs :: int
  vaaPollIntervalMs :: nat
  deadLetterAlertThreshold :: nat
  rc_delivery :: delivery_config

subsection \<open>Chain registry\<close>

text \<open>
  \<open>makeChainRegistry\<close> (\<open>chains.ts\<close>) normalises the addresses with \<open>getAddress\<close> and
  refuses a second entry for a chain id. The \<open>Map\<close> it fills is an association list in
  insertion order.
\<close>

definition normalize_address :: "ethers \<Rightarrow> string option \<Rightarrow> string option res" where
  "normalize_address eth a =
     (case a of None \<Rightarrow> Ok None
      | Some s \<Rightarrow> (if s = [] then Ok None else bind_res (getAddress eth s) (\<lambda>n. Ok (Some n))))"

fun register_chains ::
  "ethers \<Rightarrow> (chainId \<times> chain_config) list \<Rightarrow> chain_config list \<Rightarrow>
   (chainId \<times> chain_config) list res" where
  "register_chains eth byId [] = Ok byId"
| "register_chains eth byId (raw # rest) =
     (if map_of byId (cc_chainId raw) \<noteq> None
      then Throw (new_error PlainError (''duplicate ChainConfig for chain id '' @ show_nat (cc_chainId raw)))
      else
        bind_res (normalize_address eth (cc_specialRelayerAddress raw)) (\<lambda>sr.
        bind_res (normalize_address eth (cc_coreBridgeAddress raw)) (\<lambda>cb.
        bind_res (normalize_address eth (cc_expectedTransceiver raw)) (\<lambda>et.
        register_chains eth
          (byId @ [(cc_chainId raw,
                    raw\<lparr>cc_specialRelayerAddress := sr, cc_coreBridgeAddress := cb,
                        cc_expectedTransceiver := et\<rparr>)])
          rest))))"

definition makeChainRegistry :: "ethers \<Rightarrow> chain_config list \<Rightarrow> (chainId \<times> chain_config) list res" where
  "makeChainRegistry eth cs = register_chains eth [] cs"

definition registry_get :: "(chainId \<times> chain_config) list \<Rightarrow> chainId \<Rightarrow> chain_config option" where
  "registry_get reg c = map_of reg c"

definition registry_require :: "(chainId \<times> chain_config) list \<Rightarrow> chainId \<Rightarrow> chain_config res" where
  "registry_require reg c =
     (case map_of reg c of
        None \<Rightarrow> Throw (new_error UnknownChainError
                  (''no ChainConfig registered for Wormhole chain id '' @ show_nat c))
      | Some cfg \<Rightarrow> Ok cfg)"

definition registry_all :: "(chainId \<times> chain_config) list \<Rightarrow> chain_config list" where
  "registry_all reg = map snd reg"

lemma register_chains_keys:
  "register_chains eth byId cs = Ok reg \<Longrightarrow> map fst reg = map fst byId @ map cc_chainId cs"
  by (induction eth byId cs rule: register_chains.induct)
     (auto simp: bind_res_Ok_iff split: if_splits)

lemma register_chains_distinct:
  "register_chains eth byId cs = Ok reg \<Longrightarrow> distinct (map fst byId) \<Longrightarrow> distinct (map fst reg)"
  by (induction eth byId cs rule: register_chains.induct)
     (auto simp: bind_res_Ok_iff map_of_eq_None_iff split: if_splits)

text \<open>A registry that is built has one entry per configured chain, under its own id.\<close>

lemma makeChainRegistry_entries:
  assumes "makeChainRegistry eth cs = Ok reg"
  shows "map fst reg = map cc_chainId cs" and "distinct (map cc_chainId cs)"
  using assms register_chains_keys [of eth "[]" cs reg] register_chains_distinct [of eth "[]" cs reg]
  by (simp_all add: makeChainRegistry_def)

end
