(* ===== verification/Message_Queue.thy ===== *)
theory Message_Queue
  imports Relay_Types "HOL-Library.Multiset"
begin

section \<open>The message queue\<close>

text \<open>
  The \<open>Queue\<close> interface of \<open>queue/queue.ts\<close> as a record of operations over a queue state
  \<open>'q\<close> (a driver's call may throw), the contract its clients rely on as the locale
  \<open>relay_queue\<close>, and the in-process driver of \<open>queue/inMemory.ts\<close>, which interprets it. The
  clock is an argument (\<open>t\<close>, milliseconds).
\<close>

record 'q queue_ops =
  q_publish :: "relay_message \<Rightarrow> 'q \<Rightarrow> unit res \<times> 'q"
  q_consume :: "chainId \<Rightarrow> nat \<Rightarrow> 'q \<Rightarrow> delivery list res \<times> 'q"
  q_reclaim :: "chainId \<Rightarrow> nat \<Rightarrow> 'q \<Rightarrow> delivery list res \<times> 'q"
  q_ack :: "delivery \<Rightarrow> 'q \<Rightarrow> unit res \<times> 'q"
  q_nack :: "delivery \<Rightarrow> int \<Rightarrow> 'q \<Rightarrow> unit res \<times> 'q"
  q_deadLetter :: "delivery \<Rightarrow> string \<Rightarrow> 'q \<Rightarrow> unit res \<times> 'q"

subsection \<open>The in-memory driver\<close>

datatype entry_state = Ready | Inflight

record entry =
  e_id :: nat
  e_partition :: chainId
  e_message :: relay_message
  e_attempts :: nat
  e_state :: entry_state
  e_availableAt :: int

record in_memory_queue =
  entries :: "entry list"
  deadLettered :: "(relay_message \<times> string) list"
  visibilityTimeoutMs :: int
  seq_counter :: nat

definition new_queue :: "int option \<Rightarrow> in_memory_queue" where
  "new_queue visibility =
     \<lparr>entries = [], deadLettered = [],
      visibilityTimeoutMs = (case visibility of None \<Rightarrow> 60000 | Some v \<Rightarrow> v), seq_counter = 0\<rparr>"

definition im_publish :: "int \<Rightarrow> relay_message \<Rightarrow> in_memory_queue \<Rightarrow> unit res \<times> in_memory_queue" where
  "im_publish t msg q =
     (Ok (), q\<lparr>entries := entries q @
         [\<lparr>e_id = seq_counter q, e_partition = chain_id msg, e_message = msg, e_attempts = 0,
           e_state = Ready, e_availableAt = t\<rparr>],
        seq_counter := seq_counter q + 1\<rparr>)"

definition eligible :: "entry_state \<Rightarrow> chainId \<Rightarrow> int \<Rightarrow> entry \<Rightarrow> bool" where
  "eligible st p t e \<longleftrightarrow> e_partition e = p \<and> e_state e = st \<and> e_availableAt e \<le> t"

definition lease_entry :: "int \<Rightarrow> entry \<Rightarrow> entry" where
  "lease_entry until e = e\<lparr>e_state := Inflight, e_availableAt := until, e_attempts := e_attempts e + 1\<rparr>"

definition to_delivery :: "entry \<Rightarrow> delivery" where
  "to_delivery e = \<lparr>message = e_message e, d_partition = e_partition e, receiptHandle = e_id e,
                    deliveryAttempt = e_attempts e\<rparr>"

text \<open>The loop of \<open>take\<close>: in insertion order, stop once \<open>n\<close> more were taken.\<close>

fun take_loop ::
  "entry_state \<Rightarrow> chainId \<Rightarrow> int \<Rightarrow> int \<Rightarrow> nat \<Rightarrow> entry list \<Rightarrow> delivery list \<times> entry list" where
  "take_loop st p t until 0 es = ([], es)"
| "take_loop st p t until n [] = ([], [])"
| "take_loop st p t until (Suc n) (e # es) =
     (if eligible st p t e
      then (let e' = lease_entry until e; (ds, es') = take_loop st p t until n es
            in (to_delivery e' # ds, e' # es'))
      else (let (ds, es') = take_loop st p t until (Suc n) es in (ds, e # es')))"

definition im_take ::
  "entry_state \<Rightarrow> int \<Rightarrow> chainId \<Rightarrow> nat \<Rightarrow> in_memory_queue \<Rightarrow> delivery list \<times> in_memory_queue" where
  "im_take st t p n q =
     (let (ds, es) = take_loop st p t (t + visibilityTimeoutMs q) n (entries q)
      in (ds, q\<lparr>entries := es\<rparr>))"

definition im_consume :: "int \<Rightarrow> chainId \<Rightarrow> nat \<Rightarrow> in_memory_queue \<Rightarrow> delivery list \<times> in_memory_queue" where
  "im_consume t p n q = im_take Ready t p n q"

definition im_reclaimExpired ::
  "int \<Rightarrow> chainId \<Rightarrow> nat \<Rightarrow> in_memory_queue \<Rightarrow> delivery list \<times> in_memory_queue" where
  "im_reclaimExpired t p n q = im_take Inflight t p n q"

definition delete_entry :: "nat \<Rightarrow> entry list \<Rightarrow> entry list" where
  "delete_entry h es = filter (\<lambda>e. e_id e \<noteq> h) es"

definition im_ack :: "delivery \<Rightarrow> in_memory_queue \<Rightarrow> unit res \<times> in_memory_queue" where
  "im_ack d q = (Ok (), q\<lparr>entries := delete_entry (receiptHandle d) (entries q)\<rparr>)"

definition im_nack :: "int \<Rightarrow> delivery \<Rightarrow> int \<Rightarrow> in_memory_queue \<Rightarrow> unit res \<times> in_memory_queue" where
  "im_nack t d delayMs q =
     (case find (\<lambda>e. e_id e = receiptHandle d) (entries q) of
        None \<Rightarrow> (Ok (), q)
      | Some e \<Rightarrow> (Ok (), q\<lparr>entries := delete_entry (receiptHandle d) (entries q) @
                      [e\<lparr>e_id := seq_counter q, e_state := Ready, e_availableAt := t + delayMs\<rparr>],
                    seq_counter := seq_counter q + 1\<rparr>))"

definition im_deadLetter :: "delivery \<Rightarrow> string \<Rightarrow> in_memory_queue \<Rightarrow> unit res \<times> in_memory_queue" where
  "im_deadLetter d reason q =
     (Ok (), q\<lparr>entries := delete_entry (receiptHandle d) (entries q),
               deadLettered := deadLettered q @ [(message d, reason)]\<rparr>)"

definition im_close :: "in_memory_queue \<Rightarrow> in_memory_queue" where
  "im_close q = q\<lparr>entries := []\<rparr>"

definition im_size :: "in_memory_queue \<Rightarrow> nat" where
  "im_size q = length (entries q)"

definition in_memory_ops :: "int \<Rightarrow> in_memory_queue queue_ops" where
  "in_memory_ops t =
     \<lparr>q_publish = im_publish t, q_consume = (\<lambda>p n q. map_prod Ok id (im_consume t p n q)),
      q_reclaim = (\<lambda>p n q. map_prod Ok id (im_reclaimExpired t p n q)),
      q_ack = im_ack, q_nack = im_nack t, q_deadLetter = im_deadLetter\<rparr>"

subsection \<open>The contract\<close>

text \<open>
  \<open>tracked q\<close> lists the messages the queue still owns, each under its handle, \<open>dead q\<close>
  the messages it has dead-lettered. A client may rely on: publishing adds one message;
  pulling hands out tracked messages of the asked partition and forgets none; \<open>ack\<close> drops
  the handle; \<open>nack\<close> keeps the message under a new handle; \<open>deadLetter\<close> moves it.
\<close>

abbreviation without :: "nat \<Rightarrow> (nat \<times> relay_message) list \<Rightarrow> (nat \<times> relay_message) list" where
  "without h \<equiv> filter (\<lambda>x. fst x \<noteq> h)"

locale relay_queue =
  fixes ops :: "'q queue_ops"
    and tracked :: "'q \<Rightarrow> (nat \<times> relay_message) list"
    and dead :: "'q \<Rightarrow> (relay_message \<times> string) list"
    and invar :: "'q \<Rightarrow> bool"
  assumes distinct_handles: "invar q \<Longrightarrow> distinct (map fst (tracked q))"
    and publish_law: "invar q \<Longrightarrow> q_publish ops m q = (Ok (), q') \<Longrightarrow>
          invar q' \<and> dead q' = dead q \<and> (\<exists>h. tracked q' = tracked q @ [(h, m)])"
    and consume_law: "invar q \<Longrightarrow> q_consume ops p n q = (Ok ds, q') \<Longrightarrow>
          invar q' \<and> dead q' = dead q \<and> tracked q' = tracked q \<and> length ds \<le> n \<and>
          (\<forall>x \<in> set ds. (receiptHandle x, message x) \<in> set (tracked q) \<and> d_partition x = p)"
    and reclaim_law: "invar q \<Longrightarrow> q_reclaim ops p n q = (Ok ds, q') \<Longrightarrow>
          invar q' \<and> dead q' = dead q \<and> tracked q' = tracked q \<and> length ds \<le> n \<and>
          (\<forall>x \<in> set ds. (receiptHandle x, message x) \<in> set (tracked q) \<and> d_partition x = p)"
    and ack_law: "invar q \<Longrightarrow> q_ack ops x q = (Ok (), q') \<Longrightarrow>
          invar q' \<and> dead q' = dead q \<and> tracked q' = without (receiptHandle x) (tracked q)"
    and nack_law: "invar q \<Longrightarrow> (receiptHandle x, m) \<in> set (tracked q) \<Longrightarrow>
          q_nack ops x delay q = (Ok (), q') \<Longrightarrow>
          invar q' \<and> dead q' = dead q \<and>
          (\<exists>h. tracked q' = without (receiptHandle x) (tracked q) @ [(h, m)])"
    and deadLetter_law: "invar q \<Longrightarrow> q_deadLetter ops x why q = (Ok (), q') \<Longrightarrow>
          invar q' \<and> dead q' = dead q @ [(message x, why)] \<and>
          tracked q' = without (receiptHandle x) (tracked q)"
begin

text \<open>All messages the queue answers for, live or dead.\<close>

definition owned :: "'q \<Rightarrow> relay_message multiset" where
  "owned q = mset (map snd (tracked q)) + mset (map fst (dead q))"

lemma without_mset:
  assumes "invar q" and "(h, m) \<in> set (tracked q)"
  shows "mset (map snd (tracked q)) = add_mset m (mset (map snd (without h (tracked q))))"
proof -
  have "mset (map snd xs) = add_mset m (mset (map snd (without h xs)))"
    if "distinct (map fst xs)" and "(h, m) \<in> set xs" for xs
    using that
  proof (induction xs)
    case Nil
    then show ?case by simp
  next
    case (Cons x xs)
    show ?case
    proof (cases "fst x = h")
      case True
      with Cons.prems have "x = (h, m)" by (force simp: image_iff)
      moreover from True Cons.prems(1) have "without h xs = xs"
        by (auto simp: filter_id_conv image_iff)
      ultimately show ?thesis by simp
    next
      case False
      with Cons show ?thesis by auto
    qed
  qed
  then show ?thesis using distinct_handles [OF assms(1)] assms(2) by blast
qed

lemma nack_keeps_owned:
  assumes "invar q" and "(receiptHandle x, m) \<in> set (tracked q)"
    and "q_nack ops x delay q = (Ok (), q')"
  shows "owned q' = owned q"
  using nack_law [OF assms] without_mset [OF assms(1,2)] by (auto simp: owned_def)

lemma deadLetter_keeps_owned:
  assumes "invar q" and "(receiptHandle x, message x) \<in> set (tracked q)"
    and "q_deadLetter ops x why q = (Ok (), q')"
  shows "owned q' = owned q"
  using deadLetter_law [OF assms(1,3)] without_mset [OF assms(1,2)] by (simp add: owned_def)

lemma ack_drops_one:
  assumes "invar q" and "(receiptHandle x, m) \<in> set (tracked q)"
    and "q_ack ops x q = (Ok (), q')"
  shows "owned q = add_mset m (owned q')"
  using ack_law [OF assms(1,3)] without_mset [OF assms(1,2)] by (simp add: owned_def)

lemma pull_keeps_owned:
  assumes "invar q" and "q_consume ops p n q = (Ok ds, q') \<or> q_reclaim ops p n q = (Ok ds, q')"
  shows "owned q' = owned q"
  using assms consume_law reclaim_law unfolding owned_def by metis

end

subsection \<open>The in-memory driver meets the contract\<close>

definition im_tracked :: "in_memory_queue \<Rightarrow> (nat \<times> relay_message) list" where
  "im_tracked q = map (\<lambda>e. (e_id e, e_message e)) (entries q)"

definition im_invar :: "in_memory_queue \<Rightarrow> bool" where
  "im_invar q \<longleftrightarrow> distinct (map e_id (entries q)) \<and> (\<forall>e \<in> set (entries q). e_id e < seq_counter q)"

lemma im_invar_ids:
  "im_invar q \<longleftrightarrow> distinct (map e_id (entries q)) \<and> (\<forall>i \<in> set (map e_id (entries q)). i < seq_counter q)"
  by (simp add: im_invar_def)

lemma im_invar_snoc:
  assumes "im_invar q" and "e_id e = seq_counter q"
  shows "im_invar (q\<lparr>entries := entries q @ [e], seq_counter := seq_counter q + 1\<rparr>)"
  using assms by (force simp: im_invar_def)

lemma take_loop_keeps:
  "take_loop st p t until n es = (ds, es') \<Longrightarrow>
   map (\<lambda>e. (e_id e, e_message e)) es' = map (\<lambda>e. (e_id e, e_message e)) es \<and> length ds \<le> n \<and>
   (\<forall>x \<in> set ds. (receiptHandle x, message x) \<in> (\<lambda>e. (e_id e, e_message e)) ` set es
      \<and> d_partition x = p)"
  by (induction st p t until n es arbitrary: ds es' rule: take_loop.induct)
     (auto simp: lease_entry_def to_delivery_def eligible_def Let_def split: if_splits prod.splits)

lemma map_pair_ids: "map (\<lambda>e. (e_id e, e_message e)) es' = map (\<lambda>e. (e_id e, e_message e)) es \<Longrightarrow>
  map e_id es' = map e_id es"
  by (drule arg_cong [where f = "map fst"]) (simp add: comp_def)

lemma im_take_law:
  assumes "im_invar q" and "im_take st t p n q = (ds, q')"
  shows "im_invar q' \<and> deadLettered q' = deadLettered q \<and> im_tracked q' = im_tracked q \<and>
    length ds \<le> n \<and>
    (\<forall>x \<in> set ds. (receiptHandle x, message x) \<in> set (im_tracked q) \<and> d_partition x = p)"
proof -
  obtain es' where tl: "take_loop st p t (t + visibilityTimeoutMs q) n (entries q) = (ds, es')"
    and q': "q' = q\<lparr>entries := es'\<rparr>"
    using assms(2) by (auto simp: im_take_def split: prod.splits)
  note keep = take_loop_keeps [OF tl]
  then have ids: "map e_id es' = map e_id (entries q)" by (blast intro: map_pair_ids)
  then have "im_invar q'" using assms(1) q' unfolding im_invar_ids by simp
  then show ?thesis using keep q' by (auto simp: im_tracked_def)
qed

lemma without_tracked: "without h (im_tracked q) = im_tracked (q\<lparr>entries := delete_entry h (entries q)\<rparr>)"
  by (simp add: im_tracked_def delete_entry_def filter_map comp_def)

lemma im_invar_delete: "im_invar q \<Longrightarrow> im_invar (q\<lparr>entries := delete_entry h (entries q)\<rparr>)"
  by (auto simp: im_invar_def delete_entry_def intro: distinct_map_filter)

lemma im_nack_live:
  assumes "im_invar q" and "(receiptHandle x, m) \<in> set (im_tracked q)"
  obtains e where "e \<in> set (entries q)" "e_id e = receiptHandle x" "e_message e = m"
    "im_nack t x delay q = (Ok (), q\<lparr>entries := delete_entry (receiptHandle x) (entries q) @
        [e\<lparr>e_id := seq_counter q, e_state := Ready, e_availableAt := t + delay\<rparr>],
      seq_counter := seq_counter q + 1\<rparr>)"
proof -
  obtain e where e: "e \<in> set (entries q)" "e_id e = receiptHandle x" "e_message e = m"
    using assms(2) by (auto simp: im_tracked_def)
  have "find (\<lambda>e. e_id e = receiptHandle x) (entries q) = Some e"
  proof -
    obtain e' where f: "find (\<lambda>e. e_id e = receiptHandle x) (entries q) = Some e'"
      using e by (cases "find (\<lambda>e. e_id e = receiptHandle x) (entries q)") (auto simp: find_None_iff)
    then have "e' \<in> set (entries q)" "e_id e' = receiptHandle x"
      by (auto simp: find_Some_iff)
    then have "e' = e" using e assms(1) unfolding im_invar_def by (metis distinct_map inj_onD)
    with f show ?thesis by simp
  qed
  then show ?thesis using e by (intro that) (simp_all add: im_nack_def)
qed

lemma im_nack_law:
  assumes "im_invar q" and "(receiptHandle x, m) \<in> set (im_tracked q)"
    and "im_nack t x delay q = (Ok (), q')"
  shows "im_invar q' \<and> deadLettered q' = deadLettered q \<and>
    (\<exists>h. im_tracked q' = without (receiptHandle x) (im_tracked q) @ [(h, m)])"
proof -
  let ?qd = "q\<lparr>entries := delete_entry (receiptHandle x) (entries q)\<rparr>"
  obtain e where e: "e_message e = m" and
    n: "im_nack t x delay q = (Ok (), q\<lparr>entries := delete_entry (receiptHandle x) (entries q) @
        [e\<lparr>e_id := seq_counter q, e_state := Ready, e_availableAt := t + delay\<rparr>],
      seq_counter := seq_counter q + 1\<rparr>)"
    using im_nack_live [OF assms(1,2), of t delay] by metis
  have "im_invar q'"
    using im_invar_snoc [OF im_invar_delete [OF assms(1), of "receiptHandle x"],
        of "e\<lparr>e_id := seq_counter q, e_state := Ready, e_availableAt := t + delay\<rparr>"] n assms(3)
    by simp
  then show ?thesis
    using n assms(3) e unfolding without_tracked by (auto simp: im_tracked_def)
qed

lemma map_prod_Ok_iff: "map_prod Ok id x = (Ok ds, q) \<longleftrightarrow> x = (ds, q)"
  by (cases x) simp

interpretation im: relay_queue "in_memory_ops t" im_tracked deadLettered im_invar for t
proof
  fix q q' :: in_memory_queue and x m p n ds why delay
  show "im_invar q \<Longrightarrow> distinct (map fst (im_tracked q))"
    by (simp add: im_invar_def im_tracked_def comp_def)
  show "im_invar q \<Longrightarrow> q_publish (in_memory_ops t) m q = (Ok (), q') \<Longrightarrow>
      im_invar q' \<and> deadLettered q' = deadLettered q \<and> (\<exists>h. im_tracked q' = im_tracked q @ [(h, m)])"
    by (auto simp: in_memory_ops_def im_publish_def im_tracked_def intro!: im_invar_snoc [simplified])
  show "im_invar q \<Longrightarrow> q_consume (in_memory_ops t) p n q = (Ok ds, q') \<Longrightarrow>
      im_invar q' \<and> deadLettered q' = deadLettered q \<and> im_tracked q' = im_tracked q \<and> length ds \<le> n \<and>
      (\<forall>x \<in> set ds. (receiptHandle x, message x) \<in> set (im_tracked q) \<and> d_partition x = p)"
    using im_take_law [of q Ready t p n ds q'] by (simp add: in_memory_ops_def im_consume_def map_prod_Ok_iff)
  show "im_invar q \<Longrightarrow> q_reclaim (in_memory_ops t) p n q = (Ok ds, q') \<Longrightarrow>
      im_invar q' \<and> deadLettered q' = deadLettered q \<and> im_tracked q' = im_tracked q \<and> length ds \<le> n \<and>
      (\<forall>x \<in> set ds. (receiptHandle x, message x) \<in> set (im_tracked q) \<and> d_partition x = p)"
    using im_take_law [of q Inflight t p n ds q'] by (simp add: in_memory_ops_def im_reclaimExpired_def map_prod_Ok_iff)
  show "im_invar q \<Longrightarrow> q_ack (in_memory_ops t) x q = (Ok (), q') \<Longrightarrow>
      im_invar q' \<and> deadLettered q' = deadLettered q \<and>
      im_tracked q' = without (receiptHandle x) (im_tracked q)"
    by (auto simp: in_memory_ops_def im_ack_def im_invar_delete without_tracked)
  show "im_invar q \<Longrightarrow> (receiptHandle x, m) \<in> set (im_tracked q) \<Longrightarrow>
      q_nack (in_memory_ops t) x delay q = (Ok (), q') \<Longrightarrow>
      im_invar q' \<and> deadLettered q' = deadLettered q \<and>
      (\<exists>h. im_tracked q' = without (receiptHandle x) (im_tracked q) @ [(h, m)])"
    using im_nack_law [of q x m t delay q'] by (simp add: in_memory_ops_def)
  show "im_invar q \<Longrightarrow> q_deadLetter (in_memory_ops t) x why q = (Ok (), q') \<Longrightarrow>
      im_invar q' \<and> deadLettered q' = deadLettered q @ [(message x, why)] \<and>
      im_tracked q' = without (receiptHandle x) (im_tracked q)"
    by (auto simp: in_memory_ops_def im_deadLetter_def im_invar_delete without_tracked
        im_invar_def im_tracked_def delete_entry_def filter_map comp_def intro: distinct_map_filter)
qed

subsection \<open>Order and conservation\<close>

definition im_owned :: "in_memory_queue \<Rightarrow> relay_message multiset" where
  "im_owned q = mset (map e_message (entries q)) + mset (map fst (deadLettered q))"

lemma im_owned_eq: "im.owned q = im_owned q"
  by (simp add: im.owned_def im_owned_def im_tracked_def comp_def)

lemma take_one:
  "fst (take_loop st p t until 1 es) =
     (case find (eligible st p t) es of None \<Rightarrow> [] | Some e \<Rightarrow> [to_delivery (lease_entry until e)])"
  by (induction es) (auto simp: Let_def split: prod.splits)

text \<open>Consuming one message from a partition of the in-process queue hands out the oldest
  entry of that partition that is ready and whose delay has passed, and nothing when there is
  none: per-partition delivery is first in, first out.\<close>

theorem consume_is_fifo:
  "fst (im_consume t p 1 q) =
     (case find (\<lambda>e. e_partition e = p \<and> e_state e = Ready \<and> e_availableAt e \<le> t) (entries q) of
        None \<Rightarrow> []
      | Some e \<Rightarrow> [\<lparr>message = e_message e, d_partition = p, receiptHandle = e_id e,
                    deliveryAttempt = e_attempts e + 1\<rparr>])"
proof -
  have "eligible Ready p t = (\<lambda>e. e_partition e = p \<and> e_state e = Ready \<and> e_availableAt e \<le> t)"
    by (rule ext) (simp add: eligible_def)
  moreover have "e_partition e = p" if "find (eligible Ready p t) (entries q) = Some e" for e
    using that by (auto simp: find_Some_iff eligible_def)
  ultimately show ?thesis
    using take_one [of Ready p t "t + visibilityTimeoutMs q" "entries q"]
    by (auto simp: im_consume_def im_take_def to_delivery_def lease_entry_def split: prod.splits option.splits)
qed

end
