(* ===== verification/Transactions_Repo.thy ===== *)
theory Transactions_Repo
  imports Relay_Types "HOL-Library.Product_Lexorder"
begin

section \<open>The \<open>transactions\<close> table and its repository\<close>

text \<open>
  The Postgres tables of \<open>relayer-bot\<close> and the SQL statements of \<open>db/transactions.ts\<close> and
  \<open>db/blockTracker.ts\<close>, one definition per statement. A statement is atomic; \<open>now()\<close> and
  \<open>gen_random_uuid()\<close> are arguments (\<open>t\<close>, \<open>uuid\<close>). Postgres keeps \<open>timestamptz\<close> in
  microseconds, a JavaScript \<open>Date\<close> keeps milliseconds: the columns \<open>created_at\<close> and
  \<open>updated_at\<close> are microseconds, the record's \<open>createdAt\<close> and \<open>updatedAt\<close>
  milliseconds, and \<open>rowToRecord\<close> loses the difference as the driver does. A UUID is
  compared as a 128-bit number, so \<open>row_id\<close> is a natural number.
\<close>

datatype tx_status = Pending | Submitting | Submitted | Confirmed | Failed | Dead_letter

record row =
  row_id :: nat
  source_chain_id :: chainId
  destination_chain_id :: chainId
  relayer_address :: string
  event_tx_hash :: string
  payload :: relay_payload
  status :: tx_status
  relay_tx_hash :: "string option"
  wallet_used :: "string option"
  nonce_used :: "nat option"
  retry_count :: nat
  max_retries :: nat
  error_message :: "string option"
  created_at :: int
  updated_at :: int

record transaction_record =
  recId :: nat
  sourceChainId :: chainId
  destinationChainId :: chainId
  relayerAddress :: string
  eventTxHash :: string
  recPayload :: relay_payload
  recStatus :: tx_status
  relayTxHash :: "string option"
  walletUsed :: "string option"
  nonceUsed :: "nat option"
  retryCount :: nat
  maxRetries :: nat
  errorMessage :: "string option"
  createdAt :: int
  updatedAt :: int

definition micros_to_date :: "int \<Rightarrow> int" where
  "micros_to_date us = us div 1000"

definition date_to_micros :: "int \<Rightarrow> int" where
  "date_to_micros ms = ms * 1000"

definition rowToRecord :: "row \<Rightarrow> transaction_record" where
  "rowToRecord r =
     \<lparr>recId = row_id r,
      sourceChainId = source_chain_id r,
      destinationChainId = destination_chain_id r,
      relayerAddress = relayer_address r,
      eventTxHash = event_tx_hash r,
      recPayload = payload r,
      recStatus = status r,
      relayTxHash = relay_tx_hash r,
      walletUsed = wallet_used r,
      nonceUsed = nonce_used r,
      retryCount = retry_count r,
      maxRetries = max_retries r,
      errorMessage = error_message r,
      createdAt = micros_to_date (created_at r),
      updatedAt = micros_to_date (updated_at r)\<rparr>"

record db =
  transactions :: "row list"
  block_tracker :: "(chainId \<times> string) \<rightharpoonup> int"

subsection \<open>Statements\<close>

definition same_event :: "chainId \<Rightarrow> string \<Rightarrow> row \<Rightarrow> bool" where
  "same_event c h r \<longleftrightarrow> source_chain_id r = c \<and> event_tx_hash r = h"

definition findBySourceEvent :: "db \<Rightarrow> chainId \<Rightarrow> string \<Rightarrow> transaction_record option" where
  "findBySourceEvent d c h =
     (case filter (same_event c h) (transactions d) of
        [] \<Rightarrow> None
      | r # _ \<Rightarrow> Some (rowToRecord r))"

record insert_pending_input =
  in_sourceChainId :: chainId
  in_destinationChainId :: chainId
  in_relayerAddress :: string
  in_eventTxHash :: string
  in_payload :: relay_payload
  in_maxRetries :: nat

definition new_row :: "nat \<Rightarrow> int \<Rightarrow> insert_pending_input \<Rightarrow> row" where
  "new_row uuid t i =
     \<lparr>row_id = uuid,
      source_chain_id = in_sourceChainId i,
      destination_chain_id = in_destinationChainId i,
      relayer_address = in_relayerAddress i,
      event_tx_hash = in_eventTxHash i,
      payload = in_payload i,
      status = Pending,
      relay_tx_hash = None,
      wallet_used = None,
      nonce_used = None,
      retry_count = 0,
      max_retries = in_maxRetries i,
      error_message = None,
      created_at = t,
      updated_at = t\<rparr>"

text \<open>
  \<open>INSERT ... ON CONFLICT (source_chain_id, event_tx_hash) DO NOTHING RETURNING *\<close>, then
  the re-read of the row that was already there. A primary-key collision of the fresh UUID
  is an error of the statement.
\<close>

definition insertPending ::
  "nat \<Rightarrow> int \<Rightarrow> db \<Rightarrow> insert_pending_input \<Rightarrow> transaction_record res \<times> db" where
  "insertPending uuid t d i =
     (if filter (same_event (in_sourceChainId i) (in_eventTxHash i)) (transactions d) \<noteq> []
      then
        (case findBySourceEvent d (in_sourceChainId i) (in_eventTxHash i) of
           None \<Rightarrow> (Throw (new_error PlainError
                     (''insertPending conflict but no existing row for ''
                      @ show_nat (in_sourceChainId i) @ ''/'' @ in_eventTxHash i)), d)
         | Some existing \<Rightarrow> (Ok existing, d))
      else if uuid \<in> set (map row_id (transactions d))
      then (Throw (new_error ForeignError ''duplicate key value violates unique constraint''), d)
      else (let r = new_row uuid t i
            in (Ok (rowToRecord r), d\<lparr>transactions := transactions d @ [r]\<rparr>)))"

text \<open>\<open>UPDATE transactions SET ... WHERE id = $1 AND status IN (...)\<close>, with the rows it returns.\<close>

definition matches :: "nat \<Rightarrow> tx_status list \<Rightarrow> row \<Rightarrow> bool" where
  "matches i sts r \<longleftrightarrow> row_id r = i \<and> status r \<in> set sts"

definition update_rows :: "nat \<Rightarrow> tx_status list \<Rightarrow> (row \<Rightarrow> row) \<Rightarrow> db \<Rightarrow> row list \<times> db" where
  "update_rows i sts f d =
     (map f (filter (matches i sts) (transactions d)),
      d\<lparr>transactions := map (\<lambda>r. if matches i sts r then f r else r) (transactions d)\<rparr>)"

definition updated_any :: "row list \<times> db \<Rightarrow> bool \<times> db" where
  "updated_any res = (fst res \<noteq> [], snd res)"

definition returned_budget :: "row list \<times> db \<Rightarrow> (nat \<times> nat) option \<times> db" where
  "returned_budget res =
     ((case fst res of [] \<Rightarrow> None | r # _ \<Rightarrow> Some (retry_count r, max_retries r)), snd res)"

definition markSubmitting :: "int \<Rightarrow> db \<Rightarrow> nat \<Rightarrow> string \<Rightarrow> nat \<Rightarrow> bool \<times> db" where
  "markSubmitting t d i w n =
     updated_any (update_rows i [Pending, Failed, Submitting]
       (\<lambda>r. r\<lparr>status := Submitting, wallet_used := Some w, nonce_used := Some n,
             updated_at := t\<rparr>) d)"

definition markSubmitted :: "int \<Rightarrow> db \<Rightarrow> nat \<Rightarrow> string \<Rightarrow> string \<Rightarrow> nat \<Rightarrow> bool \<times> db" where
  "markSubmitted t d i h w n =
     updated_any (update_rows i [Pending, Failed, Submitting, Submitted]
       (\<lambda>r. r\<lparr>status := Submitted, relay_tx_hash := Some h, wallet_used := Some w,
             nonce_used := Some n, updated_at := t\<rparr>) d)"

definition clear_unsent_nonce :: "row \<Rightarrow> nat option" where
  "clear_unsent_nonce r = (if relay_tx_hash r = None then None else nonce_used r)"

definition markConfirmed :: "int \<Rightarrow> db \<Rightarrow> nat \<Rightarrow> bool \<times> db" where
  "markConfirmed t d i =
     updated_any (update_rows i [Pending, Submitting, Submitted, Failed]
       (\<lambda>r. r\<lparr>status := Confirmed, nonce_used := clear_unsent_nonce r, updated_at := t\<rparr>) d)"

definition touch :: "int \<Rightarrow> db \<Rightarrow> nat \<Rightarrow> db" where
  "touch t d i =
     snd (update_rows i [Pending, Submitting, Submitted, Failed] (\<lambda>r. r\<lparr>updated_at := t\<rparr>) d)"

definition incrementRetry :: "int \<Rightarrow> db \<Rightarrow> nat \<Rightarrow> (nat \<times> nat) option \<times> db" where
  "incrementRetry t d i =
     returned_budget (update_rows i [Submitting, Submitted]
       (\<lambda>r. r\<lparr>retry_count := retry_count r + 1, updated_at := t\<rparr>) d)"

definition markFailed :: "int \<Rightarrow> db \<Rightarrow> nat \<Rightarrow> string \<Rightarrow> (nat \<times> nat) option \<times> db" where
  "markFailed t d i msg =
     returned_budget (update_rows i [Pending, Submitted, Failed]
       (\<lambda>r. r\<lparr>status := Failed, error_message := Some msg,
             retry_count := retry_count r + 1, updated_at := t\<rparr>) d)"

definition markDeadLetter :: "int \<Rightarrow> db \<Rightarrow> nat \<Rightarrow> string \<Rightarrow> bool \<times> db" where
  "markDeadLetter t d i msg =
     updated_any (update_rows i [Pending, Submitting, Submitted, Failed]
       (\<lambda>r. r\<lparr>status := Dead_letter, error_message := Some msg,
             nonce_used := clear_unsent_nonce r, updated_at := t\<rparr>) d)"

text \<open>
  The scans. \<open>FOR UPDATE SKIP LOCKED\<close> only leaves out rows another open transaction has
  locked; the cron runs it outside a transaction, so nothing is held and nothing skipped.
\<close>

definition selectStaleByStatus :: "db \<Rightarrow> tx_status \<Rightarrow> int \<Rightarrow> nat \<Rightarrow> transaction_record list" where
  "selectStaleByStatus d st olderThan limit =
     map rowToRecord (take limit (sort_key (\<lambda>r. (updated_at r, row_id r))
       (filter (\<lambda>r. status r = st \<and> updated_at r < date_to_micros olderThan) (transactions d))))"

definition selectByStatus ::
  "db \<Rightarrow> tx_status \<Rightarrow> nat \<Rightarrow> (int \<times> nat) option \<Rightarrow> transaction_record list" where
  "selectByStatus d st limit after =
     map rowToRecord (take limit (sort_key (\<lambda>r. (created_at r, row_id r))
       (filter (\<lambda>r. status r = st \<and>
          (case after of None \<Rightarrow> True
           | Some (c, i) \<Rightarrow> date_to_micros c < created_at r
                \<or> created_at r = date_to_micros c \<and> i < row_id r)) (transactions d))))"

definition countByStatus :: "db \<Rightarrow> tx_status \<Rightarrow> nat" where
  "countByStatus d st = length (filter (\<lambda>r. status r = st) (transactions d))"

subsection \<open>The scan cursor\<close>

definition readOrInit :: "db \<Rightarrow> chainId \<Rightarrow> string \<Rightarrow> int \<Rightarrow> int res \<times> db" where
  "readOrInit d c rel genesisBlock =
     (let d' = (case block_tracker d (c, rel) of
                  Some _ \<Rightarrow> d
                | None \<Rightarrow> d\<lparr>block_tracker := (block_tracker d)((c, rel) \<mapsto> genesisBlock - 1)\<rparr>)
      in (case block_tracker d' (c, rel) of
            None \<Rightarrow> Throw (new_error PlainError
                     (''block_tracker row missing after upsert for '' @ show_nat c @ ''/'' @ rel))
          | Some b \<Rightarrow> Ok b, d'))"

definition advance :: "db \<Rightarrow> chainId \<Rightarrow> string \<Rightarrow> int \<Rightarrow> bool \<times> db" where
  "advance d c rel newBlock =
     (case block_tracker d (c, rel) of
        Some b \<Rightarrow> (if b < newBlock
                   then (True, d\<lparr>block_tracker := (block_tracker d)((c, rel) \<mapsto> newBlock)\<rparr>)
                   else (False, d))
      | None \<Rightarrow> (False, d))"

subsection \<open>Well-formed rows and tables\<close>

text \<open>
  What every statement keeps. A \<open>pending\<close> row is untouched, a \<open>submitting\<close> row carries
  its committed wallet and nonce, a \<open>submitted\<close> row also the hash of its transaction, a
  \<open>failed\<close> row has spent budget, and a terminal row never holds a nonce that was reserved
  but not broadcast. Row ids and \<open>(source_chain_id, event_tx_hash)\<close> are unique.
\<close>

definition wf_row :: "row \<Rightarrow> bool" where
  "wf_row r \<longleftrightarrow>
     (case status r of
        Pending \<Rightarrow> relay_tx_hash r = None \<and> wallet_used r = None \<and> nonce_used r = None
          \<and> retry_count r = 0
      | Submitting \<Rightarrow> wallet_used r \<noteq> None \<and> nonce_used r \<noteq> None
      | Submitted \<Rightarrow> wallet_used r \<noteq> None \<and> nonce_used r \<noteq> None \<and> relay_tx_hash r \<noteq> None
      | Failed \<Rightarrow> 0 < retry_count r
      | Confirmed \<Rightarrow> (relay_tx_hash r = None \<longrightarrow> nonce_used r = None)
      | Dead_letter \<Rightarrow> (relay_tx_hash r = None \<longrightarrow> nonce_used r = None))"

definition event_key :: "row \<Rightarrow> chainId \<times> string" where
  "event_key r = (source_chain_id r, event_tx_hash r)"

definition wf_db :: "db \<Rightarrow> bool" where
  "wf_db d \<longleftrightarrow>
     distinct (map row_id (transactions d)) \<and>
     distinct (map event_key (transactions d)) \<and>
     (\<forall>r \<in> set (transactions d). wf_row r)"

definition empty_db :: db where
  "empty_db = \<lparr>transactions = [], block_tracker = Map.empty\<rparr>"

definition terminal :: "row \<Rightarrow> bool" where
  "terminal r \<longleftrightarrow> status r = Confirmed \<or> status r = Dead_letter"

text \<open>The order in which a row and the table may evolve, whoever writes.\<close>

definition row_le :: "row \<Rightarrow> row \<Rightarrow> bool" where
  "row_le r r' \<longleftrightarrow>
     row_id r' = row_id r \<and> event_key r' = event_key r \<and>
     destination_chain_id r' = destination_chain_id r \<and>
     relayer_address r' = relayer_address r \<and> payload r' = payload r \<and>
     max_retries r' = max_retries r \<and> created_at r' = created_at r \<and>
     retry_count r \<le> retry_count r' \<and>
     (relay_tx_hash r' = None \<longrightarrow> relay_tx_hash r = None) \<and>
     (status r' = Pending \<longrightarrow> status r = Pending) \<and>
     (terminal r \<longrightarrow> r' = r)"

definition db_le :: "db \<Rightarrow> db \<Rightarrow> bool" where
  "db_le d d' \<longleftrightarrow>
     (\<forall>r \<in> set (transactions d). \<exists>r' \<in> set (transactions d'). row_le r r') \<and>
     (\<forall>k b. block_tracker d k = Some b \<longrightarrow> (\<exists>b'. block_tracker d' k = Some b' \<and> b \<le> b'))"

lemma row_le_refl [simp]: "row_le r r"
  by (simp add: row_le_def)

lemma row_le_trans: "row_le a b \<Longrightarrow> row_le b c \<Longrightarrow> row_le a c"
  by (auto simp: row_le_def)

lemma row_le_terminal: "row_le r r' \<Longrightarrow> terminal r \<Longrightarrow> r' = r"
  by (simp add: row_le_def)

lemma db_le_refl [simp]: "db_le d d"
  using row_le_refl by (force simp: db_le_def)

lemma db_le_super:
  assumes "set (transactions d) \<subseteq> set (transactions d')"
    and "\<And>k b. block_tracker d k = Some b \<Longrightarrow> \<exists>b'. block_tracker d' k = Some b' \<and> b \<le> b'"
  shows "db_le d d'"
  using assms row_le_refl unfolding db_le_def by blast

lemma db_le_trans: "db_le a b \<Longrightarrow> db_le b c \<Longrightarrow> db_le a c"
  unfolding db_le_def by (meson order_trans row_le_trans)

lemma wf_empty_db [simp]: "wf_db empty_db"
  by (simp add: wf_db_def empty_db_def)

text \<open>A terminal row stays in the table exactly as it is.\<close>

lemma db_le_terminal:
  assumes "db_le d d'" and "r \<in> set (transactions d)" and "terminal r"
  shows "r \<in> set (transactions d')"
  using assms unfolding db_le_def row_le_def by blast

lemma wf_db_row_unique:
  assumes "wf_db d" and "r \<in> set (transactions d)" and "r' \<in> set (transactions d)"
    and "row_id r = row_id r'"
  shows "r = r'"
  using assms unfolding wf_db_def by (metis distinct_map inj_onD)

lemma wf_db_key_unique:
  assumes "wf_db d" and "r \<in> set (transactions d)" and "r' \<in> set (transactions d)"
    and "event_key r = event_key r'"
  shows "r = r'"
  using assms unfolding wf_db_def by (metis distinct_map inj_onD)

subsection \<open>Contract of a statement\<close>

text \<open>
  Every statement of the repository keeps the table well formed and only moves it forward
  in \<open>db_le\<close>. A role is a sequence of such statements, so what is proved of one statement
  in this locale holds of every interleaving of workers, cron and listener.
\<close>

locale db_statement =
  fixes stmt :: "db \<Rightarrow> db"
  assumes keeps_wf: "wf_db d \<Longrightarrow> wf_db (stmt d)"
    and moves_forward: "db_le d (stmt d)"
begin

lemma keeps_terminal:
  "r \<in> set (transactions d) \<Longrightarrow> terminal r \<Longrightarrow> r \<in> set (transactions (stmt d))"
  using moves_forward by (rule db_le_terminal)

lemma iterated: "wf_db d \<Longrightarrow> wf_db ((stmt ^^ n) d) \<and> db_le d ((stmt ^^ n) d)"
proof (induction n)
  case 0
  then show ?case by simp
next
  case (Suc n)
  then show ?case
    using keeps_wf moves_forward by (auto intro: db_le_trans)
qed

lemma row_survives:
  assumes "r \<in> set (transactions d)"
  shows "\<exists>r' \<in> set (transactions (stmt d)). row_le r r'"
  using moves_forward assms unfolding db_le_def by blast

end

text \<open>One lemma gives the contract of every \<open>UPDATE\<close>.\<close>

lemma update_rows_transactions [simp]:
  "transactions (snd (update_rows i sts f d)) =
     map (\<lambda>r. if matches i sts r then f r else r) (transactions d)"
  "block_tracker (snd (update_rows i sts f d)) = block_tracker d"
  by (simp_all add: update_rows_def)

lemma update_rows_statement:
  assumes le: "\<And>r. matches i sts r \<Longrightarrow> row_le r (f r)"
    and wf: "\<And>r. matches i sts r \<Longrightarrow> wf_row r \<Longrightarrow> wf_row (f r)"
  shows "db_statement (\<lambda>d. snd (update_rows i sts f d))"
proof
  fix d :: db
  let ?g = "\<lambda>r. if matches i sts r then f r else r"
  have g: "row_le r (?g r)" for r using le by simp
  have "\<exists>x \<in> set (map ?g (transactions d)). row_le r x" if "r \<in> set (transactions d)" for r
  proof (rule bexI)
    show "row_le r (?g r)" by (rule g)
    show "?g r \<in> set (map ?g (transactions d))" unfolding set_map using that by (rule imageI)
  qed
  then show "db_le d (snd (update_rows i sts f d))"
    unfolding db_le_def update_rows_transactions by blast
  have ids: "map row_id (map ?g (transactions d)) = map row_id (transactions d)"
    and keys: "map event_key (map ?g (transactions d)) = map event_key (transactions d)"
    using g by (auto simp: row_le_def)
  show "wf_db d \<Longrightarrow> wf_db (snd (update_rows i sts f d))"
    unfolding wf_db_def update_rows_transactions ids keys using wf by auto
qed

lemma updated_any_snd [simp]: "snd (updated_any res) = snd res"
  and returned_budget_snd [simp]: "snd (returned_budget res) = snd res"
  by (simp_all add: updated_any_def returned_budget_def)

lemmas update_defs =
  markSubmitting_def markSubmitted_def markConfirmed_def touch_def incrementRetry_def
  markFailed_def markDeadLetter_def

lemmas row_defs = row_le_def wf_row_def event_key_def terminal_def matches_def clear_unsent_nonce_def

interpretation mark_submitting: db_statement "\<lambda>d. snd (markSubmitting t d i w n)" for t i w n
  unfolding update_defs updated_any_snd
  by (rule update_rows_statement) (auto simp: row_defs split: tx_status.splits)

interpretation mark_submitted: db_statement "\<lambda>d. snd (markSubmitted t d i h w n)" for t i h w n
  unfolding update_defs updated_any_snd
  by (rule update_rows_statement) (auto simp: row_defs split: tx_status.splits)

interpretation mark_confirmed: db_statement "\<lambda>d. snd (markConfirmed t d i)" for t i
  unfolding update_defs updated_any_snd
  by (rule update_rows_statement) (auto simp: row_defs split: tx_status.splits)

interpretation touch_row: db_statement "\<lambda>d. touch t d i" for t i
  unfolding update_defs
  by (rule update_rows_statement) (auto simp: row_defs split: tx_status.splits)

interpretation increment_retry: db_statement "\<lambda>d. snd (incrementRetry t d i)" for t i
  unfolding update_defs returned_budget_snd
  by (rule update_rows_statement) (auto simp: row_defs split: tx_status.splits)

interpretation mark_failed: db_statement "\<lambda>d. snd (markFailed t d i m)" for t i m
  unfolding update_defs returned_budget_snd
  by (rule update_rows_statement) (auto simp: row_defs split: tx_status.splits)

interpretation mark_dead_letter: db_statement "\<lambda>d. snd (markDeadLetter t d i m)" for t i m
  unfolding update_defs updated_any_snd
  by (rule update_rows_statement) (auto simp: row_defs split: tx_status.splits)

text \<open>Inserting and moving the cursor.\<close>

lemma insertPending_cases:
  obtains (existing) r where "r \<in> set (transactions d)"
      "same_event (in_sourceChainId i) (in_eventTxHash i) r"
      "insertPending uuid t d i = (Ok (rowToRecord r), d)"
  | (clash) e where "insertPending uuid t d i = (Throw e, d)"
      "\<forall>r \<in> set (transactions d). \<not> same_event (in_sourceChainId i) (in_eventTxHash i) r"
      "uuid \<in> set (map row_id (transactions d))"
  | (fresh) "\<forall>r \<in> set (transactions d). \<not> same_event (in_sourceChainId i) (in_eventTxHash i) r"
      "uuid \<notin> set (map row_id (transactions d))"
      "insertPending uuid t d i =
         (Ok (rowToRecord (new_row uuid t i)), d\<lparr>transactions := transactions d @ [new_row uuid t i]\<rparr>)"
proof (cases "filter (same_event (in_sourceChainId i) (in_eventTxHash i)) (transactions d)")
  case Nil
  then have "\<forall>r \<in> set (transactions d). \<not> same_event (in_sourceChainId i) (in_eventTxHash i) r"
    by (auto simp: filter_empty_conv)
  with Nil show ?thesis
    using that(2,3) by (cases "uuid \<in> set (map row_id (transactions d))")
       (simp_all add: insertPending_def Let_def)
next
  case (Cons r rs)
  then have "r \<in> set (filter (same_event (in_sourceChainId i) (in_eventTxHash i)) (transactions d))"
    by simp
  then have "r \<in> set (transactions d)" "same_event (in_sourceChainId i) (in_eventTxHash i) r"
    by simp_all
  moreover have "insertPending uuid t d i = (Ok (rowToRecord r), d)"
    using Cons by (simp add: insertPending_def findBySourceEvent_def)
  ultimately show ?thesis by (rule that(1))
qed

interpretation insert_pending: db_statement "\<lambda>d. snd (insertPending uuid t d i)" for uuid t i
proof
  fix d
  show "db_le d (snd (insertPending uuid t d i))"
    by (rule insertPending_cases [of d i uuid t]) (auto intro: db_le_super)
  show "wf_db d \<Longrightarrow> wf_db (snd (insertPending uuid t d i))"
    by (rule insertPending_cases [of d i uuid t])
       (auto simp: wf_db_def wf_row_def event_key_def same_event_def new_row_def)
qed

interpretation read_or_init: db_statement "\<lambda>d. snd (readOrInit d c rel g)" for c rel g
proof
  fix d
  show "db_le d (snd (readOrInit d c rel g))"
    by (rule db_le_super) (auto simp: readOrInit_def Let_def split: option.splits)
  show "wf_db d \<Longrightarrow> wf_db (snd (readOrInit d c rel g))"
    by (auto simp: readOrInit_def Let_def wf_db_def split: option.splits)
qed

interpretation advance_cursor: db_statement "\<lambda>d. snd (advance d c rel b)" for c rel b
proof
  fix d
  show "db_le d (snd (advance d c rel b))"
    by (rule db_le_super) (auto simp: advance_def split: option.splits)
  show "wf_db d \<Longrightarrow> wf_db (snd (advance d c rel b))"
    by (auto simp: advance_def wf_db_def split: option.splits)
qed

subsection \<open>Runs of statements\<close>

text \<open>
  Any number of sessions interleave statements. \<open>repo_step\<close> is one statement of any role;
  reachable tables are those a run from the empty database can produce.
\<close>

inductive repo_step :: "db \<Rightarrow> db \<Rightarrow> bool" where
  step_insert: "repo_step d (snd (insertPending uuid t d i))"
| step_submitting: "repo_step d (snd (markSubmitting t d i w n))"
| step_submitted: "repo_step d (snd (markSubmitted t d i h w n))"
| step_confirmed: "repo_step d (snd (markConfirmed t d i))"
| step_touch: "repo_step d (touch t d i)"
| step_increment: "repo_step d (snd (incrementRetry t d i))"
| step_failed: "repo_step d (snd (markFailed t d i m))"
| step_dead: "repo_step d (snd (markDeadLetter t d i m))"
| step_init: "repo_step d (snd (readOrInit d c rel g))"
| step_advance: "repo_step d (snd (advance d c rel b))"

abbreviation repo_steps :: "db \<Rightarrow> db \<Rightarrow> bool" where
  "repo_steps \<equiv> repo_step\<^sup>*\<^sup>*"

lemma repo_step_contract:
  assumes "repo_step d d'"
  shows "db_le d d'" and "wf_db d \<Longrightarrow> wf_db d'"
  using assms
  by (auto elim!: repo_step.cases
      intro: insert_pending.moves_forward mark_submitting.moves_forward
        mark_submitted.moves_forward mark_confirmed.moves_forward touch_row.moves_forward
        increment_retry.moves_forward mark_failed.moves_forward mark_dead_letter.moves_forward
        read_or_init.moves_forward advance_cursor.moves_forward
        insert_pending.keeps_wf mark_submitting.keeps_wf mark_submitted.keeps_wf
        mark_confirmed.keeps_wf touch_row.keeps_wf increment_retry.keeps_wf mark_failed.keeps_wf
        mark_dead_letter.keeps_wf read_or_init.keeps_wf advance_cursor.keeps_wf)

lemma repo_steps_le: "repo_steps d d' \<Longrightarrow> db_le d d'"
  by (induction rule: rtranclp_induct) (auto intro: db_le_trans repo_step_contract)

lemma repo_steps_wf: "repo_steps d d' \<Longrightarrow> wf_db d \<Longrightarrow> wf_db d'"
  by (induction rule: rtranclp_induct) (auto intro: repo_step_contract)

lemma repo_steps_terminal:
  "repo_steps d d' \<Longrightarrow> r \<in> set (transactions d) \<Longrightarrow> terminal r \<Longrightarrow> r \<in> set (transactions d')"
  by (blast intro: db_le_terminal repo_steps_le)

subsection \<open>Idempotent insertion\<close>

text \<open>C9: In every run of the repository's statements from the empty database, by any number of
  sessions, the table stays well formed, every row of an earlier table survives in the later
  one without losing its event, payload, budget or transaction, and a resolved row is never
  changed again.\<close>

theorem table_never_regresses:
  assumes "repo_steps empty_db d" and "repo_steps d d'"
  shows "wf_db d' \<and> (\<forall>r \<in> set (transactions d). \<exists>r' \<in> set (transactions d').
      row_le r r' \<and> (terminal r \<longrightarrow> r' = r))"
proof -
  have "wf_db d'" using repo_steps_wf assms wf_empty_db by blast
  moreover have "\<exists>r' \<in> set (transactions d'). row_le r r'" if "r \<in> set (transactions d)" for r
    using repo_steps_le [OF assms(2)] that unfolding db_le_def by blast
  ultimately show ?thesis using row_le_terminal by blast
qed

definition demo_input :: insert_pending_input where
  "demo_input = \<lparr>in_sourceChainId = 2, in_destinationChainId = 4, in_relayerAddress = ''0xb'',
     in_eventTxHash = ''0xaa'',
     in_payload = \<lparr>rp_emitterChain = 2, rp_emitterAddress = ''0xe'', rp_sequence = ''7'',
       rp_sourceTxHash = ''0xaa'', rp_dstChain = 4, rp_dstAddr = ''0xd'', rp_gasLimit = ''500000'',
       rp_requestBytes = ''0x''\<rparr>,
     in_maxRetries = 2\<rparr>"

definition demo_db :: db where
  "demo_db = snd (insertPending 1 1000 empty_db demo_input)"

theorem table_never_regresses_witness:
  "wf_db (snd (markConfirmed 2000 demo_db 1)) \<and>
   (\<exists>r' \<in> set (transactions (snd (markConfirmed 2000 demo_db 1))). row_le (new_row 1 1000 demo_input) r')"
proof -
  have "repo_steps empty_db demo_db" unfolding demo_db_def by (rule r_into_rtranclp, rule step_insert)
  moreover have "repo_steps demo_db (snd (markConfirmed 2000 demo_db 1))"
    by (rule r_into_rtranclp, rule step_confirmed)
  moreover have "new_row 1 1000 demo_input \<in> set (transactions demo_db)"
    by (simp add: demo_db_def insertPending_def empty_db_def Let_def)
  ultimately show ?thesis using table_never_regresses by blast
qed

lemma insertPending_records:
  assumes "insertPending u t d i = (Ok rec, d1)"
  obtains r where "r \<in> set (transactions d1)" "same_event (in_sourceChainId i) (in_eventTxHash i) r"
    "rec = rowToRecord r"
  using assms by (cases rule: insertPending_cases [of d i u t])
    (auto simp: new_row_def same_event_def intro: that)

text \<open>Recording a source event is idempotent: once an event has a row, recording it again,
  after any further run of statements and with whatever UUID, clock and content, returns that
  same row and changes nothing.\<close>

theorem insertPending_idempotent:
  assumes "wf_db d" and "insertPending u t d i = (Ok rec, d1)" and "repo_steps d1 d2"
    and "in_sourceChainId i' = in_sourceChainId i" and "in_eventTxHash i' = in_eventTxHash i"
  shows "\<exists>rec'. insertPending u' t' d2 i' = (Ok rec', d2) \<and> recId rec' = recId rec \<and>
    recPayload rec' = recPayload rec"
proof -
  obtain r where r: "r \<in> set (transactions d1)" "same_event (in_sourceChainId i) (in_eventTxHash i) r"
    "rec = rowToRecord r"
    using assms(2) by (rule insertPending_records)
  have wf2: "wf_db d2"
    using insert_pending.keeps_wf [OF assms(1), of u t i] assms(2,3) repo_steps_wf by auto
  obtain r2 where r2: "r2 \<in> set (transactions d2)" "row_le r r2"
    using repo_steps_le [OF assms(3)] r(1) unfolding db_le_def by blast
  then have s2: "same_event (in_sourceChainId i') (in_eventTxHash i') r2"
    using r(2) assms(4,5) by (simp add: row_le_def same_event_def event_key_def)
  show ?thesis
  proof (cases rule: insertPending_cases [of d2 i' u' t'])
    case (existing r3)
    then have "r3 = r2" using wf_db_key_unique [OF wf2 existing(1) r2(1)] s2
      by (simp add: same_event_def event_key_def)
    with existing r2(2) r(3) show ?thesis by (simp add: row_le_def rowToRecord_def)
  qed (use r2(1) s2 in blast)+
qed

theorem insertPending_idempotent_witness:
  "\<exists>rec'. insertPending 9 5000 (snd (markConfirmed 2000 demo_db 1)) demo_input
     = (Ok rec', snd (markConfirmed 2000 demo_db 1)) \<and> recId rec' = 1"
proof -
  have i: "insertPending 1 1000 empty_db demo_input = (Ok (rowToRecord (new_row 1 1000 demo_input)), demo_db)"
    by (simp add: demo_db_def insertPending_def empty_db_def Let_def)
  have "repo_steps demo_db (snd (markConfirmed 2000 demo_db 1))"
    by (rule r_into_rtranclp, rule step_confirmed)
  from insertPending_idempotent [OF wf_empty_db i this refl refl, of 9 5000]
  show ?thesis by (auto simp: rowToRecord_def new_row_def)
qed

end
