(* ===== verification/Retry_Policy.thy ===== *)
theory Retry_Policy
  imports Prelude Complex_Main
begin

section \<open>Retry and backoff\<close>

text \<open>
  \<open>withRetry\<close> of \<open>relayer-bot/src/retry.ts\<close>, its copies in \<open>quoter-service\<close> and
  \<open>oracle-service\<close>, and the nack backoff of \<open>relayer-bot/src/queue/backoff.ts\<close>. The
  retried action is a function of the attempt number (what the remote end answers on that
  attempt), the jitter a function of the attempt number into the rationals; the loop
  returns its result and the delays it slept. Products with the jitter are exact here, where
  JavaScript rounds to a double.
\<close>

record retry_options =
  maxAttempts :: nat
  initialDelayMs :: nat
  maxDelayMs :: nat

definition DEFAULT_RETRY :: retry_options where
  "DEFAULT_RETRY = \<lparr>maxAttempts = 3, initialDelayMs = 200, maxDelayMs = 2000\<rparr>"

definition isTransientRpcError :: "js_error \<Rightarrow> bool" where
  "isTransientRpcError err \<longleftrightarrow>
     ecode err = Some ''NETWORK_ERROR'' \<or> ecode err = Some ''SERVER_ERROR'' \<or> ecode err = Some ''TIMEOUT''"

definition isTransientRedisError :: "string option \<Rightarrow> string \<Rightarrow> bool" where
  "isTransientRedisError code nm \<longleftrightarrow>
     code \<in> {Some ''ECONNREFUSED'', Some ''ECONNRESET'', Some ''ETIMEDOUT'', Some ''EPIPE'', Some ''ENOTFOUND''}
     \<or> nm = ''MaxRetriesPerRequestError''"

definition js_round :: "rat \<Rightarrow> int" where
  "js_round x = \<lfloor>x + 1 / 2\<rfloor>"

definition defaultJitter :: "rat \<Rightarrow> rat" where
  "defaultJitter random = 3 / 4 + random * (1 / 2)"

definition retry_delay :: "retry_options \<Rightarrow> rat \<Rightarrow> nat \<Rightarrow> int" where
  "retry_delay opts j attempt =
     js_round (of_nat (min (initialDelayMs opts * 2 ^ (attempt - 1)) (maxDelayMs opts)) * j)"

text \<open>The error a JavaScript \<open>throw undefined\<close> carries, when no attempt was made at all.\<close>

definition undefined_error :: js_error where
  "undefined_error = new_error ForeignError ''undefined''"

function retry_loop ::
  "(nat \<Rightarrow> 'a res) \<Rightarrow> retry_options \<Rightarrow> (js_error \<Rightarrow> bool) \<Rightarrow> (nat \<Rightarrow> rat) \<Rightarrow> nat \<Rightarrow> js_error \<Rightarrow>
   'a res \<times> int list" where
  "retry_loop fn opts isTransient jitter attempt lastErr =
     (if attempt \<le> maxAttempts opts then
        (case fn attempt of
           Inr v \<Rightarrow> (Ok v, [])
         | Inl err \<Rightarrow>
             (if attempt = maxAttempts opts \<or> \<not> isTransient err then (Throw err, [])
              else (let (r, ds) = retry_loop fn opts isTransient jitter (attempt + 1) err
                    in (r, retry_delay opts (jitter attempt) attempt # ds))))
      else (Throw lastErr, []))"
  by pat_completeness auto
termination
  by (relation "measure (\<lambda>(fn, opts, tr, j, attempt, e). maxAttempts opts + 1 - attempt)") auto

declare retry_loop.simps [simp del]

definition withRetry ::
  "(nat \<Rightarrow> 'a res) \<Rightarrow> retry_options \<Rightarrow> (js_error \<Rightarrow> bool) \<Rightarrow> (nat \<Rightarrow> rat) \<Rightarrow> 'a res \<times> int list" where
  "withRetry fn opts isTransient jitter = retry_loop fn opts isTransient jitter 1 undefined_error"

text \<open>The copies in the other two services fix the classifier to \<open>isTransientRpcError\<close>.\<close>

definition quoter_isTransientRpcError :: "js_error \<Rightarrow> bool" where
  "quoter_isTransientRpcError err \<longleftrightarrow> (case ecode err of None \<Rightarrow> False
     | Some c \<Rightarrow> c = ''NETWORK_ERROR'' \<or> c = ''SERVER_ERROR'' \<or> c = ''TIMEOUT'')"

function quoter_retry_loop ::
  "(nat \<Rightarrow> 'a res) \<Rightarrow> retry_options \<Rightarrow> (nat \<Rightarrow> rat) \<Rightarrow> nat \<Rightarrow> js_error \<Rightarrow> 'a res \<times> int list" where
  "quoter_retry_loop fn opts jitter attempt lastErr =
     (if attempt \<le> maxAttempts opts then
        (case fn attempt of
           Inr v \<Rightarrow> (Ok v, [])
         | Inl err \<Rightarrow>
             (if attempt = maxAttempts opts \<or> \<not> quoter_isTransientRpcError err then (Throw err, [])
              else (let (r, ds) = quoter_retry_loop fn opts jitter (attempt + 1) err
                    in (r, retry_delay opts (jitter attempt) attempt # ds))))
      else (Throw lastErr, []))"
  by pat_completeness auto
termination
  by (relation "measure (\<lambda>(fn, opts, j, attempt, e). maxAttempts opts + 1 - attempt)") auto

declare quoter_retry_loop.simps [simp del]

definition quoter_withRetry ::
  "(nat \<Rightarrow> 'a res) \<Rightarrow> retry_options \<Rightarrow> (nat \<Rightarrow> rat) \<Rightarrow> 'a res \<times> int list" where
  "quoter_withRetry fn opts jitter = quoter_retry_loop fn opts jitter 1 undefined_error"

definition oracle_isTransientRpcError :: "js_error \<Rightarrow> bool" where
  "oracle_isTransientRpcError err \<longleftrightarrow> (case ecode err of None \<Rightarrow> False
     | Some c \<Rightarrow> c = ''NETWORK_ERROR'' \<or> c = ''SERVER_ERROR'' \<or> c = ''TIMEOUT'')"

function oracle_retry_loop ::
  "(nat \<Rightarrow> 'a res) \<Rightarrow> retry_options \<Rightarrow> (nat \<Rightarrow> rat) \<Rightarrow> nat \<Rightarrow> js_error \<Rightarrow> 'a res \<times> int list" where
  "oracle_retry_loop fn opts jitter attempt lastErr =
     (if attempt \<le> maxAttempts opts then
        (case fn attempt of
           Inr v \<Rightarrow> (Ok v, [])
         | Inl err \<Rightarrow>
             (if attempt = maxAttempts opts \<or> \<not> oracle_isTransientRpcError err then (Throw err, [])
              else (let (r, ds) = oracle_retry_loop fn opts jitter (attempt + 1) err
                    in (r, retry_delay opts (jitter attempt) attempt # ds))))
      else (Throw lastErr, []))"
  by pat_completeness auto
termination
  by (relation "measure (\<lambda>(fn, opts, j, attempt, e). maxAttempts opts + 1 - attempt)") auto

declare oracle_retry_loop.simps [simp del]

definition oracle_withRetry ::
  "(nat \<Rightarrow> 'a res) \<Rightarrow> retry_options \<Rightarrow> (nat \<Rightarrow> rat) \<Rightarrow> 'a res \<times> int list" where
  "oracle_withRetry fn opts jitter = oracle_retry_loop fn opts jitter 1 undefined_error"

text \<open>The worker's and the cron's requeue delay.\<close>

record backoff_options =
  bo_baseMs :: "nat option"
  bo_maxMs :: "nat option"

definition computeBackoffDelayMs :: "int \<Rightarrow> backoff_options \<Rightarrow> rat \<Rightarrow> int" where
  "computeBackoffDelayMs retries opts j =
     (let baseMs = (case bo_baseMs opts of None \<Rightarrow> 1000 | Some b \<Rightarrow> b);
          maxMs = (case bo_maxMs opts of None \<Rightarrow> 60000 | Some m \<Rightarrow> m);
          e = min (baseMs * 2 ^ nat (max 0 retries)) maxMs
      in js_round (of_nat e * j))"

abbreviation default_backoff :: backoff_options where
  "default_backoff \<equiv> \<lparr>bo_baseMs = None, bo_maxMs = None\<rparr>"

subsection \<open>What the loop returns\<close>

definition transient_failure :: "(js_error \<Rightarrow> bool) \<Rightarrow> 'a res \<Rightarrow> bool" where
  "transient_failure tr r \<longleftrightarrow> (\<exists>e. r = Inl e \<and> tr e)"

text \<open>
  The loop stops at the first attempt \<open>k\<close> that is not a transient failure, or at the
  last attempt, and its result is that attempt's.
\<close>

lemma retry_loop_result:
  assumes "attempt \<le> k" "k \<le> maxAttempts opts"
    and "\<And>i. attempt \<le> i \<Longrightarrow> i < k \<Longrightarrow> transient_failure tr (fn i)"
    and "k = maxAttempts opts \<or> \<not> transient_failure tr (fn k)"
  shows "retry_loop fn opts tr j attempt e =
    (fn k, map (\<lambda>i. retry_delay opts (j i) i) [attempt..<k])"
  using assms
proof (induction "k - attempt" arbitrary: attempt e)
  case 0
  then show ?case
    by (subst retry_loop.simps) (auto simp: transient_failure_def split: sum.splits)
next
  case (Suc n)
  have lt: "attempt < k" using Suc.hyps(2) by simp
  then obtain err where err: "fn attempt = Inl err" "tr err"
    using Suc.prems(3) unfolding transient_failure_def by blast
  have "retry_loop fn opts tr j (attempt + 1) err
      = (fn k, map (\<lambda>i. retry_delay opts (j i) i) [attempt + 1..<k])"
    using Suc.hyps(2) Suc.prems lt by (intro Suc.hyps(1)) auto
  then show ?case
    using err lt Suc.prems(2) by (subst retry_loop.simps) (simp add: upt_conv_Cons)
qed

lemma first_decisive_attempt:
  assumes "1 \<le> (m :: nat)"
  obtains k where "1 \<le> k" "k \<le> m" "\<And>i. 1 \<le> i \<Longrightarrow> i < k \<Longrightarrow> P i" "k = m \<or> \<not> P k"
proof (cases "\<exists>k. 1 \<le> k \<and> k < m \<and> \<not> P k")
  case True
  define k where "k = (LEAST k. 1 \<le> k \<and> k < m \<and> \<not> P k)"
  have k: "1 \<le> k \<and> k < m \<and> \<not> P k" unfolding k_def by (rule LeastI_ex [OF True])
  have "P i" if "1 \<le> i" "i < k" for i
    using not_less_Least [of i "\<lambda>k. 1 \<le> k \<and> k < m \<and> \<not> P k"] that k unfolding k_def by auto
  with k show ?thesis by (intro that [of k]) auto
next
  case False
  with assms show ?thesis by (intro that [of m]) auto
qed

lemma js_round_mono: "x \<le> y \<Longrightarrow> js_round x \<le> js_round y"
  by (simp add: js_round_def floor_mono)

lemma js_round_of_nat_le:
  assumes "a \<le> b" and "0 \<le> j" and "j \<le> 5 / 4"
  shows "js_round (of_nat a * j) \<le> js_round (of_nat b * (5 / 4))"
  using assms by (intro js_round_mono mult_mono) simp_all

lemma js_round_nonneg: "0 \<le> x \<Longrightarrow> 0 \<le> js_round x"
  by (simp add: js_round_def)

lemma quoter_loop_eq:
  "quoter_retry_loop fn opts j attempt e = retry_loop fn opts isTransientRpcError j attempt e"
proof -
  have tr: "quoter_isTransientRpcError err = isTransientRpcError err" for err
    by (auto simp: quoter_isTransientRpcError_def isTransientRpcError_def split: option.splits)
  show ?thesis
    by (induction fn opts isTransientRpcError j attempt e rule: retry_loop.induct)
       (subst quoter_retry_loop.simps, subst retry_loop.simps,
        auto simp: tr split: sum.splits prod.splits)
qed

lemma oracle_loop_eq:
  "oracle_retry_loop fn opts j attempt e = retry_loop fn opts isTransientRpcError j attempt e"
proof -
  have tr: "oracle_isTransientRpcError err = isTransientRpcError err" for err
    by (auto simp: oracle_isTransientRpcError_def isTransientRpcError_def split: option.splits)
  show ?thesis
    by (induction fn opts isTransientRpcError j attempt e rule: retry_loop.induct)
       (subst oracle_retry_loop.simps, subst retry_loop.simps,
        auto simp: tr split: sum.splits prod.splits)
qed

subsection \<open>Properties\<close>

text \<open>\<open>withRetry\<close> makes attempts in order until the first one that does not fail
  transiently, or the last allowed one, and its result is that attempt's; between attempts it
  sleeps the exponential delay of each failed attempt, and with the default jitter no delay is
  negative or longer than 1.25 times \<open>maxDelayMs\<close>.\<close>

theorem withRetry_decisive_attempt:
  assumes "1 \<le> maxAttempts opts" and "\<And>i. 0 \<le> rnd i \<and> rnd i < 1"
  shows "\<exists>k ds. 1 \<le> k \<and> k \<le> maxAttempts opts \<and>
      withRetry fn opts tr (\<lambda>i. defaultJitter (rnd i)) = (fn k, ds) \<and> length ds = k - 1 \<and>
      (\<forall>i. 1 \<le> i \<and> i < k \<longrightarrow> (\<exists>e. fn i = Throw e \<and> tr e)) \<and>
      (k = maxAttempts opts \<or> (\<forall>e. fn k = Throw e \<longrightarrow> \<not> tr e)) \<and>
      (\<forall>x \<in> set ds. 0 \<le> x \<and> x \<le> js_round (of_nat (maxDelayMs opts) * (5 / 4)))"
proof -
  obtain k where k: "1 \<le> k" "k \<le> maxAttempts opts"
    "\<And>i. 1 \<le> i \<Longrightarrow> i < k \<Longrightarrow> transient_failure tr (fn i)"
    "k = maxAttempts opts \<or> \<not> transient_failure tr (fn k)"
    using first_decisive_attempt [OF assms(1), of "\<lambda>i. transient_failure tr (fn i)"] by metis
  let ?ds = "map (\<lambda>i. retry_delay opts (defaultJitter (rnd i)) i) [1..<k]"
  have "withRetry fn opts tr (\<lambda>i. defaultJitter (rnd i)) = (fn k, ?ds)"
    unfolding withRetry_def using k by (intro retry_loop_result) auto
  moreover have "0 \<le> retry_delay opts (defaultJitter (rnd i)) i \<and>
      retry_delay opts (defaultJitter (rnd i)) i \<le> js_round (of_nat (maxDelayMs opts) * (5 / 4))" for i
  proof -
    have "0 \<le> defaultJitter (rnd i)" "defaultJitter (rnd i) \<le> 5 / 4"
      using assms(2) [of i] by (simp_all add: defaultJitter_def)
    then show ?thesis unfolding retry_delay_def
      by (intro conjI js_round_nonneg js_round_of_nat_le) simp_all
  qed
  ultimately show ?thesis using k unfolding transient_failure_def
    by (intro exI [of _ k] exI [of _ ?ds]) auto
qed

theorem withRetry_decisive_attempt_witness:
  "\<exists>ds. withRetry (\<lambda>i. if i < 2 then Throw (coded_error ForeignError ''TIMEOUT'' ''slow'') else Ok i) DEFAULT_RETRY
       isTransientRpcError (\<lambda>i. defaultJitter (1 / 2)) = (Ok (2 :: nat), ds) \<and> length ds = 1"
proof -
  let ?fn = "\<lambda>i. if i < 2 then Throw (coded_error ForeignError ''TIMEOUT'' ''slow'') else Ok (i :: nat)"
  obtain k ds where k: "1 \<le> k" "k \<le> maxAttempts DEFAULT_RETRY"
    "withRetry ?fn DEFAULT_RETRY isTransientRpcError (\<lambda>i. defaultJitter (1 / 2)) = (?fn k, ds)"
    "length ds = k - 1" "\<forall>i. 1 \<le> i \<and> i < k \<longrightarrow> (\<exists>e. ?fn i = Throw e \<and> isTransientRpcError e)"
    "k = maxAttempts DEFAULT_RETRY \<or> (\<forall>e. ?fn k = Throw e \<longrightarrow> \<not> isTransientRpcError e)"
    using withRetry_decisive_attempt [of DEFAULT_RETRY "\<lambda>_. 1 / 2" ?fn isTransientRpcError]
    by (auto simp: DEFAULT_RETRY_def)
  have "k \<noteq> 1" using k(6) by (auto simp: DEFAULT_RETRY_def isTransientRpcError_def)
  moreover have "\<not> 2 < k" using k(5) [rule_format, of 2] by auto
  ultimately have "k = 2" using k(1) by linarith
  with k(3,4) show ?thesis by auto
qed

text \<open>The three services retry alike: the copies of \<open>withRetry\<close> in the quoter and the
  oracle compute what the relayer's computes with the RPC classifier, result and delays.\<close>

theorem service_retries_agree:
  "quoter_withRetry fn opts j = withRetry fn opts isTransientRpcError j \<and>
   oracle_withRetry fn opts j = withRetry fn opts isTransientRpcError j"
  by (simp add: quoter_withRetry_def oracle_withRetry_def withRetry_def quoter_loop_eq oracle_loop_eq)

text \<open>The requeue delay grows with the retry count, is never negative and, with the default
  jitter, stays within 1.25 times the configured maximum.\<close>

theorem backoff_bounded:
  assumes "0 \<le> rnd" and "rnd < 1"
  shows "0 \<le> computeBackoffDelayMs n default_backoff (defaultJitter rnd) \<and>
    computeBackoffDelayMs n default_backoff (defaultJitter rnd) \<le> 75000 \<and>
    computeBackoffDelayMs n default_backoff (defaultJitter rnd)
      \<le> computeBackoffDelayMs (n + 1) default_backoff (defaultJitter rnd)"
proof -
  have j: "0 \<le> defaultJitter rnd" "defaultJitter rnd \<le> 5 / 4" using assms by (simp_all add: defaultJitter_def)
  let ?e = "\<lambda>n. min (1000 * 2 ^ nat (max 0 n)) (60000 :: nat)"
  have e: "computeBackoffDelayMs n default_backoff (defaultJitter rnd) = js_round (of_nat (?e n) * defaultJitter rnd)" for n
    by (simp add: computeBackoffDelayMs_def Let_def)
  have "(2 :: nat) ^ nat (max 0 n) \<le> 2 ^ nat (max 0 (n + 1))" by (rule power_increasing) simp_all
  then have "?e n \<le> ?e (n + 1)" by (intro min.mono mult_le_mono2) simp_all
  then have "js_round (of_nat (?e n) * defaultJitter rnd) \<le> js_round (of_nat (?e (n + 1)) * defaultJitter rnd)"
    using j by (intro js_round_mono mult_right_mono) simp_all
  moreover have "js_round (of_nat (?e n) * defaultJitter rnd) \<le> js_round (of_nat 60000 * (5 / 4))"
    using j by (intro js_round_of_nat_le) simp_all
  moreover have "js_round (of_nat 60000 * (5 / 4)) = 75000" by (simp add: js_round_def floor_eq_iff)
  moreover have "0 \<le> js_round (of_nat (?e n) * defaultJitter rnd)" using j by (intro js_round_nonneg) simp
  ultimately show ?thesis unfolding e by simp
qed

theorem backoff_bounded_witness:
  "0 \<le> computeBackoffDelayMs 3 default_backoff (defaultJitter (1 / 2)) \<and>
   computeBackoffDelayMs 3 default_backoff (defaultJitter (1 / 2)) \<le> 75000"
  using backoff_bounded [of "1 / 2" 3] by simp

end
