(* ===== verification/Role_World.thy ===== *)
theory Role_World
  imports Effects Message_Queue Transactions_Repo Retry_Policy
begin

section \<open>The world the roles act on\<close>

text \<open>
  The state the roles share: the database, the queue, and the trace of what a role did to the
  outside. \<open>wtick\<close> numbers the interactions of the role; what the outside does at an
  interaction is a function of that number in \<open>role_env\<close>. \<open>re_itf k\<close> is what the other
  sessions committed since the previous statement (so one role's run is a run in every
  interleaving with the others), \<open>re_dbfail k\<close> an error of the statement instead of its
  execution, \<open>re_clock\<close> Postgres' \<open>now()\<close> in microseconds, \<open>re_now\<close> the process clock
  in milliseconds, \<open>re_queue k\<close> the driver at that moment. A statement that was executed but
  whose answer was lost is \<open>re_itf\<close> executing it followed by \<open>re_dbfail\<close>. Log lines are
  not part of the model; alerts, heartbeats and sleeps are in the trace.
\<close>

datatype event =
    EvBroadcast chainId string nat
  | EvAlert string
  | EvAck delivery
  | EvNack delivery int
  | EvDeadLetter delivery string
  | EvPublish relay_message
  | EvSleep int
  | EvHeartbeat

record 'q world =
  wdb :: db
  wq :: 'q
  wtrace :: "event list"
  wtick :: nat

record 'q role_env =
  re_config :: relayer_config
  re_eth :: ethers
  re_queue :: "nat \<Rightarrow> 'q queue_ops"
  re_itf :: "nat \<Rightarrow> db \<Rightarrow> db"
  re_dbfail :: "nat \<Rightarrow> js_error option"
  re_clock :: "nat \<Rightarrow> int"
  re_now :: "nat \<Rightarrow> int"
  re_uuid :: "nat \<Rightarrow> nat"
  re_jitter :: "nat \<Rightarrow> rat"
  re_aborted :: "nat \<Rightarrow> bool"

subsection \<open>Interactions\<close>

definition sql :: "('q, 'z) role_env_scheme \<Rightarrow> (int \<Rightarrow> nat \<Rightarrow> db \<Rightarrow> 'a res \<times> db) \<Rightarrow> ('q world, 'a) eff" where
  "sql env st w =
     (let k = wtick w; d = re_itf env k (wdb w)
      in (case re_dbfail env k of
            Some e \<Rightarrow> (Throw e, w\<lparr>wdb := d, wtick := k + 1\<rparr>)
          | None \<Rightarrow> (let (r, d') = st (re_clock env k) (re_uuid env k) d
                     in (r, w\<lparr>wdb := d', wtick := k + 1\<rparr>))))"

definition total_stmt :: "'a \<times> db \<Rightarrow> 'a res \<times> db" where
  "total_stmt x = (Ok (fst x), snd x)"

definition qcall ::
  "('q, 'z) role_env_scheme \<Rightarrow> ('q queue_ops \<Rightarrow> 'q \<Rightarrow> 'a res \<times> 'q) \<Rightarrow> event list \<Rightarrow> ('q world, 'a) eff" where
  "qcall env op evs w =
     (let (r, q') = op (re_queue env (wtick w)) (wq w)
      in (r, w\<lparr>wq := q', wtick := wtick w + 1,
              wtrace := wtrace w @ (if isl r then [] else evs)\<rparr>))"

definition ask :: "(nat \<Rightarrow> 'a res) \<Rightarrow> ('q world, 'a) eff" where
  "ask f w = (f (wtick w), w\<lparr>wtick := wtick w + 1\<rparr>)"

definition emit :: "event \<Rightarrow> ('q world, unit) eff" where
  "emit e w = (Ok (), w\<lparr>wtrace := wtrace w @ [e]\<rparr>)"

definition publish :: "('q, 'z) role_env_scheme \<Rightarrow> relay_message \<Rightarrow> ('q world, unit) eff" where
  "publish env m = qcall env (\<lambda>ops. q_publish ops m) [EvPublish m]"

definition ack :: "('q, 'z) role_env_scheme \<Rightarrow> delivery \<Rightarrow> ('q world, unit) eff" where
  "ack env x = qcall env (\<lambda>ops. q_ack ops x) [EvAck x]"

definition nack :: "('q, 'z) role_env_scheme \<Rightarrow> delivery \<Rightarrow> int \<Rightarrow> ('q world, unit) eff" where
  "nack env x delay = qcall env (\<lambda>ops. q_nack ops x delay) [EvNack x delay]"

definition deadLetter :: "('q, 'z) role_env_scheme \<Rightarrow> delivery \<Rightarrow> string \<Rightarrow> ('q world, unit) eff" where
  "deadLetter env x why = qcall env (\<lambda>ops. q_deadLetter ops x why) [EvDeadLetter x why]"

definition sleep :: "int \<Rightarrow> ('q world, unit) eff" where
  "sleep ms = bindM (emit (EvSleep ms)) (\<lambda>_. ask (\<lambda>_. Ok ()))"

text \<open>The statements as the roles call them.\<close>

definition sql_find :: "('q, 'z) role_env_scheme \<Rightarrow> chainId \<Rightarrow> string \<Rightarrow> ('q world, transaction_record option) eff" where
  "sql_find env c h = sql env (\<lambda>t u d. (Ok (findBySourceEvent d c h), d))"

definition sql_insert :: "('q, 'z) role_env_scheme \<Rightarrow> insert_pending_input \<Rightarrow> ('q world, transaction_record) eff" where
  "sql_insert env i = sql env (\<lambda>t u d. insertPending u t d i)"

definition sql_submitted ::
  "('q, 'z) role_env_scheme \<Rightarrow> nat \<Rightarrow> string \<Rightarrow> string \<Rightarrow> nat \<Rightarrow> ('q world, bool) eff" where
  "sql_submitted env i h w n = sql env (\<lambda>t u d. total_stmt (markSubmitted t d i h w n))"

definition sql_confirmed :: "('q, 'z) role_env_scheme \<Rightarrow> nat \<Rightarrow> ('q world, bool) eff" where
  "sql_confirmed env i = sql env (\<lambda>t u d. total_stmt (markConfirmed t d i))"

definition sql_touch :: "('q, 'z) role_env_scheme \<Rightarrow> nat \<Rightarrow> ('q world, unit) eff" where
  "sql_touch env i = sql env (\<lambda>t u d. (Ok (), touch t d i))"

definition sql_increment :: "('q, 'z) role_env_scheme \<Rightarrow> nat \<Rightarrow> ('q world, (nat \<times> nat) option) eff" where
  "sql_increment env i = sql env (\<lambda>t u d. total_stmt (incrementRetry t d i))"

definition sql_failed :: "('q, 'z) role_env_scheme \<Rightarrow> nat \<Rightarrow> string \<Rightarrow> ('q world, (nat \<times> nat) option) eff" where
  "sql_failed env i msg = sql env (\<lambda>t u d. total_stmt (markFailed t d i msg))"

definition sql_dead :: "('q, 'z) role_env_scheme \<Rightarrow> nat \<Rightarrow> string \<Rightarrow> ('q world, bool) eff" where
  "sql_dead env i msg = sql env (\<lambda>t u d. total_stmt (markDeadLetter t d i msg))"

lemmas sql_stmt_defs = sql_find_def sql_insert_def sql_submitted_def sql_confirmed_def sql_touch_def
  sql_increment_def sql_failed_def sql_dead_def

subsection \<open>Rows and messages (\<open>roles/shared.ts\<close>)\<close>

definition recordToMessage :: "transaction_record \<Rightarrow> relay_message" where
  "recordToMessage rec =
     \<lparr>transaction_hash = eventTxHash rec,
      chain_id = sourceChainId rec,
      msg_relayer_address = relayerAddress rec,
      transaction_data = recPayload rec,
      msg_retry_count = retryCount rec,
      replace_nonce = None\<rparr>"

definition recordPayload :: "transaction_record \<Rightarrow> relay_payload" where
  "recordPayload rec = recPayload rec"

subsection \<open>How a role moves the world\<close>

text \<open>
  \<open>fair_env\<close>: what the other sessions commit between two statements is itself a run of the
  repository's statements. Under it every role moves the database by such a run, extends
  the trace and never turns the counter back (\<open>world_le\<close>).
\<close>

definition fair_env :: "('q, 'z) role_env_scheme \<Rightarrow> bool" where
  "fair_env env \<longleftrightarrow> (\<forall>k d. repo_steps d (re_itf env k d))"

definition world_le :: "'q world \<Rightarrow> 'q world \<Rightarrow> bool" where
  "world_le w w' \<longleftrightarrow> repo_steps (wdb w) (wdb w') \<and> wtick w \<le> wtick w' \<and>
     (\<exists>evs. wtrace w' = wtrace w @ evs)"

lemma world_le_refl [simp]: "world_le w w"
  by (simp add: world_le_def)

lemma world_le_trans: "world_le a b \<Longrightarrow> world_le b c \<Longrightarrow> world_le a c"
  unfolding world_le_def by (metis append.assoc order_trans rtranclp_trans)

definition stmt_ok :: "(int \<Rightarrow> nat \<Rightarrow> db \<Rightarrow> 'a res \<times> db) \<Rightarrow> bool" where
  "stmt_ok st \<longleftrightarrow> (\<forall>t u d. repo_steps d (snd (st t u d)))"

lemma stmt_ok_repo:
  "stmt_ok (\<lambda>t u d. (Ok (f d), d))"
  "stmt_ok (\<lambda>t u d. insertPending u t d i)"
  "stmt_ok (\<lambda>t u d. total_stmt (markSubmitted t d j h w n))"
  "stmt_ok (\<lambda>t u d. total_stmt (markConfirmed t d j))"
  "stmt_ok (\<lambda>t u d. (Ok (), touch t d j))"
  "stmt_ok (\<lambda>t u d. total_stmt (incrementRetry t d j))"
  "stmt_ok (\<lambda>t u d. total_stmt (markFailed t d j m))"
  "stmt_ok (\<lambda>t u d. total_stmt (markDeadLetter t d j m))"
  by (auto simp: stmt_ok_def total_stmt_def intro: repo_step.intros)

text \<open>
  What is proved of a role's code for every relation that the four kinds of interaction
  respect. The relations are \<open>world_le\<close> and the order of the interaction counter.
\<close>

locale role_moves = preorder_effects R for R :: "'q world \<Rightarrow> 'q world \<Rightarrow> bool" +
  fixes env :: "('q, 'z) role_env_scheme"
  assumes sql_moves: "\<And>st :: int \<Rightarrow> nat \<Rightarrow> db \<Rightarrow> unit res \<times> db. stmt_ok st \<Longrightarrow> moves R (sql env st)"
    and qcall_moves: "\<And>op :: 'q queue_ops \<Rightarrow> 'q \<Rightarrow> unit res \<times> 'q. moves R (qcall env op evs)"
    and tick_moves: "R w (w\<lparr>wtick := wtick w + 1\<rparr>)"
    and emit_moves: "moves R (emit e)"
begin

text \<open>The laws at one result type give them at every other: only the state counts.\<close>

lemma sql_moves_any:
  assumes "stmt_ok st"
  shows "moves R (sql env st)"
proof -
  let ?st = "\<lambda>t u d. map_prod (map_sum id (\<lambda>_. ())) id (st t u d)"
  have "stmt_ok ?st" using assms by (simp add: stmt_ok_def)
  moreover have "snd (sql env ?st w) = snd (sql env st w)" for w
    by (simp add: sql_def Let_def split: option.splits prod.splits)
  ultimately show ?thesis using sql_moves [of ?st] by (simp add: moves_def)
qed

lemma qcall_moves_any: "moves R (qcall env op evs)"
proof -
  let ?op = "\<lambda>ops q. map_prod (map_sum id (\<lambda>_. ())) id (op ops q)"
  have "snd (qcall env ?op evs w) = snd (qcall env op evs w)" for w
    by (simp add: qcall_def isl_map_sum split: prod.splits)
  then show ?thesis using qcall_moves [of ?op evs] by (simp add: moves_def)
qed

lemma ask_moves: "moves R (ask f)"
  using tick_moves by (simp add: moves_def ask_def)

lemma queue_moves:
  "moves R (publish env m)" "moves R (ack env x)" "moves R (nack env x delay)"
  "moves R (deadLetter env x why)" "moves R (sleep ms)"
  by (auto simp: publish_def ack_def nack_def deadLetter_def sleep_def
      intro: qcall_moves_any moves_bind ask_moves emit_moves)

lemma stmts_moves:
  "moves R (sql_find env c h)" "moves R (sql_insert env i)" "moves R (sql_submitted env j h w n)"
  "moves R (sql_confirmed env j)" "moves R (sql_touch env j)" "moves R (sql_increment env j)"
  "moves R (sql_failed env j m)" "moves R (sql_dead env j m)"
  unfolding sql_stmt_defs by (rule sql_moves_any, rule stmt_ok_repo)+

lemmas role_intros = moves_intros stmts_moves queue_moves ask_moves emit_moves qcall_moves_any

end

definition fair_le :: "('q, 'z) role_env_scheme \<Rightarrow> 'q world \<Rightarrow> 'q world \<Rightarrow> bool" where
  "fair_le env w w' \<longleftrightarrow> (fair_env env \<longrightarrow> world_le w w')"

definition tick_le :: "'q world \<Rightarrow> 'q world \<Rightarrow> bool" where
  "tick_le w w' \<longleftrightarrow> wtick w \<le> wtick w'"

lemma sql_Ok:
  assumes "sql env st w = (Ok y, w')"
  shows "st (re_clock env (wtick w)) (re_uuid env (wtick w)) (re_itf env (wtick w) (wdb w)) = (Ok y, wdb w')"
  using assms by (auto simp: sql_def Let_def split: option.splits prod.splits)

lemma sql_repo_steps:
  assumes "fair_env env" and "stmt_ok st"
  shows "repo_steps (wdb w) (wdb (snd (sql env st w)))"
proof -
  let ?d = "re_itf env (wtick w) (wdb w)"
  have "repo_steps (wdb w) ?d" using assms(1) by (simp add: fair_env_def)
  moreover have "repo_steps ?d (snd (st t u ?d))" for t u using assms(2) by (simp add: stmt_ok_def)
  ultimately have "repo_steps (wdb w) ?d \<and> repo_steps (wdb w) (snd (st t u ?d))" for t u
    by (blast intro: rtranclp_trans)
  then show ?thesis by (simp add: sql_def Let_def split: option.splits prod.splits) (metis snd_conv)
qed

interpretation fair: role_moves "fair_le env" env for env
proof
  fix w t u :: "'a world" and st :: "int \<Rightarrow> nat \<Rightarrow> db \<Rightarrow> unit res \<times> db" and evs e
    and op :: "'a queue_ops \<Rightarrow> 'a \<Rightarrow> unit res \<times> 'a"
  show "fair_le env w w" by (simp add: fair_le_def)
  show "fair_le env w t \<Longrightarrow> fair_le env t u \<Longrightarrow> fair_le env w u"
    by (auto simp: fair_le_def intro: world_le_trans)
  show "stmt_ok st \<Longrightarrow> moves (fair_le env) (sql env st)"
    using sql_repo_steps [of env st]
    by (auto simp: moves_def fair_le_def world_le_def)
       (auto simp: sql_def Let_def split: option.splits prod.splits)
  show "moves (fair_le env) (qcall env op evs)"
    by (auto simp: moves_def qcall_def fair_le_def world_le_def split: prod.splits)
  show "fair_le env w (w\<lparr>wtick := wtick w + 1\<rparr>)"
    by (simp add: fair_le_def world_le_def)
  show "moves (fair_le env) (emit e)"
    by (simp add: moves_def emit_def fair_le_def world_le_def)
qed

interpretation tick: role_moves tick_le env for env
  by unfold_locales
     (auto simp: tick_le_def moves_def sql_def qcall_def emit_def Let_def
       split: option.splits prod.splits)

end
