(* ===== verification/Wallet_Pool.thy ===== *)
theory Wallet_Pool
  imports Transactions_Repo Complex_Main "HOL-Library.Multiset"
begin

section \<open>The wallet pool: advisory locks and nonce reservation\<close>

text \<open>
  \<open>db/advisoryLock.ts\<close> (the lock keys and \<open>withLeaderLock\<close>) and
  \<open>wallet/walletPool.ts\<close>. What the outside answers is an argument: the random numbers of
  the shuffle, the chain's pending nonces, and which advisory locks are free. A reservation
  runs in one database transaction: it returns the new table, or the old one with the error
  that rolled it back. A signer is the wallet's address.
\<close>

subsection \<open>Advisory locks\<close>

definition asIntN64 :: "int \<Rightarrow> int" where
  "asIntN64 v = (let m = v mod 2 ^ 64 in if m < 2 ^ 63 then m else m - 2 ^ 64)"

definition advisoryKey :: "ethers \<Rightarrow> string \<Rightarrow> int res" where
  "advisoryKey eth nm =
     (case js_BigInt (take 18 (keccak256 eth (toUtf8Bytes eth nm))) of
        None \<Rightarrow> Throw (new_error ForeignError ''Cannot convert to a BigInt'')
      | Some v \<Rightarrow> Ok (asIntN64 v))"

lemma asIntN64_range: "- (2 ^ 63) \<le> asIntN64 v \<and> asIntN64 v < 2 ^ 63"
  by (auto simp: asIntN64_def Let_def)

text \<open>
  \<open>withLeaderLock\<close>: the answer of \<open>pg_try_advisory_lock\<close> (or the error of that query),
  the body, and whether the unlock query fails. The result is the function's result, the
  state the body left, and how the connection goes back to the pool: recycled, or destroyed
  so that Postgres drops a lock it may still hold.
\<close>

datatype release = Recycle | Destroy

definition withLeaderLock ::
  "bool res \<Rightarrow> (unit \<Rightarrow> js_error option) \<Rightarrow> ('s \<Rightarrow> unit res \<times> 's) \<Rightarrow> 's \<Rightarrow> bool res \<times> 's \<times> release" where
  "withLeaderLock tryLock unlock fn s =
     (case tryLock of
        Inl err \<Rightarrow> (Throw err, s, Destroy)
      | Inr False \<Rightarrow> (Ok False, s, Recycle)
      | Inr True \<Rightarrow>
          (let (r, s') = fn s;
               rel = (case unlock () of None \<Rightarrow> Recycle | Some _ \<Rightarrow> Destroy)
           in (case r of Inl err \<Rightarrow> (Throw err, s', rel) | Inr _ \<Rightarrow> (Ok True, s', rel))))"

subsection \<open>Shuffling the candidates\<close>

definition swap_elems :: "nat \<Rightarrow> nat \<Rightarrow> 'a list \<Rightarrow> 'a list" where
  "swap_elems i j xs = (xs[i := xs ! j])[j := xs ! i]"

definition pick_index :: "(nat \<Rightarrow> rat) \<Rightarrow> nat \<Rightarrow> nat" where
  "pick_index rnd i = nat \<lfloor>rnd i * of_nat (i + 1)\<rfloor>"

fun shuffle_loop :: "(nat \<Rightarrow> rat) \<Rightarrow> nat \<Rightarrow> 'a list \<Rightarrow> 'a list" where
  "shuffle_loop rnd 0 xs = xs"
| "shuffle_loop rnd (Suc i) xs = shuffle_loop rnd i (swap_elems (Suc i) (pick_index rnd (Suc i)) xs)"

definition shuffled :: "(nat \<Rightarrow> rat) \<Rightarrow> 'a list \<Rightarrow> 'a list" where
  "shuffled rnd xs = shuffle_loop rnd (length xs - 1) xs"

subsection \<open>Reserving a nonce\<close>

record wallet_env =
  we_wallets :: "string list"
  we_random :: "nat \<Rightarrow> rat"
  we_hasProvider :: "chainId \<Rightarrow> bool"
  we_pendingNonce :: "chainId \<Rightarrow> string \<Rightarrow> nat res"
  we_lockFree :: "int \<Rightarrow> bool"

record lease =
  l_address :: string
  l_nonce :: nat
  l_signer :: string

definition live_for :: "string \<Rightarrow> chainId \<Rightarrow> row \<Rightarrow> bool" where
  "live_for a c r \<longleftrightarrow> wallet_used r = Some a \<and> destination_chain_id r = c \<and>
     status r \<in> {Submitting, Submitted, Confirmed}"

definition committed_nonces :: "db \<Rightarrow> string \<Rightarrow> chainId \<Rightarrow> nat list" where
  "committed_nonces d a c = List.map_filter nonce_used (filter (live_for a c) (transactions d))"

definition reserveNonce :: "db \<Rightarrow> string \<Rightarrow> chainId \<Rightarrow> nat \<Rightarrow> nat" where
  "reserveNonce d a c chainNonce =
     (let ns = committed_nonces d a c;
          dbNext = (if ns = [] then 0 else foldr max ns 0 + 1)
      in if chainNonce < dbNext \<and> chainNonce \<notin> set ns then chainNonce
         else max dbNext chainNonce)"

fun reserve_loop ::
  "ethers \<Rightarrow> wallet_env \<Rightarrow> chainId \<Rightarrow> (string \<Rightarrow> nat) \<Rightarrow> (db \<Rightarrow> string \<Rightarrow> nat \<Rightarrow> unit res \<times> db) \<Rightarrow>
   string list \<Rightarrow> db \<Rightarrow> lease res \<times> db" where
  "reserve_loop eth we c nonces rec [] d =
     (Throw (new_error AllWalletsBusyError ''all relayer wallets are currently leased''), d)"
| "reserve_loop eth we c nonces rec (w # ws) d =
     (case advisoryKey eth (w @ '':'' @ show_nat c) of
        Inl err \<Rightarrow> (Throw err, d)
      | Inr key \<Rightarrow>
          (if \<not> we_lockFree we key then reserve_loop eth we c nonces rec ws d
           else
             (let n = reserveNonce d w c (nonces w)
              in (case rec d w n of
                    (Inl err, _) \<Rightarrow> (Throw err, d)
                  | (Inr _, d') \<Rightarrow> (Ok \<lparr>l_address = w, l_nonce = n, l_signer = w\<rparr>, d')))))"

definition fetch_nonces :: "wallet_env \<Rightarrow> chainId \<Rightarrow> string list \<Rightarrow> (string \<times> nat) list res" where
  "fetch_nonces we c ws = map_res (\<lambda>w. bind_res (we_pendingNonce we c w) (\<lambda>n. Ok (w, n))) ws"

definition reserve ::
  "ethers \<Rightarrow> wallet_env \<Rightarrow> chainId \<Rightarrow> (db \<Rightarrow> string \<Rightarrow> nat \<Rightarrow> unit res \<times> db) \<Rightarrow> db \<Rightarrow> lease res \<times> db" where
  "reserve eth we c rec d =
     (if \<not> we_hasProvider we c
      then (Throw (new_error PlainError (''no provider for destination chain '' @ show_nat c)), d)
      else
        (let candidates = shuffled (we_random we) (we_wallets we)
         in (case fetch_nonces we c candidates of
               Inl err \<Rightarrow> (Throw err, d)
             | Inr ns \<Rightarrow> reserve_loop eth we c (\<lambda>w. the (map_of ns w)) rec candidates d)))"

definition signerFor :: "wallet_env \<Rightarrow> string \<Rightarrow> chainId \<Rightarrow> string res" where
  "signerFor we a c =
     (if \<not> we_hasProvider we c
      then Throw (new_error PlainError (''no provider for destination chain '' @ show_nat c))
      else (case find (\<lambda>w. toLowerCase w = toLowerCase a) (we_wallets we) of
              None \<Rightarrow> Throw (new_error UnknownWalletError (''wallet '' @ a @ '' is not in the pool''))
            | Some w \<Rightarrow> Ok w))"

definition createPgLockWalletPool ::
  "(string \<Rightarrow> string res) \<Rightarrow> (string \<Rightarrow> string res) \<Rightarrow> string list \<Rightarrow> string list res" where
  "createPgLockWalletPool getSecret walletAddress names =
     (if names = [] then Throw (new_error PlainError ''wallet pool requires at least one wallet secret name'')
      else map_res (\<lambda>nm. bind_res (getSecret nm) walletAddress) names)"

subsection \<open>The shuffle permutes\<close>

lemma mset_swap_elems:
  assumes "i < length xs" and "j < length xs"
  shows "mset (swap_elems i j xs) = mset xs"
  unfolding swap_elems_def by (rule mset_swap [OF assms(2,1)])

lemma pick_index_le:
  assumes "0 \<le> rnd i" and "rnd i < 1"
  shows "pick_index rnd i \<le> i"
proof -
  have "rnd i * of_nat (i + 1) < 1 * of_nat (i + 1)"
    using assms by (intro mult_strict_right_mono) simp_all
  then have "\<lfloor>rnd i * of_nat (i + 1)\<rfloor> < int (i + 1)" by (simp add: floor_less_iff)
  then show ?thesis unfolding pick_index_def by linarith
qed

lemma mset_shuffle_loop:
  assumes rnd: "\<And>k. 0 \<le> rnd k \<and> rnd k < 1" and "i < length xs"
  shows "mset (shuffle_loop rnd i xs) = mset xs"
  using assms(2)
proof (induction i arbitrary: xs)
  case 0
  then show ?case by simp
next
  case (Suc i)
  have "pick_index rnd (Suc i) \<le> Suc i" using rnd by (intro pick_index_le) auto
  with Suc.prems have "mset (swap_elems (Suc i) (pick_index rnd (Suc i)) xs) = mset xs"
    by (intro mset_swap_elems) simp_all
  moreover have "length (swap_elems (Suc i) (pick_index rnd (Suc i)) xs) = length xs"
    by (simp add: swap_elems_def)
  ultimately show ?case using Suc by simp
qed

lemma mset_shuffled:
  assumes "\<And>k. 0 \<le> rnd k \<and> rnd k < 1"
  shows "mset (shuffled rnd xs) = mset xs"
  using mset_shuffle_loop [OF assms, of "length xs - 1" xs] by (cases xs) (simp_all add: shuffled_def)

subsection \<open>Fresh nonces\<close>

lemma foldr_max_ge: "n \<in> set ns \<Longrightarrow> n \<le> foldr max ns (0 :: nat)"
  by (induction ns) auto

lemma committed_nonces_iff:
  "n \<in> set (committed_nonces d a c) \<longleftrightarrow>
     (\<exists>r \<in> set (transactions d). live_for a c r \<and> nonce_used r = Some n)"
  by (force simp: committed_nonces_def map_filter_def)

lemma reserveNonce_fresh: "reserveNonce d a c k \<notin> set (committed_nonces d a c)"
proof -
  have "n < foldr max ns 0 + 1" if "n \<in> set ns" for n and ns :: "nat list"
    using foldr_max_ge [OF that] by simp
  then show ?thesis by (fastforce simp: reserveNonce_def Let_def max_def split: if_splits)
qed

lemma reserveNonce_ge: "k \<le> reserveNonce d a c k"
  by (simp add: reserveNonce_def Let_def)

text \<open>
  \<open>holds_nonce\<close>: the rows whose nonce is spoken for, the live ones and the reverted ones
  (\<open>failed\<close> with the nonce their mined transaction used).
\<close>

definition holds_nonce :: "row \<Rightarrow> string \<Rightarrow> chainId \<Rightarrow> nat \<Rightarrow> bool" where
  "holds_nonce r a c n \<longleftrightarrow>
     wallet_used r = Some a \<and> destination_chain_id r = c \<and> nonce_used r = Some n \<and>
     status r \<in> {Submitting, Submitted, Confirmed, Failed}"

definition nonces_distinct :: "db \<Rightarrow> bool" where
  "nonces_distinct d \<longleftrightarrow>
     (\<forall>r \<in> set (transactions d). \<forall>r' \<in> set (transactions d). \<forall>a c n.
        holds_nonce r a c n \<longrightarrow> holds_nonce r' a c n \<longrightarrow> row_id r = row_id r')"

text \<open>A reverted transaction was mined, so its nonce lies below the chain's pending nonce.\<close>

definition reverted_mined :: "db \<Rightarrow> string \<Rightarrow> chainId \<Rightarrow> nat \<Rightarrow> bool" where
  "reverted_mined d a c chainNonce \<longleftrightarrow>
     (\<forall>r \<in> set (transactions d). \<forall>n. status r = Failed \<longrightarrow> holds_nonce r a c n \<longrightarrow> n < chainNonce)"

lemma reserveNonce_unheld:
  assumes "reverted_mined d a c k" and "r \<in> set (transactions d)"
  shows "\<not> holds_nonce r a c (reserveNonce d a c k)"
proof
  assume h: "holds_nonce r a c (reserveNonce d a c k)"
  show False
  proof (cases "status r = Failed")
    case True
    with h assms have "reserveNonce d a c k < k" by (auto simp: reverted_mined_def)
    then show False using reserveNonce_ge [of k d a c] by simp
  next
    case False
    with h assms(2) have "reserveNonce d a c k \<in> set (committed_nonces d a c)"
      unfolding committed_nonces_iff live_for_def holds_nonce_def by auto
    then show False using reserveNonce_fresh by blast
  qed
qed

lemma ball_pairs_image:
  assumes "\<And>r r' a c n. r \<in> S \<Longrightarrow> r' \<in> S \<Longrightarrow> P (g r) a c n \<Longrightarrow> P (g r') a c n \<Longrightarrow> f (g r) = f (g r')"
  shows "\<forall>x \<in> g ` S. \<forall>y \<in> g ` S. \<forall>a c n. P x a c n \<longrightarrow> P y a c n \<longrightarrow> f x = f y"
  using assms by blast

text \<open>An update that gives no row a nonce it did not hold keeps the nonces distinct.\<close>

lemma nonces_distinct_update:
  assumes "nonces_distinct d"
    and "\<And>r a c n. r \<in> set (transactions d) \<Longrightarrow> matches i sts r \<Longrightarrow> holds_nonce (f r) a c n \<Longrightarrow>
           row_id (f r) = row_id r \<and>
           (holds_nonce r a c n \<or> (\<forall>r' \<in> set (transactions d). holds_nonce r' a c n \<longrightarrow> row_id r' = i))"
  shows "nonces_distinct (snd (update_rows i sts f d))"
proof -
  let ?g = "\<lambda>r. if matches i sts r then f r else r"
  have id: "row_id (?g r) = row_id r" and or: "holds_nonce r a c n \<or> row_id r = i \<and>
      (\<forall>r' \<in> set (transactions d). holds_nonce r' a c n \<longrightarrow> row_id r' = i)"
    if "r \<in> set (transactions d)" "holds_nonce (?g r) a c n" for r a c n
    using assms(2) [OF that(1), of a c n] that by (auto simp: matches_def split: if_splits)
  have old: "row_id r = row_id r'"
    if "r \<in> set (transactions d)" "r' \<in> set (transactions d)" "holds_nonce r a c n" "holds_nonce r' a c n"
    for r r' a c n
    using assms(1) that unfolding nonces_distinct_def by blast
  have new: "row_id (?g r) = row_id (?g r')"
    if m: "r \<in> set (transactions d)" "r' \<in> set (transactions d)"
      and h: "holds_nonce (?g r) a c n" "holds_nonce (?g r') a c n" for r r' a c n
  proof -
    have "row_id r = row_id r'"
      using or [OF m(1) h(1)] or [OF m(2) h(2)] old [OF m, of a c n] m by (elim disjE) simp_all
    then show ?thesis using id [OF m(1) h(1)] id [OF m(2) h(2)] by simp
  qed
  show ?thesis unfolding nonces_distinct_def update_rows_transactions set_map
    by (rule ball_pairs_image) (rule new)
qed

lemma markSubmitting_keeps_nonces:
  assumes "nonces_distinct d" and "wf_db d"
    and free: "\<And>r c. r \<in> set (transactions d) \<Longrightarrow> row_id r = i \<Longrightarrow> c = destination_chain_id r \<Longrightarrow>
      (\<forall>r' \<in> set (transactions d). \<not> holds_nonce r' w c n)"
  shows "nonces_distinct (snd (markSubmitting t d i w n))"
  unfolding markSubmitting_def updated_any_snd
  by (rule nonces_distinct_update [OF assms(1)])
     (use free in \<open>auto simp: holds_nonce_def matches_def\<close>)

end
