(* ===== verification/Worker.thy ===== *)
theory Worker
  imports Role_World Wallet_Pool
begin

section \<open>The worker role\<close>

text \<open>
  \<open>roles/worker.ts\<close>: one queue delivery is processed under its message lock (idempotency
  guard, pending row, \<open>prepare\<close>, nonce reservation, \<open>broadcast\<close>, record, settle), and each
  partition is drained one message at a time under the partition lock. The delivery module
  and the wallet pool's surroundings are fields of \<open>worker_deps\<close>, indexed by the
  interaction number; \<open>Delivery_Module\<close> and \<open>Wallet_Pool\<close> define the code behind them.
  The optional test seams (\<open>runUnderMessageLock\<close>, \<open>runUnderPartitionLock\<close>, \<open>sleep\<close>) take
  their production values. A reservation is one database transaction and is atomic here.
\<close>

record 'q worker_deps = "'q role_env" +
  wd_prepare :: "nat \<Rightarrow> prepare_request \<Rightarrow> prepare_result res"
  wd_broadcast :: "nat \<Rightarrow> prepared_delivery \<Rightarrow> string \<Rightarrow> nat \<Rightarrow> string res"
  wd_wallets :: "nat \<Rightarrow> wallet_env"
  wd_hasPool :: bool
  wd_tryLock :: "nat \<Rightarrow> int \<Rightarrow> bool res"
  wd_unlock :: "nat \<Rightarrow> js_error option"
  wd_lockLost :: "nat \<Rightarrow> bool"

definition messageToInsert :: "relay_message \<Rightarrow> nat \<Rightarrow> insert_pending_input" where
  "messageToInsert m maxR =
     \<lparr>in_sourceChainId = chain_id m,
      in_destinationChainId = rp_dstChain (transaction_data m),
      in_relayerAddress = msg_relayer_address m,
      in_eventTxHash = transaction_hash m,
      in_payload = transaction_data m,
      in_maxRetries = maxR\<rparr>"

subsection \<open>Failures\<close>

definition handleSubmittingFailure ::
  "'q worker_deps \<Rightarrow> delivery \<Rightarrow> transaction_record \<Rightarrow> js_error \<Rightarrow> ('q world, unit) eff" where
  "handleSubmittingFailure deps x rec err =
     (if ekind err = PermanentDeliveryError then
        bindM (sql_dead deps (recId rec) (emessage err)) (\<lambda>_. deadLetter deps x (emessage err))
      else if ekind err = DeferDeliveryError then
        bindM (sql_touch deps (recId rec)) (\<lambda>_.
          nack deps x (int (vaaPollIntervalMs (re_config deps))))
      else
        bindM (sql_increment deps (recId rec)) (\<lambda>budget.
          case budget of
            None \<Rightarrow> ack deps x
          | Some (rc, mx) \<Rightarrow>
              (if mx \<le> rc then
                 bindM (sql_dead deps (recId rec) (emessage err)) (\<lambda>_. deadLetter deps x (emessage err))
               else
                 bindM (ask (\<lambda>k. Ok (computeBackoffDelayMs (int rc) default_backoff (re_jitter deps k))))
                   (nack deps x))))"

definition handleDeliveryFailure ::
  "'q worker_deps \<Rightarrow> delivery \<Rightarrow> transaction_record \<Rightarrow> js_error \<Rightarrow> ('q world, unit) eff" where
  "handleDeliveryFailure deps x rec err =
     (if ekind err = AllWalletsBusyError then
        bindM (sql_touch deps (recId rec)) (\<lambda>_.
        bindM (ask (\<lambda>k. Ok (computeBackoffDelayMs (int (deliveryAttempt x)) default_backoff (re_jitter deps k))))
          (nack deps x))
      else if ekind err = DeferDeliveryError then
        bindM (ask (\<lambda>k. Ok (re_now deps k - createdAt rec))) (\<lambda>ageMs.
          if vaaTimeoutMs (re_config deps) < ageMs then
            (let reason = ''defer timeout after '' @ show_int ageMs @ ''ms: '' @ emessage err
             in bindM (sql_failed deps (recId rec) reason) (\<lambda>_.
                bindM (sql_dead deps (recId rec) reason) (\<lambda>_. deadLetter deps x reason)))
          else
            bindM (sql_touch deps (recId rec)) (\<lambda>_.
              nack deps x (int (vaaPollIntervalMs (re_config deps)))))
      else if ekind err = PermanentDeliveryError then
        bindM (sql_failed deps (recId rec) (emessage err)) (\<lambda>_.
        bindM (sql_dead deps (recId rec) (emessage err)) (\<lambda>_. deadLetter deps x (emessage err)))
      else
        bindM (sql_failed deps (recId rec) (emessage err)) (\<lambda>failure.
          if (case failure of None \<Rightarrow> True | Some (rc, mx) \<Rightarrow> mx \<le> rc) then
            bindM (sql_dead deps (recId rec) (emessage err)) (\<lambda>_. deadLetter deps x (emessage err))
          else
            bindM (ask (\<lambda>k. Ok (computeBackoffDelayMs (int (fst (the failure))) default_backoff (re_jitter deps k))))
              (nack deps x)))"

subsection \<open>One delivery\<close>

text \<open>The idempotency guard.\<close>

definition skip :: "relay_message \<Rightarrow> tx_status \<Rightarrow> bool" where
  "skip m st \<longleftrightarrow> st = Confirmed \<or> st = Dead_letter \<or> (st = Submitted \<and> replace_nonce m = None)"

definition resubmitNonce :: "relay_message \<Rightarrow> transaction_record \<Rightarrow> nat option" where
  "resubmitNonce m rec =
     (case replace_nonce m of
        Some n \<Rightarrow> Some n
      | None \<Rightarrow> (if recStatus rec = Submitting then nonceUsed rec else None))"

definition isResubmit :: "relay_message \<Rightarrow> transaction_record \<Rightarrow> bool" where
  "isResubmit m rec \<longleftrightarrow> resubmitNonce m rec \<noteq> None \<and> walletUsed rec \<noteq> None"

definition routePreCommitFailure ::
  "'q worker_deps \<Rightarrow> delivery \<Rightarrow> transaction_record \<Rightarrow> js_error \<Rightarrow> ('q world, unit) eff" where
  "routePreCommitFailure deps x rec err =
     (if isResubmit (message x) rec then handleSubmittingFailure deps x rec err
      else handleDeliveryFailure deps x rec err)"

text \<open>Phase 2a: the committed nonce of a resubmit, or a reservation that commits \<open>submitting\<close>.\<close>

definition commitReservation :: "int \<Rightarrow> nat \<Rightarrow> db \<Rightarrow> string \<Rightarrow> nat \<Rightarrow> unit res \<times> db" where
  "commitReservation t i d w n =
     (case markSubmitting t d i w n of
        (True, d') \<Rightarrow> (Ok (), d')
      | (False, d') \<Rightarrow> (Throw (new_error PlainError
           (''markSubmitting updated no row for '' @ show_nat i @ '' (status changed concurrently)'')), d'))"

definition secureNonce ::
  "'q worker_deps \<Rightarrow> delivery \<Rightarrow> transaction_record \<Rightarrow> ('q world, lease) eff" where
  "secureNonce deps x rec =
     (if isResubmit (message x) rec then
        bindM (ask (\<lambda>k. signerFor (wd_wallets deps k) (the (walletUsed rec)) (destinationChainId rec))) (\<lambda>signer.
          returnM \<lparr>l_address = the (walletUsed rec), l_nonce = the (resubmitNonce (message x) rec),
                   l_signer = signer\<rparr>)
      else (\<lambda>w. sql deps (\<lambda>t u d. reserve (re_eth deps) (wd_wallets deps (wtick w))
                  (destinationChainId rec) (commitReservation t (recId rec)) d) w))"

text \<open>Phase 2b: broadcast and record.\<close>

definition broadcastAndRecord ::
  "'q worker_deps \<Rightarrow> delivery \<Rightarrow> transaction_record \<Rightarrow> prepared_delivery \<Rightarrow> lease \<Rightarrow> ('q world, unit) eff" where
  "broadcastAndRecord deps x rec ready l =
     bindM (emit (EvBroadcast (destinationChainId rec) (l_signer l) (l_nonce l))) (\<lambda>_.
     attemptM (ask (\<lambda>k. wd_broadcast deps k ready (l_signer l) (l_nonce l)))
       (\<lambda>txHash.
          bindM (sql_submitted deps (recId rec) txHash (l_address l) (l_nonce l)) (\<lambda>recorded.
            if \<not> recorded then
              bindM (emit (EvAlert ''tx.submitted_record_lost'')) (\<lambda>_. ack deps x)
            else ack deps x))
       (handleSubmittingFailure deps x rec))"

definition deliver ::
  "'q worker_deps \<Rightarrow> delivery \<Rightarrow> transaction_record \<Rightarrow> ('q world, unit) eff" where
  "deliver deps x rec =
     attemptM (ask (\<lambda>k. wd_prepare deps k
         \<lparr>pq_destinationChainId = destinationChainId rec, pq_payload = recordPayload rec,
          pq_retryAttempt = retryCount rec\<rparr>))
       (\<lambda>prepared. case prepared of
            AlreadyConsumed \<Rightarrow> bindM (sql_confirmed deps (recId rec)) (\<lambda>_. ack deps x)
          | ReadyToSend ready \<Rightarrow>
              attemptM (secureNonce deps x rec) (broadcastAndRecord deps x rec ready)
                (routePreCommitFailure deps x rec))
       (routePreCommitFailure deps x rec)"

definition processDelivery :: "'q worker_deps \<Rightarrow> delivery \<Rightarrow> ('q world, unit) eff" where
  "processDelivery deps x =
     (let m = message x in
      bindM (sql_find deps (chain_id m) (transaction_hash m)) (\<lambda>existing.
        if (case existing of None \<Rightarrow> False | Some rec \<Rightarrow> skip m (recStatus rec)) then ack deps x
        else
          bindM (case existing of
                   Some rec \<Rightarrow> returnM rec
                 | None \<Rightarrow> sql_insert deps (messageToInsert m (maxRetries_cfg (re_config deps)))) (\<lambda>rec.
            if skip m (recStatus rec) then ack deps x
            else if replace_nonce m \<noteq> None \<and> nonceUsed rec \<noteq> replace_nonce m then ack deps x
            else deliver deps x rec)))"

definition under_lock ::
  "'q worker_deps \<Rightarrow> int \<Rightarrow> ('q world, unit) eff \<Rightarrow> ('q world, bool) eff" where
  "under_lock deps key fn w =
     (if \<not> wd_hasPool deps then bindM fn (\<lambda>_. returnM True) w
      else
        (let k = wtick w;
             (r, w', rel) = withLeaderLock (wd_tryLock deps k key) (\<lambda>_. wd_unlock deps k) fn
                              (w\<lparr>wtick := k + 1\<rparr>)
         in (r, w')))"

definition handleDelivery :: "'q worker_deps \<Rightarrow> delivery \<Rightarrow> ('q world, unit) eff" where
  "handleDelivery deps x =
     (let m = message x in
      bindM (liftM (advisoryKey (re_eth deps)
              (''msg:'' @ show_nat (chain_id m) @ '':'' @ transaction_hash m))) (\<lambda>key.
      bindM (under_lock deps key (processDelivery deps x)) (\<lambda>_. returnM ())))"

subsection \<open>Draining a partition\<close>

definition handle_logged :: "'q worker_deps \<Rightarrow> delivery \<Rightarrow> ('q world, unit) eff" where
  "handle_logged deps x = attemptM (handleDelivery deps x) returnM (\<lambda>_. returnM ())"

text \<open>One round of the loop; \<open>True\<close> when it broke out before consuming.\<close>

definition stand_down :: "'q worker_deps \<Rightarrow> 'q world \<Rightarrow> bool" where
  "stand_down deps w \<longleftrightarrow> re_aborted deps (wtick w) \<or> (wd_hasPool deps \<and> wd_lockLost deps (wtick w))"

definition drain_round :: "'q worker_deps \<Rightarrow> chainId \<Rightarrow> ('q world, bool) eff" where
  "drain_round deps p =
     bindM (qcall deps (\<lambda>ops. q_reclaim ops p 1) []) (\<lambda>ds.
     bindM (forM ds (handle_logged deps)) (\<lambda>_ w.
       if stand_down deps w then (Ok True, w)
       else
         bindM (qcall deps (\<lambda>ops. q_consume ops p 1) []) (\<lambda>ds'.
         bindM (forM ds' (handle_logged deps)) (\<lambda>_.
         bindM (emit EvHeartbeat) (\<lambda>_. returnM False))) w))"

partial_function (option) drainPartition ::
  "'q worker_deps \<Rightarrow> chainId \<Rightarrow> 'q world \<Rightarrow> (unit res \<times> 'q world) option" where
  "drainPartition deps p w =
     (if stand_down deps w then Some (Ok (), w)
      else (case drain_round deps p w of
              (r, w') \<Rightarrow>
                (if isl r then Some (Throw (projl r), w')
                 else if projr r then Some (Ok (), w')
                 else drainPartition deps p w')))"

text \<open>
  \<open>runWorker\<close> starts one such loop per partition; the loops of the other partitions are
  among the other sessions of \<open>re_itf\<close>.
\<close>

definition released ::
  "bool res \<Rightarrow> js_error option \<Rightarrow> unit res \<times> 'q world \<Rightarrow> 'q world \<Rightarrow> bool res \<times> 'q world" where
  "released lock unlock rw w =
     (case withLeaderLock lock (\<lambda>_. unlock) (\<lambda>_. rw) w of (r, w', rel) \<Rightarrow> (r, w'))"

definition owned_result :: "unit res \<times> 'q world \<Rightarrow> bool res \<times> 'q world" where
  "owned_result = map_prod (map_sum id (\<lambda>_. True)) id"

definition partition_turn ::
  "'q worker_deps \<Rightarrow> chainId \<Rightarrow> 'q world \<Rightarrow> (bool res \<times> 'q world) option" where
  "partition_turn deps p w =
     (if \<not> wd_hasPool deps then map_option owned_result (drainPartition deps p w)
      else (case advisoryKey (re_eth deps) (''partition:'' @ show_nat p) of
              Inl err \<Rightarrow> Some (Throw err, w)
            | Inr key \<Rightarrow>
                (let k = wtick w; w1 = w\<lparr>wtick := k + 1\<rparr>; lock = wd_tryLock deps k key in
                 if lock = Ok True
                 then map_option (\<lambda>rw. released lock (wd_unlock deps k) rw w1) (drainPartition deps p w1)
                 else Some (released lock (wd_unlock deps k) (Ok (), w1) w1))))"

partial_function (option) run_partition ::
  "'q worker_deps \<Rightarrow> int \<Rightarrow> chainId \<Rightarrow> 'q world \<Rightarrow> 'q world option" where
  "run_partition deps retryMs p w =
     (if re_aborted deps (wtick w) then Some w
      else Option.bind (partition_turn deps p w) (\<lambda>(r, w1).
        if r = Ok True then run_partition deps retryMs p w1
        else if re_aborted deps (wtick w1) then Some w1
        else run_partition deps retryMs p
               (snd (sleep retryMs (if isl r then w1 else snd (emit EvHeartbeat w1))))))"

lemma released_simps:
  "released (Ok True) ul rw w = owned_result rw"
  "lock \<noteq> Ok True \<Longrightarrow> released lock ul rw w = (lock, w)"
  by (cases rw; cases "fst rw"; cases lock;
      auto simp: released_def owned_result_def withLeaderLock_def Let_def split: bool.splits)+

lemma owned_result_eq: "owned_result rw = (r, w') \<longleftrightarrow> r = map_sum id (\<lambda>_. True) (fst rw) \<and> w' = snd rw"
  by (cases rw) (auto simp: owned_result_def)

declare drainPartition.simps [code]

declare run_partition.simps [code]

subsection \<open>The database under a worker\<close>

lemma commitReservation_steps: "repo_steps d (snd (commitReservation t i d w n))"
proof -
  have "snd (commitReservation t i d w n) = snd (markSubmitting t d i w n)"
    by (cases "markSubmitting t d i w n") (auto simp: commitReservation_def split: bool.splits)
  then show ?thesis using step_submitting by (metis r_into_rtranclp)
qed

lemma reserve_loop_steps:
  assumes "\<And>d w n. repo_steps d (snd (rec d w n))"
  shows "repo_steps d (snd (reserve_loop eth we c nonces rec ws d))"
proof (induction ws)
  case Nil
  then show ?case by simp
next
  case (Cons w ws)
  have "repo_steps d (snd (rec d w (reserveNonce d w c (nonces w))))" by (rule assms)
  with Cons show ?case by (auto simp: Let_def split: sum.splits prod.splits)
qed

lemma reserve_steps:
  assumes "\<And>d w n. repo_steps d (snd (rec d w n))"
  shows "repo_steps d (snd (reserve eth we c rec d))"
  using reserve_loop_steps [of rec, OF assms] by (auto simp: reserve_def Let_def split: sum.splits)

locale worker_moves = role_moves R deps
  for R :: "'q world \<Rightarrow> 'q world \<Rightarrow> bool" and deps :: "'q worker_deps"
begin

lemma submitting_failure_moves: "moves R (handleSubmittingFailure deps x rec err)"
  unfolding handleSubmittingFailure_def by (intro role_intros)

lemma delivery_failure_moves: "moves R (handleDeliveryFailure deps x rec err)"
  unfolding handleDeliveryFailure_def Let_def by (intro role_intros)

lemma secure_moves: "moves R (secureNonce deps x rec)"
proof -
  have "moves R (sql deps (\<lambda>t u d. reserve (re_eth deps) we c (commitReservation t i) d))" for we c i
    by (rule sql_moves_any) (auto simp: stmt_ok_def intro: reserve_steps commitReservation_steps)
  then have "moves R (\<lambda>w. sql deps (\<lambda>t u d. reserve (re_eth deps) (wd_wallets deps (wtick w)) c
      (commitReservation t i) d) w)" for c i
    by (simp add: moves_def)
  then show ?thesis unfolding secureNonce_def by (intro role_intros)
qed

lemma deliver_moves: "moves R (deliver deps x rec)"
proof -
  have "moves R (broadcastAndRecord deps x rec ready l)" for ready l
    unfolding broadcastAndRecord_def by (intro role_intros submitting_failure_moves)
  moreover have "moves R (routePreCommitFailure deps x rec err)" for err
    unfolding routePreCommitFailure_def
    by (intro role_intros submitting_failure_moves delivery_failure_moves)
  ultimately show ?thesis
    unfolding deliver_def by (auto intro!: role_intros secure_moves split: prepare_result.split)
qed

lemma process_moves: "moves R (processDelivery deps x)"
  unfolding processDelivery_def Let_def by (intro role_intros deliver_moves)

lemma lock_moves:
  assumes "moves R fn"
  shows "moves R (under_lock deps key fn)"
proof -
  have "R w (snd (under_lock deps key fn w))" if "wd_hasPool deps" for w
  proof -
    let ?w = "w\<lparr>wtick := wtick w + 1\<rparr>"
    have "R w ?w" by (rule tick_moves)
    moreover have "R ?w (snd (fn ?w))" using assms by (simp add: moves_def)
    ultimately have "R w ?w \<and> R w (snd (fn ?w))" by (blast intro: trans_R)
    then show ?thesis
      using that by (auto simp: under_lock_def withLeaderLock_def Let_def
        split: sum.splits bool.splits prod.splits)
  qed
  moreover have "moves R (bindM fn (\<lambda>_. returnM True))" by (intro role_intros assms)
  ultimately show ?thesis by (cases "wd_hasPool deps") (simp_all add: moves_def under_lock_def)
qed

lemma handle_moves: "moves R (handle_logged deps x)"
  unfolding handle_logged_def handleDelivery_def Let_def by (intro role_intros lock_moves process_moves)

lemma round_moves: "moves R (drain_round deps p)"
proof -
  let ?rest = "bindM (qcall deps (\<lambda>ops. q_consume ops p 1) []) (\<lambda>ds'.
         bindM (forM ds' (handle_logged deps)) (\<lambda>_. bindM (emit EvHeartbeat) (\<lambda>_. returnM False)))"
  have "moves R ?rest" by (intro role_intros handle_moves)
  then have "moves R (\<lambda>w. if stand_down deps w then (Ok True, w) else ?rest w)"
    by (simp add: moves_def refl_R)
  then show ?thesis unfolding drain_round_def by (intro role_intros handle_moves)
qed

lemma drain_moves:
  assumes "drainPartition deps p w = Some (r, w')"
  shows "R w w'"
proof -
  have "dp = deps \<longrightarrow> R w (snd y)" if "drainPartition dp p w = Some y" for dp y
    using that
  proof (induction rule: drainPartition.raw_induct [rotated 1, consumes 1, case_names step])
    case (step f dp p w y)
    show ?case
    proof
      assume dp: "dp = deps"
      obtain r1 w1 where rd: "drain_round deps p w = (r1, w1)" by fastforce
      then have "R w w1" by (rule movesD [OF round_moves])
      moreover have "f deps p w1 = Some y \<Longrightarrow> R w1 (snd y)" using step.IH dp by blast
      moreover have "snd y = w \<or> snd y = w1 \<or> f deps p w1 = Some y"
        using step.hyps dp rd by (auto split: if_splits)
      ultimately show "R w (snd y)" using refl_R trans_R by metis
    qed
  qed
  then show ?thesis using assms by fastforce
qed

end

interpretation fair_worker: worker_moves "fair_le deps" deps for deps ..

interpretation tick_worker: worker_moves tick_le deps for deps ..

end
