(* ===== verification/Demo_Eth.thy ===== *)
theory Demo_Eth
  imports Prelude
begin

section \<open>A concrete ethers record\<close>

text \<open>
  An instance of the \<open>ethers\<close> parameter for the witnesses: a real hexadecimal codec that
  meets \<open>ethers_hex_laws\<close>; its hash is constant and its checksum the identity.
\<close>

subsection \<open>Hexadecimal strings\<close>

definition hex_byte :: "8 word \<Rightarrow> string" where
  "hex_byte b = [hex_digit (unat b div 16), hex_digit (unat b mod 16)]"

fun parse_hex :: "string \<Rightarrow> bytes option" where
  "parse_hex [] = Some []"
| "parse_hex [c] = None"
| "parse_hex (c # d # cs) =
     (case (radix_digit 16 c, radix_digit 16 d, parse_hex cs) of
        (Some x, Some y, Some bs) \<Rightarrow> Some (word_of_nat (x * 16 + y) # bs)
      | _ \<Rightarrow> None)"

definition demo_hexlify :: "bytes \<Rightarrow> string" where
  "demo_hexlify bs = ''0x'' @ concat (map hex_byte bs)"

definition demo_getBytes :: "string \<Rightarrow> bytes res" where
  "demo_getBytes s =
     (if take 2 s = ''0x'' then
        (case parse_hex (drop 2 s) of None \<Rightarrow> Throw (new_error ForeignError ''invalid BytesLike value'') | Some bs \<Rightarrow> Ok bs)
      else Throw (new_error ForeignError ''invalid BytesLike value''))"

definition demo_eth :: ethers where
  "demo_eth =
     \<lparr>keccak256 = (\<lambda>bs. demo_hexlify (replicate 32 0)),
      hexlify = demo_hexlify,
      getBytes = demo_getBytes,
      getAddress = (\<lambda>s. Ok s),
      zeroPadValue = (\<lambda>s n. bind_res (demo_getBytes s) (\<lambda>bs.
        if length bs \<le> n then Ok (demo_hexlify (replicate (n - length bs) 0 @ bs))
        else Throw (new_error ForeignError ''padding exceeds data length''))),
      isHexString = (\<lambda>s n. case demo_getBytes s of Inl _ \<Rightarrow> False | Inr bs \<Rightarrow> length bs = n),
      toBeHex = (\<lambda>v n. if 0 \<le> v \<and> v < 256 ^ n then Ok (demo_hexlify (be_encode n (nat v)))
        else Throw (new_error ForeignError ''value exceeds width'')),
      toUtf8Bytes = map (\<lambda>c. word_of_nat (of_char c))\<rparr>"

lemma lower_hex_digit: "d < 16 \<Longrightarrow> lower_char (hex_digit d) = hex_digit d"
  by (auto simp: lower_char_def hex_digit_def Let_def)

lemma byte_halves: "unat (b :: 8 word) div 16 < 16" "unat b mod 16 < 16"
  using unsigned_less [of b, where 'a = nat] by auto

lemma parse_hex_bytes: "parse_hex (concat (map hex_byte bs)) = Some bs"
proof (induction bs)
  case Nil
  then show ?case by simp
next
  case (Cons b bs)
  have "unat b div 16 * 16 + unat b mod 16 = unat b" by simp
  then show ?case using Cons byte_halves [of b] by (simp add: hex_byte_def radix_hex_digit)
qed

lemma demo_getBytes_hexlify: "demo_getBytes (demo_hexlify bs) = Ok bs"
  by (simp add: demo_getBytes_def demo_hexlify_def parse_hex_bytes)

lemma lower_hexlify: "toLowerCase (demo_hexlify bs) = demo_hexlify bs"
proof -
  have "map lower_char (hex_byte b) = hex_byte b" for b
    using byte_halves [of b] by (simp add: hex_byte_def lower_hex_digit)
  then have "map lower_char (concat (map hex_byte bs)) = concat (map hex_byte bs)"
    by (induction bs) simp_all
  then show ?thesis by (simp add: toLowerCase_def demo_hexlify_def lower_char_def)
qed

lemma demo_eth_laws: "ethers_hex_laws demo_eth"
  by (auto simp: ethers_hex_laws_def demo_eth_def demo_getBytes_hexlify lower_hexlify split: sum.splits)

lemma radix_val_hex:
  "radix_val 16 acc (concat (map hex_byte bs)) = Some (acc * 256 ^ length bs + be_decode bs)"
proof (induction bs arbitrary: acc)
  case Nil
  then show ?case by simp
next
  case (Cons b bs)
  have "(acc * 16 + unat b div 16) * 16 + unat b mod 16 = acc * 256 + unat b" by simp
  then show ?case
    using Cons byte_halves [of b]
    by (simp add: hex_byte_def radix_hex_digit be_decode_Cons algebra_simps)
qed

lemma hex_digit_not_space: "d < 16 \<Longrightarrow> \<not> is_space (hex_digit d)"
  by (auto simp: is_space_def hex_digit_def)

lemma demo_hexlify_number:
  assumes "bs \<noteq> []"
  shows "js_BigInt (demo_hexlify bs) = Some (int (be_decode bs))"
proof -
  have "\<not> is_space c" if "c \<in> set (concat (map hex_byte bs))" for c
    using that byte_halves hex_digit_not_space by (auto simp: hex_byte_def)
  moreover have ne: "concat (map hex_byte bs) \<noteq> []" using assms by (cases bs) (simp_all add: hex_byte_def)
  ultimately have "\<not> is_space (last (concat (map hex_byte bs)))" by (metis last_in_set)
  then have "js_trim (demo_hexlify bs) = demo_hexlify bs"
    using ne by (simp add: js_trim_def demo_hexlify_def is_space_def dropWhile_eq_self_iff hd_rev)
  then show ?thesis
    using ne by (simp add: js_BigInt_def demo_hexlify_def unsigned_literal_def radix_val_hex)
qed

end
