(* ===== verification/Demo_Env.thy ===== *)
theory Demo_Env
  imports Worker Demo_Eth
begin

section \<open>Concrete surroundings\<close>

text \<open>
  The surroundings of a worker instantiated by concrete functions, on which the witnesses of
  the role properties evaluate: one wallet, an in-memory queue, a fixed clock and the
  \<open>ethers\<close> record of \<open>Demo_Eth\<close>.
\<close>

subsection \<open>A worker's surroundings\<close>

definition demo_payload :: relay_payload where
  "demo_payload = \<lparr>rp_emitterChain = 2, rp_emitterAddress = ''0xe'', rp_sequence = ''7'',
     rp_sourceTxHash = ''0xaa'', rp_dstChain = 4, rp_dstAddr = ''0xd'', rp_gasLimit = ''500000'',
     rp_requestBytes = ''0x''\<rparr>"

definition demo_message :: relay_message where
  "demo_message = \<lparr>transaction_hash = ''0xaa'', chain_id = 2, msg_relayer_address = ''0xb'',
     transaction_data = demo_payload, msg_retry_count = 0, replace_nonce = None\<rparr>"

definition demo_config :: relayer_config where
  "demo_config = \<lparr>rc_chains = [], scanBlockRange = 2000, scanLoopDelayMs = 1000, cronIntervalMin = 5, maxRetries_cfg = 2, submittedTimeoutMin = 30,
     vaaTimeoutMs = 3600000, vaaPollIntervalMs = 5000, deadLetterAlertThreshold = 10,
     rc_delivery = \<lparr>gasLimitBufferBps = 1000, retryAdditionalGasPct = 20, gasPriceBumpBps = 1250,
       maxGasPriceWei = 500000000000\<rparr>\<rparr>"

definition demo_wallets :: wallet_env where
  "demo_wallets = \<lparr>we_wallets = [''0xw''], we_random = (\<lambda>_. 0), we_hasProvider = (\<lambda>_. True),
     we_pendingNonce = (\<lambda>_ _. Ok 5), we_lockFree = (\<lambda>_. True)\<rparr>"

text \<open>The delivery module's answers are left open: \<open>pr\<close> to \<open>prepare\<close>, \<open>br\<close> to \<open>broadcast\<close>.\<close>

definition demo_deps :: "prepare_result res \<Rightarrow> string res \<Rightarrow> in_memory_queue worker_deps" where
  "demo_deps pr br =
     \<lparr>re_config = demo_config, re_eth = demo_eth, re_queue = (\<lambda>k. in_memory_ops (int k)),
      re_itf = (\<lambda>_ d. d), re_dbfail = (\<lambda>_. None), re_clock = (\<lambda>k. 1000 * int k), re_now = int,
      re_uuid = (\<lambda>k. 100 + k), re_jitter = (\<lambda>_. 1), re_aborted = (\<lambda>k. 50 < k),
      wd_prepare = (\<lambda>_ _. pr), wd_broadcast = (\<lambda>_ _ _ _. br), wd_wallets = (\<lambda>_. demo_wallets),
      wd_hasPool = False, wd_tryLock = (\<lambda>_ _. Ok True), wd_unlock = (\<lambda>_. None),
      wd_lockLost = (\<lambda>_. False)\<rparr>"

definition demo_ready :: prepared_delivery where
  "demo_ready = \<lparr>pd_to = ''0xd'', pd_callData = ''0x'', pd_vaaHash = ''0x00'', pd_gasLimit = 550000,
     pd_feeOverrides = []\<rparr>"

definition demo_queue :: in_memory_queue where
  "demo_queue = snd (im_publish 0 demo_message (new_queue None))"

definition demo_world :: "in_memory_queue world" where
  "demo_world = \<lparr>wdb = empty_db, wq = demo_queue, wtrace = [], wtick = 0\<rparr>"

definition demo_delivery :: delivery where
  "demo_delivery = \<lparr>message = demo_message, d_partition = 2, receiptHandle = 0, deliveryAttempt = 1\<rparr>"

lemma fair_demo [simp]: "fair_env (demo_deps pr br)"
  by (simp add: fair_env_def demo_deps_def)

lemma wf_demo_world [simp]: "wf_db (wdb demo_world)"
  by (simp add: demo_world_def)

lemmas demo_defs = demo_deps_def demo_world_def demo_delivery_def demo_message_def demo_payload_def
  demo_config_def demo_wallets_def demo_ready_def demo_queue_def

end
