(* ===== verification/Worker_Nonce.thy ===== *)
theory Worker_Nonce
  imports Worker Demo_Env
begin

section \<open>What the worker broadcasts\<close>

text \<open>
  A worker broadcasts at most one transaction per delivery, and only on a wallet and nonce
  that the database already records for that event: either it has just committed the row as
  \<open>submitting\<close> with them (the intent log), or the row it read held them. So a crash at any
  point leaves every nonce on the wire in the table.
\<close>

definition is_broadcast :: "event \<Rightarrow> bool" where
  "is_broadcast e = (case e of EvBroadcast _ _ _ \<Rightarrow> True | _ \<Rightarrow> False)"

abbreviation broadcasts :: "'q world \<Rightarrow> event list" where
  "broadcasts w \<equiv> filter is_broadcast (wtrace w)"

definition silent :: "'q world \<Rightarrow> 'q world \<Rightarrow> bool" where
  "silent w w' \<longleftrightarrow> broadcasts w' = broadcasts w"

interpretation silent_effects: preorder_effects silent
  by unfold_locales (simp_all add: silent_def)

lemma silent_sql: "moves silent (sql env st)"
  by (auto simp: moves_def silent_def sql_def Let_def split: option.splits prod.splits)

lemma silent_prims:
  "moves silent (ask f)" "\<not> is_broadcast e \<Longrightarrow> moves silent (emit e)"
  "moves silent (ack env x)" "moves silent (nack env x ms)" "moves silent (deadLetter env x why)"
  by (auto simp: moves_def silent_def ask_def emit_def ack_def nack_def deadLetter_def qcall_def
      is_broadcast_def split: prod.splits)

lemma silent_stmts:
  "moves silent (sql_find env c h)" "moves silent (sql_insert env i)"
  "moves silent (sql_submitted env j h w n)" "moves silent (sql_confirmed env j)"
  "moves silent (sql_touch env j)" "moves silent (sql_increment env j)"
  "moves silent (sql_failed env j m)" "moves silent (sql_dead env j m)"
  unfolding sql_stmt_defs by (rule silent_sql)+

lemmas silent_intros = silent_effects.moves_intros silent_prims silent_stmts

lemma silent_failures:
  "moves silent (handleSubmittingFailure deps x rec err)"
  "moves silent (routePreCommitFailure deps x rec err)"
  unfolding handleSubmittingFailure_def handleDeliveryFailure_def routePreCommitFailure_def Let_def
  by (intro silent_intros)+

lemma silent_secure: "moves silent (secureNonce deps x rec)"
proof -
  have "moves silent (\<lambda>w. sql deps (st (wtick w)) w)" for st
    by (simp add: moves_def silent_sql [unfolded moves_def, rule_format])
  then show ?thesis unfolding secureNonce_def by (intro silent_intros)
qed

lemma broadcastAndRecord_once:
  assumes "broadcastAndRecord deps x rec ready l w = (r, w')"
  shows "broadcasts w' = broadcasts w @ [EvBroadcast (destinationChainId rec) (l_signer l) (l_nonce l)]"
proof -
  let ?rest = "attemptM (ask (\<lambda>k. wd_broadcast deps k ready (l_signer l) (l_nonce l)))
       (\<lambda>txHash.
          bindM (sql_submitted deps (recId rec) txHash (l_address l) (l_nonce l)) (\<lambda>recorded.
            if \<not> recorded then
              bindM (emit (EvAlert ''tx.submitted_record_lost'')) (\<lambda>_. ack deps x)
            else ack deps x))
       (handleSubmittingFailure deps x rec)"
  let ?e = "EvBroadcast (destinationChainId rec) (l_signer l) (l_nonce l)"
  have "moves silent ?rest"
    by (intro silent_intros silent_failures) (simp add: is_broadcast_def)
  moreover have "?rest (w\<lparr>wtrace := wtrace w @ [?e]\<rparr>) = (r, w')"
    using assms by (simp add: broadcastAndRecord_def bindM_def emit_def)
  ultimately have "silent (w\<lparr>wtrace := wtrace w @ [?e]\<rparr>) w'" by (rule movesD)
  then show ?thesis by (simp add: silent_def is_broadcast_def)
qed

text \<open>The one place a delivery can broadcast from, with the states around it.\<close>

lemma deliver_broadcast:
  assumes "deliver deps x rec w = (r, w')"
  shows "broadcasts w' = broadcasts w \<or>
    (\<exists>w1 w2 l. secureNonce deps x rec w1 = (Ok l, w2) \<and> fair_le deps w w1 \<and> fair_le deps w2 w' \<and>
       broadcasts w' = broadcasts w @ [EvBroadcast (destinationChainId rec) (l_signer l) (l_nonce l)])"
proof -
  let ?ask = "ask (\<lambda>k. wd_prepare deps k
         \<lparr>pq_destinationChainId = destinationChainId rec, pq_payload = recordPayload rec,
          pq_retryAttempt = retryCount rec\<rparr>) :: ('a world, prepare_result) eff"
  obtain a w1 where a: "?ask w = (a, w1)" by fastforce
  have sa: "silent w w1" and fa: "fair_le deps w w1"
    using movesD [OF silent_prims(1) a] movesD [OF fair.ask_moves a] by simp_all
  have route: "silent u u'" if "routePreCommitFailure deps x rec err u = (s, u')" for err u s u'
    by (rule movesD [OF silent_failures(2) that])
  show ?thesis
  proof (cases a)
    case (Inl e)
    then have "routePreCommitFailure deps x rec e w1 = (r, w')"
      using assms a by (simp add: deliver_def attemptM_def)
    then show ?thesis using sa route by (fastforce simp: silent_def)
  next
    case (Inr pr)
    show ?thesis
    proof (cases pr)
      case AlreadyConsumed
      have "moves silent (bindM (sql_confirmed deps (recId rec)) (\<lambda>_. ack deps x))"
        by (intro silent_intros)
      moreover have "bindM (sql_confirmed deps (recId rec)) (\<lambda>_. ack deps x) w1 = (r, w')"
        using assms a Inr AlreadyConsumed by (simp add: deliver_def attemptM_def)
      ultimately have "silent w1 w'" by (rule movesD)
      with sa show ?thesis by (simp add: silent_def)
    next
      case (ReadyToSend ready)
      obtain b w2 where b: "secureNonce deps x rec w1 = (b, w2)" by fastforce
      have sb: "silent w1 w2" by (rule movesD [OF silent_secure b])
      show ?thesis
      proof (cases b)
        case (Inl e)
        then have "routePreCommitFailure deps x rec e w2 = (r, w')"
          using assms a b Inr ReadyToSend by (simp add: deliver_def attemptM_def)
        then show ?thesis using sa sb route by (fastforce simp: silent_def)
      next
        case l: (Inr l)
        then have br: "broadcastAndRecord deps x rec ready l w2 = (r, w')"
          using assms a b Inr ReadyToSend by (simp add: deliver_def attemptM_def)
        have "moves (fair_le deps) (broadcastAndRecord deps x rec ready l)"
          unfolding broadcastAndRecord_def
          by (intro fair.role_intros fair_worker.submitting_failure_moves)
        then have "fair_le deps w2 w'" using br by (rule movesD)
        moreover have "secureNonce deps x rec w1 = (Ok l, w2)" using b l by simp
        ultimately show ?thesis
          using broadcastAndRecord_once [OF br] fa sa sb unfolding silent_def by metis
      qed
    qed
  qed
qed

subsection \<open>The nonce is in the table\<close>

text \<open>\<open>on_record rec a n r\<close>: the row \<open>r\<close> of the same event holds wallet \<open>a\<close> and nonce \<open>n\<close>.\<close>

definition on_record :: "transaction_record \<Rightarrow> string \<Rightarrow> nat \<Rightarrow> row \<Rightarrow> bool" where
  "on_record rec a n r \<longleftrightarrow>
     row_id r = recId rec \<and> source_chain_id r = sourceChainId rec \<and> event_tx_hash r = eventTxHash rec \<and>
     destination_chain_id r = destinationChainId rec \<and>
     (\<exists>a'. wallet_used r = Some a' \<and> toLowerCase a' = toLowerCase a) \<and> nonce_used r = Some n \<and>
     \<not> terminal r"

lemma reserve_loop_Ok:
  assumes "reserve_loop eth we c nonces rec ws d = (Ok l, d')"
  shows "rec d (l_address l) (l_nonce l) = (Ok (), d')" and "l_signer l = l_address l"
    and "l_nonce l = reserveNonce d (l_address l) c (nonces (l_address l))" and "l_address l \<in> set ws"
  using assms by (induction ws) (auto simp: Let_def split: sum.splits prod.splits if_splits)

lemma reserve_Ok:
  assumes "reserve eth we c rec d = (Ok l, d')"
  shows "rec d (l_address l) (l_nonce l) = (Ok (), d')" and "l_signer l = l_address l"
  using assms reserve_loop_Ok(1,2) by (auto simp: reserve_def Let_def split: if_splits sum.splits)

lemma updated_row:
  assumes "fst (update_rows i sts f d) \<noteq> []"
  obtains r where "r \<in> set (transactions d)" "matches i sts r"
    "f r \<in> set (transactions (snd (update_rows i sts f d)))"
proof -
  obtain r where r: "r \<in> set (transactions d)" "matches i sts r"
    using assms by (auto simp: update_rows_def filter_empty_conv)
  have "(\<lambda>r. if matches i sts r then f r else r) r \<in> set (transactions (snd (update_rows i sts f d)))"
    unfolding update_rows_transactions set_map using r(1) by (rule imageI)
  with r that show ?thesis by simp
qed

lemma commitReservation_Ok:
  assumes "commitReservation t i d w n = (Ok (), d')"
  obtains r where "r \<in> set (transactions d)" "row_id r = i"
    "r\<lparr>status := Submitting, wallet_used := Some w, nonce_used := Some n, updated_at := t\<rparr>
       \<in> set (transactions d')"
proof -
  have m: "markSubmitting t d i w n = (True, d')"
    using assms by (auto simp: commitReservation_def split: prod.splits bool.splits)
  let ?u = "update_rows i [Pending, Failed, Submitting]
       (\<lambda>r. r\<lparr>status := Submitting, wallet_used := Some w, nonce_used := Some n, updated_at := t\<rparr>) d"
  have "fst ?u \<noteq> []" "d' = snd ?u" using m by (simp_all add: markSubmitting_def updated_any_def)
  then show ?thesis using that by (elim updated_row) (simp_all add: matches_def)
qed

text \<open>A row read earlier, followed to a later table.\<close>

lemma row_followed:
  assumes "repo_steps d0 d" and "wf_db d0" and "r0 \<in> set (transactions d0)"
    and "r \<in> set (transactions d)" and "row_id r = row_id r0"
  shows "row_le r0 r"
proof -
  obtain r' where r': "r' \<in> set (transactions d)" "row_le r0 r'"
    using repo_steps_le [OF assms(1)] assms(3) unfolding db_le_def by blast
  then have "row_id r' = row_id r" using assms(5) by (simp add: row_le_def)
  then have "r' = r" using wf_db_row_unique [OF repo_steps_wf [OF assms(1,2)] r'(1) assms(4)] by simp
  with r'(2) show ?thesis by simp
qed

lemma on_record_committed:
  assumes "row_le r0 r"
  shows "on_record (rowToRecord r0) a n
    (r\<lparr>status := Submitting, wallet_used := Some a, nonce_used := Some n, updated_at := t\<rparr>)"
proof -
  have "row_id r = row_id r0" "source_chain_id r = source_chain_id r0"
    "event_tx_hash r = event_tx_hash r0" "destination_chain_id r = destination_chain_id r0"
    using assms by (simp_all add: row_le_def event_key_def)
  then show ?thesis by (simp add: on_record_def rowToRecord_def terminal_def)
qed

lemma secure_on_record:
  assumes sec: "secureNonce deps x rec w1 = (Ok l, w2)" and fair: "fair_env deps"
    and d0: "repo_steps d0 (wdb w1)" "wf_db d0" "r0 \<in> set (transactions d0)" "rec = rowToRecord r0"
    and live: "\<not> terminal r0"
    and fresh: "replace_nonce (message x) = None \<or> nonceUsed rec = replace_nonce (message x)"
  shows "\<exists>d r. repo_steps d0 d \<and> repo_steps d (wdb w2) \<and> r \<in> set (transactions d) \<and>
    on_record rec (l_signer l) (l_nonce l) r"
proof (cases "isResubmit (message x) rec")
  case True
  then obtain a n where a: "walletUsed rec = Some a" and n: "resubmitNonce (message x) rec = Some n"
    by (auto simp: isResubmit_def)
  obtain s where s: "signerFor (wd_wallets deps (wtick w1)) a (destinationChainId rec) = Ok s"
    and l: "l_signer l = s" "l_nonce l = n"
    using sec True a n by (auto simp: secureNonce_def bindM_def ask_def returnM_def split: sum.splits)
  have "toLowerCase a = toLowerCase s"
    using s by (auto simp: signerFor_def find_Some_iff split: if_splits option.splits)
  moreover have "nonceUsed rec = Some n"
    using n fresh by (auto simp: resubmitNonce_def split: option.splits if_splits)
  ultimately have "on_record rec (l_signer l) (l_nonce l) r0"
    using a l d0(4) live by (auto simp: on_record_def rowToRecord_def)
  moreover have "repo_steps (wdb w1) (wdb w2)"
    using movesD [OF fair_worker.secure_moves sec] fair by (simp add: fair_le_def world_le_def)
  ultimately show ?thesis using d0 by (meson rtranclp.rtrancl_refl rtranclp_trans)
next
  case False
  let ?t = "re_clock deps (wtick w1)" and ?d = "re_itf deps (wtick w1) (wdb w1)"
  have res: "reserve (re_eth deps) (wd_wallets deps (wtick w1)) (destinationChainId rec)
      (commitReservation ?t (recId rec)) ?d = (Ok l, wdb w2)"
    using sec False by (auto simp: secureNonce_def dest!: sql_Ok)
  have d: "repo_steps d0 ?d" using d0(1) fair unfolding fair_env_def by (meson rtranclp_trans)
  obtain r where r: "r \<in> set (transactions ?d)" "row_id r = recId rec"
    "r\<lparr>status := Submitting, wallet_used := Some (l_address l), nonce_used := Some (l_nonce l),
       updated_at := ?t\<rparr> \<in> set (transactions (wdb w2))" (is "?r \<in> _")
    using commitReservation_Ok [OF reserve_Ok(1) [OF res]] by blast
  have "row_le r0 r" using row_followed [OF d d0(2,3) r(1)] r(2) d0(4) by (simp add: rowToRecord_def)
  then have "on_record rec (l_signer l) (l_nonce l) ?r"
    unfolding reserve_Ok(2) [OF res] d0(4) by (rule on_record_committed)
  moreover have "repo_steps d0 (wdb w2)"
    using d reserve_steps [of "commitReservation ?t (recId rec)", OF commitReservation_steps] res
    by (metis rtranclp_trans snd_conv)
  ultimately show ?thesis using r(3) by blast
qed

subsection \<open>The row a delivery works on\<close>

text \<open>
  \<open>row_read d0 d m rec\<close>: \<open>rec\<close> is the message's row as it stood in a table of the run from
  \<open>d0\<close> to \<open>d\<close>.
\<close>

definition row_read :: "db \<Rightarrow> db \<Rightarrow> relay_message \<Rightarrow> transaction_record \<Rightarrow> bool" where
  "row_read d0 d m rec \<longleftrightarrow>
     (\<exists>d1 r. repo_steps d0 d1 \<and> repo_steps d1 d \<and> r \<in> set (transactions d1) \<and>
        same_event (chain_id m) (transaction_hash m) r \<and> rec = rowToRecord r)"

lemma row_readI:
  "repo_steps d0 d \<Longrightarrow> r \<in> set (transactions d) \<Longrightarrow> same_event (chain_id m) (transaction_hash m) r \<Longrightarrow>
   row_read d0 d m (rowToRecord r)"
  unfolding row_read_def by blast

lemma row_read_later: "row_read d0 d m rec \<Longrightarrow> repo_steps d d' \<Longrightarrow> row_read d0 d' m rec"
  unfolding row_read_def by (blast intro: rtranclp_trans)

lemma row_read_earlier: "repo_steps d0 d1 \<Longrightarrow> row_read d1 d m rec \<Longrightarrow> row_read d0 d m rec"
  unfolding row_read_def by (blast intro: rtranclp_trans)

lemma findBySourceEvent_Some:
  assumes "findBySourceEvent d c h = Some rec"
  obtains r where "r \<in> set (transactions d)" "same_event c h r" "rec = rowToRecord r"
proof -
  obtain r rs where f: "filter (same_event c h) (transactions d) = r # rs" and rec: "rec = rowToRecord r"
    using assms by (auto simp: findBySourceEvent_def split: list.splits)
  have "set (filter (same_event c h) (transactions d)) = insert r (set rs)" unfolding f by simp
  then have "r \<in> {r \<in> set (transactions d). same_event c h r}" by (metis insertI1 set_filter)
  then show ?thesis using rec by (intro that [of r]) simp_all
qed

lemma insertPending_Ok:
  assumes "insertPending u t d i = (Ok rec, d')"
  obtains r where "r \<in> set (transactions d')" "same_event (in_sourceChainId i) (in_eventTxHash i) r"
    "rec = rowToRecord r"
  using assms by (cases rule: insertPending_cases [of d i u t])
    (auto simp: new_row_def same_event_def intro: that)

lemma sql_find_Ok:
  assumes "fair_env deps" and "sql_find deps (chain_id m) (transaction_hash m) w = (Ok e, w')"
  shows "repo_steps (wdb w) (wdb w')" and "e = Some rec \<Longrightarrow> row_read (wdb w) (wdb w') m rec"
proof -
  show steps: "repo_steps (wdb w) (wdb w')"
    using movesD [OF fair.stmts_moves(1) assms(2)] assms(1) by (simp add: fair_le_def world_le_def)
  assume "e = Some rec"
  then have "findBySourceEvent (wdb w') (chain_id m) (transaction_hash m) = Some rec"
    using sql_Ok [OF assms(2) [unfolded sql_find_def]] by auto
  then show "row_read (wdb w) (wdb w') m rec"
    by (rule findBySourceEvent_Some) (use steps row_readI in simp)
qed

lemma sql_insert_Ok:
  assumes "fair_env deps" and "sql_insert deps (messageToInsert m mx) w = (Ok rec, w')"
  shows "repo_steps (wdb w) (wdb w')" and "row_read (wdb w) (wdb w') m rec"
proof -
  show steps: "repo_steps (wdb w) (wdb w')"
    using movesD [OF fair.stmts_moves(2) assms(2)] assms(1) by (simp add: fair_le_def world_le_def)
  show "row_read (wdb w) (wdb w') m rec"
    using sql_Ok [OF assms(2) [unfolded sql_insert_def]]
    by (rule insertPending_Ok) (use steps row_readI in \<open>simp add: messageToInsert_def\<close>)
qed

text \<open>How a delivery goes: it throws while reading, is dropped with its row, or is delivered.\<close>

definition reach_row ::
  "'q worker_deps \<Rightarrow> relay_message \<Rightarrow> ('q world, transaction_record option \<times> transaction_record) eff" where
  "reach_row deps m =
     bindM (sql_find deps (chain_id m) (transaction_hash m)) (\<lambda>existing.
       case existing of
         Some rec \<Rightarrow> returnM (existing, rec)
       | None \<Rightarrow> bindM (sql_insert deps (messageToInsert m (maxRetries_cfg (re_config deps))))
                   (\<lambda>rec. returnM (existing, rec)))"

lemma processDelivery_alt:
  "processDelivery deps x =
     bindM (reach_row deps (message x)) (\<lambda>(existing, rec).
       if skip (message x) (recStatus rec) then ack deps x
       else if replace_nonce (message x) \<noteq> None \<and> nonceUsed rec \<noteq> replace_nonce (message x) then ack deps x
       else deliver deps x rec)"
  by (rule ext) (auto simp: processDelivery_def reach_row_def bindM_def returnM_def Let_def
      split: prod.splits sum.splits option.splits)

lemma reach_row_Ok:
  assumes "fair_env deps" and "reach_row deps m w = (Ok (existing, rec), w')"
  shows "repo_steps (wdb w) (wdb w')" and "row_read (wdb w) (wdb w') m rec"
proof -
  obtain e w1 where f: "sql_find deps (chain_id m) (transaction_hash m) w = (Ok e, w1)"
    using assms(2) by (auto simp: reach_row_def bindM_def split: prod.splits sum.splits)
  have "repo_steps (wdb w) (wdb w') \<and> row_read (wdb w) (wdb w') m rec"
  proof (cases e)
    case (Some r)
    with assms(2) f have "w' = w1" "rec = r" by (auto simp: reach_row_def bindM_def returnM_def)
    with sql_find_Ok [OF assms(1) f] Some show ?thesis by simp
  next
    case None
    with assms(2) f have i: "sql_insert deps (messageToInsert m (maxRetries_cfg (re_config deps))) w1 = (Ok rec, w')"
      by (auto simp: reach_row_def bindM_def returnM_def split: prod.splits sum.splits)
    have a: "repo_steps (wdb w) (wdb w1)" by (rule sql_find_Ok [OF assms(1) f])
    have b: "repo_steps (wdb w1) (wdb w')" "row_read (wdb w1) (wdb w') m rec"
      by (rule sql_insert_Ok [OF assms(1) i])+
    from a b show ?thesis by (blast intro: rtranclp_trans row_read_earlier)
  qed
  then show "repo_steps (wdb w) (wdb w')" "row_read (wdb w) (wdb w') m rec" by simp_all
qed

lemma silent_reach: "moves silent (reach_row deps m)"
  unfolding reach_row_def by (intro silent_intros)

lemma delivered_on_record:
  assumes fair: "fair_env deps" and wf: "wf_db d0"
    and run: "repo_steps d0 (wdb w)" "row_read d0 (wdb w) (message x) rec"
    and live: "\<not> skip (message x) (recStatus rec)"
    and fresh: "replace_nonce (message x) = None \<or> nonceUsed rec = replace_nonce (message x)"
    and d: "deliver deps x rec w = (res, w')"
  shows "broadcasts w' = broadcasts w \<or>
    (\<exists>c a n d r. broadcasts w' = broadcasts w @ [EvBroadcast c a n] \<and>
       repo_steps d0 d \<and> repo_steps d (wdb w') \<and> r \<in> set (transactions d) \<and>
       same_event (chain_id (message x)) (transaction_hash (message x)) r \<and>
       destination_chain_id r = c \<and> nonce_used r = Some n \<and> \<not> terminal r \<and>
       (\<exists>a'. wallet_used r = Some a' \<and> toLowerCase a' = toLowerCase a))"
  using deliver_broadcast [OF d]
proof (elim disjE exE conjE)
  fix w1 w2 l
  assume sec: "secureNonce deps x rec w1 = (Ok l, w2)" and "fair_le deps w w1" "fair_le deps w2 w'"
    and b: "broadcasts w' = broadcasts w @ [EvBroadcast (destinationChainId rec) (l_signer l) (l_nonce l)]"
  then have s: "repo_steps (wdb w) (wdb w1)" "repo_steps (wdb w2) (wdb w')"
    using fair by (simp_all add: fair_le_def world_le_def)
  obtain d1 r0 where r0: "repo_steps d0 d1" "repo_steps d1 (wdb w)" "r0 \<in> set (transactions d1)"
    "same_event (chain_id (message x)) (transaction_hash (message x)) r0" "rec = rowToRecord r0"
    using run(2) unfolding row_read_def by blast
  have "\<not> terminal r0" using live r0(5) by (simp add: skip_def terminal_def rowToRecord_def)
  then obtain d r where "repo_steps d1 d" "repo_steps d (wdb w2)" "r \<in> set (transactions d)"
    and rec: "on_record rec (l_signer l) (l_nonce l) r"
    using secure_on_record [OF sec fair rtranclp_trans [OF r0(2) s(1)] repo_steps_wf [OF r0(1) wf] r0(3,5) _ fresh]
    by blast
  moreover have "same_event (chain_id (message x)) (transaction_hash (message x)) r"
    using rec r0(4,5) by (simp add: on_record_def same_event_def rowToRecord_def)
  ultimately show ?thesis
    using b s(2) r0(1) rec unfolding on_record_def by (meson rtranclp_trans)
qed simp



subsection \<open>Nonces are handed out once\<close>

lemma fetch_nonces_lookup:
  assumes "fetch_nonces we c ws = Ok ns" and "w \<in> set ws"
  shows "we_pendingNonce we c w = Ok (the (map_of ns w))"
proof -
  have "list_all2 (\<lambda>w p. we_pendingNonce we c w = Ok (snd p) \<and> fst p = w) ws ns"
    using assms(1) unfolding fetch_nonces_def map_res_Ok_iff
    by (rule list_all2_mono) (auto simp: bind_res_Ok_iff)
  then show ?thesis using assms(2) by (induction rule: list_all2_induct) auto
qed

text \<open>C6: A reservation never hands out a nonce twice: provided the nonces in use are distinct and
  a reverted transaction's nonce lies below the chain's pending nonce, the reserved nonce is
  held by no row, is not below the chain's pending nonce of a wallet of the pool, and after
  the commit the nonces in use are still distinct. The nonce may fill a gap below nonces in
  flight.\<close>

theorem reservation_unique_nonce:
  assumes "reserve eth we c (commitReservation t i) d = (Ok l, d')"
    and "wf_db d" and "nonces_distinct d"
    and "\<forall>k. 0 \<le> we_random we k \<and> we_random we k < 1"
    and "\<forall>r \<in> set (transactions d). row_id r = i \<longrightarrow> destination_chain_id r = c"
    and "\<forall>a n. we_pendingNonce we c a = Ok n \<longrightarrow> reverted_mined d a c n"
  shows "nonces_distinct d' \<and>
    (\<forall>r \<in> set (transactions d). \<not> holds_nonce r (l_address l) c (l_nonce l)) \<and>
    l_address l \<in> set (we_wallets we) \<and>
    (\<exists>n. we_pendingNonce we c (l_address l) = Ok n \<and> n \<le> l_nonce l)"
proof -
  let ?ws = "shuffled (we_random we) (we_wallets we)"
  obtain ns where ns: "fetch_nonces we c ?ws = Ok ns"
    and loop: "reserve_loop eth we c (\<lambda>w. the (map_of ns w)) (commitReservation t i) ?ws d = (Ok l, d')"
    using assms(1) by (auto simp: reserve_def Let_def split: if_splits sum.splits)
  note ok = reserve_loop_Ok [OF loop]
  have n: "we_pendingNonce we c (l_address l) = Ok (the (map_of ns (l_address l)))"
    by (rule fetch_nonces_lookup [OF ns ok(4)])
  then have free: "\<not> holds_nonce r (l_address l) c (l_nonce l)" if "r \<in> set (transactions d)" for r
    using reserveNonce_unheld that assms(6) ok(3) by metis
  have "set ?ws = set (we_wallets we)"
    using mset_shuffled [of "we_random we" "we_wallets we"] assms(4) by (metis set_mset_mset)
  moreover have "d' = snd (markSubmitting t d i (l_address l) (l_nonce l))"
    using ok(1) by (auto simp: commitReservation_def split: prod.splits bool.splits)
  moreover have "nonces_distinct (snd (markSubmitting t d i (l_address l) (l_nonce l)))"
    by (rule markSubmitting_keeps_nonces [OF assms(3,2)]) (use free assms(5) in auto)
  ultimately show ?thesis using n free ok(3,4) reserveNonce_ge by metis
qed

theorem reservation_unique_nonce_witness:
  "\<exists>l d'. reserve demo_eth demo_wallets 4 (commitReservation 2000 1) demo_db = (Ok l, d') \<and>
     l_nonce l = 5 \<and> nonces_distinct d'"
proof -
  let ?r = "reserve demo_eth demo_wallets 4 (commitReservation 2000 1) demo_db"
  have "\<not> isl (fst ?r)" and n: "l_nonce (projr (fst ?r)) = 5" by code_simp+
  then obtain l where l: "?r = (Ok l, snd ?r)" by (metis prod.collapse sum.collapse(2))
  have t: "transactions demo_db = [new_row 1 1000 demo_input]"
    by (simp add: demo_db_def insertPending_def empty_db_def Let_def)
  have wf: "wf_db demo_db" unfolding demo_db_def by (rule insert_pending.keeps_wf) simp
  have nd: "nonces_distinct demo_db" by (simp add: nonces_distinct_def t)
  have "nonces_distinct (snd ?r)"
    using reservation_unique_nonce [OF l wf nd]
    by (simp add: t demo_wallets_def reverted_mined_def new_row_def demo_input_def)
  with l n show ?thesis by (metis fst_conv sum.sel(2))
qed

end
