(* ===== verification/Worker_Settle.thy ===== *)
theory Worker_Settle
  imports Worker
begin

section \<open>Every delivery is settled once\<close>

text \<open>
  A delivery the worker finishes with has been acknowledged, requeued or dead-lettered exactly
  once, by exactly one queue call; a delivery it throws out of is still in the queue, or the
  one settling call itself failed. The proofs run over the triples of \<open>Effects\<close> with one
  assertion before the settling call (\<open>unsettled\<close>) and one after it (\<open>settled_once\<close>).
\<close>

definition is_settle :: "event \<Rightarrow> bool" where
  "is_settle e = (case e of EvAck _ \<Rightarrow> True | EvNack _ _ \<Rightarrow> True | EvDeadLetter _ _ \<Rightarrow> True | _ \<Rightarrow> False)"

abbreviation settlements :: "'q world \<Rightarrow> event list" where
  "settlements w \<equiv> filter is_settle (wtrace w)"

text \<open>The queue call behind a settling event of the delivery \<open>x\<close>.\<close>

definition settles :: "'q queue_ops \<Rightarrow> delivery \<Rightarrow> event \<Rightarrow> 'q \<Rightarrow> (unit res \<times> 'q) option" where
  "settles ops x e q =
     (case e of
        EvAck y \<Rightarrow> if y = x then Some (q_ack ops x q) else None
      | EvNack y ms \<Rightarrow> if y = x then Some (q_nack ops x ms q) else None
      | EvDeadLetter y why \<Rightarrow> if y = x then Some (q_deadLetter ops x why q) else None
      | _ \<Rightarrow> None)"

definition unsettled :: "'q \<Rightarrow> event list \<Rightarrow> 'q world \<Rightarrow> bool" where
  "unsettled q l w \<longleftrightarrow> wq w = q \<and> settlements w = l"

definition settled_once :: "'q worker_deps \<Rightarrow> delivery \<Rightarrow> 'q \<Rightarrow> event list \<Rightarrow> 'q world \<Rightarrow> bool" where
  "settled_once deps x q l w \<longleftrightarrow>
     (\<exists>k e. settles (re_queue deps k) x e q = Some (Ok (), wq w) \<and> settlements w = l @ [e])"

definition settle_failed :: "'q worker_deps \<Rightarrow> delivery \<Rightarrow> 'q \<Rightarrow> event list \<Rightarrow> 'q world \<Rightarrow> bool" where
  "settle_failed deps x q l w \<longleftrightarrow> settlements w = l \<and>
     (wq w = q \<or> (\<exists>k e err. settles (re_queue deps k) x e q = Some (Throw err, wq w)))"

definition keeps_unsettled :: "('q world, 'a) eff \<Rightarrow> bool" where
  "keeps_unsettled m \<longleftrightarrow> (\<forall>q l. valid (unsettled q l) m (\<lambda>_. unsettled q l) (\<lambda>_. unsettled q l))"

definition settles_delivery :: "'q worker_deps \<Rightarrow> delivery \<Rightarrow> ('q world, unit) eff \<Rightarrow> bool" where
  "settles_delivery deps x m \<longleftrightarrow>
     (\<forall>q l. valid (unsettled q l) m (\<lambda>_. settled_once deps x q l) (\<lambda>_. settle_failed deps x q l))"

named_theorems settle_rules "composition rules for settling a delivery"

lemma keeps_sql [settle_rules]: "keeps_unsettled (sql env st)"
  by (auto simp: keeps_unsettled_def valid_def sql_def unsettled_def Let_def split: option.splits prod.splits sum.splits)

lemma keeps_ask [settle_rules]: "keeps_unsettled (ask f)"
  by (auto simp: keeps_unsettled_def valid_def ask_def unsettled_def split: prod.splits sum.splits)

lemma keeps_emit [settle_rules]: "\<not> is_settle e \<Longrightarrow> keeps_unsettled (emit e)"
  by (auto simp: keeps_unsettled_def valid_def emit_def unsettled_def)

lemma keeps_pure [settle_rules]: "keeps_unsettled (returnM x)"
  by (simp add: keeps_unsettled_def valid_def returnM_def)

lemma keeps_bind [settle_rules]:
  "keeps_unsettled m \<Longrightarrow> (\<And>x. keeps_unsettled (f x)) \<Longrightarrow> keeps_unsettled (bindM m f)"
  unfolding keeps_unsettled_def by (blast intro: valid_bind)

lemma keeps_stmts [settle_rules]:
  "keeps_unsettled (sql_find env c h)" "keeps_unsettled (sql_insert env i)"
  "keeps_unsettled (sql_submitted env j h w n)" "keeps_unsettled (sql_confirmed env j)"
  "keeps_unsettled (sql_touch env j)" "keeps_unsettled (sql_increment env j)"
  "keeps_unsettled (sql_failed env j m)" "keeps_unsettled (sql_dead env j m)"
  unfolding sql_stmt_defs by (rule keeps_sql)+

lemma keeps_cases [settle_rules]:
  "keeps_unsettled m \<Longrightarrow> keeps_unsettled m' \<Longrightarrow> keeps_unsettled (if b then m else m')"
  "keeps_unsettled m \<Longrightarrow> (\<And>y. keeps_unsettled (f y)) \<Longrightarrow>
   keeps_unsettled (case v of None \<Rightarrow> m | Some y \<Rightarrow> f y)"
  by (auto split: option.splits)

lemma keeps_secure [settle_rules]: "keeps_unsettled (secureNonce deps x rec)"
proof -
  have "keeps_unsettled (\<lambda>w. sql deps (st (wtick w)) w)" for st
    by (auto simp: keeps_unsettled_def valid_def sql_def unsettled_def Let_def split: option.splits prod.splits sum.splits)
  then show ?thesis unfolding secureNonce_def by (intro settle_rules)
qed

lemma settle_calls [settle_rules]:
  "settles_delivery deps x (ack deps x)"
  "settles_delivery deps x (nack deps x ms)"
  "settles_delivery deps x (deadLetter deps x why)"
proof -
  have call: "settles_delivery deps x (qcall deps op [e])"
    if "is_settle e" and op: "\<And>k q. settles (re_queue deps k) x e q = Some (op (re_queue deps k) q)"
    for op e
    unfolding settles_delivery_def
  proof (intro allI validI)
    fix q l w r w'
    assume "unsettled q l w" and c: "qcall deps op [e] w = (Ok r, w')"
    then have "settles (re_queue deps (wtick w)) x e q = Some (Ok (), wq w')" "settlements w' = l @ [e]"
      using that by (auto simp: qcall_def unsettled_def split: prod.splits)
    then show "settled_once deps x q l w'" unfolding settled_once_def by blast
  next
    fix q l w err w'
    assume "unsettled q l w" and c: "qcall deps op [e] w = (Throw err, w')"
    then have "settles (re_queue deps (wtick w)) x e q = Some (Throw err, wq w')" "settlements w' = l"
      using that by (auto simp: qcall_def unsettled_def split: prod.splits)
    then show "settle_failed deps x q l w'" unfolding settle_failed_def by blast
  qed
  show "settles_delivery deps x (ack deps x)" "settles_delivery deps x (nack deps x ms)"
    "settles_delivery deps x (deadLetter deps x why)"
    unfolding ack_def nack_def deadLetter_def
    by (rule call; simp add: is_settle_def settles_def)+
qed

lemma unsettled_failed: "unsettled q l w \<Longrightarrow> settle_failed deps x q l w"
  by (simp add: unsettled_def settle_failed_def)

lemma settle_bind [settle_rules]:
  assumes "keeps_unsettled m" and "\<And>y. settles_delivery deps x (f y)"
  shows "settles_delivery deps x (bindM m f)"
  unfolding settles_delivery_def
proof (intro allI)
  fix q l
  have "valid (unsettled q l) m (\<lambda>_. unsettled q l) (\<lambda>_. settle_failed deps x q l)"
    using assms(1) unfolding keeps_unsettled_def by (blast intro: valid_weaken unsettled_failed)
  then show "valid (unsettled q l) (bindM m f) (\<lambda>_. settled_once deps x q l) (\<lambda>_. settle_failed deps x q l)"
    using assms(2) unfolding settles_delivery_def by (blast intro: valid_bind)
qed

lemma settle_attempt [settle_rules]:
  assumes "keeps_unsettled m" and "\<And>y. settles_delivery deps x (f y)" and "\<And>e. settles_delivery deps x (h e)"
  shows "settles_delivery deps x (attemptM m f h)"
  using assms unfolding settles_delivery_def keeps_unsettled_def by (blast intro: valid_attempt)

lemma settle_cases [settle_rules]:
  "settles_delivery deps x m \<Longrightarrow> (\<And>y. settles_delivery deps x (f y)) \<Longrightarrow>
   settles_delivery deps x (case v of None \<Rightarrow> m | Some y \<Rightarrow> f y)"
  "(\<And>y z. settles_delivery deps x (g y z)) \<Longrightarrow> settles_delivery deps x (case pr of (y, z) \<Rightarrow> g y z)"
  "settles_delivery deps x m \<Longrightarrow> (\<And>y. settles_delivery deps x (h y)) \<Longrightarrow>
   settles_delivery deps x (case pd of AlreadyConsumed \<Rightarrow> m | ReadyToSend y \<Rightarrow> h y)"
  by (auto split: option.splits prod.splits prepare_result.splits)

lemma settle_if [settle_rules]:
  "settles_delivery deps x m \<Longrightarrow> settles_delivery deps x m' \<Longrightarrow> settles_delivery deps x (if b then m else m')"
  by simp

lemma settle_failures [settle_rules]:
  "settles_delivery deps x (handleSubmittingFailure deps x rec err)"
  "settles_delivery deps x (handleDeliveryFailure deps x rec err)"
  unfolding handleSubmittingFailure_def handleDeliveryFailure_def Let_def
  by (intro settle_rules)+

lemma settle_deliver: "settles_delivery deps x (deliver deps x rec)"
  unfolding deliver_def broadcastAndRecord_def routePreCommitFailure_def
  by (intro settle_rules) (simp_all add: is_settle_def)

lemma settle_process: "settles_delivery deps x (processDelivery deps x)"
  unfolding processDelivery_def Let_def by (intro settle_rules settle_deliver)

text \<open>C3: Whatever the delivery module, the wallet pool, the database and the queue answer, a
  delivery the worker finishes with was settled by exactly one queue call of its own
  (\<open>ack\<close>, \<open>nack\<close> or \<open>deadLetter\<close>), and when the worker throws it was not settled at all:
  either no call was made and the queue is untouched, or the one call itself failed.\<close>

theorem worker_settles_once:
  "case processDelivery deps x w of
     (Inr _, w') \<Rightarrow>
       (\<exists>k e. settles (re_queue deps k) x e (wq w) = Some (Ok (), wq w') \<and>
          settlements w' = settlements w @ [e])
   | (Inl _, w') \<Rightarrow>
       settlements w' = settlements w \<and>
       (wq w' = wq w \<or>
        (\<exists>k e err. settles (re_queue deps k) x e (wq w) = Some (Throw err, wq w')))"
proof -
  have "unsettled (wq w) (settlements w) w" by (simp add: unsettled_def)
  from validD [OF settle_process [unfolded settles_delivery_def, rule_format] this, of deps x]
  show ?thesis
    unfolding settled_once_def settle_failed_def by (auto split: prod.split sum.split)
qed

end
