(* ===== verification/Worker_Progress.thy ===== *)
theory Worker_Progress
  imports Worker_Nonce Worker_Settle
begin

section \<open>What an acknowledged message means\<close>

text \<open>
  Acknowledging a message removes it from the queue for good. The worker only does so when the
  event's row has left \<open>pending\<close> and \<open>submitting\<close>, so a message that is not a replacement
  is never dropped while its row still needs somebody to drive it; a replacement message may
  also be dropped when the row no longer holds the nonce it was to replace. \<open>moved_on\<close> says
  so of some table of the run; \<open>driving\<close> is the assertion while the worker is still at work.
\<close>

definition is_ack :: "event \<Rightarrow> bool" where
  "is_ack e = (case e of EvAck _ \<Rightarrow> True | _ \<Rightarrow> False)"

abbreviation acks :: "'q world \<Rightarrow> event list" where
  "acks w \<equiv> filter is_ack (wtrace w)"

definition moved_on :: "db \<Rightarrow> relay_message \<Rightarrow> db \<Rightarrow> bool" where
  "moved_on d0 m d \<longleftrightarrow>
     (\<exists>d1 r. repo_steps d0 d1 \<and> repo_steps d1 d \<and> r \<in> set (transactions d1) \<and>
        same_event (chain_id m) (transaction_hash m) r \<and>
        (status r \<noteq> Pending \<and> status r \<noteq> Submitting \<or>
         replace_nonce m \<noteq> None \<and> nonce_used r \<noteq> replace_nonce m))"

definition driving :: "db \<Rightarrow> event list \<Rightarrow> relay_message \<Rightarrow> transaction_record \<Rightarrow> 'q world \<Rightarrow> bool" where
  "driving d0 as m rec w \<longleftrightarrow> acks w = as \<and> row_read d0 (wdb w) m rec \<and> repo_steps d0 (wdb w)"

definition ack_justified :: "db \<Rightarrow> event list \<Rightarrow> relay_message \<Rightarrow> 'q world \<Rightarrow> bool" where
  "ack_justified d0 as m w \<longleftrightarrow> acks w = as \<or> moved_on d0 m (wdb w)"

lemma moved_on_later: "moved_on d0 m d \<Longrightarrow> repo_steps d d' \<Longrightarrow> moved_on d0 m d'"
  unfolding moved_on_def by (blast intro: rtranclp_trans)

definition mute :: "'q world \<Rightarrow> 'q world \<Rightarrow> bool" where
  "mute w w' \<longleftrightarrow> acks w' = acks w"

interpretation mute_effects: preorder_effects mute
  by unfold_locales (simp_all add: mute_def)

lemma mute_sql: "moves mute (sql env st)"
  by (auto simp: moves_def mute_def sql_def Let_def split: option.splits prod.splits)

lemma mute_prims:
  "moves mute (ask f)" "\<not> is_ack e \<Longrightarrow> moves mute (emit e)"
  "moves mute (nack env x ms)" "moves mute (deadLetter env x why)"
  by (auto simp: moves_def mute_def ask_def emit_def nack_def deadLetter_def qcall_def is_ack_def
      split: prod.splits)

lemma mute_stmts:
  "moves mute (sql_find env c h)" "moves mute (sql_insert env i)"
  "moves mute (sql_submitted env j h w n)" "moves mute (sql_confirmed env j)"
  "moves mute (sql_touch env j)" "moves mute (sql_increment env j)"
  "moves mute (sql_failed env j m)" "moves mute (sql_dead env j m)"
  unfolding sql_stmt_defs by (rule mute_sql)+

lemmas mute_intros = mute_effects.moves_intros mute_prims mute_stmts

text \<open>Effects that neither acknowledge nor leave the run keep \<open>driving\<close>.\<close>

lemma keeps_driving:
  assumes "fair_env deps" and "moves mute m" and "moves (fair_le deps) m"
  shows "valid (driving d0 as k rec) m (\<lambda>_. driving d0 as k rec) (\<lambda>_. driving d0 as k rec)"
proof -
  have "driving d0 as k rec (snd (m w))" if "driving d0 as k rec w" for w
  proof -
    have "mute w (snd (m w))" "repo_steps (wdb w) (wdb (snd (m w)))"
      using assms by (simp_all add: moves_def fair_le_def world_le_def)
    with that show ?thesis
      unfolding driving_def mute_def by (blast intro: row_read_later rtranclp_trans trans)
  qed
  then show ?thesis by (intro validI) (metis snd_conv)+
qed

lemma driving_justified: "driving d0 as k rec w \<Longrightarrow> ack_justified d0 as k w"
  by (simp add: driving_def ack_justified_def)

lemma ends_driving:
  assumes "fair_env deps" and "moves mute m" and "moves (fair_le deps) m"
  shows "valid (driving d0 as k rec) m (\<lambda>_. ack_justified d0 as k) (\<lambda>_. ack_justified d0 as k)"
  by (rule valid_weaken [OF keeps_driving [OF assms]]) (auto intro: driving_justified)

lemma ack_after:
  assumes "fair_env deps"
  shows "valid (\<lambda>w. moved_on d0 k (wdb w)) (ack deps x) (\<lambda>_. ack_justified d0 as k) (\<lambda>_. ack_justified d0 as k)"
proof -
  have "moved_on d0 k (wdb (snd (ack deps x w)))" if "moved_on d0 k (wdb w)" for w
  proof -
    have "repo_steps (wdb w) (wdb (snd (ack deps x w)))"
      using fair.queue_moves(2) [of deps x] assms by (simp add: moves_def fair_le_def world_le_def)
    with that show ?thesis by (rule moved_on_later)
  qed
  then show ?thesis unfolding ack_justified_def by (intro validI) (metis snd_conv)+
qed

text \<open>The statements after which the worker acknowledges.\<close>

lemma stmt_moves_on:
  assumes fair: "fair_env deps" and ok: "stmt_ok st" and wf: "wf_db d0"
    and post: "\<And>t u d y d' r r'. st t u d = (Ok y, d') \<Longrightarrow> c y \<Longrightarrow> r \<in> set (transactions d) \<Longrightarrow>
       r' \<in> set (transactions d') \<Longrightarrow> row_id r = recId rec \<Longrightarrow> row_id r' = recId rec \<Longrightarrow> wf_db d' \<Longrightarrow>
       (status r = Pending \<longrightarrow> recStatus rec = Pending) \<Longrightarrow> status r' \<noteq> Pending \<and> status r' \<noteq> Submitting"
  shows "valid (driving d0 as k rec) (sql deps st)
     (\<lambda>y w. driving d0 as k rec w \<and> (c y \<longrightarrow> moved_on d0 k (wdb w))) (\<lambda>_. driving d0 as k rec)"
proof (rule validI)
  note kd = validD [OF keeps_driving [OF fair mute_sql fair.sql_moves_any [OF ok]]]
  fix w y w'
  assume dr: "driving d0 as k rec w" and s: "sql deps st w = (Ok y, w')"
  have dr': "driving d0 as k rec w'" by (rule kd(1) [OF dr s])
  have "moved_on d0 k (wdb w')" if cy: "c y"
  proof -
    let ?d = "re_itf deps (wtick w) (wdb w)"
    have st: "st (re_clock deps (wtick w)) (re_uuid deps (wtick w)) ?d = (Ok y, wdb w')"
      by (rule sql_Ok [OF s])
    obtain d1 r0 where r0: "repo_steps d0 d1" "repo_steps d1 (wdb w)" "r0 \<in> set (transactions d1)"
      "same_event (chain_id k) (transaction_hash k) r0" "rec = rowToRecord r0"
      using dr unfolding driving_def row_read_def by blast
    have d: "repo_steps d1 ?d" using r0(2) fair unfolding fair_env_def by (meson rtranclp_trans)
    have d': "repo_steps ?d (wdb w')" using ok st unfolding stmt_ok_def by (metis snd_conv)
    obtain r where r: "r \<in> set (transactions ?d)" "row_le r0 r"
      using repo_steps_le [OF d] r0(3) unfolding db_le_def by blast
    obtain r' where r': "r' \<in> set (transactions (wdb w'))" "row_le r r'"
      using repo_steps_le [OF d'] r(1) unfolding db_le_def by blast
    have le: "row_le r0 r'" using r(2) r'(2) by (rule row_le_trans)
    have ids: "row_id r = recId rec" "row_id r' = recId rec" "status r = Pending \<longrightarrow> recStatus rec = Pending"
      using r(2) le r0(5) by (simp_all add: row_le_def rowToRecord_def)
    have "wf_db (wdb w')" using repo_steps_wf d d' r0(1) wf by blast
    then have "status r' \<noteq> Pending \<and> status r' \<noteq> Submitting"
      using post [OF st cy r(1) r'(1) ids(1,2) _ ids(3)] by blast
    moreover have "same_event (chain_id k) (transaction_hash k) r'"
      using le r0(4) by (simp add: row_le_def same_event_def event_key_def)
    moreover have "repo_steps d0 (wdb w')" using dr' by (simp add: driving_def)
    ultimately show ?thesis using r'(1) unfolding moved_on_def by blast
  qed
  then show "driving d0 as k rec w' \<and> (c y \<longrightarrow> moved_on d0 k (wdb w'))" using dr' by blast
next
  fix w e w'
  assume "driving d0 as k rec w" "sql deps st w = (Throw e, w')"
  then show "driving d0 as k rec w'"
    using validD(2) [OF keeps_driving [OF fair mute_sql fair.sql_moves_any [OF ok]]] by blast
qed

lemma confirmed_moves_on:
  assumes "fair_env deps" and "wf_db d0"
  shows "valid (driving d0 as k rec) (sql_confirmed deps (recId rec))
     (\<lambda>_ w. moved_on d0 k (wdb w)) (\<lambda>_. driving d0 as k rec)"
proof -
  have "status r' \<noteq> Pending \<and> status r' \<noteq> Submitting"
    if "total_stmt (markConfirmed t d (recId rec)) = (Ok y, d')" "r' \<in> set (transactions d')"
      "row_id r' = recId rec" for t d y d' r'
    using that by (cases "status r'") (auto simp: total_stmt_def markConfirmed_def matches_def)
  then show ?thesis unfolding sql_confirmed_def
    by (intro valid_weaken [OF stmt_moves_on [OF assms(1) stmt_ok_repo(4) assms(2), where c = "\<lambda>_. True"]]) auto
qed

lemma submitted_moves_on:
  assumes "fair_env deps" and "wf_db d0"
  shows "valid (driving d0 as k rec) (sql_submitted deps (recId rec) h a n)
     (\<lambda>_ w. moved_on d0 k (wdb w)) (\<lambda>_. driving d0 as k rec)"
proof -
  have "status r' \<noteq> Pending \<and> status r' \<noteq> Submitting"
    if "total_stmt (markSubmitted t d (recId rec) h a n) = (Ok y, d')" "r' \<in> set (transactions d')"
      "row_id r' = recId rec" for t d y d' r'
    using that by (cases "status r'") (auto simp: total_stmt_def markSubmitted_def matches_def)
  then show ?thesis unfolding sql_submitted_def
    by (intro valid_weaken [OF stmt_moves_on [OF assms(1) stmt_ok_repo(3) assms(2), where c = "\<lambda>_. True"]]) auto
qed

lemma increment_moves_on:
  assumes "fair_env deps" and "wf_db d0" and "recStatus rec \<noteq> Pending"
  shows "valid (driving d0 as k rec) (sql_increment deps (recId rec))
     (\<lambda>b w. driving d0 as k rec w \<and> (b = None \<longrightarrow> moved_on d0 k (wdb w))) (\<lambda>_. driving d0 as k rec)"
proof -
  have "status r' \<noteq> Pending \<and> status r' \<noteq> Submitting"
    if st: "total_stmt (incrementRetry t d (recId rec)) = (Ok b, d')" "b = None"
      and r: "r \<in> set (transactions d)" "r' \<in> set (transactions d')"
      and ids: "row_id r = recId rec" "row_id r' = recId rec" and "wf_db d'"
      and p: "status r = Pending \<longrightarrow> recStatus rec = Pending" for t d b d' r r'
  proof -
    have none: "\<forall>r \<in> set (transactions d). \<not> matches (recId rec) [Submitting, Submitted] r"
      using st by (auto simp: total_stmt_def incrementRetry_def returned_budget_def update_rows_def
          filter_empty_conv split: list.splits)
    then have same: "transactions d' = transactions d"
      using st(1) by (auto simp: total_stmt_def incrementRetry_def intro!: map_idI)
    then have "r' = r" using r ids wf_db_row_unique [OF \<open>wf_db d'\<close>] by simp
    then show ?thesis using none r(1) ids(1) p assms(3) by (auto simp: matches_def)
  qed
  then show ?thesis unfolding sql_increment_def
    by (intro stmt_moves_on [OF assms(1) stmt_ok_repo(6) assms(2), where c = "\<lambda>b. b = None"]) blast
qed

subsection \<open>The code paths\<close>

abbreviation justified_run :: "db \<Rightarrow> event list \<Rightarrow> relay_message \<Rightarrow> ('q world \<Rightarrow> bool) \<Rightarrow> ('q world, unit) eff \<Rightarrow> bool" where
  "justified_run d0 as k P m \<equiv> valid P m (\<lambda>_. ack_justified d0 as k) (\<lambda>_. ack_justified d0 as k)"

lemma drive_then:
  assumes "valid (driving d0 as k rec) m (\<lambda>_. P) (\<lambda>_. driving d0 as k rec)"
    and "\<And>y. justified_run d0 as k P (f y)"
  shows "justified_run d0 as k (driving d0 as k rec) (bindM m f)"
  by (rule valid_bind [OF valid_weaken [OF assms(1)] assms(2)]) (auto intro: driving_justified)

lemma submitting_failure_justified:
  assumes fair: "fair_env deps" and wf: "wf_db d0"
    and row: "recId rec' = recId rec" "recStatus rec' \<noteq> Pending"
  shows "justified_run d0 as k (driving d0 as k rec') (handleSubmittingFailure deps x rec err)"
proof -
  let ?inc = "bindM (sql_increment deps (recId rec)) (\<lambda>budget.
          case budget of
            None \<Rightarrow> ack deps x
          | Some (rc, mx) \<Rightarrow>
              (if mx \<le> rc then
                 bindM (sql_dead deps (recId rec) (emessage err)) (\<lambda>_. deadLetter deps x (emessage err))
               else
                 bindM (ask (\<lambda>k. Ok (computeBackoffDelayMs (int rc) default_backoff (re_jitter deps k))))
                   (nack deps x)))"
  have inc: "justified_run d0 as k (driving d0 as k rec') ?inc"
  proof (rule valid_bind)
    show "valid (driving d0 as k rec') (sql_increment deps (recId rec))
        (\<lambda>b w. driving d0 as k rec' w \<and> (b = None \<longrightarrow> moved_on d0 k (wdb w))) (\<lambda>_. ack_justified d0 as k)"
      using increment_moves_on [OF fair wf row(2), of as k] unfolding row(1)
      by (rule valid_weaken) (auto intro: driving_justified)
    fix b :: "(nat \<times> nat) option"
    show "justified_run d0 as k (\<lambda>w. driving d0 as k rec' w \<and> (b = None \<longrightarrow> moved_on d0 k (wdb w)))
      (case b of None \<Rightarrow> ack deps x
       | Some (rc, mx) \<Rightarrow>
           if mx \<le> rc then
             bindM (sql_dead deps (recId rec) (emessage err)) (\<lambda>_. deadLetter deps x (emessage err))
           else bindM (ask (\<lambda>k. Ok (computeBackoffDelayMs (int rc) default_backoff (re_jitter deps k))))
                  (nack deps x))"
    proof (cases b)
      case None
      then show ?thesis by (auto intro: valid_pre [OF ack_after [OF fair]])
    next
      case (Some p)
      have "justified_run d0 as k (driving d0 as k rec')
        (case p of (rc, mx) \<Rightarrow>
           if mx \<le> rc then
             bindM (sql_dead deps (recId rec) (emessage err)) (\<lambda>_. deadLetter deps x (emessage err))
           else bindM (ask (\<lambda>k. Ok (computeBackoffDelayMs (int rc) default_backoff (re_jitter deps k))))
                  (nack deps x))"
        by (rule ends_driving [OF fair]) (intro mute_intros fair.role_intros)+
      with Some show ?thesis by (auto intro: valid_pre)
    qed
  qed
  have other: "justified_run d0 as k (driving d0 as k rec') m" if "moves mute m" "moves (fair_le deps) m" for m
    by (rule ends_driving [OF fair that])
  show ?thesis unfolding handleSubmittingFailure_def
    by (intro valid_if inc other mute_intros fair.role_intros)
qed

lemma delivery_failure_mute: "moves mute (handleDeliveryFailure deps x rec err)"
  unfolding handleDeliveryFailure_def Let_def by (intro mute_intros)

lemma row_read_status:
  assumes "row_read d0 d m rec" and "wf_db d0" and "nonceUsed rec \<noteq> None"
  shows "recStatus rec \<noteq> Pending"
proof -
  obtain d1 r where "repo_steps d0 d1" "r \<in> set (transactions d1)" "rec = rowToRecord r"
    using assms(1) unfolding row_read_def by blast
  moreover from this have "wf_row r" using repo_steps_wf assms(2) unfolding wf_db_def by blast
  ultimately show ?thesis using assms(3) by (auto simp: wf_row_def rowToRecord_def)
qed

lemma resubmit_not_pending:
  assumes "isResubmit m rec" and "row_read d0 d m rec" and "wf_db d0"
    and "replace_nonce m = None \<or> nonceUsed rec = replace_nonce m"
  shows "recStatus rec \<noteq> Pending"
proof -
  have "nonceUsed rec \<noteq> None"
    using assms(1,4) by (auto simp: isResubmit_def resubmitNonce_def split: option.splits if_splits)
  then show ?thesis using row_read_status assms(2,3) by blast
qed

lemma route_justified:
  assumes fair: "fair_env deps" and wf: "wf_db d0"
    and fresh: "replace_nonce (message x) = None \<or> nonceUsed rec = replace_nonce (message x)"
  shows "justified_run d0 as (message x) (driving d0 as (message x) rec) (routePreCommitFailure deps x rec err)"
proof (cases "isResubmit (message x) rec")
  case True
  have "justified_run d0 as (message x) (driving d0 as (message x) rec) (handleSubmittingFailure deps x rec err)"
  proof (rule valid_assume)
    fix w :: "'a world" assume w: "driving d0 as (message x) rec w"
    then have "recStatus rec \<noteq> Pending"
      using resubmit_not_pending [OF True _ wf fresh] unfolding driving_def by blast
    from submitting_failure_justified [OF fair wf refl this, of as "message x" x err]
    show "justified_run d0 as (message x) (\<lambda>s. s = w) (handleSubmittingFailure deps x rec err)"
      by (rule valid_pre) (simp add: w)
  qed
  with True show ?thesis by (simp add: routePreCommitFailure_def)
next
  case False
  then show ?thesis unfolding routePreCommitFailure_def
    using ends_driving [OF fair delivery_failure_mute fair_worker.delivery_failure_moves] by simp
qed

lemma mute_secure: "moves mute (secureNonce deps x rec)"
proof -
  have "moves mute (\<lambda>w. sql deps (st (wtick w)) w)" for st
    by (simp add: moves_def mute_sql [unfolded moves_def, rule_format])
  then show ?thesis unfolding secureNonce_def by (intro mute_intros)
qed

lemma secure_drives:
  assumes fair: "fair_env deps" and wf: "wf_db d0"
    and live: "\<not> skip (message x) (recStatus rec)"
    and fresh: "replace_nonce (message x) = None \<or> nonceUsed rec = replace_nonce (message x)"
  shows "valid (driving d0 as (message x) rec) (secureNonce deps x rec)
     (\<lambda>l w. \<exists>rec'. driving d0 as (message x) rec' w \<and> (recId rec' = recId rec \<and> recStatus rec' \<noteq> Pending))
     (\<lambda>_. driving d0 as (message x) rec)"
proof (rule validI)
  note kd = validD [OF keeps_driving [OF fair mute_secure fair_worker.secure_moves]]
  fix w l w'
  assume dr: "driving d0 as (message x) rec w" and s: "secureNonce deps x rec w = (Ok l, w')"
  have dr': "driving d0 as (message x) rec w'" by (rule kd(1) [OF dr s])
  obtain d1 r0 where r0: "repo_steps d0 d1" "repo_steps d1 (wdb w)" "r0 \<in> set (transactions d1)"
    "same_event (chain_id (message x)) (transaction_hash (message x)) r0" "rec = rowToRecord r0"
    using dr unfolding driving_def row_read_def by blast
  have "\<not> terminal r0" using live r0(5) by (simp add: skip_def terminal_def rowToRecord_def)
  then obtain d r where r: "repo_steps d1 d" "repo_steps d (wdb w')" "r \<in> set (transactions d)"
    and rec: "on_record rec (l_signer l) (l_nonce l) r"
    using secure_on_record [OF s fair r0(2) repo_steps_wf [OF r0(1) wf] r0(3,5) _ fresh] by blast
  have ev: "same_event (chain_id (message x)) (transaction_hash (message x)) r" and id: "row_id r = recId rec"
    using rec r0(4,5) by (simp_all add: on_record_def same_event_def rowToRecord_def)
  have rd: "row_read d0 (wdb w') (message x) (rowToRecord r)"
    unfolding row_read_def using r r0(1) ev by (blast intro: rtranclp_trans)
  then have "recStatus (rowToRecord r) \<noteq> Pending"
    using row_read_status [OF rd wf] rec by (simp add: on_record_def rowToRecord_def)
  with rd dr' id show "\<exists>rec'. driving d0 as (message x) rec' w' \<and> (recId rec' = recId rec \<and> recStatus rec' \<noteq> Pending)"
    by (intro exI [of _ "rowToRecord r"]) (simp add: driving_def rowToRecord_def)
next
  fix w e w'
  assume "driving d0 as (message x) rec w" "secureNonce deps x rec w = (Throw e, w')"
  then show "driving d0 as (message x) rec w'"
    using validD(2) [OF keeps_driving [OF fair mute_secure fair_worker.secure_moves]] by blast
qed

lemma broadcast_justified:
  assumes fair: "fair_env deps" and wf: "wf_db d0"
    and row: "recId rec' = recId rec" "recStatus rec' \<noteq> Pending"
  shows "justified_run d0 as k (driving d0 as k rec') (broadcastAndRecord deps x rec ready l)"
proof -
  have keep: "valid (driving d0 as k rec') m (\<lambda>_. driving d0 as k rec') (\<lambda>_. driving d0 as k rec')"
    if "moves mute m" "moves (fair_le deps) m" for m :: "('a world, 'b) eff"
    by (rule keeps_driving [OF fair that])
  have alert: "valid (\<lambda>w. moved_on d0 k (wdb w)) (emit e :: ('a world, unit) eff) (\<lambda>_ w. moved_on d0 k (wdb w)) (\<lambda>_. ack_justified d0 as k)"
    for e by (rule validI) (auto simp: emit_def)
  have sub: "valid (driving d0 as k rec') (sql_submitted deps (recId rec) h a n)
      (\<lambda>_ w. moved_on d0 k (wdb w)) (\<lambda>_. driving d0 as k rec')" for h a n
    using submitted_moves_on [OF fair wf, of as k rec'] unfolding row(1) .
  show ?thesis unfolding broadcastAndRecord_def
    by (intro drive_then [OF keep] valid_attempt [OF keep] drive_then [OF sub] valid_if
        valid_bind [OF alert] ack_after [OF fair] submitting_failure_justified [OF fair wf row]
        mute_intros fair.role_intros) (simp add: is_ack_def)
qed

lemma deliver_justified:
  assumes fair: "fair_env deps" and wf: "wf_db d0"
    and live: "\<not> skip (message x) (recStatus rec)"
    and fresh: "replace_nonce (message x) = None \<or> nonceUsed rec = replace_nonce (message x)"
  shows "justified_run d0 as (message x) (driving d0 as (message x) rec) (deliver deps x rec)"
proof -
  note route = route_justified [OF fair wf fresh]
  have send: "justified_run d0 as (message x) (driving d0 as (message x) rec)
      (attemptM (secureNonce deps x rec) (broadcastAndRecord deps x rec ready) (routePreCommitFailure deps x rec))" for ready
    by (rule valid_attempt [OF secure_drives [OF fair wf live fresh]])
       (auto intro!: valid_ex broadcast_justified [OF fair wf] route)
  have consumed: "justified_run d0 as (message x) (driving d0 as (message x) rec)
      (bindM (sql_confirmed deps (recId rec)) (\<lambda>_. ack deps x))"
    by (intro drive_then [OF confirmed_moves_on [OF fair wf]] ack_after [OF fair])
  have both: "justified_run d0 as (message x) (driving d0 as (message x) rec)
      (case pr of AlreadyConsumed \<Rightarrow> bindM (sql_confirmed deps (recId rec)) (\<lambda>_. ack deps x)
       | ReadyToSend ready \<Rightarrow> attemptM (secureNonce deps x rec) (broadcastAndRecord deps x rec ready)
            (routePreCommitFailure deps x rec))" for pr
    using send consumed by (cases pr) simp_all
  show ?thesis unfolding deliver_def
    by (rule valid_attempt [OF keeps_driving [OF fair mute_prims(1) fair.ask_moves] both route])
qed

lemma mute_reach: "moves mute (reach_row deps m)"
  unfolding reach_row_def by (intro mute_intros)

lemma reach_row_drives:
  assumes "fair_env deps"
  shows "valid (\<lambda>w. w = w0) (reach_row deps m)
    (\<lambda>p w. driving (wdb w0) (acks w0) m (snd p) w) (\<lambda>_ w. ack_justified (wdb w0) (acks w0) m w)"
proof (rule validI)
  fix w p w'
  assume "w = w0" and r: "reach_row deps m w = (Ok p, w')"
  then show "driving (wdb w0) (acks w0) m (snd p) w'"
    using reach_row_Ok [OF assms, of m w0 "fst p" "snd p" w'] movesD [OF mute_reach r]
    by (simp add: driving_def mute_def)
next
  fix w e w'
  assume "w = w0" and r: "reach_row deps m w = (Throw e, w')"
  then show "ack_justified (wdb w0) (acks w0) m w'"
    using movesD [OF mute_reach r] by (simp add: ack_justified_def mute_def)
qed

lemma dropped_justified:
  assumes "fair_env deps" and "skip m (recStatus rec) \<or> replace_nonce m \<noteq> None \<and> nonceUsed rec \<noteq> replace_nonce m"
  shows "justified_run d0 as m (driving d0 as m rec) (ack deps x)"
proof (rule valid_pre [OF ack_after [OF assms(1)]])
  fix w :: "'a world"
  assume "driving d0 as m rec w"
  then obtain d1 r where r: "repo_steps d0 d1" "repo_steps d1 (wdb w)" "r \<in> set (transactions d1)"
    "same_event (chain_id m) (transaction_hash m) r" "rec = rowToRecord r"
    unfolding driving_def row_read_def by blast
  moreover have "status r \<noteq> Pending \<and> status r \<noteq> Submitting \<or>
      replace_nonce m \<noteq> None \<and> nonce_used r \<noteq> replace_nonce m"
    using assms(2) r(5) by (auto simp: skip_def rowToRecord_def)
  ultimately show "moved_on d0 m (wdb w)" unfolding moved_on_def by blast
qed

text \<open>C2: A worker acknowledges a message only when, at some moment of the run, the event's row
  has left \<open>pending\<close> and \<open>submitting\<close> (it is on the wire, resolved, or failed and owned by
  the retry path), or the message is a replacement whose nonce the row no longer holds. No
  message of an event that still needs driving is dropped, under any interleaving.\<close>

theorem worker_acks_only_moved_on:
  assumes "fair_env deps" and "wf_db (wdb w)" and "processDelivery deps x w = (res, w')"
  shows "acks w' = acks w \<or> moved_on (wdb w) (message x) (wdb w')"
proof -
  have "justified_run (wdb w) (acks w) (message x) (\<lambda>s. s = w) (processDelivery deps x)"
    unfolding processDelivery_alt
    by (rule valid_bind [OF reach_row_drives [OF assms(1)]])
       (auto intro!: dropped_justified [OF assms(1)] deliver_justified [OF assms(1,2)] split: prod.splits)
  from validD [OF this refl] have "ack_justified (wdb w) (acks w) (message x) w'"
    using assms(3) by (cases res) blast+
  then show ?thesis by (simp add: ack_justified_def)
qed

theorem worker_acks_only_moved_on_witness:
  "acks (snd (processDelivery (demo_deps (Ok AlreadyConsumed) (Ok ''0xhash'')) demo_delivery demo_world))
     = [EvAck demo_delivery] \<and>
   moved_on empty_db demo_message
     (wdb (snd (processDelivery (demo_deps (Ok AlreadyConsumed) (Ok ''0xhash'')) demo_delivery demo_world)))"
proof -
  have a: "acks (snd (processDelivery (demo_deps (Ok AlreadyConsumed) (Ok ''0xhash'')) demo_delivery demo_world))
     = [EvAck demo_delivery]" by code_simp
  have "acks demo_world = []" "wdb demo_world = empty_db" "message demo_delivery = demo_message"
    by (simp_all add: demo_world_def demo_delivery_def)
  with worker_acks_only_moved_on [OF fair_demo wf_demo_world prod.collapse [symmetric],
      of "Ok AlreadyConsumed" "Ok ''0xhash''" demo_delivery] a
  show ?thesis by auto
qed

end
