(* ===== verification/Role_Quiet.thy ===== *)
theory Role_Quiet
  imports Role_World
begin

section \<open>Roles in a quiet environment\<close>

text \<open>
  When nothing else writes and no statement fails, a statement on a row changes exactly that
  row. The functional properties of the roles (what happens to the row and to the queue on each
  branch) are stated there; \<open>the_row d i r\<close> says that \<open>r\<close> is the one row with id \<open>i\<close>.
\<close>

text \<open>A quiet environment: nothing else writes and no statement fails.\<close>

definition quiet :: "('q, 'z) role_env_scheme \<Rightarrow> bool" where
  "quiet env \<longleftrightarrow> (\<forall>k d. re_itf env k d = d) \<and> (\<forall>k. re_dbfail env k = None)"

lemma sql_quiet:
  "quiet env \<Longrightarrow> sql env st w =
     (let (r, d') = st (re_clock env (wtick w)) (re_uuid env (wtick w)) (wdb w)
      in (r, w\<lparr>wdb := d', wtick := wtick w + 1\<rparr>))"
  by (simp add: sql_def quiet_def Let_def)

definition the_row :: "db \<Rightarrow> nat \<Rightarrow> row \<Rightarrow> bool" where
  "the_row d i r \<longleftrightarrow> filter (\<lambda>r. row_id r = i) (transactions d) = [r]"

lemma the_row_wf: "wf_db d \<Longrightarrow> r \<in> set (transactions d) \<Longrightarrow> the_row d (row_id r) r"
proof -
  assume wf: "wf_db d" and r: "r \<in> set (transactions d)"
  have "filter (\<lambda>r'. row_id r' = row_id r) xs = [r]"
    if "distinct (map row_id xs)" "r \<in> set xs" for xs
    using that
  proof (induction xs)
    case Nil
    then show ?case by simp
  next
    case (Cons y ys)
    show ?case
    proof (cases "row_id y = row_id r")
      case True
      with Cons.prems have "y = r" by (auto simp: image_iff)
      moreover have "filter (\<lambda>r'. row_id r' = row_id r) ys = []"
        using Cons.prems(1) True by (auto simp: filter_empty_conv image_iff)
      ultimately show ?thesis by simp
    next
      case False
      with Cons show ?thesis by auto
    qed
  qed
  then show ?thesis using wf r unfolding the_row_def wf_db_def by blast
qed

lemma update_the_row:
  assumes "the_row d i r" and "\<And>r. row_id (f r) = row_id r"
  shows "fst (update_rows i sts f d) = (if status r \<in> set sts then [f r] else [])"
    and "the_row (snd (update_rows i sts f d)) i (if status r \<in> set sts then f r else r)"
proof -
  have split: "filter (matches i sts) xs = filter (\<lambda>r. status r \<in> set sts) (filter (\<lambda>r. row_id r = i) xs)" for xs
    unfolding filter_filter by (rule filter_cong) (auto simp: matches_def)
  show "fst (update_rows i sts f d) = (if status r \<in> set sts then [f r] else [])"
    using assms(1) by (simp add: update_rows_def split the_row_def)
  have "filter (\<lambda>r. row_id r = i) (map (\<lambda>r. if matches i sts r then f r else r) xs)
      = map (\<lambda>r. if matches i sts r then f r else r) (filter (\<lambda>r. row_id r = i) xs)" for xs
    using assms(2) by (induction xs) auto
  moreover have "row_id r = i"
    using assms(1) unfolding the_row_def by (metis (mono_tags, lifting) filter_eq_ConsD)
  ultimately show "the_row (snd (update_rows i sts f d)) i (if status r \<in> set sts then f r else r)"
    using assms(1) by (simp add: the_row_def matches_def)
qed

lemma failed_quiet:
  assumes "quiet env" and "the_row (wdb w) i r" and "status r \<in> {Pending, Submitted, Failed}"
  obtains d' t where "sql_failed env i msg w =
      (Ok (Some (retry_count r + 1, max_retries r)), w\<lparr>wdb := d', wtick := wtick w + 1\<rparr>)"
    "the_row d' i (r\<lparr>status := Failed, error_message := Some msg, retry_count := retry_count r + 1, updated_at := t\<rparr>)"
proof -
  let ?t = "re_clock env (wtick w)"
  let ?f = "\<lambda>r. r\<lparr>status := Failed, error_message := Some msg, retry_count := retry_count r + 1, updated_at := ?t\<rparr>"
  let ?u = "update_rows i [Pending, Submitted, Failed] ?f (wdb w)"
  have u: "fst ?u = [?f r]" "the_row (snd ?u) i (?f r)"
    using update_the_row [OF assms(2), of ?f "[Pending, Submitted, Failed]"] assms(3) by (auto split: if_splits)
  then have "sql_failed env i msg w =
      (Ok (Some (retry_count r + 1, max_retries r)), w\<lparr>wdb := snd ?u, wtick := wtick w + 1\<rparr>)"
    using assms(1) by (simp add: sql_failed_def sql_quiet total_stmt_def markFailed_def returned_budget_def)
  with u(2) show ?thesis using that by blast
qed

lemma increment_quiet:
  assumes "quiet env" and "the_row (wdb w) i r" and "status r \<in> {Submitting, Submitted}"
  obtains d' t where "sql_increment env i w =
      (Ok (Some (retry_count r + 1, max_retries r)), w\<lparr>wdb := d', wtick := wtick w + 1\<rparr>)"
    "the_row d' i (r\<lparr>retry_count := retry_count r + 1, updated_at := t\<rparr>)"
proof -
  let ?t = "re_clock env (wtick w)"
  let ?f = "\<lambda>r. r\<lparr>retry_count := retry_count r + 1, updated_at := ?t\<rparr>"
  let ?u = "update_rows i [Submitting, Submitted] ?f (wdb w)"
  have u: "fst ?u = [?f r]" "the_row (snd ?u) i (?f r)"
    using update_the_row [OF assms(2), of ?f "[Submitting, Submitted]"] assms(3) by (auto split: if_splits)
  then have "sql_increment env i w =
      (Ok (Some (retry_count r + 1, max_retries r)), w\<lparr>wdb := snd ?u, wtick := wtick w + 1\<rparr>)"
    using assms(1) by (simp add: sql_increment_def sql_quiet total_stmt_def incrementRetry_def returned_budget_def)
  with u(2) show ?thesis using that by blast
qed

lemma dead_quiet:
  assumes "quiet env" and "the_row (wdb w) i r" and "\<not> terminal r"
  obtains d' t where "sql_dead env i msg w = (Ok True, w\<lparr>wdb := d', wtick := wtick w + 1\<rparr>)"
    "the_row d' i (r\<lparr>status := Dead_letter, error_message := Some msg, nonce_used := clear_unsent_nonce r,
       updated_at := t\<rparr>)"
proof -
  let ?t = "re_clock env (wtick w)"
  let ?f = "\<lambda>r. r\<lparr>status := Dead_letter, error_message := Some msg, nonce_used := clear_unsent_nonce r, updated_at := ?t\<rparr>"
  let ?u = "update_rows i [Pending, Submitting, Submitted, Failed] ?f (wdb w)"
  have "status r \<in> set [Pending, Submitting, Submitted, Failed]"
    using assms(3) by (cases "status r") (auto simp: terminal_def)
  then have u: "fst ?u = [?f r]" "the_row (snd ?u) i (?f r)"
    using update_the_row [OF assms(2), of ?f "[Pending, Submitting, Submitted, Failed]"] by (auto split: if_splits)
  then have "sql_dead env i msg w = (Ok True, w\<lparr>wdb := snd ?u, wtick := wtick w + 1\<rparr>)"
    using assms(1) by (simp add: sql_dead_def sql_quiet total_stmt_def markDeadLetter_def updated_any_def)
  with u(2) show ?thesis using that by blast
qed

subsection \<open>Published messages\<close>

definition is_publish :: "event \<Rightarrow> bool" where
  "is_publish e = (case e of EvPublish _ \<Rightarrow> True | _ \<Rightarrow> False)"

abbreviation published :: "'q world \<Rightarrow> event list" where
  "published w \<equiv> filter is_publish (wtrace w)"

lemma confirmed_quiet:
  assumes "quiet env" and "the_row (wdb w) i r" and "\<not> terminal r"
  obtains d' t where "sql_confirmed env i w = (Ok True, w\<lparr>wdb := d', wtick := wtick w + 1\<rparr>)"
    "the_row d' i (r\<lparr>status := Confirmed, nonce_used := clear_unsent_nonce r, updated_at := t\<rparr>)"
proof -
  let ?t = "re_clock env (wtick w)"
  let ?f = "\<lambda>r. r\<lparr>status := Confirmed, nonce_used := clear_unsent_nonce r, updated_at := ?t\<rparr>"
  let ?u = "update_rows i [Pending, Submitting, Submitted, Failed] ?f (wdb w)"
  have "status r \<in> set [Pending, Submitting, Submitted, Failed]"
    using assms(3) by (cases "status r") (auto simp: terminal_def)
  then have u: "fst ?u = [?f r]" "the_row (snd ?u) i (?f r)"
    using update_the_row [OF assms(2), of ?f "[Pending, Submitting, Submitted, Failed]"] by (auto split: if_splits)
  then have "sql_confirmed env i w = (Ok True, w\<lparr>wdb := snd ?u, wtick := wtick w + 1\<rparr>)"
    using assms(1) by (simp add: sql_confirmed_def sql_quiet total_stmt_def markConfirmed_def updated_any_def)
  with u(2) show ?thesis using that by blast
qed

lemma publish_Ok:
  assumes "publish env m w = (Ok (), w')"
  shows "wdb w' = wdb w" and "published w' = published w @ [EvPublish m]"
  using assms by (auto simp: publish_def qcall_def is_publish_def split: prod.splits)

end
