(* ===== verification/Worker_Run.thy ===== *)
theory Worker_Run
  imports Worker Demo_Env Role_Quiet
begin

section \<open>Runs of a worker\<close>

text \<open>
  The worker's loops and its retry budget: draining keeps the table well formed and resolved
  rows untouched, both loops return once the abort signal is raised, and a failed delivery
  spends exactly one unit of its row's budget.
\<close>

subsection \<open>Shutdown\<close>

lemma qcall_ticks: "qcall env op evs w = (r, w') \<Longrightarrow> wtick w' = wtick w + 1"
  by (auto simp: qcall_def split: prod.splits)

lemma drain_round_ticks:
  assumes "drain_round deps p w = (r, w')"
  shows "wtick w < wtick w'"
proof -
  let ?q = "qcall deps (\<lambda>ops. q_reclaim ops p 1) [] :: ('a world, delivery list) eff"
  let ?rest = "\<lambda>ds. bindM (forM ds (handle_logged deps)) (\<lambda>_ w.
       if stand_down deps w then (Ok True, w)
       else
         bindM (qcall deps (\<lambda>ops. q_consume ops p 1) []) (\<lambda>ds'.
         bindM (forM ds' (handle_logged deps)) (\<lambda>_.
         bindM (emit EvHeartbeat) (\<lambda>_. returnM False))) w)"
  obtain a w1 where q: "?q w = (a, w1)" by fastforce
  have tail: "moves tick_le (\<lambda>w. if stand_down deps w then (Ok True, w)
       else bindM (qcall deps (\<lambda>ops. q_consume ops p 1) []) (\<lambda>ds'.
         bindM (forM ds' (handle_logged deps)) (\<lambda>_.
         bindM (emit EvHeartbeat) (\<lambda>_. returnM False))) w)"
  proof -
    have "moves tick_le (bindM (qcall deps (\<lambda>ops. q_consume ops p 1) []) (\<lambda>ds'.
         bindM (forM ds' (handle_logged deps)) (\<lambda>_. bindM (emit EvHeartbeat) (\<lambda>_. returnM False))))"
      by (intro tick.role_intros tick_worker.handle_moves)
    then show ?thesis by (simp add: moves_def tick_le_def)
  qed
  have rest: "moves tick_le (?rest ds)" for ds
    by (intro tick.role_intros tick_worker.handle_moves tail)
  have "wtick w1 \<le> wtick w'"
  proof (cases a)
    case (Inl e)
    then show ?thesis using assms q by (simp add: drain_round_def bindM_def)
  next
    case (Inr ds)
    then have "?rest ds w1 = (r, w')" using assms q by (simp add: drain_round_def bindM_def)
    then show ?thesis using movesD [OF rest] by (simp add: tick_le_def)
  qed
  then show ?thesis using qcall_ticks [OF q] by simp
qed

lemma drain_stops:
  assumes "\<And>k. K \<le> k \<Longrightarrow> re_aborted deps k"
  shows "\<exists>y. drainPartition deps p w = Some y"
proof (induction "K - wtick w" arbitrary: w rule: less_induct)
  case less
  obtain r w1 where rd: "drain_round deps p w = (r, w1)" by fastforce
  show ?case
  proof (cases "stand_down deps w \<or> isl r \<or> projr r")
    case True
    then show ?thesis using rd by (subst drainPartition.simps) auto
  next
    case False
    then have "\<not> K \<le> wtick w" using assms unfolding stand_down_def by blast
    then have "K - wtick w1 < K - wtick w" using drain_round_ticks [OF rd] by linarith
    from less.hyps [OF this] show ?thesis using False rd by (subst drainPartition.simps) simp
  qed
qed

lemma turn_stops:
  assumes "\<And>k. K \<le> k \<Longrightarrow> re_aborted deps k"
  shows "\<exists>y. partition_turn deps p w = Some y"
proof -
  have "drainPartition deps p w \<noteq> None" for w using drain_stops [OF assms] by fastforce
  then have "partition_turn deps p w \<noteq> None" unfolding partition_turn_def Let_def
    by (simp del: not_None_eq split: sum.split)
  then show ?thesis by blast
qed

lemma turn_ticks:
  assumes "partition_turn deps p w = Some (r, w')"
  shows "wtick w \<le> wtick w'"
proof -
  have d: "wtick w \<le> wtick w'" if "drainPartition deps p w = Some (r, w')" for w r w'
    using tick_worker.drain_moves [OF that] by (simp add: tick_le_def)
  show ?thesis using assms d [of "w\<lparr>wtick := wtick w + 1\<rparr>"] d [of w]
    unfolding partition_turn_def Let_def
    by (cases "advisoryKey (re_eth deps) (''partition:'' @ show_nat p)")
       (auto simp: released_simps owned_result_eq simp del: append.simps split: if_splits)
qed

lemma sleep_ticks: "wtick (snd (sleep ms w)) = wtick w + 1"
  by (simp add: sleep_def bindM_def emit_def ask_def)

text \<open>An owned turn that returns normally has seen a reason to stand down after its first step.\<close>

lemma drain_owned_ticks:
  assumes "drainPartition deps p w = Some (Ok (), w')" and "\<not> stand_down deps w"
  shows "wtick w < wtick w'"
proof -
  obtain r1 w1 where rd: "drain_round deps p w = (r1, w1)" by fastforce
  have "w' = w1 \<or> drainPartition deps p w1 = Some (Ok (), w')"
    using assms rd by (subst (asm) drainPartition.simps) (auto split: if_splits)
  then have "wtick w1 \<le> wtick w'"
    using tick_worker.drain_moves [of deps p w1] by (auto simp: tick_le_def)
  then show ?thesis using drain_round_ticks [OF rd] by simp
qed

lemma turn_owned_ticks:
  assumes "partition_turn deps p w = Some (Ok True, w')" and "\<not> re_aborted deps (wtick w)"
  shows "wtick w < wtick w'"
proof (cases "wd_hasPool deps")
  case False
  then obtain a where "drainPartition deps p w = Some (a, w')" "map_sum id (\<lambda>_. True) a = Ok True"
    using assms(1) by (auto simp: partition_turn_def owned_result_eq)
  then have "drainPartition deps p w = Some (Ok (), w')" by (cases a) auto
  moreover have "\<not> stand_down deps w" using False assms(2) by (simp add: stand_down_def)
  ultimately show ?thesis by (rule drain_owned_ticks)
next
  case True
  let ?w = "w\<lparr>wtick := wtick w + 1\<rparr>"
  have "wtick ?w \<le> wtick w'"
  proof -
    have d: "wtick ?w \<le> wtick w''" if "drainPartition deps p ?w = Some (r, w'')" for r w''
      using tick_worker.drain_moves [OF that] by (simp add: tick_le_def)
    show ?thesis using assms(1) True d
      unfolding partition_turn_def Let_def
      by (cases "advisoryKey (re_eth deps) (''partition:'' @ show_nat p)")
         (auto simp: released_simps owned_result_eq simp del: append.simps split: if_splits)
  qed
  then show ?thesis by simp
qed

text \<open>C7: Once the abort signal is raised and stays raised, the worker's partition loop returns:
  it neither waits for messages nor for a partition lock for ever, whatever the queue, the
  database and the locks answer.\<close>

theorem worker_partition_loop_stops:
  assumes "\<And>k. K \<le> k \<Longrightarrow> re_aborted deps k"
  shows "\<exists>w'. run_partition deps retryMs p w = Some w'"
proof (induction "K - wtick w" arbitrary: w rule: less_induct)
  case less
  show ?case
  proof (cases "re_aborted deps (wtick w)")
    case True
    then show ?thesis by (subst run_partition.simps) simp
  next
    case False
    then have K: "wtick w < K" using assms by (meson not_le)
    obtain r w1 where t: "partition_turn deps p w = Some (r, w1)"
      using turn_stops [OF assms] by fastforce
    have le: "wtick w \<le> wtick w1" by (rule turn_ticks [OF t])
    have own: "\<exists>w'. run_partition deps retryMs p w1 = Some w'" if "r = Ok True"
      using turn_owned_ticks [OF t [unfolded that] False] K by (intro less.hyps) simp
    have wait: "\<exists>w'. run_partition deps retryMs p (snd (sleep retryMs v)) = Some w'" if "wtick v = wtick w1" for v
      using that le K by (intro less.hyps) (simp add: sleep_ticks)
    show ?thesis
      using False t own wait [of w1] wait [of "snd (emit EvHeartbeat w1)"]
      by (subst run_partition.simps) (simp add: emit_def)
  qed
qed

theorem worker_partition_loop_stops_witness:
  "\<exists>w'. run_partition (demo_deps (Ok (ReadyToSend demo_ready)) (Ok ''0xhash'')) 5000 2 demo_world = Some w'"
  by (rule worker_partition_loop_stops [of 51]) (simp add: demo_deps_def)

subsection \<open>The table\<close>



subsection \<open>The retry budget\<close>

text \<open>What the two failure handlers do to the queue after the budget statement.\<close>

lemma dead_then_deadLetter:
  assumes "quiet deps" and "the_row (wdb w) i r" and "\<not> terminal r"
    and "bindM (sql_dead deps i msg) (\<lambda>_. deadLetter deps x msg) w = (res, w')"
  shows "\<exists>r' t. the_row (wdb w') i r' \<and>
      r' = r\<lparr>status := Dead_letter, error_message := Some msg, nonce_used := clear_unsent_nonce r, updated_at := t\<rparr> \<and>
      (\<exists>k. q_deadLetter (re_queue deps k) x msg (wq w) = (res, wq w'))"
proof -
  obtain d' t where d: "sql_dead deps i msg w = (Ok True, w\<lparr>wdb := d', wtick := wtick w + 1\<rparr>)"
    and r: "the_row d' i (r\<lparr>status := Dead_letter, error_message := Some msg, nonce_used := clear_unsent_nonce r,
       updated_at := t\<rparr>)"
    using dead_quiet [OF assms(1,2,3), of msg] by blast
  then show ?thesis
    using assms(4) by (auto simp: bindM_def deadLetter_def qcall_def split: prod.splits) blast
qed

lemma backoff_then_nack:
  assumes "bindM (ask (\<lambda>k. Ok (computeBackoffDelayMs n default_backoff (re_jitter deps k)))) (nack deps x) w = (res, w')"
  shows "wdb w' = wdb w \<and>
    (\<exists>k. q_nack (re_queue deps (k + 1)) x (computeBackoffDelayMs n default_backoff (re_jitter deps k)) (wq w) = (res, wq w'))"
  using assms by (auto simp: bindM_def ask_def nack_def qcall_def split: prod.splits)

lemma quiet_demo: "quiet (demo_deps pr br)"
  by (simp add: quiet_def demo_deps_def)

definition demo_row :: row where
  "demo_row = new_row 7 0 (messageToInsert demo_message 2)"

definition demo_row_world :: "in_memory_queue world" where
  "demo_row_world = demo_world\<lparr>wdb := \<lparr>transactions = [demo_row], block_tracker = Map.empty\<rparr>\<rparr>"

definition demo_sent_row :: row where
  "demo_sent_row = demo_row\<lparr>status := Submitting, wallet_used := Some ''0xw'', nonce_used := Some 5\<rparr>"

definition demo_sent_world :: "in_memory_queue world" where
  "demo_sent_world = demo_world\<lparr>wdb := \<lparr>transactions = [demo_sent_row], block_tracker = Map.empty\<rparr>\<rparr>"

text \<open>A retriable failure before the nonce is committed spends exactly one unit of the row's
  budget: the row becomes \<open>failed\<close> with its count raised and the message is requeued with the
  exponential backoff of the new count, unless the count has reached \<open>max_retries\<close>, and then
  the row and the message are dead-lettered with the error.\<close>

theorem fresh_failure_spends_budget:
  assumes "quiet deps" and "the_row (wdb w) (recId rec) r" and "status r \<in> {Pending, Submitted, Failed}"
    and "ekind err \<notin> {AllWalletsBusyError, DeferDeliveryError, PermanentDeliveryError}"
    and "handleDeliveryFailure deps x rec err w = (res, w')"
  shows "\<exists>r'. the_row (wdb w') (recId rec) r' \<and> retry_count r' = retry_count r + 1 \<and>
      error_message r' = Some (emessage err) \<and>
      (if max_retries r \<le> retry_count r + 1
       then status r' = Dead_letter \<and> (\<exists>k. q_deadLetter (re_queue deps k) x (emessage err) (wq w) = (res, wq w'))
       else status r' = Failed \<and>
         (\<exists>k. q_nack (re_queue deps (k + 1)) x
               (computeBackoffDelayMs (int (retry_count r + 1)) default_backoff (re_jitter deps k)) (wq w)
             = (res, wq w')))"
proof -
  obtain d1 t where f: "sql_failed deps (recId rec) (emessage err) w =
      (Ok (Some (retry_count r + 1, max_retries r)), w\<lparr>wdb := d1, wtick := wtick w + 1\<rparr>)" (is "_ = (_, ?w1)")
    and r1: "the_row d1 (recId rec) (r\<lparr>status := Failed, error_message := Some (emessage err),
        retry_count := retry_count r + 1, updated_at := t\<rparr>)" (is "the_row _ _ ?r1")
    using failed_quiet [OF assms(1,2,3), of "emessage err"] by blast
  have r1': "the_row (wdb ?w1) (recId rec) ?r1" "\<not> terminal ?r1" using r1 by (simp_all add: terminal_def)
  show ?thesis
  proof (cases "max_retries r \<le> retry_count r + 1")
    case True
    then have "bindM (sql_dead deps (recId rec) (emessage err)) (\<lambda>_. deadLetter deps x (emessage err)) ?w1 = (res, w')"
      using assms(4,5) f by (simp add: handleDeliveryFailure_def bindM_def)
    from dead_then_deadLetter [OF assms(1) r1' this] show ?thesis using True by auto
  next
    case False
    then have "bindM (ask (\<lambda>k. Ok (computeBackoffDelayMs (int (retry_count r + 1)) default_backoff (re_jitter deps k))))
        (nack deps x) ?w1 = (res, w')"
      using assms(4,5) f by (simp add: handleDeliveryFailure_def bindM_def)
    from backoff_then_nack [OF this] show ?thesis using False r1 by (intro exI [of _ ?r1]) simp
  qed
qed

theorem fresh_failure_spends_budget_witness:
  "\<exists>r'. the_row (wdb (snd (handleDeliveryFailure (demo_deps (Ok AlreadyConsumed) (Ok [])) demo_delivery
        (rowToRecord demo_row) (new_error RetriableDeliveryError ''low gas'') demo_row_world))) 7 r' \<and>
     status r' = Failed \<and> retry_count r' = 1"
proof -
  have "the_row (wdb demo_row_world) (recId (rowToRecord demo_row)) demo_row"
    by (simp add: the_row_def demo_row_world_def rowToRecord_def)
  from fresh_failure_spends_budget [OF quiet_demo this, of "new_error RetriableDeliveryError ''low gas''",
      OF _ _ prod.collapse [symmetric], of "Ok AlreadyConsumed" "Ok []" demo_delivery]
  show ?thesis by (auto simp: demo_row_def new_row_def rowToRecord_def messageToInsert_def)
qed

text \<open>C8: A retriable failure after the nonce is committed also spends exactly one unit, but the
  row keeps its status, wallet and nonce, so the next attempt resubmits the same nonce; when
  the count reaches \<open>max_retries\<close> the row and the message are dead-lettered, and the nonce is
  given up only if no transaction was ever recorded for it.\<close>

theorem committed_failure_keeps_nonce:
  assumes "quiet deps" and "the_row (wdb w) (recId rec) r" and "status r \<in> {Submitting, Submitted}"
    and "ekind err \<notin> {DeferDeliveryError, PermanentDeliveryError}"
    and "handleSubmittingFailure deps x rec err w = (res, w')"
  shows "\<exists>r'. the_row (wdb w') (recId rec) r' \<and> retry_count r' = retry_count r + 1 \<and>
      wallet_used r' = wallet_used r \<and> relay_tx_hash r' = relay_tx_hash r \<and>
      (if max_retries r \<le> retry_count r + 1
       then status r' = Dead_letter \<and> error_message r' = Some (emessage err) \<and>
         nonce_used r' = (if relay_tx_hash r = None then None else nonce_used r) \<and>
         (\<exists>k. q_deadLetter (re_queue deps k) x (emessage err) (wq w) = (res, wq w'))
       else status r' = status r \<and> nonce_used r' = nonce_used r \<and>
         (\<exists>k. q_nack (re_queue deps (k + 1)) x
               (computeBackoffDelayMs (int (retry_count r + 1)) default_backoff (re_jitter deps k)) (wq w)
             = (res, wq w')))"
proof -
  obtain d1 t where f: "sql_increment deps (recId rec) w =
      (Ok (Some (retry_count r + 1, max_retries r)), w\<lparr>wdb := d1, wtick := wtick w + 1\<rparr>)" (is "_ = (_, ?w1)")
    and r1: "the_row d1 (recId rec) (r\<lparr>retry_count := retry_count r + 1, updated_at := t\<rparr>)" (is "the_row _ _ ?r1")
    using increment_quiet [OF assms(1,2,3)] by blast
  have r1': "the_row (wdb ?w1) (recId rec) ?r1" "\<not> terminal ?r1"
    using r1 assms(3) by (auto simp: terminal_def)
  show ?thesis
  proof (cases "max_retries r \<le> retry_count r + 1")
    case True
    then have "bindM (sql_dead deps (recId rec) (emessage err)) (\<lambda>_. deadLetter deps x (emessage err)) ?w1 = (res, w')"
      using assms(4,5) f by (simp add: handleSubmittingFailure_def bindM_def)
    from dead_then_deadLetter [OF assms(1) r1' this] show ?thesis
      using True by (auto simp: clear_unsent_nonce_def)
  next
    case False
    then have "bindM (ask (\<lambda>k. Ok (computeBackoffDelayMs (int (retry_count r + 1)) default_backoff (re_jitter deps k))))
        (nack deps x) ?w1 = (res, w')"
      using assms(4,5) f by (simp add: handleSubmittingFailure_def bindM_def)
    from backoff_then_nack [OF this] show ?thesis using False r1 by (intro exI [of _ ?r1]) simp
  qed
qed

theorem committed_failure_keeps_nonce_witness:
  "\<exists>r'. the_row (wdb (snd (handleSubmittingFailure (demo_deps (Ok AlreadyConsumed) (Ok [])) demo_delivery
        (rowToRecord demo_sent_row) (new_error ForeignError ''rpc down'') demo_sent_world))) 7 r' \<and>
     status r' = Submitting \<and> nonce_used r' = Some 5 \<and> retry_count r' = 1"
proof -
  have "the_row (wdb demo_sent_world) (recId (rowToRecord demo_sent_row)) demo_sent_row"
    by (simp add: the_row_def demo_sent_world_def rowToRecord_def)
  from committed_failure_keeps_nonce [OF quiet_demo this, of "new_error ForeignError ''rpc down''",
      OF _ _ prod.collapse [symmetric], of "Ok AlreadyConsumed" "Ok []" demo_delivery]
  show ?thesis by (auto simp: demo_sent_row_def demo_row_def new_row_def rowToRecord_def messageToInsert_def)
qed

end
