(* ===== verification/Cron.thy ===== *)
theory Cron
  imports Role_World Wallet_Pool
begin

section \<open>The cron role\<close>

text \<open>
  \<open>roles/cron.ts\<close>: under the leader lock, republish \<open>pending\<close> and \<open>failed\<close> rows whose
  message was lost, recover crashed \<open>submitting\<close> rows, and reconcile stale \<open>submitted\<close>
  rows with the receipts of the destination chain. The receipt provider and the lock are
  fields of \<open>cron_deps\<close>; its optional \<open>isTxKnown\<close> is an option.
\<close>

record 'q cron_deps = "'q role_env" +
  cd_getReceipt :: "nat \<Rightarrow> chainId \<Rightarrow> string \<Rightarrow> receipt_info option res"
  cd_isTxKnown :: "(nat \<Rightarrow> chainId \<Rightarrow> string \<Rightarrow> bool res) option"
  cd_hasPool :: bool
  cd_tryLock :: "nat \<Rightarrow> bool res"
  cd_unlock :: "nat \<Rightarrow> js_error option"

definition BATCH :: nat where
  "BATCH = 100"

definition OUT_OF_GAS_RATIO :: int where
  "OUT_OF_GAS_RATIO = 95"

definition revertedLikelyOutOfGas :: "receipt_info \<Rightarrow> bool" where
  "revertedLikelyOutOfGas receipt =
     (case (ri_gasUsed receipt, ri_gasLimit receipt) of
        (Some used, Some limit) \<Rightarrow> (if limit \<le> 0 then True else limit * OUT_OF_GAS_RATIO \<le> used * 100)
      | _ \<Rightarrow> True)"

definition retryFresh :: "'q cron_deps \<Rightarrow> transaction_record \<Rightarrow> string \<Rightarrow> ('q world, unit) eff" where
  "retryFresh deps rec reason =
     bindM (sql_failed deps (recId rec) reason) (\<lambda>failure.
       if (case failure of None \<Rightarrow> True | Some (rc, mx) \<Rightarrow> mx \<le> rc) then
         bindM (sql_dead deps (recId rec) reason) (\<lambda>_. returnM ())
       else publish deps (recordToMessage (rec\<lparr>retryCount := fst (the failure)\<rparr>)))"

definition resubmit :: "'q cron_deps \<Rightarrow> transaction_record \<Rightarrow> string \<Rightarrow> ('q world, unit) eff" where
  "resubmit deps rec reason =
     (if nonceUsed rec = None \<or> walletUsed rec = None then retryFresh deps rec reason
      else
        bindM (sql_increment deps (recId rec)) (\<lambda>budget.
          case budget of
            None \<Rightarrow> returnM ()
          | Some (rc, mx) \<Rightarrow>
              (if mx \<le> rc then bindM (sql_dead deps (recId rec) reason) (\<lambda>_. returnM ())
               else publish deps
                      ((recordToMessage (rec\<lparr>retryCount := rc\<rparr>))\<lparr>replace_nonce := nonceUsed rec\<rparr>))))"

definition sql_stale ::
  "('q, 'z) role_env_scheme \<Rightarrow> tx_status \<Rightarrow> int \<Rightarrow> ('q world, transaction_record list) eff" where
  "sql_stale env st cutoff = sql env (\<lambda>t u d. (Ok (selectStaleByStatus d st cutoff BATCH), d))"

text \<open>The body of the loop over lost \<open>pending\<close> and \<open>failed\<close> rows.\<close>

definition republish_lost :: "'q cron_deps \<Rightarrow> int \<Rightarrow> tx_status \<Rightarrow> ('q world, unit) eff" where
  "republish_lost deps cutoff st =
     bindM (sql_stale deps st cutoff) (\<lambda>lost.
       forM lost (\<lambda>rec.
         if st = Pending \<and> relayTxHash rec \<noteq> None then returnM ()
         else publish deps (recordToMessage rec)))"

text \<open>The body of the loop over stale \<open>submitted\<close> rows.\<close>

definition reconcile :: "'q cron_deps \<Rightarrow> transaction_record \<Rightarrow> ('q world, unit) eff" where
  "reconcile deps rec =
     (case relayTxHash rec of
        None \<Rightarrow> resubmit deps rec ''submitted without a relay tx hash''
      | Some h \<Rightarrow>
          bindM (ask (\<lambda>k. cd_getReceipt deps k (destinationChainId rec) h)) (\<lambda>receipt.
            case receipt of
              None \<Rightarrow>
                bindM (case cd_isTxKnown deps of
                         Some f \<Rightarrow> ask (\<lambda>k. f k (destinationChainId rec) h)
                       | None \<Rightarrow> returnM True) (\<lambda>known.
                  if \<not> known then resubmit deps rec ''submitted tx dropped before mempool''
                  else
                    bindM (ask (\<lambda>k. Ok (re_now deps k - updatedAt rec))) (\<lambda>ageMs.
                      if 2 * int (submittedTimeoutMin (re_config deps)) * 60000 < ageMs
                      then resubmit deps rec ''submitted timeout: no receipt''
                      else returnM ()))
            | Some rcpt \<Rightarrow>
                (if ri_status rcpt = 1 then
                   bindM (sql_confirmed deps (recId rec)) (\<lambda>_. returnM ())
                 else if revertedLikelyOutOfGas rcpt then
                   retryFresh deps rec ''destination tx reverted (likely out of gas)''
                 else
                   bindM (sql_dead deps (recId rec) ''destination tx reverted (deterministic, not gas)'')
                     (\<lambda>_. returnM ()))))"

definition cron_pass :: "'q cron_deps \<Rightarrow> ('q world, unit) eff" where
  "cron_pass deps =
     bindM (ask (\<lambda>k. Ok (re_now deps k - int (submittedTimeoutMin (re_config deps)) * 60000))) (\<lambda>cutoff.
     bindM (forM [Pending, Failed] (republish_lost deps cutoff)) (\<lambda>_.
     bindM (sql_stale deps Submitting cutoff) (\<lambda>submitting.
     bindM (forM submitting (\<lambda>rec. resubmit deps rec ''submitting recovery: no tx hash recorded'')) (\<lambda>_.
     bindM (sql_stale deps Submitted cutoff) (\<lambda>stale.
       forM stale (reconcile deps))))))"

definition run_locked :: "'q cron_deps \<Rightarrow> ('q world, unit) eff \<Rightarrow> ('q world, bool) eff" where
  "run_locked deps fn w =
     (if \<not> cd_hasPool deps
      then (Throw (new_error PlainError ''cron requires a pool or runUnderLeaderLock''), w)
      else
        (let k = wtick w;
             (r, w', rel) = withLeaderLock (cd_tryLock deps k) (\<lambda>_. cd_unlock deps k) fn
                              (w\<lparr>wtick := k + 1\<rparr>)
         in (r, w')))"

definition cronTick :: "'q cron_deps \<Rightarrow> ('q world, unit) eff" where
  "cronTick deps =
     bindM (run_locked deps (cron_pass deps)) (\<lambda>acquired.
       if \<not> acquired then returnM ()
       else
         bindM (sql deps (\<lambda>t u d. (Ok (countByStatus d Dead_letter), d))) (\<lambda>deadLetters.
           if deadLetterAlertThreshold (re_config deps) \<le> deadLetters
           then emit (EvAlert ''dead_letter.accumulation'') else returnM ()))"

definition cron_round :: "'q cron_deps \<Rightarrow> ('q world, unit) eff" where
  "cron_round deps =
     bindM (attemptM (cronTick deps) (\<lambda>_. emit EvHeartbeat) (\<lambda>_. emit (EvAlert ''cron.failure''))) (\<lambda>_.
       sleep (int (cronIntervalMin (re_config deps)) * 60000))"

partial_function (option) runCron :: "'q cron_deps \<Rightarrow> 'q world \<Rightarrow> 'q world option" where
  "runCron deps w =
     (if re_aborted deps (wtick w) then Some w else runCron deps (snd (cron_round deps w)))"

declare runCron.simps [code]

subsection \<open>The database under the cron\<close>

locale cron_moves = role_moves R deps
  for R :: "'q world \<Rightarrow> 'q world \<Rightarrow> bool" and deps :: "'q cron_deps"
begin

lemma retryFresh_moves: "moves R (retryFresh deps rec reason)"
  unfolding retryFresh_def by (intro role_intros)

lemma resubmit_moves: "moves R (resubmit deps rec reason)"
  unfolding resubmit_def by (intro role_intros retryFresh_moves)

lemma stale_moves: "moves R (sql_stale deps st cutoff)"
  unfolding sql_stale_def by (rule sql_moves_any) (rule stmt_ok_repo)

lemma republish_moves: "moves R (republish_lost deps cutoff st)"
  unfolding republish_lost_def by (intro role_intros stale_moves)

lemma reconcile_moves: "moves R (reconcile deps rec)"
  unfolding reconcile_def by (intro role_intros resubmit_moves retryFresh_moves)

lemma pass_moves: "moves R (cron_pass deps)"
  unfolding cron_pass_def
  by (intro role_intros republish_moves stale_moves resubmit_moves reconcile_moves)

lemma locked_moves:
  assumes "moves R fn"
  shows "moves R (run_locked deps fn)"
proof -
  have "R w (snd (run_locked deps fn w))" if "cd_hasPool deps" for w
  proof -
    let ?w = "w\<lparr>wtick := wtick w + 1\<rparr>"
    have "R w ?w" by (rule tick_moves)
    moreover have "R ?w (snd (fn ?w))" using assms by (simp add: moves_def)
    ultimately have "R w ?w \<and> R w (snd (fn ?w))" by (blast intro: trans_R)
    then show ?thesis
      using that by (auto simp: run_locked_def withLeaderLock_def Let_def
        split: sum.splits bool.splits prod.splits)
  qed
  moreover have "R w (snd (run_locked deps fn w))" if "\<not> cd_hasPool deps" for w
    using that refl_R by (simp add: run_locked_def)
  ultimately show ?thesis unfolding moves_def by blast
qed

lemma tick_body_moves: "moves R (cronTick deps)"
proof -
  have "moves R (sql deps (\<lambda>t u d. (Ok (countByStatus d Dead_letter), d)))"
    by (rule sql_moves_any) (rule stmt_ok_repo)
  then show ?thesis unfolding cronTick_def by (intro role_intros locked_moves pass_moves)
qed

lemma cron_round_moves: "moves R (cron_round deps)"
  unfolding cron_round_def by (intro role_intros tick_body_moves)

end

interpretation fair_cron: cron_moves "fair_le deps" deps for deps ..

interpretation tick_cron: cron_moves tick_le deps for deps ..

end
