(* ===== verification/Cron_Correct.thy ===== *)
theory Cron_Correct
  imports Cron Worker_Run
begin

section \<open>Correctness of the cron\<close>

text \<open>
  The cron's passes keep the table as every role does and its loop stops on abort; a stale
  \<open>submitted\<close> row ends as its receipt says; a resubmission keeps the committed nonce and the
  message it publishes is one the worker acts on.
\<close>

text \<open>A cron pass keeps the database well formed, moves rows only forward and leaves every
  confirmed or dead-lettered row as it is, whatever the workers commit between its statements
  and whatever the receipt provider, the lock and the queue answer.\<close>

theorem cron_tick_keeps_table:
  assumes "fair_env deps" and "wf_db (wdb w)" and "cronTick deps w = (res, w')"
  shows "wf_db (wdb w') \<and> db_le (wdb w) (wdb w') \<and>
    (\<forall>r \<in> set (transactions (wdb w)). terminal r \<longrightarrow> r \<in> set (transactions (wdb w')))"
proof -
  have "repo_steps (wdb w) (wdb w')"
    using movesD [OF fair_cron.tick_body_moves assms(3)] assms(1) by (simp add: fair_le_def world_le_def)
  then show ?thesis using repo_steps_wf repo_steps_le repo_steps_terminal assms(2) by blast
qed

text \<open>A cron's surroundings for the witnesses: the receipt \<open>rc\<close> is what the chain answers.\<close>

definition demo_cron :: "receipt_info option \<Rightarrow> in_memory_queue cron_deps" where
  "demo_cron rc =
     \<lparr>re_config = demo_config, re_eth = demo_eth, re_queue = (\<lambda>k. in_memory_ops (int k)),
      re_itf = (\<lambda>_ d. d), re_dbfail = (\<lambda>_. None), re_clock = (\<lambda>k. 1000 * int k),
      re_now = (\<lambda>k. 100000000 + int k), re_uuid = (\<lambda>k. 100 + k), re_jitter = (\<lambda>_. 1),
      re_aborted = (\<lambda>k. 20 < k),
      cd_getReceipt = (\<lambda>_ _ _. Ok rc), cd_isTxKnown = None, cd_hasPool = True,
      cd_tryLock = (\<lambda>_. Ok True), cd_unlock = (\<lambda>_. None)\<rparr>"

lemma demo_cron_env: "fair_env (demo_cron rc)" "quiet (demo_cron rc)"
  by (simp_all add: fair_env_def quiet_def demo_cron_def)

definition demo_submitted_row :: row where
  "demo_submitted_row = demo_sent_row\<lparr>status := Submitted, relay_tx_hash := Some ''0xt''\<rparr>"

definition demo_submitted_world :: "in_memory_queue world" where
  "demo_submitted_world = demo_world\<lparr>wdb := \<lparr>transactions = [demo_submitted_row], block_tracker = Map.empty\<rparr>\<rparr>"

definition demo_receipt :: "nat \<Rightarrow> int \<Rightarrow> receipt_info" where
  "demo_receipt st used = \<lparr>ri_status = st, ri_blockNumber = 9, ri_gasUsed = Some used, ri_gasLimit = Some 100\<rparr>"

lemmas demo_row_defs = demo_submitted_row_def demo_sent_row_def demo_row_def new_row_def messageToInsert_def
  demo_message_def demo_payload_def

lemma wf_demo_submitted: "wf_db (wdb demo_submitted_world)"
  by (simp add: demo_submitted_world_def wf_db_def wf_row_def demo_row_defs)

theorem cron_tick_keeps_table_witness:
  "wf_db (wdb (snd (cronTick (demo_cron (Some (demo_receipt 1 50))) demo_submitted_world))) \<and>
   map status (transactions (wdb (snd (cronTick (demo_cron (Some (demo_receipt 1 50))) demo_submitted_world)))) = [Confirmed]"
proof
  show "wf_db (wdb (snd (cronTick (demo_cron (Some (demo_receipt 1 50))) demo_submitted_world)))"
    using cron_tick_keeps_table [OF demo_cron_env(1) wf_demo_submitted prod.collapse [symmetric]] by blast
  show "map status (transactions (wdb (snd (cronTick (demo_cron (Some (demo_receipt 1 50))) demo_submitted_world)))) = [Confirmed]"
    by code_simp
qed

lemma cron_round_ticks: "wtick w < wtick (snd (cron_round deps w))"
proof -
  let ?b = "attemptM (cronTick deps) (\<lambda>_. emit EvHeartbeat) (\<lambda>_. emit (EvAlert ''cron.failure''))"
  obtain r w1 where b: "?b w = (r, w1)" by fastforce
  have "moves tick_le ?b" by (intro tick.role_intros tick_cron.tick_body_moves)
  then have "wtick w \<le> wtick w1" using b movesD by (fastforce simp: tick_le_def)
  moreover have "\<exists>u. r = Ok u" using b by (auto simp: attemptM_def emit_def split: prod.splits sum.splits)
  ultimately show ?thesis using b by (auto simp: cron_round_def bindM_def sleep_ticks)
qed

text \<open>The cron loop returns once the abort signal is raised and stays raised, even when every
  pass throws.\<close>

theorem cron_loop_stops:
  assumes "\<And>k. K \<le> k \<Longrightarrow> re_aborted deps k"
  shows "\<exists>w'. runCron deps w = Some w'"
proof (induction "K - wtick w" arbitrary: w rule: less_induct)
  case less
  show ?case
  proof (cases "re_aborted deps (wtick w)")
    case True
    then show ?thesis by (subst runCron.simps) simp
  next
    case False
    then have "wtick w < K" using assms by (meson not_le)
    then have "K - wtick (snd (cron_round deps w)) < K - wtick w"
      using cron_round_ticks [of w deps] by linarith
    from less.hyps [OF this] show ?thesis using False by (subst runCron.simps) simp
  qed
qed

theorem cron_loop_stops_witness: "\<exists>w'. runCron (demo_cron None) demo_submitted_world = Some w'"
  by (rule cron_loop_stops [of 21]) (simp add: demo_cron_def)

subsection \<open>Reconciliation\<close>

lemma dead_return:
  assumes "quiet env" and "the_row (wdb w) i r" and "\<not> terminal r"
    and "bindM (sql_dead env i msg) (\<lambda>_. returnM ()) w = (Ok (), w')"
  shows "\<exists>r'. the_row (wdb w') i r' \<and> status r' = Dead_letter \<and> retry_count r' = retry_count r"
    and "published w' = published w"
proof -
  obtain d' t where d: "sql_dead env i msg w = (Ok True, w\<lparr>wdb := d', wtick := wtick w + 1\<rparr>)"
    and r: "the_row d' i (r\<lparr>status := Dead_letter, error_message := Some msg, nonce_used := clear_unsent_nonce r,
       updated_at := t\<rparr>)" (is "the_row _ _ ?r")
    using dead_quiet [OF assms(1,2,3), of msg] by blast
  have w': "w' = w\<lparr>wdb := d', wtick := wtick w + 1\<rparr>" using assms(4) d by (simp add: bindM_def returnM_def)
  show "\<exists>r'. the_row (wdb w') i r' \<and> status r' = Dead_letter \<and> retry_count r' = retry_count r"
    using r w' by (intro exI [of _ ?r]) simp
  show "published w' = published w" using w' by simp
qed

lemma confirmed_return:
  assumes "quiet env" and "the_row (wdb w) i r" and "\<not> terminal r"
    and "bindM (sql_confirmed env i) (\<lambda>_. returnM ()) w = (Ok (), w')"
  shows "\<exists>r'. the_row (wdb w') i r' \<and> status r' = Confirmed \<and> retry_count r' = retry_count r"
    and "published w' = published w"
proof -
  obtain d' t where d: "sql_confirmed env i w = (Ok True, w\<lparr>wdb := d', wtick := wtick w + 1\<rparr>)"
    and r: "the_row d' i (r\<lparr>status := Confirmed, nonce_used := clear_unsent_nonce r, updated_at := t\<rparr>)"
      (is "the_row _ _ ?r")
    using confirmed_quiet [OF assms(1,2,3)] by blast
  have w': "w' = w\<lparr>wdb := d', wtick := wtick w + 1\<rparr>" using assms(4) d by (simp add: bindM_def returnM_def)
  show "\<exists>r'. the_row (wdb w') i r' \<and> status r' = Confirmed \<and> retry_count r' = retry_count r"
    using r w' by (intro exI [of _ ?r]) simp
  show "published w' = published w" using w' by simp
qed

lemma retryFresh_quiet:
  assumes "quiet deps" and "the_row (wdb w) (recId rec) r" and "status r = Submitted"
    and "retryFresh deps rec reason w = (Ok (), w')"
  shows "\<exists>r'. the_row (wdb w') (recId rec) r' \<and> retry_count r' = retry_count r + 1 \<and>
     (if max_retries r \<le> retry_count r + 1
      then status r' = Dead_letter \<and> published w' = published w
      else status r' = Failed \<and>
        published w' = published w @ [EvPublish (recordToMessage (rec\<lparr>retryCount := retry_count r + 1\<rparr>))])"
proof -
  obtain d1 t where f: "sql_failed deps (recId rec) reason w =
      (Ok (Some (retry_count r + 1, max_retries r)), w\<lparr>wdb := d1, wtick := wtick w + 1\<rparr>)" (is "_ = (_, ?w1)")
    and r1: "the_row d1 (recId rec) (r\<lparr>status := Failed, error_message := Some reason,
        retry_count := retry_count r + 1, updated_at := t\<rparr>)" (is "the_row _ _ ?r1")
    using failed_quiet [OF assms(1,2), of reason] assms(3) by auto
  have r1': "the_row (wdb ?w1) (recId rec) ?r1" "\<not> terminal ?r1" using r1 by (simp_all add: terminal_def)
  show ?thesis
  proof (cases "max_retries r \<le> retry_count r + 1")
    case True
    then have "bindM (sql_dead deps (recId rec) reason) (\<lambda>_. returnM ()) ?w1 = (Ok (), w')"
      using assms(4) f by (simp add: retryFresh_def bindM_def)
    from dead_return [OF assms(1) r1' this] show ?thesis using True by auto
  next
    case False
    then have "publish deps (recordToMessage (rec\<lparr>retryCount := retry_count r + 1\<rparr>)) ?w1 = (Ok (), w')"
      using assms(4) f by (simp add: retryFresh_def bindM_def)
    from publish_Ok [OF this] show ?thesis using False r1 by (intro exI [of _ ?r1]) simp
  qed
qed

text \<open>A stale \<open>submitted\<close> row whose transaction is mined ends as the receipt says: confirmed
  on success; on a revert that used at least 95 percent of its gas limit (or of unknown gas)
  \<open>failed\<close> with its count raised and republished for a fresh nonce, or dead-lettered when the
  budget is spent; on any other revert dead-lettered at once without spending budget. Nothing
  else is published.\<close>

theorem reconcile_follows_receipt:
  assumes "quiet deps" and "the_row (wdb w) (recId rec) r" and "status r = Submitted"
    and "relayTxHash rec = Some h"
    and "cd_getReceipt deps (wtick w) (destinationChainId rec) h = Ok (Some rcpt)"
    and "reconcile deps rec w = (Ok (), w')"
  shows "\<exists>r'. the_row (wdb w') (recId rec) r' \<and>
     (if ri_status rcpt = 1
      then status r' = Confirmed \<and> retry_count r' = retry_count r \<and> published w' = published w
      else if revertedLikelyOutOfGas rcpt then
        retry_count r' = retry_count r + 1 \<and>
        (if max_retries r \<le> retry_count r + 1
         then status r' = Dead_letter \<and> published w' = published w
         else status r' = Failed \<and>
           published w' = published w @ [EvPublish (recordToMessage (rec\<lparr>retryCount := retry_count r + 1\<rparr>))])
      else status r' = Dead_letter \<and> retry_count r' = retry_count r \<and> published w' = published w)"
proof -
  let ?w1 = "w\<lparr>wtick := wtick w + 1\<rparr>"
  have r1: "the_row (wdb ?w1) (recId rec) r" "\<not> terminal r"
    using assms(2,3) by (simp_all add: terminal_def)
  have pub: "published ?w1 = published w" by simp
  have body: "(if ri_status rcpt = 1 then bindM (sql_confirmed deps (recId rec)) (\<lambda>_. returnM ())
       else if revertedLikelyOutOfGas rcpt then
         retryFresh deps rec ''destination tx reverted (likely out of gas)''
       else bindM (sql_dead deps (recId rec) ''destination tx reverted (deterministic, not gas)'')
              (\<lambda>_. returnM ())) ?w1 = (Ok (), w')"
    using assms(4-6) by (simp add: reconcile_def bindM_def ask_def)
  consider "ri_status rcpt = 1" | "ri_status rcpt \<noteq> 1" "revertedLikelyOutOfGas rcpt"
    | "ri_status rcpt \<noteq> 1" "\<not> revertedLikelyOutOfGas rcpt" by blast
  then show ?thesis
  proof cases
    case 1
    then have "bindM (sql_confirmed deps (recId rec)) (\<lambda>_. returnM ()) ?w1 = (Ok (), w')" using body by simp
    from confirmed_return [OF assms(1) r1 this] show ?thesis using 1 pub by auto
  next
    case 2
    then have "retryFresh deps rec ''destination tx reverted (likely out of gas)'' ?w1 = (Ok (), w')"
      using body by simp
    from retryFresh_quiet [OF assms(1) r1(1) assms(3) this, unfolded pub]
    show ?thesis unfolding if_not_P [OF 2(1)] if_P [OF 2(2)] .
  next
    case 3
    then have "bindM (sql_dead deps (recId rec) ''destination tx reverted (deterministic, not gas)'')
        (\<lambda>_. returnM ()) ?w1 = (Ok (), w')" using body by simp
    from dead_return [OF assms(1) r1 this] show ?thesis using 3 pub by auto
  qed
qed

theorem reconcile_follows_receipt_witness:
  "\<exists>r'. the_row (wdb (snd (reconcile (demo_cron (Some (demo_receipt 0 99))) (rowToRecord demo_submitted_row)
        demo_submitted_world))) 7 r' \<and> status r' = Failed \<and> retry_count r' = 1"
proof -
  let ?D = "demo_cron (Some (demo_receipt 0 99))" and ?rec = "rowToRecord demo_submitted_row"
  have row: "the_row (wdb demo_submitted_world) (recId ?rec) demo_submitted_row"
    by (simp add: the_row_def demo_submitted_world_def rowToRecord_def)
  have "fst (reconcile ?D ?rec demo_submitted_world) = Ok ()" by code_simp
  then have run: "reconcile ?D ?rec demo_submitted_world
      = (Ok (), snd (reconcile ?D ?rec demo_submitted_world))" by (metis prod.collapse)
  have oog: "revertedLikelyOutOfGas (demo_receipt 0 99)" by code_simp
  have "cd_getReceipt ?D (wtick demo_submitted_world) (destinationChainId ?rec) ''0xt'' = Ok (Some (demo_receipt 0 99))"
    by (simp add: demo_cron_def)
  from reconcile_follows_receipt [OF demo_cron_env(2) row _ _ this run] oog
  show ?thesis by (auto simp: demo_row_defs rowToRecord_def demo_receipt_def)
qed

text \<open>C10: Resubmitting a committed row keeps its status, wallet and nonce and spends one unit of
  budget; the message it publishes asks to replace exactly the nonce the row holds, and the
  worker, reading the row, neither skips nor drops that message but resubmits that nonce. When
  the budget is spent the row is dead-lettered and nothing is published.\<close>

theorem resubmit_keeps_nonce:
  assumes "quiet deps" and "the_row (wdb w) (row_id r) r" and "status r \<in> {Submitting, Submitted}"
    and "wf_row r" and "resubmit deps (rowToRecord r) reason w = (Ok (), w')"
  shows "\<exists>r'. the_row (wdb w') (row_id r) r' \<and> retry_count r' = retry_count r + 1 \<and>
     (if max_retries r \<le> retry_count r + 1
      then status r' = Dead_letter \<and> published w' = published w
      else status r' = status r \<and> wallet_used r' = wallet_used r \<and> nonce_used r' = nonce_used r \<and>
        (\<exists>m. published w' = published w @ [EvPublish m] \<and> same_event (chain_id m) (transaction_hash m) r' \<and>
           replace_nonce m = nonce_used r' \<and> \<not> skip m (status r') \<and> isResubmit m (rowToRecord r') \<and>
           resubmitNonce m (rowToRecord r') = nonce_used r'))"
proof -
  let ?rec = "rowToRecord r"
  have held: "nonce_used r \<noteq> None" "wallet_used r \<noteq> None"
    using assms(3,4) by (auto simp: wf_row_def)
  obtain d1 t where f: "sql_increment deps (row_id r) w =
      (Ok (Some (retry_count r + 1, max_retries r)), w\<lparr>wdb := d1, wtick := wtick w + 1\<rparr>)" (is "_ = (_, ?w1)")
    and r1: "the_row d1 (row_id r) (r\<lparr>retry_count := retry_count r + 1, updated_at := t\<rparr>)" (is "the_row _ _ ?r1")
    using increment_quiet [OF assms(1,2,3)] by blast
  have r1': "the_row (wdb ?w1) (row_id r) ?r1" "\<not> terminal ?r1"
    using r1 assms(3) by (auto simp: terminal_def)
  show ?thesis
  proof (cases "max_retries r \<le> retry_count r + 1")
    case True
    then have "bindM (sql_dead deps (row_id r) reason) (\<lambda>_. returnM ()) ?w1 = (Ok (), w')"
      using assms(5) f held by (simp add: resubmit_def bindM_def rowToRecord_def)
    from dead_return [OF assms(1) r1' this] show ?thesis using True by auto
  next
    case False
    let ?m = "(recordToMessage (?rec\<lparr>retryCount := retry_count r + 1\<rparr>))\<lparr>replace_nonce := nonce_used r\<rparr>"
    have "publish deps ?m ?w1 = (Ok (), w')"
      using assms(5) f held False by (simp add: resubmit_def bindM_def rowToRecord_def)
    note p = publish_Ok [OF this]
    show ?thesis using False r1 p held assms(3)
      by (intro exI [of _ ?r1])
         (auto simp: recordToMessage_def rowToRecord_def same_event_def skip_def isResubmit_def resubmitNonce_def)
  qed
qed

theorem resubmit_keeps_nonce_witness:
  "\<exists>r'. the_row (wdb (snd (resubmit (demo_cron None) (rowToRecord demo_sent_row) ''recovery'' demo_sent_world))) 7 r' \<and>
     status r' = Submitting \<and> nonce_used r' = Some 5 \<and> retry_count r' = 1"
proof -
  have row: "the_row (wdb demo_sent_world) (row_id demo_sent_row) demo_sent_row"
    by (simp add: the_row_def demo_sent_world_def)
  have "fst (resubmit (demo_cron None) (rowToRecord demo_sent_row) ''recovery'' demo_sent_world) = Ok ()" by code_simp
  then have run: "resubmit (demo_cron None) (rowToRecord demo_sent_row) ''recovery'' demo_sent_world
      = (Ok (), snd (resubmit (demo_cron None) (rowToRecord demo_sent_row) ''recovery'' demo_sent_world))"
    by (metis prod.collapse)
  have "wf_row demo_sent_row" by (simp add: wf_row_def demo_row_defs)
  from resubmit_keeps_nonce [OF demo_cron_env(2) row _ this run]
  show ?thesis by (auto simp: demo_row_defs)
qed

end
