(* ===== verification/Listener.thy ===== *)
theory Listener
  imports Role_World
begin

section \<open>The listener role\<close>

text \<open>
  \<open>roles/listener.ts\<close>: scan a window of blocks of one source chain, record its events and
  advance the cursor in one database transaction, publish after the commit; and the startup
  sweep that republishes the whole \<open>pending\<close> backlog page by page. The event source is a
  field of \<open>listener_deps\<close>. A transaction is one statement here: it takes effect as a whole or,
  when a statement in it throws, not at all.
\<close>

record 'q listener_deps = "'q role_env" +
  ls_latestBlock :: "nat \<Rightarrow> chainId \<Rightarrow> int res"
  ls_scan :: "nat \<Rightarrow> chainId \<Rightarrow> string \<Rightarrow> int \<Rightarrow> int \<Rightarrow> decoded_event list res"

record scan_result =
  sr_from :: int
  sr_to :: int
  sr_count :: nat

definition eventToInsert :: "nat \<Rightarrow> decoded_event \<Rightarrow> insert_pending_input" where
  "eventToInsert maxR ev =
     \<lparr>in_sourceChainId = ev_sourceChainId ev,
      in_destinationChainId = ev_destinationChainId ev,
      in_relayerAddress = ev_relayerAddress ev,
      in_eventTxHash = ev_eventTxHash ev,
      in_payload = ev_payload ev,
      in_maxRetries = maxR\<rparr>"

fun insert_events ::
  "nat \<Rightarrow> int \<Rightarrow> nat \<Rightarrow> decoded_event list \<Rightarrow> db \<Rightarrow> transaction_record list res \<times> db" where
  "insert_events u t maxR [] d = (Ok [], d)"
| "insert_events u t maxR (ev # evs) d =
     (case insertPending u t d (eventToInsert maxR ev) of
        (Inl e, d1) \<Rightarrow> (Throw e, d1)
      | (Inr rec, d1) \<Rightarrow>
          (case insert_events (u + 1) t maxR evs d1 of
             (Inl e, d2) \<Rightarrow> (Throw e, d2)
           | (Inr recs, d2) \<Rightarrow> (Ok (rec # recs), d2)))"

definition record_window ::
  "nat \<Rightarrow> int \<Rightarrow> nat \<Rightarrow> chainId \<Rightarrow> string \<Rightarrow> int \<Rightarrow> decoded_event list \<Rightarrow> db \<Rightarrow> transaction_record list res \<times> db" where
  "record_window u t maxR c relayer to evs d =
     (case insert_events u t maxR evs d of
        (Inl e, _) \<Rightarrow> (Throw e, d)
      | (Inr recs, d1) \<Rightarrow> (Ok recs, snd (advance d1 c relayer to)))"

definition publish_pending :: "'q listener_deps \<Rightarrow> transaction_record \<Rightarrow> ('q world, unit) eff" where
  "publish_pending deps rec =
     (if recStatus rec \<noteq> Pending then returnM () else publish deps (recordToMessage rec))"

definition scan_window ::
  "'q listener_deps \<Rightarrow> chainId \<Rightarrow> string \<Rightarrow> int \<Rightarrow> int \<Rightarrow> ('q world, scan_result) eff" where
  "scan_window deps c relayer from to =
     bindM (ask (\<lambda>k. ls_scan deps k c relayer from to)) (\<lambda>events.
     bindM (sql deps (\<lambda>t u d. record_window u t (maxRetries_cfg (re_config deps)) c relayer to events d)) (\<lambda>inserted.
     bindM (forM inserted (publish_pending deps)) (\<lambda>_.
       returnM \<lparr>sr_from = from, sr_to = to, sr_count = length inserted\<rparr>)))"

definition scanChainOnce :: "'q listener_deps \<Rightarrow> chain_config \<Rightarrow> ('q world, scan_result) eff" where
  "scanChainOnce deps chain =
     (let relayer = (case cc_specialRelayerAddress chain of None \<Rightarrow> [] | Some a \<Rightarrow> a);
          c = cc_chainId chain in
      if relayer = [] then
        throwM (new_error PlainError (''chain '' @ show_nat c @ '' has no specialRelayerAddress''))
      else
        bindM (sql deps (\<lambda>t u d. readOrInit d c relayer (cc_genesisBlock chain))) (\<lambda>cursor.
        bindM (ask (\<lambda>k. ls_latestBlock deps k c)) (\<lambda>head.
          if head \<le> cursor then returnM \<lparr>sr_from = cursor, sr_to = cursor, sr_count = 0\<rparr>
          else
            (let span = int (scanBlockRange (re_config deps))
             in scan_window deps c relayer (cursor + 1)
                  (if head < cursor + span then head else cursor + span)))))"

text \<open>
  \<open>republishPending\<close>. The cursor is the last record's \<open>createdAt\<close>, a \<open>Date\<close>, and its id;
  the loop's counter is returned.
\<close>

definition publish_unsent :: "'q listener_deps \<Rightarrow> transaction_record \<Rightarrow> ('q world, unit) eff" where
  "publish_unsent deps rec =
     (if relayTxHash rec \<noteq> None then returnM () else publish deps (recordToMessage rec))"

definition republish_page ::
  "'q listener_deps \<Rightarrow> nat \<Rightarrow> (int \<times> nat) option \<Rightarrow> ('q world, transaction_record list) eff" where
  "republish_page deps batchSize cursor =
     bindM (sql deps (\<lambda>t u d. (Ok (selectByStatus d Pending batchSize cursor), d))) (\<lambda>page.
     bindM (forM page (publish_unsent deps)) (\<lambda>_. returnM page))"

partial_function (option) republish_loop ::
  "'q listener_deps \<Rightarrow> nat \<Rightarrow> (int \<times> nat) option \<Rightarrow> nat \<Rightarrow> 'q world \<Rightarrow> (nat res \<times> 'q world) option" where
  "republish_loop deps batchSize cursor acc w =
     (case republish_page deps batchSize cursor w of
        (r, w') \<Rightarrow>
          (if isl r then Some (Throw (projl r), w')
           else if projr r = [] then Some (Ok acc, w')
           else if length (projr r) < batchSize then Some (Ok (acc + length (projr r)), w')
           else republish_loop deps batchSize
                  (Some (createdAt (last (projr r)), recId (last (projr r))))
                  (acc + length (projr r)) w'))"

declare republish_loop.simps [code]

definition republishPending ::
  "'q listener_deps \<Rightarrow> nat \<Rightarrow> 'q world \<Rightarrow> (nat res \<times> 'q world) option" where
  "republishPending deps batchSize w = republish_loop deps batchSize None 0 w"

text \<open>The scan loop of one source chain.\<close>

definition listen_round :: "'q listener_deps \<Rightarrow> chain_config \<Rightarrow> ('q world, unit) eff" where
  "listen_round deps chain =
     bindM (attemptM (scanChainOnce deps chain) (\<lambda>_. emit EvHeartbeat) (\<lambda>_. returnM ())) (\<lambda>_.
       sleep (int (scanLoopDelayMs (re_config deps))))"

partial_function (option) listen_chain :: "'q listener_deps \<Rightarrow> chain_config \<Rightarrow> 'q world \<Rightarrow> 'q world option" where
  "listen_chain deps chain w =
     (if re_aborted deps (wtick w) then Some w
      else listen_chain deps chain (snd (listen_round deps chain w)))"

declare listen_chain.simps [code]

text \<open>\<open>runListener\<close> sweeps, then runs one such loop per source chain.\<close>

definition source_chains :: "'q listener_deps \<Rightarrow> chain_config list" where
  "source_chains deps =
     filter (\<lambda>c. cc_specialRelayerAddress c \<noteq> None \<and> cc_specialRelayerAddress c \<noteq> Some [])
       (rc_chains (re_config deps))"

definition runListener :: "'q listener_deps \<Rightarrow> chain_config \<Rightarrow> 'q world \<Rightarrow> (unit res \<times> 'q world) option" where
  "runListener deps chain w =
     Option.bind (republishPending deps 500 w) (\<lambda>(r, w1).
       if isl r then Some (Throw (projl r), w1)
       else if chain \<in> set (source_chains deps)
       then map_option (\<lambda>w2. (Ok (), w2)) (listen_chain deps chain w1)
       else Some (Ok (), w1))"

subsection \<open>The database under the listener\<close>

lemma insert_events_steps: "repo_steps d (snd (insert_events u t maxR evs d))"
proof (induction evs arbitrary: u d)
  case Nil
  then show ?case by simp
next
  case (Cons ev evs)
  obtain r d1 where i: "insertPending u t d (eventToInsert maxR ev) = (r, d1)" by fastforce
  have "repo_steps d d1" using step_insert [of d u t "eventToInsert maxR ev"] i by auto
  moreover have "repo_steps d1 (snd (insert_events (u + 1) t maxR evs d1))" by (rule Cons.IH)
  ultimately show ?case using i by (cases r) (auto split: prod.splits sum.splits intro: rtranclp_trans)
qed

lemma record_window_steps: "repo_steps d (snd (record_window u t maxR c rel to evs d))"
proof -
  obtain r d1 where i: "insert_events u t maxR evs d = (r, d1)" by fastforce
  then have "repo_steps d d1" using insert_events_steps [of d u t maxR evs] by simp
  moreover have "repo_steps d1 (snd (advance d1 c rel to))" by (rule r_into_rtranclp, rule step_advance)
  ultimately show ?thesis using i by (cases r) (auto simp: record_window_def intro: rtranclp_trans)
qed

locale listener_moves = role_moves R deps
  for R :: "'q world \<Rightarrow> 'q world \<Rightarrow> bool" and deps :: "'q listener_deps"
begin

lemma cursor_moves: "moves R (sql deps (\<lambda>t u d. readOrInit d c rel g))"
  by (rule sql_moves_any) (auto simp: stmt_ok_def intro: step_init)

lemma window_moves: "moves R (sql deps (\<lambda>t u d. record_window u t maxR c rel to evs d))"
  by (rule sql_moves_any) (auto simp: stmt_ok_def intro: record_window_steps)

lemma publish_moves: "moves R (publish_pending deps rec)" "moves R (publish_unsent deps rec)"
  unfolding publish_pending_def publish_unsent_def by (intro role_intros)+

lemma scan_moves: "moves R (scanChainOnce deps chain)"
  unfolding scanChainOnce_def scan_window_def Let_def by (intro role_intros cursor_moves window_moves publish_moves)

lemma listen_moves: "moves R (listen_round deps chain)"
  unfolding listen_round_def by (intro role_intros scan_moves)

end

interpretation fair_listener: listener_moves "fair_le deps" deps for deps ..

interpretation tick_listener: listener_moves tick_le deps for deps ..

end
