(* ===== verification/Listener_Correct.thy ===== *)
theory Listener_Correct
  imports Listener Role_Quiet Demo_Env
begin

section \<open>Correctness of the listener\<close>

text \<open>
  A scan that returns has recorded every event of its window and only then moved the cursor
  over it; the startup sweep publishes every pending row exactly once when the rows' creation
  times are whole milliseconds, and does not return when a full page of rows lies strictly
  inside one millisecond.
\<close>

subsection \<open>Recording a window\<close>

definition recorded :: "db \<Rightarrow> decoded_event \<Rightarrow> bool" where
  "recorded d ev \<longleftrightarrow> (\<exists>r \<in> set (transactions d). same_event (ev_sourceChainId ev) (ev_eventTxHash ev) r)"

lemma recorded_later:
  assumes "repo_steps d d'" and "recorded d ev"
  shows "recorded d' ev"
proof -
  obtain r where r: "r \<in> set (transactions d)" "same_event (ev_sourceChainId ev) (ev_eventTxHash ev) r"
    using assms(2) unfolding recorded_def by blast
  obtain r' where "r' \<in> set (transactions d')" "row_le r r'"
    using repo_steps_le [OF assms(1)] r(1) unfolding db_le_def by blast
  with r(2) show ?thesis unfolding recorded_def
    by (auto simp: row_le_def same_event_def event_key_def)
qed

lemma insert_events_Ok:
  "insert_events u t maxR evs d = (Ok recs, d') \<Longrightarrow>
   length recs = length evs \<and> (\<forall>ev \<in> set evs. recorded d' ev)"
proof (induction evs arbitrary: u d recs)
  case Nil
  then show ?case by simp
next
  case (Cons ev evs)
  obtain rec d1 recs' where i: "insertPending u t d (eventToInsert maxR ev) = (Ok rec, d1)"
    and rest: "insert_events (u + 1) t maxR evs d1 = (Ok recs', d')" and recs: "recs = rec # recs'"
    using Cons.prems by (auto split: prod.splits sum.splits)
  have "recorded d1 ev" unfolding recorded_def
    by (rule insertPending_records [OF i]) (auto simp: eventToInsert_def)
  moreover have "repo_steps d1 d'" using insert_events_steps [of d1 "u + 1" t maxR evs] rest by simp
  ultimately have "recorded d' ev" using recorded_later by blast
  with Cons.IH [OF rest] recs show ?case by simp
qed

lemma cursor_later:
  "repo_steps d d' \<Longrightarrow> block_tracker d k = Some b \<Longrightarrow> \<exists>b'. block_tracker d' k = Some b' \<and> b \<le> b'"
  using repo_steps_le unfolding db_le_def by blast

lemma readOrInit_Ok: "readOrInit d c rel g = (Ok b, d') \<Longrightarrow> block_tracker d' (c, rel) = Some b"
  by (auto simp: readOrInit_def Let_def split: option.splits)

lemma record_window_Ok:
  assumes "record_window u t maxR c rel to evs d = (Ok recs, d')" and "block_tracker d (c, rel) = Some b"
  shows "length recs = length evs" and "\<forall>ev \<in> set evs. recorded d' ev"
    and "\<exists>b'. block_tracker d' (c, rel) = Some b' \<and> to \<le> b'"
proof -
  obtain d1 where i: "insert_events u t maxR evs d = (Ok recs, d1)" and d': "d' = snd (advance d1 c rel to)"
    using assms(1) by (auto simp: record_window_def split: prod.splits sum.splits)
  have s1: "repo_steps d1 d'" unfolding d' by (rule r_into_rtranclp, rule step_advance)
  show "length recs = length evs" and "\<forall>ev \<in> set evs. recorded d' ev"
    using insert_events_Ok [OF i] recorded_later [OF s1] by blast+
  obtain b1 where "block_tracker d1 (c, rel) = Some b1"
    using cursor_later [OF _ assms(2), of d1] insert_events_steps [of d u t maxR evs] i by auto
  then show "\<exists>b'. block_tracker d' (c, rel) = Some b' \<and> to \<le> b'" unfolding d'
    by (auto simp: advance_def)
qed

lemma sql_Ok_steps:
  assumes "fair_env env" and "stmt_ok st" and "sql env st w = (r, w')"
  shows "repo_steps (wdb w) (wdb w')"
  using sql_repo_steps [OF assms(1,2), of w] assms(3) by simp

lemma scan_window_Ok:
  assumes fair: "fair_env deps" and b: "block_tracker (wdb w) (c, rel) = Some b"
    and run: "scan_window deps c rel from to w = (Ok res, w')"
  shows "sr_from res = from \<and> sr_to res = to \<and>
    (\<exists>k b evs. ls_scan deps k c rel from to = Ok evs \<and> sr_count res = length evs \<and>
       (\<forall>ev \<in> set evs. recorded (wdb w') ev) \<and> block_tracker (wdb w') (c, rel) = Some b \<and> to \<le> b)"
proof -
  let ?mx = "maxRetries_cfg (re_config deps)"
  obtain evs w1 recs w2 where
    s1: "ask (\<lambda>k. ls_scan deps k c rel from to) w = (Ok evs, w1)"
    and s2: "sql deps (\<lambda>t u d. record_window u t ?mx c rel to evs d) w1 = (Ok recs, w2)"
    and s3: "forM recs (publish_pending deps) w2 = (Ok (), w')"
    and res: "res = \<lparr>sr_from = from, sr_to = to, sr_count = length recs\<rparr>"
    using run by (auto simp: scan_window_def bindM_Ok_iff returnM_def)
  have w1: "wdb w1 = wdb w" "ls_scan deps (wtick w) c rel from to = Ok evs" using s1 by (auto simp: ask_def)
  obtain b1 where b1: "block_tracker (re_itf deps (wtick w1) (wdb w1)) (c, rel) = Some b1"
    using cursor_later [OF _ b] fair w1(1) unfolding fair_env_def by metis
  note win = record_window_Ok [OF sql_Ok [OF s2] b1]
  have mv: "moves (fair_le deps) (forM recs (publish_pending deps))"
    by (intro fair.role_intros fair_listener.publish_moves)
  have s: "repo_steps (wdb w2) (wdb w')"
    using movesD [OF mv s3] fair by (simp add: fair_le_def world_le_def)
  obtain b' where "block_tracker (wdb w') (c, rel) = Some b'" "to \<le> b'"
    using win(3) cursor_later [OF s] by (meson order_trans)
  moreover have "\<forall>ev \<in> set evs. recorded (wdb w') ev" using win(2) recorded_later [OF s] by blast
  ultimately show ?thesis using res win(1) w1(2) by auto
qed


text \<open>A listener's surroundings for the witnesses: one event in the scanned window.\<close>

definition demo_event :: decoded_event where
  "demo_event = \<lparr>ev_sourceChainId = 2, ev_destinationChainId = 4, ev_relayerAddress = ''0xb'',
     ev_eventTxHash = ''0xaa'', ev_blockNumber = 12, ev_logIndex = 0, ev_payload = demo_payload\<rparr>"

definition demo_chain :: chain_config where
  "demo_chain = \<lparr>cc_chainId = 2, cc_name = ''src'', cc_rpcUrl = [], cc_specialRelayerAddress = Some ''0xb'',
     cc_coreBridgeAddress = None, cc_expectedTransceiver = None, cc_confirmations = 1, cc_genesisBlock = 10,
     cc_evmChainId = None\<rparr>"

definition demo_listener :: "in_memory_queue listener_deps" where
  "demo_listener =
     \<lparr>re_config = demo_config, re_eth = demo_eth, re_queue = (\<lambda>k. in_memory_ops (int k)),
      re_itf = (\<lambda>_ d. d), re_dbfail = (\<lambda>_. None), re_clock = (\<lambda>k. 1000 * int k), re_now = int,
      re_uuid = (\<lambda>k. 100 + k), re_jitter = (\<lambda>_. 1), re_aborted = (\<lambda>k. 20 < k),
      ls_latestBlock = (\<lambda>_ _. Ok 20), ls_scan = (\<lambda>_ _ _ _ _. Ok [demo_event])\<rparr>"

lemma demo_listener_env: "fair_env demo_listener" "quiet demo_listener"
  by (simp_all add: fair_env_def quiet_def demo_listener_def)


subsection \<open>The startup sweep\<close>

definition publish_ok :: "('q, 'z) role_env_scheme \<Rightarrow> bool" where
  "publish_ok env \<longleftrightarrow> (\<forall>k m q. fst (q_publish (re_queue env k) m q) = Ok ())"

abbreviation pending_key :: "row \<Rightarrow> int \<times> nat" where
  "pending_key r \<equiv> (created_at r, row_id r)"

definition pending_rows :: "db \<Rightarrow> row list" where
  "pending_rows d = sort_key pending_key (filter (\<lambda>r. status r = Pending) (transactions d))"

definition after_cursor :: "(int \<times> nat) option \<Rightarrow> row \<Rightarrow> bool" where
  "after_cursor cur r \<longleftrightarrow>
     (case cur of None \<Rightarrow> True | Some (c, i) \<Rightarrow> (date_to_micros c, i) < pending_key r)"

lemma selectByStatus_page:
  "selectByStatus d Pending n cur = map rowToRecord (take n (filter (after_cursor cur) (pending_rows d)))"
proof -
  have "filter (\<lambda>r. status r = Pending \<and> (case cur of None \<Rightarrow> True
        | Some (c, i) \<Rightarrow> date_to_micros c < created_at r \<or> created_at r = date_to_micros c \<and> i < row_id r)) xs
      = filter (after_cursor cur) (filter (\<lambda>r. status r = Pending) xs)" for xs
    unfolding filter_filter by (rule filter_cong) (auto simp: after_cursor_def split: option.splits)
  then show ?thesis by (simp add: selectByStatus_def pending_rows_def filter_sort)
qed

lemma publish_all:
  assumes "publish_ok deps" and "\<forall>rec \<in> set page. relayTxHash rec = None"
  shows "\<exists>w'. forM page (publish_unsent deps) w = (Ok (), w') \<and> wdb w' = wdb w \<and>
    published w' = published w @ map (\<lambda>rec. EvPublish (recordToMessage rec)) page"
  using assms(2)
proof (induction page arbitrary: w)
  case Nil
  then show ?case by (simp add: returnM_def)
next
  case (Cons rec page)
  obtain q' where "q_publish (re_queue deps (wtick w)) (recordToMessage rec) (wq w) = (Ok (), q')"
    using assms(1) unfolding publish_ok_def by (metis prod.collapse)
  then obtain w1 where w1: "publish_unsent deps rec w = (Ok (), w1)" "wdb w1 = wdb w"
    "published w1 = published w @ [EvPublish (recordToMessage rec)]"
    using Cons.prems by (simp add: publish_unsent_def publish_def qcall_def is_publish_def)
  from Cons.IH [of w1] Cons.prems obtain w' where "forM page (publish_unsent deps) w1 = (Ok (), w')"
    "wdb w' = wdb w1" "published w' = published w1 @ map (\<lambda>rec. EvPublish (recordToMessage rec)) page"
    by auto
  with w1 show ?case by (simp add: bindM_def)
qed

lemma republish_page_quiet:
  fixes n :: nat and cur :: "(int \<times> nat) option"
  assumes "quiet deps" and "publish_ok deps" and "wf_db (wdb w)"
  defines "page \<equiv> map rowToRecord (take n (filter (after_cursor cur) (pending_rows (wdb w))))"
  shows "\<exists>w'. republish_page deps n cur w = (Ok page, w') \<and> wdb w' = wdb w \<and>
    published w' = published w @ map (\<lambda>rec. EvPublish (recordToMessage rec)) page"
proof -
  have "relay_tx_hash r = None" if "r \<in> set (pending_rows (wdb w))" for r
    using that assms(3) by (auto simp: pending_rows_def wf_db_def wf_row_def)
  then have "\<forall>rec \<in> set page. relayTxHash rec = None"
    by (auto simp: page_def rowToRecord_def dest: in_set_takeD)
  from publish_all [OF assms(2) this, of "w\<lparr>wtick := wtick w + 1\<rparr>"] show ?thesis
    using assms(1) by (auto simp: republish_page_def bindM_def sql_quiet selectByStatus_page page_def returnM_def)
qed

lemma pending_rows_strict:
  assumes "wf_db d"
  shows "sorted_wrt (\<lambda>a b. pending_key a < pending_key b) (pending_rows d)"
proof -
  have "distinct (map row_id (filter (\<lambda>r. status r = Pending) (transactions d)))"
    using assms by (simp add: wf_db_def distinct_map_filter)
  then have "distinct (map row_id (pending_rows d))"
    by (simp add: pending_rows_def distinct_map)
  then have "distinct (map pending_key (pending_rows d))"
    by (auto simp: distinct_map inj_on_def)
  moreover have "sorted (map pending_key (pending_rows d))"
    by (simp add: pending_rows_def)
  ultimately have "sorted_wrt (<) (map pending_key (pending_rows d))"
    by (simp add: strict_sorted_iff)
  then show ?thesis by (simp only: sorted_wrt_map)
qed

lemma filter_after_split:
  assumes "sorted_wrt (\<lambda>a b. key a < (key b :: 'k :: linorder)) (xs @ [l] @ ys)"
  shows "filter (\<lambda>r. key l < key r) (xs @ [l] @ ys) = ys"
proof -
  have "\<forall>x \<in> set xs. key x < key l" "\<forall>y \<in> set ys. key l < key y"
    using assms by (auto simp: sorted_wrt_append)
  then have "filter (\<lambda>r. key l < key r) xs = []" "filter (\<lambda>r. key l < key r) ys = ys"
    by (auto simp: filter_empty_conv filter_id_conv)
  then show ?thesis by simp
qed

definition ms_aligned :: "row \<Rightarrow> bool" where
  "ms_aligned r \<longleftrightarrow> date_to_micros (micros_to_date (created_at r)) = created_at r"

lemma next_cursor:
  assumes "wf_db d" and "pending_rows d = (pre @ [l]) @ rest" and "ms_aligned l"
  shows "filter (after_cursor (Some (createdAt (rowToRecord l), recId (rowToRecord l)))) (pending_rows d) = rest"
proof -
  have "after_cursor (Some (createdAt (rowToRecord l), recId (rowToRecord l)))
      = (\<lambda>r. pending_key l < pending_key r)"
    using assms(3) by (auto simp: after_cursor_def rowToRecord_def ms_aligned_def fun_eq_iff)
  then show ?thesis
    using filter_after_split [of pending_key pre l rest] pending_rows_strict [OF assms(1)] assms(2)
    by (simp del: less_prod_simp)
qed

lemma republish_loop_all:
  assumes q: "quiet deps" "publish_ok deps" and wf: "wf_db d" and b: "1 \<le> b"
    and al: "\<forall>r \<in> set (pending_rows d). ms_aligned r"
  shows "wdb w = d \<Longrightarrow> pending_rows d = pre @ rest \<Longrightarrow> filter (after_cursor cur) (pending_rows d) = rest \<Longrightarrow>
    \<exists>w'. republish_loop deps b cur acc w = Some (Ok (acc + length rest), w') \<and>
      published w' = published w @ map (\<lambda>r. EvPublish (recordToMessage (rowToRecord r))) rest"
proof (induction "length rest" arbitrary: w pre rest cur acc rule: less_induct)
  case less
  let ?page = "map rowToRecord (take b rest)"
  obtain w1 where p: "republish_page deps b cur w = (Ok ?page, w1)" and w1: "wdb w1 = d"
    and pub: "published w1 = published w @ map (\<lambda>rec. EvPublish (recordToMessage rec)) ?page"
    using republish_page_quiet [OF q, of w b cur, unfolded less.prems(1,3)] wf by blast
  show ?case
  proof (cases "length rest < b")
    case True
    then show ?thesis using p pub by (subst republish_loop.simps) (auto simp: comp_def)
  next
    case False
    then obtain xs l where tk: "take b rest = xs @ [l]"
      using b by (cases "take b rest" rule: rev_cases) auto
    have split: "pending_rows d = ((pre @ xs) @ [l]) @ drop b rest"
      using less.prems(2) tk append_take_drop_id [of b rest] by simp
    have "ms_aligned l" using al split by simp
    note cur' = next_cursor [OF wf split this]
    have "length (drop b rest) < length rest" using False b by simp
    from less.hyps [OF this w1 split cur', of "acc + length ?page"] obtain w' where
      w': "republish_loop deps b (Some (createdAt (rowToRecord l), recId (rowToRecord l))) (acc + length ?page) w1
        = Some (Ok (acc + length ?page + length (drop b rest)), w')"
      "published w' = published w1 @ map (\<lambda>r. EvPublish (recordToMessage (rowToRecord r))) (drop b rest)"
      by blast
    have "length ?page = b" using False by simp
    moreover have "last ?page = rowToRecord l" "?page \<noteq> []" unfolding tk by simp_all
    ultimately have "republish_loop deps b cur acc w = Some (Ok (acc + length rest), w')"
      using p w'(1) False by (subst republish_loop.simps) simp
    moreover have "published w' = published w @ map (\<lambda>r. EvPublish (recordToMessage (rowToRecord r))) rest"
      using w'(2) pub by (simp add: comp_def flip: map_append)
    ultimately show ?thesis by blast
  qed
qed

text \<open>C12: When the pending rows' creation times are whole milliseconds, the startup sweep returns,
  counts every pending row and publishes each exactly once, oldest first, whatever the page
  size.\<close>

theorem republish_publishes_backlog:
  assumes "quiet deps" and "publish_ok deps" and "wf_db (wdb w)" and "1 \<le> batchSize"
    and "\<forall>r \<in> set (transactions (wdb w)). status r = Pending \<longrightarrow> ms_aligned r"
  shows "\<exists>w'. republishPending deps batchSize w = Some (Ok (countByStatus (wdb w) Pending), w') \<and>
    published w' = published w @
      map (\<lambda>r. EvPublish (recordToMessage (rowToRecord r)))
        (sort_key (\<lambda>r. (created_at r, row_id r)) (filter (\<lambda>r. status r = Pending) (transactions (wdb w))))"
proof -
  have "\<forall>r \<in> set (pending_rows (wdb w)). ms_aligned r" using assms(5) by (simp add: pending_rows_def)
  from republish_loop_all [OF assms(1-4) this refl, of "[]" "pending_rows (wdb w)" None 0]
  show ?thesis
    by (simp add: after_cursor_def republishPending_def countByStatus_def pending_rows_def)
qed

lemma demo_publish_ok: "publish_ok demo_listener"
  by (simp add: publish_ok_def demo_listener_def in_memory_ops_def im_publish_def)

text \<open>A table with one pending row created at the given microsecond.\<close>

definition demo_pending_world :: "int \<Rightarrow> in_memory_queue world" where
  "demo_pending_world t = demo_world\<lparr>wdb := \<lparr>transactions = [new_row 7 t (messageToInsert demo_message 2)],
     block_tracker = Map.empty\<rparr>\<rparr>"

lemma demo_pending_wf: "wf_db (wdb (demo_pending_world t))"
  by (simp add: demo_pending_world_def wf_db_def wf_row_def new_row_def)

theorem republish_publishes_backlog_witness:
  "\<exists>w'. republishPending demo_listener 1 (demo_pending_world 5000) = Some (Ok 1, w') \<and>
     published w' = [EvPublish demo_message]"
proof -
  have "\<forall>r \<in> set (transactions (wdb (demo_pending_world 5000))). status r = Pending \<longrightarrow> ms_aligned r"
    by (simp add: demo_pending_world_def ms_aligned_def new_row_def date_to_micros_def micros_to_date_def)
  from republish_publishes_backlog [OF demo_listener_env(2) demo_publish_ok demo_pending_wf _ this, of 1]
  show ?thesis
    by (simp add: demo_pending_world_def countByStatus_def new_row_def rowToRecord_def recordToMessage_def
        messageToInsert_def demo_world_def demo_message_def demo_payload_def)
qed

text \<open>When at least a full page of pending rows lies strictly inside one millisecond, and no
  other pending row exists, the startup sweep never returns: the cursor it keeps is the
  truncated \<open>Date\<close>, so every page is the same page again. The listener would publish that
  page for ever and never start scanning.\<close>

theorem republish_never_returns:
  assumes "quiet deps" and "publish_ok deps" and "wf_db (wdb w)" and "1 \<le> batchSize"
    and "batchSize \<le> countByStatus (wdb w) Pending"
    and "\<forall>r \<in> set (transactions (wdb w)). status r = Pending \<longrightarrow>
      micros_to_date (created_at r) = T \<and> date_to_micros T < created_at r"
  shows "republishPending deps batchSize w = None"
proof -
  let ?S = "pending_rows (wdb w)"
  have S: "micros_to_date (created_at r) = T" "date_to_micros T < created_at r" if "r \<in> set ?S" for r
    using assms(6) that by (auto simp: pending_rows_def)
  have len: "batchSize \<le> length ?S" using assms(5) by (simp add: countByStatus_def pending_rows_def)
  define stuck where "stuck \<equiv> \<lambda>cur. cur = None \<or> (\<exists>i. cur = Some (T, i :: nat))"
  have same: "filter (after_cursor cur) ?S = ?S" if "stuck cur" for cur
    using S that unfolding filter_id_conv stuck_def after_cursor_def by auto
  have never: "dp = deps \<and> b = batchSize \<and> stuck cur \<and> wdb v = wdb w \<longrightarrow> False"
    if "republish_loop dp b cur acc v = Some y" for dp b cur acc v y
    using that
  proof (induction rule: republish_loop.raw_induct [rotated 1, consumes 1, case_names step])
    case (step f dp b cur acc v y)
    show ?case
    proof
      let ?page = "map rowToRecord (take batchSize ?S)"
      assume "dp = deps \<and> b = batchSize \<and> stuck cur \<and> wdb v = wdb w"
      then have eqs: "dp = deps" "b = batchSize" "stuck cur" "wdb v = wdb w" by simp_all
      obtain v1 where p: "republish_page deps batchSize cur v = (Ok ?page, v1)" "wdb v1 = wdb w"
        using republish_page_quiet [OF assms(1,2), of v batchSize cur, unfolded eqs(4) same [OF eqs(3)]] assms(3)
        by blast
      have page: "length ?page = batchSize" "?page \<noteq> []" using len assms(4) by auto
      then have "last ?page \<in> set ?page" by (intro last_in_set)
      then have "createdAt (last ?page) = T"
        using S(1) by (auto simp: rowToRecord_def dest!: in_set_takeD)
      then have "stuck (Some (createdAt (last ?page), recId (last ?page)))" by (simp add: stuck_def)
      moreover have "f deps batchSize (Some (createdAt (last ?page), recId (last ?page))) (acc + length ?page) v1 = Some y"
        using step.hyps p(1) page unfolding eqs(1,2) by simp
      ultimately show False using step.IH p(2) by blast
    qed
  qed
  have "stuck None" by (simp add: stuck_def)
  then have "republish_loop deps batchSize None 0 w \<noteq> Some y" for y using never by blast
  then show ?thesis unfolding republishPending_def by (meson not_None_eq)
qed

theorem republish_never_returns_witness:
  "republishPending demo_listener 1 (demo_pending_world 5001) = None"
  by (rule republish_never_returns [OF demo_listener_env(2) demo_publish_ok demo_pending_wf, where T = 5])
     (simp_all add: demo_pending_world_def countByStatus_def new_row_def micros_to_date_def date_to_micros_def)

end
