(* ===== verification/Vaa.thy ===== *)
theory Vaa
  imports Relay_Types Demo_Eth
begin

section \<open>VAA bytes\<close>

text \<open>
  \<open>relay/vaa.ts\<close>: the body of a Wormhole VAA is written field by field into a fixed buffer,
  hashed twice, wrapped with a header and one guardian signature, and parsed back. \<open>DataView\<close>
  setters and \<open>Uint8Array.set\<close> are \<open>buf_set\<close> on a zero-filled list; \<open>set\<close> throws when
  the source does not fit. A numeric field is an \<open>int\<close>, so the range checks are as in the
  code.
\<close>

definition BODY_PREFIX_LENGTH :: nat where
  "BODY_PREFIX_LENGTH = 51"

definition VAA_VERSION :: nat where
  "VAA_VERSION = 1"

definition SIGNATURE_LENGTH :: nat where
  "SIGNATURE_LENGTH = 66"

definition HEADER_PREFIX_LENGTH :: nat where
  "HEADER_PREFIX_LENGTH = 6"

lemmas vaa_lengths [simp] =
  BODY_PREFIX_LENGTH_def VAA_VERSION_def SIGNATURE_LENGTH_def HEADER_PREFIX_LENGTH_def

record vaa_body_fields =
  vb_timestamp :: int
  vb_nonce :: int
  vb_emitterChainId :: int
  vb_emitterAddress :: string
  vb_sequence :: int
  vb_consistencyLevel :: int
  vb_payload :: string

record parsed_vaa = vaa_body_fields +
  pv_version :: nat
  pv_guardianSetIndex :: int
  pv_numSignatures :: nat
  pv_hash :: string

record guardian_signature =
  gs_r :: string
  gs_s :: string
  gs_v :: int

definition toUniversalAddress :: "ethers \<Rightarrow> string \<Rightarrow> string res" where
  "toUniversalAddress eth a = zeroPadValue eth a 32"

definition encodeVaaBody :: "ethers \<Rightarrow> ('z vaa_body_fields_scheme) \<Rightarrow> bytes res" where
  "encodeVaaBody eth f =
     bind_res (guard_res (vb_timestamp f < 0 \<or> 0xffffffff < vb_timestamp f)
       (new_error RangeError (''timestamp '' @ show_int (vb_timestamp f) @ '' out of uint32 range''))) (\<lambda>_.
     bind_res (guard_res (vb_nonce f < 0 \<or> 0xffffffff < vb_nonce f)
       (new_error RangeError (''nonce '' @ show_int (vb_nonce f) @ '' out of uint32 range''))) (\<lambda>_.
     bind_res (guard_res (vb_emitterChainId f < 0 \<or> 0xffff < vb_emitterChainId f)
       (new_error RangeError (''emitterChainId '' @ show_int (vb_emitterChainId f) @ '' out of uint16 range''))) (\<lambda>_.
     bind_res (guard_res (vb_sequence f < 0 \<or> 2 ^ 64 - 1 < vb_sequence f)
       (new_error RangeError (''sequence '' @ show_int (vb_sequence f) @ '' out of uint64 range''))) (\<lambda>_.
     bind_res (guard_res (vb_consistencyLevel f < 0 \<or> 0xff < vb_consistencyLevel f)
       (new_error RangeError (''consistencyLevel '' @ show_int (vb_consistencyLevel f) @ '' out of uint8 range''))) (\<lambda>_.
     bind_res (getBytes eth (vb_emitterAddress f)) (\<lambda>emitter.
     bind_res (guard_res (length emitter \<noteq> 32)
       (new_error TypeError (''emitterAddress must be 32 bytes, got '' @ show_nat (length emitter)))) (\<lambda>_.
     bind_res (getBytes eth (vb_payload f)) (\<lambda>payload.
       (let out = replicate (BODY_PREFIX_LENGTH + length payload) 0;
            out = buf_set 0 (be_encode 4 (nat (vb_timestamp f))) out;
            out = buf_set 4 (be_encode 4 (nat (vb_nonce f))) out;
            out = buf_set 8 (be_encode 2 (nat (vb_emitterChainId f))) out;
            out = buf_set 10 emitter out;
            out = buf_set 42 (be_encode 8 (nat (vb_sequence f))) out;
            out = buf_set 50 (be_encode 1 (nat (vb_consistencyLevel f))) out;
            out = buf_set BODY_PREFIX_LENGTH payload out
        in Ok out)))))))))"

definition vaaBodyDoubleHash :: "ethers \<Rightarrow> bytes \<Rightarrow> string res" where
  "vaaBodyDoubleHash eth body =
     bind_res (getBytes eth (keccak256 eth body)) (\<lambda>h. Ok (keccak256 eth h))"

definition vaa_header :: "int \<Rightarrow> bytes" where
  "vaa_header guardianSetIndex =
     (let header = replicate HEADER_PREFIX_LENGTH 0;
          header = buf_set 0 (be_encode 1 VAA_VERSION) header;
          header = buf_set 1 (be_encode 4 (nat guardianSetIndex)) header
      in buf_set 5 (be_encode 1 1) header)"

definition vaa_signature :: "ethers \<Rightarrow> int \<Rightarrow> guardian_signature \<Rightarrow> bytes res" where
  "vaa_signature eth guardianIndex g =
     (let sig = set_byte 0 guardianIndex (replicate SIGNATURE_LENGTH 0) in
      bind_res (getBytes eth (gs_r g)) (\<lambda>r.
      bind_res (js_set 1 r sig) (\<lambda>sig.
      bind_res (getBytes eth (gs_s g)) (\<lambda>s.
      bind_res (js_set 33 s sig) (\<lambda>sig.
        Ok (set_byte 65 (gs_v g) sig))))))"

definition packSignedVaa ::
  "ethers \<Rightarrow> ('z vaa_body_fields_scheme) \<Rightarrow> int \<Rightarrow> (string \<Rightarrow> guardian_signature res) \<Rightarrow> int \<Rightarrow> (string \<times> string) res" where
  "packSignedVaa eth f guardianSetIndex signDigest guardianIndex =
     bind_res (guard_res (guardianSetIndex < 0 \<or> 0xffffffff < guardianSetIndex)
       (new_error RangeError (''guardianSetIndex '' @ show_int guardianSetIndex @ '' out of uint32 range''))) (\<lambda>_.
     bind_res (encodeVaaBody eth f) (\<lambda>body.
     bind_res (vaaBodyDoubleHash eth body) (\<lambda>hash.
     bind_res (signDigest hash) (\<lambda>g.
     bind_res (vaa_signature eth guardianIndex g) (\<lambda>sig.
       Ok (hexlify eth (vaa_header guardianSetIndex @ sig @ body), hash))))))"

definition parseSignedVaa :: "ethers \<Rightarrow> bytes \<Rightarrow> parsed_vaa res" where
  "parseSignedVaa eth bytes =
     bind_res (guard_res (length bytes < HEADER_PREFIX_LENGTH)
       (new_error RangeError (''VAA too short: '' @ show_nat (length bytes) @ '' bytes''))) (\<lambda>_.
     (let version = get_uint 1 0 bytes in
      bind_res (guard_res (version \<noteq> VAA_VERSION)
        (new_error RangeError (''unsupported VAA version '' @ show_nat version @ '' (only v1 is supported)''))) (\<lambda>_.
      (let guardianSetIndex = get_uint 4 1 bytes;
           numSignatures = get_uint 1 5 bytes;
           bodyStart = HEADER_PREFIX_LENGTH + numSignatures * SIGNATURE_LENGTH in
       bind_res (guard_res (length bytes < bodyStart + BODY_PREFIX_LENGTH)
         (new_error RangeError (''VAA too short for '' @ show_nat numSignatures
           @ '' signatures + body: '' @ show_nat (length bytes) @ '' bytes''))) (\<lambda>_.
       (let body = drop bodyStart bytes in
        bind_res (vaaBodyDoubleHash eth body) (\<lambda>hash.
          Ok \<lparr>vb_timestamp = int (get_uint 4 0 body),
              vb_nonce = int (get_uint 4 4 body),
              vb_emitterChainId = int (get_uint 2 8 body),
              vb_emitterAddress = hexlify eth (subarray 10 42 body),
              vb_sequence = int (get_uint 8 42 body),
              vb_consistencyLevel = int (get_uint 1 50 body),
              vb_payload = hexlify eth (drop BODY_PREFIX_LENGTH body),
              pv_version = version,
              pv_guardianSetIndex = int guardianSetIndex,
              pv_numSignatures = numSignatures,
              pv_hash = hash\<rparr>)))))))"

definition parseSignedVaa_hex :: "ethers \<Rightarrow> string \<Rightarrow> parsed_vaa res" where
  "parseSignedVaa_hex eth vaa = bind_res (getBytes eth vaa) (parseSignedVaa eth)"

subsection \<open>The layout\<close>

text \<open>The body as the reference layout of the header comment: the fields concatenated.\<close>

definition body_layout :: "int \<Rightarrow> int \<Rightarrow> int \<Rightarrow> bytes \<Rightarrow> int \<Rightarrow> int \<Rightarrow> bytes \<Rightarrow> bytes" where
  "body_layout ts nc ch em sq cl pl =
     be_encode 4 (nat ts) @ be_encode 4 (nat nc) @ be_encode 2 (nat ch) @ em @ be_encode 8 (nat sq) @
     be_encode 1 (nat cl) @ pl"

lemma buf_set_fields:
  assumes "length em = 32"
  shows "buf_set 51 pl (buf_set 50 (be_encode 1 e) (buf_set 42 (be_encode 8 d) (buf_set 10 em
      (buf_set 8 (be_encode 2 c) (buf_set 4 (be_encode 4 b) (buf_set 0 (be_encode 4 a)
        (replicate (51 + length pl) 0)))))))
    = be_encode 4 a @ be_encode 4 b @ be_encode 2 c @ em @ be_encode 8 d @ be_encode 1 e @ pl"
  using assms by (simp add: buf_set_def del: be_encode.simps)

lemma encodeVaaBody_Ok:
  assumes "encodeVaaBody eth f = Ok body"
  obtains em pl where "getBytes eth (vb_emitterAddress f) = Ok em" "length em = 32"
    "getBytes eth (vb_payload f) = Ok pl"
    "body = body_layout (vb_timestamp f) (vb_nonce f) (vb_emitterChainId f) em (vb_sequence f)
       (vb_consistencyLevel f) pl"
    "0 \<le> vb_timestamp f" "vb_timestamp f < 2 ^ 32" "0 \<le> vb_nonce f" "vb_nonce f < 2 ^ 32"
    "0 \<le> vb_emitterChainId f" "vb_emitterChainId f < 2 ^ 16" "0 \<le> vb_sequence f" "vb_sequence f < 2 ^ 64"
    "0 \<le> vb_consistencyLevel f" "vb_consistencyLevel f < 2 ^ 8"
proof -
  obtain em pl where g: "getBytes eth (vb_emitterAddress f) = Ok em" "length em = 32"
    "getBytes eth (vb_payload f) = Ok pl"
    using assms by (auto simp: encodeVaaBody_def bind_res_Ok_iff)
  moreover have "body = body_layout (vb_timestamp f) (vb_nonce f) (vb_emitterChainId f) em (vb_sequence f)
       (vb_consistencyLevel f) pl"
    using assms g buf_set_fields [OF g(2)]
    by (auto simp: encodeVaaBody_def bind_res_Ok_iff body_layout_def Let_def simp del: be_encode.simps)
  ultimately show ?thesis
    using assms by (intro that) (auto simp: encodeVaaBody_def bind_res_Ok_iff)
qed

lemma body_fields:
  fixes pl :: bytes
  assumes "length em = 32"
    and "0 \<le> ts" "ts < 2 ^ 32" "0 \<le> nc" "nc < 2 ^ 32" "0 \<le> ch" "ch < 2 ^ 16" "0 \<le> sq" "sq < 2 ^ 64"
      "0 \<le> cl" "cl < 2 ^ 8"
  defines "body \<equiv> body_layout ts nc ch em sq cl pl"
  shows "length body = 51 + length pl"
    and "int (get_uint 4 0 body) = ts" and "int (get_uint 4 4 body) = nc" and "int (get_uint 2 8 body) = ch"
    and "subarray 10 42 body = em" and "int (get_uint 8 42 body) = sq" and "int (get_uint 1 50 body) = cl"
    and "drop 51 body = pl"
proof -
  have "nat ts < 256 ^ 4" "nat nc < 256 ^ 4" "nat ch < 256 ^ 2" "nat sq < 256 ^ 8" "nat cl < 256 ^ 1"
    using assms by (simp_all add: nat_less_iff)
  note dec = this [THEN be_decode_encode]
  show "length body = 51 + length pl"
    using assms(1) by (simp add: body_def body_layout_def del: be_encode.simps)
  show "int (get_uint 4 0 body) = ts" "int (get_uint 4 4 body) = nc" "int (get_uint 2 8 body) = ch"
    "subarray 10 42 body = em" "int (get_uint 8 42 body) = sq" "int (get_uint 1 50 body) = cl" "drop 51 body = pl"
    using assms(1-11) dec by (simp_all add: body_def body_layout_def slice_simps del: be_encode.simps)
qed

lemma header_bytes: "vaa_header gsi = be_encode 1 1 @ be_encode 4 (nat gsi) @ be_encode 1 1"
  by (simp add: vaa_header_def Let_def buf_set_def del: be_encode.simps)

lemma length_signature: "vaa_signature eth gi g = Ok sig \<Longrightarrow> length sig = 66"
  by (auto simp: vaa_signature_def Let_def bind_res_Ok_iff dest!: js_set_Ok)

lemma packSignedVaa_Ok:
  assumes "packSignedVaa eth f gsi sign gi = Ok (vaa, hash)"
  obtains body sig where "encodeVaaBody eth f = Ok body" "vaaBodyDoubleHash eth body = Ok hash"
    "length sig = 66" "0 \<le> gsi" "gsi < 2 ^ 32" "vaa = hexlify eth (vaa_header gsi @ sig @ body)"
  using assms length_signature by (fastforce simp: packSignedVaa_def bind_res_Ok_iff)

lemma parse_packed:
  assumes "length sig = 66" and "0 \<le> gsi" "gsi < 2 ^ 32" and "51 \<le> length body"
  shows "parseSignedVaa eth (vaa_header gsi @ sig @ body) =
    bind_res (vaaBodyDoubleHash eth body) (\<lambda>hash.
      Ok \<lparr>vb_timestamp = int (get_uint 4 0 body), vb_nonce = int (get_uint 4 4 body),
          vb_emitterChainId = int (get_uint 2 8 body), vb_emitterAddress = hexlify eth (subarray 10 42 body),
          vb_sequence = int (get_uint 8 42 body), vb_consistencyLevel = int (get_uint 1 50 body),
          vb_payload = hexlify eth (drop 51 body), pv_version = 1, pv_guardianSetIndex = gsi,
          pv_numSignatures = 1, pv_hash = hash\<rparr>)"
proof -
  let ?b = "vaa_header gsi @ sig @ body"
  have "nat gsi < 256 ^ 4" using assms by (simp add: nat_less_iff)
  then have d4: "be_decode (be_encode 4 (nat gsi)) = nat gsi" by (rule be_decode_encode)
  have d1: "be_decode (be_encode 1 1) = 1" by (rule be_decode_encode) simp
  have h: "get_uint 1 0 ?b = 1" "get_uint 4 1 ?b = nat gsi" "get_uint 1 5 ?b = 1"
    using d1 d4 by (simp_all add: header_bytes slice_simps del: be_encode.simps)
  have "drop (6 + 1 * 66) ?b = body" "length ?b = 72 + length body"
    using assms(1) by (simp_all add: header_bytes del: be_encode.simps)
  then show ?thesis
    using h assms unfolding parseSignedVaa_def Let_def by (simp add: guard_res_def del: be_encode.simps)
qed

lemma packed_parses:
  assumes "ethers_hex_laws eth" and "packSignedVaa eth f gsi sign gi = Ok (vaa, hash)"
  obtains bs em pl where "getBytes eth vaa = Ok bs"
    "getBytes eth (vb_emitterAddress f) = Ok em" "getBytes eth (vb_payload f) = Ok pl"
    "parseSignedVaa eth bs = Ok \<lparr>vb_timestamp = vb_timestamp f, vb_nonce = vb_nonce f,
       vb_emitterChainId = vb_emitterChainId f, vb_emitterAddress = hexlify eth em,
       vb_sequence = vb_sequence f, vb_consistencyLevel = vb_consistencyLevel f,
       vb_payload = hexlify eth pl, pv_version = 1, pv_guardianSetIndex = gsi,
       pv_numSignatures = 1, pv_hash = hash\<rparr>"
proof -
  obtain body sig where b: "encodeVaaBody eth f = Ok body" "vaaBodyDoubleHash eth body = Ok hash"
    "length sig = 66" "0 \<le> gsi" "gsi < 2 ^ 32"
    "vaa = hexlify eth (vaa_header gsi @ sig @ body)"
    using assms(2) by (rule packSignedVaa_Ok)
  obtain em pl where e: "getBytes eth (vb_emitterAddress f) = Ok em" "length em = 32"
    "getBytes eth (vb_payload f) = Ok pl"
    "body = body_layout (vb_timestamp f) (vb_nonce f) (vb_emitterChainId f) em (vb_sequence f)
       (vb_consistencyLevel f) pl"
    and ranges: "0 \<le> vb_timestamp f" "vb_timestamp f < 2 ^ 32" "0 \<le> vb_nonce f" "vb_nonce f < 2 ^ 32"
    "0 \<le> vb_emitterChainId f" "vb_emitterChainId f < 2 ^ 16" "0 \<le> vb_sequence f" "vb_sequence f < 2 ^ 64"
    "0 \<le> vb_consistencyLevel f" "vb_consistencyLevel f < 2 ^ 8"
    using b(1) by (rule encodeVaaBody_Ok)
  note fields = body_fields [OF e(2) ranges, of pl, folded e(4)]
  have "getBytes eth vaa = Ok (vaa_header gsi @ sig @ body)"
    using assms(1) by (simp add: ethers_hex_laws_def b(6))
  moreover have "51 \<le> length body" using fields(1) by simp
  ultimately show ?thesis
    using parse_packed [OF b(3-5), of body eth] b(2) e fields by (intro that) simp_all
qed

text \<open>C13: A VAA that \<open>packSignedVaa\<close> produces is parsed back by \<open>parseSignedVaa\<close> to the same
  timestamp, nonce, emitter chain, sequence and consistency level, to the same emitter and
  payload bytes, to the guardian set index it was packed with and one signature, and to the
  double hash of the body that was returned with it.\<close>

theorem vaa_round_trip:
  assumes "ethers_hex_laws eth" and "packSignedVaa eth f gsi sign gi = Ok (vaa, hash)"
  shows "\<exists>p. parseSignedVaa_hex eth vaa = Ok p \<and>
    vb_timestamp p = vb_timestamp f \<and> vb_nonce p = vb_nonce f \<and>
    vb_emitterChainId p = vb_emitterChainId f \<and> vb_sequence p = vb_sequence f \<and>
    vb_consistencyLevel p = vb_consistencyLevel f \<and>
    getBytes eth (vb_emitterAddress p) = getBytes eth (vb_emitterAddress f) \<and>
    getBytes eth (vb_payload p) = getBytes eth (vb_payload f) \<and>
    pv_version p = 1 \<and> pv_guardianSetIndex p = gsi \<and> pv_numSignatures p = 1 \<and> pv_hash p = hash"
proof -
  obtain bs em pl where p: "getBytes eth vaa = Ok bs"
    "getBytes eth (vb_emitterAddress f) = Ok em" "getBytes eth (vb_payload f) = Ok pl"
    "parseSignedVaa eth bs = Ok \<lparr>vb_timestamp = vb_timestamp f, vb_nonce = vb_nonce f,
       vb_emitterChainId = vb_emitterChainId f, vb_emitterAddress = hexlify eth em,
       vb_sequence = vb_sequence f, vb_consistencyLevel = vb_consistencyLevel f,
       vb_payload = hexlify eth pl, pv_version = 1, pv_guardianSetIndex = gsi,
       pv_numSignatures = 1, pv_hash = hash\<rparr>"
    using assms by (rule packed_parses)
  moreover have "getBytes eth (hexlify eth b) = Ok b" for b
    using assms(1) by (simp add: ethers_hex_laws_def)
  ultimately show ?thesis by (simp add: parseSignedVaa_hex_def)
qed

definition demo_fields :: vaa_body_fields where
  "demo_fields = \<lparr>vb_timestamp = 0, vb_nonce = 3, vb_emitterChainId = 2,
     vb_emitterAddress = demo_hexlify (replicate 32 7), vb_sequence = 9, vb_consistencyLevel = 1,
     vb_payload = demo_hexlify [1, 2]\<rparr>"

definition demo_sign :: "string \<Rightarrow> guardian_signature res" where
  "demo_sign digest = Ok \<lparr>gs_r = demo_hexlify (replicate 32 1), gs_s = demo_hexlify (replicate 32 2), gs_v = 1\<rparr>"

theorem vaa_round_trip_witness:
  "\<exists>vaa hash p. packSignedVaa demo_eth demo_fields 4 demo_sign 0 = Ok (vaa, hash) \<and>
     parseSignedVaa_hex demo_eth vaa = Ok p \<and> vb_sequence p = 9 \<and> pv_guardianSetIndex p = 4 \<and> pv_hash p = hash"
proof -
  have "\<not> isl (packSignedVaa demo_eth demo_fields 4 demo_sign 0)"
    by (simp add: packSignedVaa_def encodeVaaBody_def demo_fields_def demo_sign_def demo_eth_def
        demo_getBytes_hexlify vaaBodyDoubleHash_def vaa_signature_def js_set_def guard_res_def Let_def
        del: be_encode.simps)
  then obtain vaa hash where p: "packSignedVaa demo_eth demo_fields 4 demo_sign 0 = Ok (vaa, hash)"
    by (cases "packSignedVaa demo_eth demo_fields 4 demo_sign 0") auto
  from vaa_round_trip [OF demo_eth_laws this] p show ?thesis by (auto simp: demo_fields_def)
qed



end
