(* ===== verification/Retry_Calls.thy ===== *)
theory Retry_Calls
  imports Retry_Policy
begin

section \<open>Retried calls\<close>

text \<open>
  The services call \<open>withRetry(fn, retry, sleep)\<close> with the default classifier and only use the
  value. That value does not depend on the jitter, so the delays (\<open>Retry_Policy\<close>) are left out
  where a call is used: \<open>rpc_retry\<close> for the relayer bot, \<open>quoter_retry\<close> and \<open>oracle_retry\<close> for
  the copies in the other services.
\<close>

lemma retry_loop_jitter: "fst (retry_loop fn opts tr j a e) = fst (retry_loop fn opts tr j' a e)"
proof (induction fn opts tr j a e rule: retry_loop.induct)
  case (1 fn opts tr j a e)
  show ?case
  proof (cases "a \<le> maxAttempts opts \<and> (\<exists>err. fn a = Inl err \<and> a \<noteq> maxAttempts opts \<and> tr err)")
    case True
    then obtain err where err: "fn a = Inl err" "a \<noteq> maxAttempts opts" "tr err" "a \<le> maxAttempts opts" by auto
    have "fst (retry_loop fn opts tr i a e) = fst (retry_loop fn opts tr i (a + 1) err)" for i
      by (subst retry_loop.simps) (simp add: err case_prod_beta)
    then show ?thesis using 1 [OF err(4,1)] err by simp
  next
    case False
    then show ?thesis by (subst (1 2) retry_loop.simps) (auto split: sum.splits)
  qed
qed

lemma withRetry_jitter: "fst (withRetry fn opts tr j) = fst (withRetry fn opts tr j')"
  unfolding withRetry_def by (rule retry_loop_jitter)

definition rpc_retry :: "retry_options \<Rightarrow> (nat \<Rightarrow> 'a res) \<Rightarrow> 'a res" where
  "rpc_retry opts fn = fst (withRetry fn opts isTransientRpcError (\<lambda>_. defaultJitter 0))"

lemma rpc_retry_cases:
  obtains k where "1 \<le> k" "k \<le> maxAttempts opts" "rpc_retry opts fn = fn k"
    "\<And>i. 1 \<le> i \<Longrightarrow> i < k \<Longrightarrow> transient_failure isTransientRpcError (fn i)"
    "k = maxAttempts opts \<or> \<not> transient_failure isTransientRpcError (fn k)"
  | "maxAttempts opts = 0" "rpc_retry opts fn = Throw undefined_error"
proof (cases "1 \<le> maxAttempts opts")
  case True
  obtain k where k: "1 \<le> k" "k \<le> maxAttempts opts"
    "\<And>i. 1 \<le> i \<Longrightarrow> i < k \<Longrightarrow> transient_failure isTransientRpcError (fn i)"
    "k = maxAttempts opts \<or> \<not> transient_failure isTransientRpcError (fn k)"
    using first_decisive_attempt [OF True, of "\<lambda>i. transient_failure isTransientRpcError (fn i)"] by metis
  have "rpc_retry opts fn = fn k"
    unfolding rpc_retry_def withRetry_def using k by (subst retry_loop_result [of _ k]) auto
  with k show ?thesis by (rule_tac that(1)) auto
next
  case False
  then show ?thesis
    by (intro that(2)) (simp_all add: rpc_retry_def withRetry_def retry_loop.simps)
qed

lemma rpc_retry_Ok:
  assumes "rpc_retry opts fn = Ok v"
  obtains k where "1 \<le> k" "k \<le> maxAttempts opts" "fn k = Ok v"
  using assms by (cases rule: rpc_retry_cases [of opts fn]) auto

text \<open>An action that always answers the same is called once, or fails as it fails.\<close>

lemma rpc_retry_const: "1 \<le> maxAttempts opts \<Longrightarrow> rpc_retry opts (\<lambda>_. r) = r"
  by (cases rule: rpc_retry_cases [of opts "\<lambda>_. r"]) auto

definition quoter_retry :: "retry_options \<Rightarrow> (nat \<Rightarrow> 'a res) \<Rightarrow> 'a res" where
  "quoter_retry opts fn = fst (quoter_withRetry fn opts (\<lambda>_. defaultJitter 0))"

definition oracle_retry :: "retry_options \<Rightarrow> (nat \<Rightarrow> 'a res) \<Rightarrow> 'a res" where
  "oracle_retry opts fn = fst (oracle_withRetry fn opts (\<lambda>_. defaultJitter 0))"

lemma service_retry_eq [simp]:
  "quoter_retry opts fn = rpc_retry opts fn" "oracle_retry opts fn = rpc_retry opts fn"
  by (simp_all add: quoter_retry_def oracle_retry_def rpc_retry_def quoter_withRetry_def oracle_withRetry_def
      withRetry_def quoter_loop_eq oracle_loop_eq)

end
