(* ===== verification/Rpc.thy ===== *)
theory Rpc
  imports Relay_Types Retry_Calls
begin

section \<open>The chains as the relay modules see them\<close>

text \<open>
  The modules under \<open>relay/\<close> read the chains through an ethers \<open>Provider\<close> and code calls
  and logs with ethers \<open>Interface\<close>s. Both are third-party: \<open>provider\<close> is the record of
  the answers a provider gives (the last argument is the attempt number under one
  \<open>withRetry\<close>), \<open>contract_abi\<close> the record of the coders built from the ABI strings of
  \<open>abi.ts\<close>.
\<close>

record chain_log =
  lg_address :: string
  lg_topics :: "string list"
  lg_data :: string
  lg_transactionHash :: string
  lg_blockNumber :: nat
  lg_index :: nat

record tx_receipt =
  tr_status :: "nat option"
  tr_blockNumber :: nat
  tr_gasUsed :: int
  tr_logs :: "chain_log list"

record fee_data =
  fd_maxFeePerGas :: "int option"
  fd_maxPriorityFeePerGas :: "int option"
  fd_gasPrice :: "int option"

record provider =
  rpc_getBlockNumber :: "nat \<Rightarrow> int res"
  rpc_getLogs :: "string \<Rightarrow> string \<Rightarrow> int \<Rightarrow> int \<Rightarrow> nat \<Rightarrow> chain_log list res"
  rpc_getTransactionReceipt :: "string \<Rightarrow> nat \<Rightarrow> tx_receipt option res"
  rpc_getTransaction :: "string \<Rightarrow> nat \<Rightarrow> int option res"
  rpc_call :: "string \<Rightarrow> string \<Rightarrow> nat \<Rightarrow> string res"
  rpc_estimateGas :: "string \<Rightarrow> string \<Rightarrow> nat \<Rightarrow> int res"
  rpc_getFeeData :: "nat \<Rightarrow> fee_data res"
  rpc_guardianSetIndex :: "string \<Rightarrow> nat \<Rightarrow> int res"

record core_message =
  cm_sender :: string
  cm_sequence :: int
  cm_nonce :: int
  cm_payload :: string
  cm_consistencyLevel :: int

record execution_args =
  xa_dstChain :: nat
  xa_dstAddr :: string
  xa_requestBytes :: string
  xa_relayInstructions :: string

record contract_abi =
  ab_LOG_MESSAGE_PUBLISHED_TOPIC :: string
  ab_EXECUTION_REQUESTED_TOPIC :: string
  ab_parseCoreLog :: "string list \<Rightarrow> string \<Rightarrow> core_message option res"
  ab_parseRelayerLog :: "string list \<Rightarrow> string \<Rightarrow> execution_args option res"
  ab_decodeUint256 :: "string \<Rightarrow> int res"
  ab_encodeReceiveMessage :: "string \<Rightarrow> string res"
  ab_encodeIsVAAConsumed :: "string \<Rightarrow> string res"
  ab_decodeIsVAAConsumed :: "string \<Rightarrow> bool res"
  ab_parseTransceiverError :: "string \<Rightarrow> string option res"

text \<open>
  The filter both readers of source receipts apply to a log: it must come from the Core bridge,
  carry the \<open>LogMessagePublished\<close> topic and parse. \<open>s.slice(-n)\<close> is \<open>slice_last\<close>.
\<close>

definition core_log_message :: "contract_abi \<Rightarrow> string \<Rightarrow> chain_log \<Rightarrow> core_message option res" where
  "core_log_message abi core lg =
     (if toLowerCase (lg_address lg) \<noteq> core then Ok None
      else if take 1 (lg_topics lg) \<noteq> [ab_LOG_MESSAGE_PUBLISHED_TOPIC abi] then Ok None
      else ab_parseCoreLog abi (lg_topics lg) (lg_data lg))"

definition slice_last :: "nat \<Rightarrow> string \<Rightarrow> string" where
  "slice_last n s = drop (length s - n) s"

record partial_retry =
  pr_maxAttempts :: "nat option"
  pr_initialDelayMs :: "nat option"
  pr_maxDelayMs :: "nat option"

definition merge_retry :: "partial_retry option \<Rightarrow> retry_options" where
  "merge_retry r =
     (case r of None \<Rightarrow> DEFAULT_RETRY
      | Some o' \<Rightarrow> \<lparr>maxAttempts = (case pr_maxAttempts o' of None \<Rightarrow> maxAttempts DEFAULT_RETRY | Some n \<Rightarrow> n),
                  initialDelayMs = (case pr_initialDelayMs o' of None \<Rightarrow> initialDelayMs DEFAULT_RETRY | Some n \<Rightarrow> n),
                  maxDelayMs = (case pr_maxDelayMs o' of None \<Rightarrow> maxDelayMs DEFAULT_RETRY | Some n \<Rightarrow> n)\<rparr>)"

end
