(* ===== verification/Vaa_Fetcher.thy ===== *)
theory Vaa_Fetcher
  imports Vaa Rpc
begin

section \<open>VAA fetchers\<close>

text \<open>
  \<open>relay/vaaFetcher.ts\<close>: the Wormholescan client (URL, status handling, base64 body, the
  check that the VAA is the one asked for) and the devnet fetcher that signs the message found
  in the source receipt with a guardian key. The HTTP client is the field \<open>ws_fetch\<close> (what it
  answers for a URL on an attempt), the response body the \<open>vaaBytes\<close> property \<open>json()\<close> gives;
  the signing key is the field \<open>dg_signingKey\<close>. Both classes implement the interface
  \<open>VaaFetcher\<close>, the locale \<open>vaa_fetcher\<close>: what they return parses as the VAA asked for.
\<close>

subsection \<open>Base64\<close>

text \<open>
  \<open>Buffer.from(s, "base64")\<close>: either alphabet, other characters are skipped, decoding ends at
  the padding, an incomplete last group gives the bytes it has.
\<close>

definition b64_val :: "char \<Rightarrow> nat option" where
  "b64_val c =
     (let n = of_char c :: nat in
      if 65 \<le> n \<and> n \<le> 90 then Some (n - 65)
      else if 97 \<le> n \<and> n \<le> 122 then Some (n - 71)
      else if 48 \<le> n \<and> n \<le> 57 then Some (n + 4)
      else if n = 43 \<or> n = 45 then Some 62
      else if n = 47 \<or> n = 95 then Some 63
      else None)"

fun b64_groups :: "nat list \<Rightarrow> bytes" where
  "b64_groups (a # b # c # d # rest) =
     be_encode 3 (a * 2 ^ 18 + b * 2 ^ 12 + c * 2 ^ 6 + d) @ b64_groups rest"
| "b64_groups [a, b, c] = be_encode 2 ((a * 2 ^ 12 + b * 2 ^ 6 + c) div 4)"
| "b64_groups [a, b] = be_encode 1 ((a * 2 ^ 6 + b) div 16)"
| "b64_groups _ = []"

definition base64_decode :: "string \<Rightarrow> bytes" where
  "base64_decode s = b64_groups (List.map_filter b64_val (takeWhile (\<lambda>c. c \<noteq> CHR ''='') s))"

subsection \<open>Wormholescan\<close>

record fetch_response =
  fr_status :: nat
  fr_ok :: bool
  fr_vaaBytes :: "string option res"

record wormholescan =
  ws_baseUrl :: string
  ws_retry :: retry_options
  ws_fetch :: "string \<Rightarrow> nat \<Rightarrow> fetch_response res"

definition new_wormholescan ::
  "string \<Rightarrow> partial_retry option \<Rightarrow> (string \<Rightarrow> nat \<Rightarrow> fetch_response res) \<Rightarrow> wormholescan" where
  "new_wormholescan baseUrl retry fetchImpl =
     \<lparr>ws_baseUrl = rev (dropWhile (\<lambda>c. c = CHR ''/'') (rev baseUrl)),
      ws_retry = merge_retry retry, ws_fetch = fetchImpl\<rparr>"

definition emitterHexNoPrefix :: "string \<Rightarrow> string" where
  "emitterHexNoPrefix a = toLowerCase (if starts_with ''0x'' a then drop 2 a else a)"

definition signed_vaa_url :: "wormholescan \<Rightarrow> vaa_id \<Rightarrow> string" where
  "signed_vaa_url ws vid =
     ws_baseUrl ws @ ''/v1/signed_vaa/'' @ show_nat (vid_emitterChain vid) @ ''/''
       @ emitterHexNoPrefix (vid_emitterAddress vid) @ ''/'' @ show_int (vid_sequence vid)"

definition is_requested_vaa :: "vaa_id \<Rightarrow> parsed_vaa \<Rightarrow> bool" where
  "is_requested_vaa vid p \<longleftrightarrow>
     vb_emitterChainId p = int (vid_emitterChain vid) \<and>
     toLowerCase (vb_emitterAddress p) = toLowerCase (vid_emitterAddress vid) \<and>
     vb_sequence p = vid_sequence vid"

definition show_vaa_key :: "int \<Rightarrow> string \<Rightarrow> int \<Rightarrow> string" where
  "show_vaa_key c a s = show_int c @ ''/'' @ a @ ''/'' @ show_int s"

definition doFetch :: "ethers \<Rightarrow> wormholescan \<Rightarrow> vaa_id \<Rightarrow> string \<Rightarrow> nat \<Rightarrow> bytes option res" where
  "doFetch eth ws vid url attempt =
     (case ws_fetch ws url attempt of
        Inl err \<Rightarrow> Throw (coded_error PlainError ''SERVER_ERROR'' (''wormholescan request failed: '' @ js_String err))
      | Inr r \<Rightarrow>
          (if fr_status r = 404 then Ok None
           else if 500 \<le> fr_status r then
             Throw (coded_error PlainError ''SERVER_ERROR'' (''wormholescan HTTP '' @ show_nat (fr_status r)))
           else if \<not> fr_ok r then
             Throw (new_error PlainError (''wormholescan HTTP '' @ show_nat (fr_status r) @ '' for '' @ url))
           else
             bind_res (fr_vaaBytes r) (\<lambda>body.
               if body = None \<or> body = Some [] then
                 Throw (new_error PlainError ''wormholescan response missing vaaBytes'')
               else
                 (let bytes = base64_decode (the body) in
                  bind_res (parseSignedVaa eth bytes) (\<lambda>parsed.
                  bind_res (guard_res (\<not> is_requested_vaa vid parsed)
                    (new_error PlainError (''wormholescan returned a different VAA than requested: got ''
                      @ show_vaa_key (vb_emitterChainId parsed) (vb_emitterAddress parsed) (vb_sequence parsed)
                      @ '', want ''
                      @ show_vaa_key (int (vid_emitterChain vid)) (vid_emitterAddress vid) (vid_sequence vid)))) (\<lambda>_.
                    Ok (Some bytes)))))))"

definition wormholescan_fetchVaa :: "ethers \<Rightarrow> wormholescan \<Rightarrow> vaa_id \<Rightarrow> bytes option res" where
  "wormholescan_fetchVaa eth ws vid =
     rpc_retry (ws_retry ws) (doFetch eth ws vid (signed_vaa_url ws vid))"

subsection \<open>The devnet guardian\<close>

record dev_guardian =
  dg_sourceProviderFor :: "chainId \<Rightarrow> provider res"
  dg_coreAddressFor :: "chainId \<Rightarrow> string res"
  dg_signingKey :: "string \<Rightarrow> (string \<times> string \<times> int) res"
  dg_guardianSetIndexOverride :: "int option"
  dg_retry :: retry_options

definition dev_sign :: "dev_guardian \<Rightarrow> string \<Rightarrow> guardian_signature res" where
  "dev_sign dg digest =
     bind_res (dg_signingKey dg digest) (\<lambda>(r, s, yParity). Ok \<lparr>gs_r = r, gs_s = s, gs_v = yParity\<rparr>)"

fun find_published ::
  "contract_abi \<Rightarrow> string \<Rightarrow> int \<Rightarrow> string \<Rightarrow> chain_log list \<Rightarrow> core_message option res" where
  "find_published abi core sq emitterEvm [] = Ok None"
| "find_published abi core sq emitterEvm (lg # logs) =
     bind_res (core_log_message abi core lg) (\<lambda>parsed.
       case parsed of
         None \<Rightarrow> find_published abi core sq emitterEvm logs
       | Some m \<Rightarrow>
           (if cm_sequence m \<noteq> sq then find_published abi core sq emitterEvm logs
            else if toLowerCase (cm_sender m) \<noteq> emitterEvm then find_published abi core sq emitterEvm logs
            else Ok (Some m)))"

definition guardian_set_index :: "dev_guardian \<Rightarrow> chainId \<Rightarrow> provider \<Rightarrow> int res" where
  "guardian_set_index dg c prov =
     (case dg_guardianSetIndexOverride dg of
        Some i \<Rightarrow> Ok i
      | None \<Rightarrow> rpc_retry (dg_retry dg) (\<lambda>attempt.
          bind_res (dg_coreAddressFor dg c) (\<lambda>core. rpc_guardianSetIndex prov core attempt)))"

definition published_fields :: "vaa_id \<Rightarrow> core_message \<Rightarrow> vaa_body_fields" where
  "published_fields vid m =
     \<lparr>vb_timestamp = 0, vb_nonce = cm_nonce m, vb_emitterChainId = int (vid_emitterChain vid),
      vb_emitterAddress = vid_emitterAddress vid, vb_sequence = vid_sequence vid,
      vb_consistencyLevel = cm_consistencyLevel m, vb_payload = cm_payload m\<rparr>"

definition dev_guardian_fetchVaa ::
  "ethers \<Rightarrow> contract_abi \<Rightarrow> dev_guardian \<Rightarrow> vaa_id \<Rightarrow> bytes option res" where
  "dev_guardian_fetchVaa eth abi dg vid =
     (if vid_sourceTxHash vid = None \<or> vid_sourceTxHash vid = Some [] then
        Throw (new_error PlainError
          ''DevGuardianVaaFetcher requires VaaId.sourceTxHash to locate the published message'')
      else
        bind_res (dg_sourceProviderFor dg (vid_emitterChain vid)) (\<lambda>prov.
        bind_res (dg_coreAddressFor dg (vid_emitterChain vid)) (\<lambda>coreAddress.
        bind_res (rpc_retry (dg_retry dg) (rpc_getTransactionReceipt prov (the (vid_sourceTxHash vid)))) (\<lambda>receipt.
          case receipt of
            None \<Rightarrow> Ok None
          | Some rcpt \<Rightarrow>
              bind_res (getAddress eth (''0x'' @ slice_last 40 (vid_emitterAddress vid))) (\<lambda>emitterEvm.
              bind_res (find_published abi (toLowerCase coreAddress) (vid_sequence vid)
                          (toLowerCase emitterEvm) (tr_logs rcpt)) (\<lambda>found.
                case found of
                  None \<Rightarrow> Ok None
                | Some m \<Rightarrow>
                    bind_res (guardian_set_index dg (vid_emitterChain vid) prov) (\<lambda>gsi.
                    bind_res (packSignedVaa eth (published_fields vid m) gsi (dev_sign dg) 0) (\<lambda>(vaa, _).
                    bind_res (getBytes eth vaa) (\<lambda>bytes. Ok (Some bytes))))))))))"

subsection \<open>The contract of a fetcher\<close>

locale vaa_fetcher =
  fixes eth :: ethers and fetchVaa :: "vaa_id \<Rightarrow> bytes option res"
  assumes fetched_is_requested:
    "ethers_hex_laws eth \<Longrightarrow> fetchVaa vid = Ok (Some bytes) \<Longrightarrow>
     \<exists>p. parseSignedVaa eth bytes = Ok p \<and>
       vb_emitterChainId p = int (vid_emitterChain vid) \<and> vb_sequence p = vid_sequence vid"

lemma doFetch_Ok:
  "doFetch eth ws vid url k = Ok (Some bytes) \<longleftrightarrow>
   (\<exists>r s p. ws_fetch ws url k = Ok r \<and> fr_status r \<noteq> 404 \<and> fr_status r < 500 \<and> fr_ok r \<and>
      fr_vaaBytes r = Ok (Some s) \<and> s \<noteq> [] \<and> bytes = base64_decode s \<and>
      parseSignedVaa eth bytes = Ok p \<and> is_requested_vaa vid p)"
proof (cases "ws_fetch ws url k")
  case (Inr r)
  then show ?thesis
    unfolding doFetch_def Let_def Inr sum.case if_throw_Ok if_none_Ok bind_res_Ok_iff guard_res_Ok by auto
qed (simp add: doFetch_def)

lemma doFetch_None:
  "doFetch eth ws vid url k = Ok None \<longleftrightarrow> (\<exists>r. ws_fetch ws url k = Ok r \<and> fr_status r = 404)"
  unfolding doFetch_def Let_def
  by (cases "ws_fetch ws url k") (auto simp: if_throw_Ok bind_res_Ok_iff)

interpretation scan: vaa_fetcher eth "wormholescan_fetchVaa eth ws" for eth ws
proof
  fix vid bytes
  assume "wormholescan_fetchVaa eth ws vid = Ok (Some bytes)"
  then obtain k where "doFetch eth ws vid (signed_vaa_url ws vid) k = Ok (Some bytes)"
    unfolding wormholescan_fetchVaa_def by (rule rpc_retry_Ok)
  then show "\<exists>p. parseSignedVaa eth bytes = Ok p \<and>
      vb_emitterChainId p = int (vid_emitterChain vid) \<and> vb_sequence p = vid_sequence vid"
    by (auto simp: doFetch_Ok is_requested_vaa_def)
qed

lemma find_published_Ok:
  assumes "find_published abi core sq ev logs = Ok (Some m)"
  shows "\<exists>lg \<in> set logs. core_log_message abi core lg = Ok (Some m) \<and> cm_sequence m = sq \<and>
    toLowerCase (cm_sender m) = ev"
  using assms
  by (induction logs) (auto simp: bind_res_Ok_iff split: option.splits if_splits)

lemma dev_guardian_Ok:
  assumes "dev_guardian_fetchVaa eth abi dg vid = Ok (Some bytes)"
  obtains prov core rcpt ev m gsi vaa h where
    "dg_sourceProviderFor dg (vid_emitterChain vid) = Ok prov" "dg_coreAddressFor dg (vid_emitterChain vid) = Ok core"
    "rpc_retry (dg_retry dg) (rpc_getTransactionReceipt prov (the (vid_sourceTxHash vid))) = Ok (Some rcpt)"
    "getAddress eth (''0x'' @ slice_last 40 (vid_emitterAddress vid)) = Ok ev"
    "find_published abi (toLowerCase core) (vid_sequence vid) (toLowerCase ev) (tr_logs rcpt) = Ok (Some m)"
    "packSignedVaa eth (published_fields vid m) gsi (dev_sign dg) 0 = Ok (vaa, h)" "getBytes eth vaa = Ok bytes"
  using assms by (auto simp: dev_guardian_fetchVaa_def bind_res_Ok_iff split: if_splits option.splits)

interpretation dev: vaa_fetcher eth "dev_guardian_fetchVaa eth abi dg" for eth abi dg
proof
  fix vid bytes
  assume laws: "ethers_hex_laws eth" and "dev_guardian_fetchVaa eth abi dg vid = Ok (Some bytes)"
  then obtain m gsi vaa h where v: "packSignedVaa eth (published_fields vid m) gsi (dev_sign dg) 0 = Ok (vaa, h)"
    "getBytes eth vaa = Ok bytes" by (blast elim: dev_guardian_Ok)
  from laws v(1) show "\<exists>p. parseSignedVaa eth bytes = Ok p \<and>
      vb_emitterChainId p = int (vid_emitterChain vid) \<and> vb_sequence p = vid_sequence vid"
    by (rule packed_parses) (use v(2) in \<open>simp add: published_fields_def\<close>)
qed

subsection \<open>Properties\<close>

text \<open>Wormholescan is not trusted and not given up on early: the fetcher answers \<open>null\<close> only when
  an attempt got a 404; bytes it returns come base64-encoded from a successful response and parse
  as a VAA of the chain, emitter and sequence asked for; and it throws a transient error only
  after every allowed attempt failed transiently.\<close>

theorem wormholescan_outcomes:
  assumes "1 \<le> maxAttempts (ws_retry ws)"
  shows "case wormholescan_fetchVaa eth ws vid of
      Inr None \<Rightarrow> (\<exists>k r. 1 \<le> k \<and> k \<le> maxAttempts (ws_retry ws) \<and>
        ws_fetch ws (signed_vaa_url ws vid) k = Ok r \<and> fr_status r = 404)
    | Inr (Some bytes) \<Rightarrow> (\<exists>k r s p. ws_fetch ws (signed_vaa_url ws vid) k = Ok r \<and> fr_ok r \<and> fr_status r < 500 \<and>
        fr_vaaBytes r = Ok (Some s) \<and> bytes = base64_decode s \<and> parseSignedVaa eth bytes = Ok p \<and>
        vb_emitterChainId p = int (vid_emitterChain vid) \<and> vb_sequence p = vid_sequence vid \<and>
        toLowerCase (vb_emitterAddress p) = toLowerCase (vid_emitterAddress vid))
    | Inl e \<Rightarrow> isTransientRpcError e \<longrightarrow> (\<forall>k. 1 \<le> k \<and> k \<le> maxAttempts (ws_retry ws) \<longrightarrow>
        (\<exists>f. doFetch eth ws vid (signed_vaa_url ws vid) k = Throw f \<and> isTransientRpcError f))"
proof -
  let ?fn = "doFetch eth ws vid (signed_vaa_url ws vid)"
  obtain k where k: "1 \<le> k" "k \<le> maxAttempts (ws_retry ws)" "wormholescan_fetchVaa eth ws vid = ?fn k"
    "\<And>i. 1 \<le> i \<Longrightarrow> i < k \<Longrightarrow> transient_failure isTransientRpcError (?fn i)"
    "k = maxAttempts (ws_retry ws) \<or> \<not> transient_failure isTransientRpcError (?fn k)"
    unfolding wormholescan_fetchVaa_def
    using assms by (cases rule: rpc_retry_cases [of "ws_retry ws" ?fn]) auto
  show ?thesis
  proof (cases "?fn k")
    case (Inl e)
    have "\<exists>f. ?fn i = Throw f \<and> isTransientRpcError f"
      if "isTransientRpcError e" "1 \<le> i" "i \<le> maxAttempts (ws_retry ws)" for i
    proof (cases "i < k")
      case True
      with k(4) that show ?thesis by (auto simp: transient_failure_def)
    next
      case False
      then have "i = k" using k(2,5) Inl that by (auto simp: transient_failure_def)
      with Inl that show ?thesis by simp
    qed
    then show ?thesis using Inl k(3) by auto
  next
    case (Inr found)
    show ?thesis
    proof (cases found)
      case None
      with Inr have "\<exists>r. ws_fetch ws (signed_vaa_url ws vid) k = Ok r \<and> fr_status r = 404"
        by (simp add: doFetch_None)
      with k(1,2) show ?thesis unfolding k(3) Inr None by auto
    next
      case (Some bytes)
      with Inr have "doFetch eth ws vid (signed_vaa_url ws vid) k = Ok (Some bytes)" by simp
      from this [unfolded doFetch_Ok is_requested_vaa_def] show ?thesis
        unfolding k(3) Inr Some sum.case option.case by blast
    qed
  qed
qed

definition demo_scan :: wormholescan where
  "demo_scan = new_wormholescan ''https://scan/'' None (\<lambda>url k. Ok \<lparr>fr_status = (if k = 1 then 503 else 404),
     fr_ok = False, fr_vaaBytes = Ok None\<rparr>)"

definition demo_vid :: vaa_id where
  "demo_vid = \<lparr>vid_emitterChain = 2, vid_emitterAddress = ''0xAB'', vid_sequence = 9, vid_sourceTxHash = None\<rparr>"

theorem wormholescan_outcomes_witness:
  "wormholescan_fetchVaa demo_eth demo_scan demo_vid = Ok None \<and>
   (\<exists>k r. ws_fetch demo_scan (signed_vaa_url demo_scan demo_vid) k = Ok r \<and> fr_status r = 404)"
proof -
  have m: "maxAttempts (ws_retry demo_scan) = 3"
    by (simp add: demo_scan_def new_wormholescan_def merge_retry_def DEFAULT_RETRY_def)
  have f: "doFetch demo_eth demo_scan demo_vid url k =
      (if k = 1 then Throw (coded_error PlainError ''SERVER_ERROR'' (''wormholescan HTTP '' @ show_nat 503)) else Ok None)" for url k
    by (simp add: doFetch_def demo_scan_def new_wormholescan_def)
  have "wormholescan_fetchVaa demo_eth demo_scan demo_vid = Ok None"
    unfolding wormholescan_fetchVaa_def using m
    by (cases rule: rpc_retry_cases [of "ws_retry demo_scan" "doFetch demo_eth demo_scan demo_vid (signed_vaa_url demo_scan demo_vid)"])
       (auto simp: f transient_failure_def isTransientRpcError_def)
  with wormholescan_outcomes [of demo_scan demo_eth demo_vid] m show ?thesis by auto
qed

end
