(* ===== verification/Event_Source.thy ===== *)
theory Event_Source
  imports Vaa_Fetcher "HOL-Library.Product_Lexorder"
begin

section \<open>Reading the source chain\<close>

text \<open>
  \<open>relay/correlator.ts\<close>, \<open>relay/eventSource.ts\<close> and \<open>relay/receiptProvider.ts\<close>. A scan asks for
  the \<open>ExecutionRequested\<close> logs of a block window and correlates each with the Core bridge's
  \<open>LogMessagePublished\<close> of the same transaction; an event without such a message is skipped, any
  other failure fails the scan. A provider may answer differently from call to call: the
  module's provider for a chain is a function of the number of the log being correlated (0 for
  the calls before the loop).
\<close>

record parsed_execution =
  pe_sourceChainId :: chainId
  pe_relayerAddress :: string
  pe_dstChain :: chainId
  pe_dstAddr :: string
  pe_requestBytes :: string
  pe_relayInstructions :: string
  pe_txHash :: string
  pe_blockNumber :: nat
  pe_logIndex :: nat

subsection \<open>Correlation\<close>

definition truthy :: "string option \<Rightarrow> bool" where
  "truthy s \<longleftrightarrow> s \<noteq> None \<and> s \<noteq> Some []"

fun find_match ::
  "contract_abi \<Rightarrow> string \<Rightarrow> string \<Rightarrow> string option \<Rightarrow> chain_log list \<Rightarrow> core_message option res" where
  "find_match abi core wantPayload wantSender [] = Ok None"
| "find_match abi core wantPayload wantSender (lg # logs) =
     bind_res (core_log_message abi core lg) (\<lambda>parsed.
       case parsed of
         None \<Rightarrow> find_match abi core wantPayload wantSender logs
       | Some m \<Rightarrow>
           (if toLowerCase (cm_payload m) \<noteq> wantPayload then find_match abi core wantPayload wantSender logs
            else if truthy wantSender \<and> toLowerCase (cm_sender m) \<noteq> the wantSender
              then find_match abi core wantPayload wantSender logs
            else Ok (Some m)))"

definition no_match_error :: "string \<Rightarrow> string \<Rightarrow> string option \<Rightarrow> js_error" where
  "no_match_error txHash coreAddress expectedEmitter =
     new_error CorrelationError (''no LogMessagePublished in tx '' @ txHash @ '' matches requestBytes (core=''
       @ coreAddress @ (if truthy expectedEmitter then '', expected emitter='' @ the expectedEmitter else [])
       @ ''); contract invariant requestBytes==payload may have changed'')"

definition event_payload :: "parsed_execution \<Rightarrow> core_message \<Rightarrow> string \<Rightarrow> int \<Rightarrow> relay_payload" where
  "event_payload ev m emitter gasLimit =
     \<lparr>rp_emitterChain = pe_sourceChainId ev, rp_emitterAddress = emitter,
      rp_sequence = show_int (cm_sequence m), rp_sourceTxHash = pe_txHash ev,
      rp_dstChain = pe_dstChain ev, rp_dstAddr = pe_dstAddr ev,
      rp_gasLimit = show_int gasLimit, rp_requestBytes = pe_requestBytes ev\<rparr>"

definition correlate ::
  "ethers \<Rightarrow> contract_abi \<Rightarrow> retry_options \<Rightarrow> provider \<Rightarrow> string \<Rightarrow> string option \<Rightarrow> parsed_execution \<Rightarrow> decoded_event res" where
  "correlate eth abi retry prov coreAddress expectedEmitter ev =
     bind_res (rpc_retry retry (rpc_getTransactionReceipt prov (pe_txHash ev))) (\<lambda>receipt.
       case receipt of
         None \<Rightarrow> Throw (coded_error ReceiptNotReadyError ''SERVER_ERROR''
                   (''transaction receipt not available yet for '' @ pe_txHash ev))
       | Some rcpt \<Rightarrow>
           bind_res (find_match abi (toLowerCase coreAddress) (toLowerCase (pe_requestBytes ev))
                       (map_option toLowerCase expectedEmitter) (tr_logs rcpt)) (\<lambda>found.
             case found of
               None \<Rightarrow> Throw (no_match_error (pe_txHash ev) coreAddress expectedEmitter)
             | Some m \<Rightarrow>
                 bind_res (catch_res (ab_decodeUint256 abi (pe_relayInstructions ev))
                   (\<lambda>_. Throw (new_error CorrelationError
                     (''relayInstructions is not abi.encode(uint256) in tx '' @ pe_txHash ev)))) (\<lambda>gasLimit.
                 bind_res (getAddress eth (cm_sender m)) (\<lambda>sender.
                 bind_res (toUniversalAddress eth sender) (\<lambda>emitter.
                   Ok \<lparr>ev_sourceChainId = pe_sourceChainId ev, ev_destinationChainId = pe_dstChain ev,
                       ev_relayerAddress = pe_relayerAddress ev, ev_eventTxHash = pe_txHash ev,
                       ev_blockNumber = pe_blockNumber ev, ev_logIndex = pe_logIndex ev,
                       ev_payload = event_payload ev m emitter gasLimit\<rparr>)))))"

subsection \<open>The event source\<close>

record event_source =
  es_registry :: "(chainId \<times> chain_config) list"
  es_providers :: "chainId \<Rightarrow> (nat \<Rightarrow> provider) option"
  es_retry :: retry_options

definition es_providerFor :: "event_source \<Rightarrow> chainId \<Rightarrow> (nat \<Rightarrow> provider) res" where
  "es_providerFor es c =
     (case es_providers es c of
        None \<Rightarrow> Throw (new_error PlainError (''no provider for chain id '' @ show_nat c))
      | Some p \<Rightarrow> Ok p)"

definition latestBlock :: "event_source \<Rightarrow> chainId \<Rightarrow> int res" where
  "latestBlock es c =
     bind_res (registry_require (es_registry es) c) (\<lambda>chain.
     bind_res (rpc_retry (es_retry es) (\<lambda>attempt.
       bind_res (es_providerFor es c) (\<lambda>prov. rpc_getBlockNumber (prov 0) attempt))) (\<lambda>head.
       (let finalized = head - int (cc_confirmations chain)
        in Ok (if 0 < finalized then finalized else 0))))"

definition parsed_from_log :: "chainId \<Rightarrow> string \<Rightarrow> chain_log \<Rightarrow> execution_args \<Rightarrow> parsed_execution" where
  "parsed_from_log c relayer lg xa =
     \<lparr>pe_sourceChainId = c, pe_relayerAddress = relayer, pe_dstChain = xa_dstChain xa,
      pe_dstAddr = xa_dstAddr xa, pe_requestBytes = xa_requestBytes xa,
      pe_relayInstructions = xa_relayInstructions xa, pe_txHash = lg_transactionHash lg,
      pe_blockNumber = lg_blockNumber lg, pe_logIndex = lg_index lg\<rparr>"

fun scan_logs ::
  "contract_abi \<Rightarrow> (nat \<Rightarrow> parsed_execution \<Rightarrow> decoded_event res) \<Rightarrow> chainId \<Rightarrow> string \<Rightarrow>
   nat \<Rightarrow> chain_log list \<Rightarrow> decoded_event list res" where
  "scan_logs abi corr c relayer i [] = Ok []"
| "scan_logs abi corr c relayer i (lg # logs) =
     bind_res (ab_parseRelayerLog abi (lg_topics lg) (lg_data lg)) (\<lambda>decoded.
       case decoded of
         None \<Rightarrow> scan_logs abi corr c relayer (Suc i) logs
       | Some xa \<Rightarrow>
           (case corr i (parsed_from_log c relayer lg xa) of
              Inl err \<Rightarrow>
                (if ekind err = CorrelationError then scan_logs abi corr c relayer (Suc i) logs
                 else Throw err)
            | Inr ev \<Rightarrow>
                bind_res (scan_logs abi corr c relayer (Suc i) logs) (\<lambda>out. Ok (ev # out))))"

definition event_position :: "decoded_event \<Rightarrow> nat \<times> nat" where
  "event_position ev = (ev_blockNumber ev, ev_logIndex ev)"

definition scan ::
  "ethers \<Rightarrow> contract_abi \<Rightarrow> event_source \<Rightarrow> chainId \<Rightarrow> string \<Rightarrow> int \<Rightarrow> int \<Rightarrow> decoded_event list res" where
  "scan eth abi es c relayerAddress fromBlock toBlock =
     (if toBlock < fromBlock then Ok []
      else
        bind_res (registry_require (es_registry es) c) (\<lambda>chain.
        bind_res (guard_res (\<not> truthy (cc_coreBridgeAddress chain))
          (new_error PlainError (''chain '' @ show_nat c @ '' has no coreBridgeAddress; cannot correlate VAAs''))) (\<lambda>_.
        bind_res (es_providerFor es c) (\<lambda>prov.
        bind_res (rpc_retry (es_retry es) (rpc_getLogs (prov 0) relayerAddress
                    (ab_EXECUTION_REQUESTED_TOPIC abi) fromBlock toBlock)) (\<lambda>logs.
        bind_res (scan_logs abi (\<lambda>i. correlate eth abi (es_retry es) (prov i)
                    (the (cc_coreBridgeAddress chain)) (cc_expectedTransceiver chain))
                    c relayerAddress 1 logs) (\<lambda>out.
          Ok (sort_key event_position out)))))))"

subsection \<open>Receipts of relay transactions\<close>

definition getReceipt :: "(chainId \<Rightarrow> provider option) \<Rightarrow> retry_options \<Rightarrow> chainId \<Rightarrow> string \<Rightarrow> receipt_info option res" where
  "getReceipt providers retry c txHash =
     (case providers c of
        None \<Rightarrow> Throw (new_error PlainError (''no provider for chain '' @ show_nat c))
      | Some prov \<Rightarrow>
          bind_res (rpc_retry retry (rpc_getTransactionReceipt prov txHash)) (\<lambda>receipt.
            case receipt of
              None \<Rightarrow> Ok None
            | Some rcpt \<Rightarrow>
                (let st = (if tr_status rcpt = Some 1 then 1 else 0) in
                 bind_res (if st = 0 then rpc_retry retry (rpc_getTransaction prov txHash) else Ok None) (\<lambda>gasLimit.
                   Ok (Some \<lparr>ri_status = st, ri_blockNumber = tr_blockNumber rcpt,
                       ri_gasUsed = Some (tr_gasUsed rcpt), ri_gasLimit = gasLimit\<rparr>)))))"

definition isTxKnown :: "(chainId \<Rightarrow> provider option) \<Rightarrow> retry_options \<Rightarrow> chainId \<Rightarrow> string \<Rightarrow> bool res" where
  "isTxKnown providers retry c txHash =
     (case providers c of
        None \<Rightarrow> Throw (new_error PlainError (''no provider for chain '' @ show_nat c))
      | Some prov \<Rightarrow>
          bind_res (rpc_retry retry (rpc_getTransaction prov txHash)) (\<lambda>tx. Ok (tx \<noteq> None)))"

end
