(* ===== verification/Delivery_Module.thy ===== *)
theory Delivery_Module
  imports Vaa_Fetcher
begin

section \<open>The delivery module\<close>

text \<open>
  \<open>relay/delivery.ts\<close> and the revert decoder of \<open>abi.ts\<close>: \<open>prepare\<close> fetches and checks the
  VAA, resolves the destination transceiver, asks whether the message is consumed, estimates
  gas and computes fees; \<open>broadcast\<close> sends the prepared call and classifies what the node
  answers. A thrown error is one of the three classes the worker routes on (\<open>Worker\<close>), or an
  error of a callee.
\<close>

record delivery_module =
  dm_registry :: "(chainId \<times> chain_config) list"
  dm_providers :: "chainId \<Rightarrow> provider option"
  dm_fetchVaa :: "vaa_id \<Rightarrow> bytes option res"
  dm_delivery :: delivery_config
  dm_retry :: retry_options

subsection \<open>Reverts\<close>

definition extractRevertData :: "js_error \<Rightarrow> string option" where
  "extractRevertData err =
     (case edata err of Some d \<Rightarrow> Some d
      | None \<Rightarrow> (case einfo_error_data err of Some d \<Rightarrow> Some d
               | None \<Rightarrow> eerror_data err))"

definition decodeTransceiverError :: "contract_abi \<Rightarrow> string option \<Rightarrow> string option" where
  "decodeTransceiverError abi data =
     (case data of
        None \<Rightarrow> None
      | Some d \<Rightarrow>
          (if \<not> starts_with ''0x'' d \<or> length d < 10 then None
           else (case ab_parseTransceiverError abi d of Inl _ \<Rightarrow> None | Inr nm \<Rightarrow> nm)))"

datatype revert_outcome = Consumed | Failure js_error

definition classifyRevert :: "contract_abi \<Rightarrow> js_error \<Rightarrow> revert_outcome" where
  "classifyRevert abi err =
     (let nm = decodeTransceiverError abi (extractRevertData err) in
      if nm = Some ''TransferAlreadyCompleted'' then Consumed
      else if nm \<in> {Some ''InvalidWormholePeer'', Some ''PeerNotRegistered'', Some ''UnexpectedAdditionalMessages''} then
        Failure (new_error PermanentDeliveryError (''destination rejected delivery: '' @ the nm))
      else if nm = Some ''InvalidVaa'' then
        Failure (new_error DeferDeliveryError ''destination reports InvalidVaa'')
      else Failure (new_error RetriableDeliveryError
             (''delivery reverted with an unrecognized error: '' @ emessage err)))"

subsection \<open>Gas and fees\<close>

definition bump :: "int \<Rightarrow> nat \<Rightarrow> nat \<Rightarrow> int" where
  "bump v bumpBps attempt =
     (if attempt = 0 \<or> bumpBps = 0 then v else bigint_div (v * int (10000 + bumpBps * attempt)) 10000)"

definition delivery_gas_limit :: "delivery_config \<Rightarrow> int \<Rightarrow> int \<Rightarrow> nat \<Rightarrow> int" where
  "delivery_gas_limit cfg baseGas estimate retryAttempt =
     (let bufferBps = int (gasLimitBufferBps cfg);
          quotedGas = baseGas + bigint_div (baseGas * bufferBps) 10000;
          quotedGas = (if 0 < retryAttempt then quotedGas + bigint_div (baseGas * int (retryAdditionalGasPct cfg)) 100
                       else quotedGas);
          estWithBuffer = estimate + bigint_div (estimate * bufferBps) 10000
      in if estWithBuffer < quotedGas then quotedGas else estWithBuffer)"

definition above_ceiling :: "delivery_config \<Rightarrow> int \<Rightarrow> bool" where
  "above_ceiling cfg price \<longleftrightarrow> 0 < maxGasPriceWei cfg \<and> maxGasPriceWei cfg < price"

definition computeFeeOverrides :: "delivery_module \<Rightarrow> provider \<Rightarrow> nat \<Rightarrow> (string \<times> int) list res" where
  "computeFeeOverrides dm prov attempt =
     (let cfg = dm_delivery dm in
      bind_res (rpc_retry (dm_retry dm) (rpc_getFeeData prov)) (\<lambda>fee.
        case fd_maxFeePerGas fee of
          Some mf \<Rightarrow>
            (let maxFeePerGas = bump mf (gasPriceBumpBps cfg) attempt;
                 maxPriorityFeePerGas =
                   bump (case fd_maxPriorityFeePerGas fee of None \<Rightarrow> 0 | Some p \<Rightarrow> p) (gasPriceBumpBps cfg) attempt
             in if above_ceiling cfg maxFeePerGas then
                  Throw (new_error DeferDeliveryError (''maxFeePerGas '' @ show_int maxFeePerGas
                    @ '' above ceiling '' @ show_int (maxGasPriceWei cfg)))
                else Ok [(''maxFeePerGas'', maxFeePerGas), (''maxPriorityFeePerGas'', maxPriorityFeePerGas)])
        | None \<Rightarrow>
            (case fd_gasPrice fee of
               Some gp \<Rightarrow>
                 (let gasPrice = bump gp (gasPriceBumpBps cfg) attempt
                  in if above_ceiling cfg gasPrice then
                       Throw (new_error DeferDeliveryError (''gasPrice '' @ show_int gasPrice
                         @ '' above ceiling '' @ show_int (maxGasPriceWei cfg)))
                     else Ok [(''gasPrice'', gasPrice)])
             | None \<Rightarrow>
                 Throw (new_error RetriableDeliveryError
                   ''fee data unavailable: provider returned neither maxFeePerGas nor gasPrice''))))"

subsection \<open>Preparing a delivery\<close>

definition dm_providerFor :: "delivery_module \<Rightarrow> chainId \<Rightarrow> provider res" where
  "dm_providerFor dm c =
     (case dm_providers dm c of
        None \<Rightarrow> Throw (new_error PermanentDeliveryError (''no provider for chain '' @ show_nat c))
      | Some p \<Rightarrow> Ok p)"

definition isVAAConsumed :: "contract_abi \<Rightarrow> delivery_module \<Rightarrow> provider \<Rightarrow> string \<Rightarrow> string \<Rightarrow> bool res" where
  "isVAAConsumed abi dm prov dst vaaHash =
     bind_res (ab_encodeIsVAAConsumed abi vaaHash) (\<lambda>data.
     bind_res (rpc_retry (dm_retry dm) (rpc_call prov dst data)) (ab_decodeIsVAAConsumed abi))"

text \<open>Steps 1 and 2: the VAA, checked against what the source event said.\<close>

definition resolve_vaa :: "ethers \<Rightarrow> delivery_module \<Rightarrow> relay_payload \<Rightarrow> (bytes \<times> parsed_vaa) res" where
  "resolve_vaa eth dm payload =
     bind_res (vaaIdFromPayload payload) (\<lambda>vaaId.
     bind_res (dm_fetchVaa dm vaaId) (\<lambda>fetched.
       case fetched of
         None \<Rightarrow> Throw (new_error DeferDeliveryError (''VAA not yet available for ''
                   @ show_nat (rp_emitterChain payload) @ ''/'' @ rp_sequence payload))
       | Some vaaBytes \<Rightarrow>
           bind_res (parseSignedVaa eth vaaBytes) (\<lambda>parsed.
           bind_res (guard_res (vb_sequence parsed \<noteq> vid_sequence vaaId)
             (new_error PermanentDeliveryError (''fetched VAA sequence '' @ show_int (vb_sequence parsed)
               @ '' != expected '' @ show_int (vid_sequence vaaId)))) (\<lambda>_.
           bind_res (guard_res (toLowerCase (vb_payload parsed) \<noteq> toLowerCase (rp_requestBytes payload))
             (new_error PermanentDeliveryError ''fetched VAA payload does not match the event requestBytes'')) (\<lambda>_.
             Ok (vaaBytes, parsed))))))"

text \<open>Step 3: the destination transceiver. The regular expression wants one zero at least.\<close>

definition resolve_transceiver :: "ethers \<Rightarrow> delivery_module \<Rightarrow> chainId \<Rightarrow> string \<Rightarrow> string res" where
  "resolve_transceiver eth dm dstChain dstAddr =
     (let upper12 = take 24 (drop 2 dstAddr) in
      bind_res (guard_res (\<not> (upper12 \<noteq> [] \<and> (\<forall>c \<in> set upper12. c = CHR ''0'')))
        (new_error PermanentDeliveryError (''dstAddr '' @ dstAddr
          @ '' is not a 20-byte EVM address (non-zero upper bytes)''))) (\<lambda>_.
      bind_res (catch_res (getAddress eth (''0x'' @ slice_last 40 dstAddr))
        (\<lambda>_. Throw (new_error PermanentDeliveryError (''dstAddr '' @ dstAddr @ '' is not a valid address'')))) (\<lambda>dst.
      bind_res (registry_require (dm_registry dm) dstChain) (\<lambda>chain.
        case cc_expectedTransceiver chain of
          None \<Rightarrow> Ok dst
        | Some t \<Rightarrow>
            (if t \<noteq> [] \<and> t \<noteq> dst then
               Throw (new_error PermanentDeliveryError (''dstAddr '' @ dst
                 @ '' != configured expectedTransceiver '' @ t @ '' on chain '' @ show_nat dstChain))
             else Ok dst)))))"

text \<open>Steps 5 and 6: the gas estimate doubles as the revert check.\<close>

definition finish_preparation ::
  "contract_abi \<Rightarrow> delivery_module \<Rightarrow> provider \<Rightarrow> prepare_request \<Rightarrow> string \<Rightarrow> string \<Rightarrow> string \<Rightarrow> int \<Rightarrow> prepare_result res" where
  "finish_preparation abi dm prov req dst callData vaaHash estimate =
     (case js_BigInt (rp_gasLimit (pq_payload req)) of
        None \<Rightarrow> Throw (new_error ForeignError (''Cannot convert '' @ rp_gasLimit (pq_payload req) @ '' to a BigInt''))
      | Some baseGas \<Rightarrow>
          bind_res (computeFeeOverrides dm prov (pq_retryAttempt req)) (\<lambda>fees.
            Ok (ReadyToSend \<lparr>pd_to = dst, pd_callData = callData, pd_vaaHash = vaaHash,
              pd_gasLimit = delivery_gas_limit (dm_delivery dm) baseGas estimate (pq_retryAttempt req),
              pd_feeOverrides = fees\<rparr>)))"

definition estimate_and_finish ::
  "ethers \<Rightarrow> contract_abi \<Rightarrow> delivery_module \<Rightarrow> provider \<Rightarrow> prepare_request \<Rightarrow> string \<Rightarrow> bytes \<Rightarrow> string \<Rightarrow> prepare_result res" where
  "estimate_and_finish eth abi dm prov req dst vaaBytes vaaHash =
     bind_res (ab_encodeReceiveMessage abi (hexlify eth vaaBytes)) (\<lambda>callData.
       case rpc_retry (dm_retry dm) (rpc_estimateGas prov dst callData) of
         Inl err \<Rightarrow>
           (case classifyRevert abi err of Consumed \<Rightarrow> Ok AlreadyConsumed | Failure e \<Rightarrow> Throw e)
       | Inr estimate \<Rightarrow> finish_preparation abi dm prov req dst callData vaaHash estimate)"

definition prepare :: "ethers \<Rightarrow> contract_abi \<Rightarrow> delivery_module \<Rightarrow> prepare_request \<Rightarrow> prepare_result res" where
  "prepare eth abi dm req =
     bind_res (dm_providerFor dm (pq_destinationChainId req)) (\<lambda>prov.
     bind_res (resolve_vaa eth dm (pq_payload req)) (\<lambda>(vaaBytes, parsed).
     bind_res (resolve_transceiver eth dm (pq_destinationChainId req) (rp_dstAddr (pq_payload req))) (\<lambda>dst.
     bind_res (isVAAConsumed abi dm prov dst (pv_hash parsed)) (\<lambda>consumed.
       if consumed then Ok AlreadyConsumed
       else estimate_and_finish eth abi dm prov req dst vaaBytes (pv_hash parsed)))))"

subsection \<open>Broadcasting\<close>

text \<open>The signer's \<open>sendTransaction\<close> is a parameter: what it answers for a transaction request.\<close>

definition classifyBroadcastError :: "contract_abi \<Rightarrow> js_error \<Rightarrow> js_error" where
  "classifyBroadcastError abi err =
     (if isTransientRpcError err then
        new_error DeferDeliveryError (''transient RPC error broadcasting delivery: '' @ js_String err)
      else
        (let msg = toLowerCase (emessage err) in
         if str_includes msg ''nonce too low'' \<or> str_includes msg ''already known'' then
           new_error DeferDeliveryError (''nonce already used: '' @ msg)
         else if str_includes msg ''replacement'' \<and> str_includes msg ''underpriced'' then
           new_error RetriableDeliveryError ''replacement transaction underpriced''
         else
           (case classifyRevert abi err of
              Consumed \<Rightarrow> new_error DeferDeliveryError ''VAA consumed during broadcast''
            | Failure e \<Rightarrow> e)))"

definition broadcast ::
  "contract_abi \<Rightarrow> (prepared_delivery \<Rightarrow> nat \<Rightarrow> string res) \<Rightarrow> prepared_delivery \<Rightarrow> nat \<Rightarrow> string res" where
  "broadcast abi sendTransaction prepared nonce =
     catch_res (sendTransaction prepared nonce) (\<lambda>err. Throw (classifyBroadcastError abi err))"

end
