(* ===== verification/Demo_Relay.thy ===== *)
theory Demo_Relay
  imports Delivery_Module Demo_Eth
begin

section \<open>A concrete delivery\<close>

text \<open>
  Instances of the third-party parameters for the witnesses of the relay modules: a node that
  answers, coders that tag their argument, and one VAA without signatures.
\<close>

definition demo_abi :: contract_abi where
  "demo_abi = \<lparr>ab_LOG_MESSAGE_PUBLISHED_TOPIC = ''pub'', ab_EXECUTION_REQUESTED_TOPIC = ''exec'',
     ab_parseCoreLog = (\<lambda>ts d. Ok (Some \<lparr>cm_sender = demo_hexlify (replicate 20 7), cm_sequence = 9, cm_nonce = 0,
       cm_payload = d, cm_consistencyLevel = 1\<rparr>)),
     ab_parseRelayerLog = (\<lambda>ts d. Ok (Some \<lparr>xa_dstChain = 4, xa_dstAddr = ''0x'', xa_requestBytes = d,
       xa_relayInstructions = ''gas''\<rparr>)),
     ab_decodeUint256 = (\<lambda>d. Ok 70000),
     ab_encodeReceiveMessage = (\<lambda>v. Ok (''receive:'' @ v)),
     ab_encodeIsVAAConsumed = (\<lambda>h. Ok (''consumed:'' @ h)),
     ab_decodeIsVAAConsumed = (\<lambda>raw. Ok (raw = ''yes'')),
     ab_parseTransceiverError = (\<lambda>d. Ok (if d = ''0x11111111'' then Some ''PeerNotRegistered'' else None))\<rparr>"

definition demo_receipt :: tx_receipt where
  "demo_receipt = \<lparr>tr_status = Some 1, tr_blockNumber = 7, tr_gasUsed = 50000,
     tr_logs = [\<lparr>lg_address = ''0xc0'', lg_topics = [''pub''], lg_data = ''0x0102'',
       lg_transactionHash = ''0xt'', lg_blockNumber = 7, lg_index = 1\<rparr>]\<rparr>"

definition demo_provider :: provider where
  "demo_provider = \<lparr>rpc_getBlockNumber = (\<lambda>_. Ok 20),
     rpc_getLogs = (\<lambda>_ _ _ _ _. Ok [\<lparr>lg_address = ''0xre'', lg_topics = [''exec''], lg_data = ''0x0102'',
       lg_transactionHash = ''0xt'', lg_blockNumber = 7, lg_index = 2\<rparr>]),
     rpc_getTransactionReceipt = (\<lambda>_ _. Ok (Some demo_receipt)),
     rpc_getTransaction = (\<lambda>_ _. Ok (Some 60000)),
     rpc_call = (\<lambda>_ _ _. Ok ''no''),
     rpc_estimateGas = (\<lambda>_ _ _. Ok 90000),
     rpc_getFeeData = (\<lambda>_. Ok \<lparr>fd_maxFeePerGas = Some 50, fd_maxPriorityFeePerGas = Some 2, fd_gasPrice = None\<rparr>),
     rpc_guardianSetIndex = (\<lambda>_ _. Ok 4)\<rparr>"

definition demo_vaa :: bytes where
  "demo_vaa = [1, 0, 0, 0, 0, 0] @ replicate 49 0 @ [9, 1] @ [1, 2]"

definition demo_chain :: chain_config where
  "demo_chain = \<lparr>cc_chainId = 4, cc_name = ''destination'', cc_rpcUrl = ''http'',
     cc_specialRelayerAddress = None, cc_coreBridgeAddress = Some ''0xc0'', cc_expectedTransceiver = None,
     cc_confirmations = 1, cc_genesisBlock = 0, cc_evmChainId = None\<rparr>"

definition demo_module :: delivery_module where
  "demo_module = \<lparr>dm_registry = [(4, demo_chain)],
     dm_providers = (\<lambda>c. if c = 4 then Some demo_provider else None),
     dm_fetchVaa = (\<lambda>vid. Ok (Some demo_vaa)),
     dm_delivery = \<lparr>gasLimitBufferBps = 2000, retryAdditionalGasPct = 50, gasPriceBumpBps = 1000, maxGasPriceWei = 100\<rparr>,
     dm_retry = DEFAULT_RETRY\<rparr>"

definition demo_payload :: relay_payload where
  "demo_payload = \<lparr>rp_emitterChain = 2, rp_emitterAddress = ''0xab'', rp_sequence = ''9'', rp_sourceTxHash = ''0xt'',
     rp_dstChain = 4, rp_dstAddr = ''0x'' @ replicate 24 CHR ''0'' @ replicate 40 CHR ''1'',
     rp_gasLimit = ''70000'', rp_requestBytes = ''0x0102''\<rparr>"

definition demo_request :: prepare_request where
  "demo_request = \<lparr>pq_destinationChainId = 4, pq_payload = demo_payload, pq_retryAttempt = 1\<rparr>"

lemma demo_retry: "rpc_retry DEFAULT_RETRY (\<lambda>_. r) = r"
  by (rule rpc_retry_const) (simp add: DEFAULT_RETRY_def)

lemma demo_vaa_parsed:
  "\<exists>p. parseSignedVaa demo_eth demo_vaa = Ok p \<and> vb_sequence p = 9 \<and> vb_payload p = ''0x0102''"
proof -
  have len: "length demo_vaa = 59" by (simp add: demo_vaa_def)
  have drop6: "drop 6 demo_vaa = replicate 49 0 @ [9, 1, 1, 2]" by (simp add: demo_vaa_def)
  have seq: "get_uint 8 42 (replicate 49 0 @ [9, 1, 1, 2 :: 8 word]) = 9"
    by (simp add: get_uint_def subarray_def be_decode_Cons)
  have hd: "get_uint 1 0 demo_vaa = 1" "get_uint 1 5 demo_vaa = 0"
    by (simp_all add: demo_vaa_def get_uint_def subarray_def be_decode_def)
  have pl: "hexlify demo_eth (drop 51 (replicate 49 0 @ [9, 1, 1, 2])) = ''0x0102''"
    by (simp add: demo_eth_def demo_hexlify_def hex_byte_def hex_digit_def char_of_def bit_0)
  show ?thesis
    unfolding parseSignedVaa_def Let_def hd len vaa_lengths
    using seq pl by (simp add: drop6 vaaBodyDoubleHash_def) (simp add: demo_eth_def demo_getBytes_hexlify)
qed

lemma demo_digits: "js_BigInt ''9'' = Some 9" "js_BigInt ''70000'' = Some 70000"
  by (simp_all add: js_BigInt_digits is_digit_def dec_val_def digit_val_def)

lemma demo_ready:
  "\<exists>d. prepare demo_eth demo_abi demo_module demo_request = Ok (ReadyToSend d)"
proof -
  have vid: "vaaIdFromPayload demo_payload = Ok \<lparr>vid_emitterChain = 2, vid_emitterAddress = ''0xab'',
      vid_sequence = 9, vid_sourceTxHash = Some ''0xt''\<rparr>"
    using demo_digits by (simp add: vaaIdFromPayload_def demo_payload_def)
  obtain p where p: "parseSignedVaa demo_eth demo_vaa = Ok p" "vb_sequence p = 9" "vb_payload p = ''0x0102''"
    using demo_vaa_parsed by blast
  have "resolve_vaa demo_eth demo_module demo_payload = Ok (demo_vaa, p)"
    using p unfolding resolve_vaa_def vid by (simp add: demo_module_def) (simp add: demo_payload_def)
  moreover have "resolve_transceiver demo_eth demo_module 4 (rp_dstAddr demo_payload) =
      Ok (''0x'' @ replicate 40 CHR ''1'')"
    by (simp add: resolve_transceiver_def demo_payload_def demo_eth_def demo_module_def demo_chain_def
        registry_require_def slice_last_def Let_def)
  moreover have "js_BigInt (rp_gasLimit demo_payload) = Some 70000"
    using demo_digits by (simp add: demo_payload_def)
  moreover have "dm_retry demo_module = DEFAULT_RETRY" "dm_providers demo_module 4 = Some demo_provider"
    by (simp_all add: demo_module_def)
  ultimately show ?thesis
    by (simp add: prepare_def demo_request_def dm_providerFor_def isVAAConsumed_def estimate_and_finish_def
        finish_preparation_def computeFeeOverrides_def demo_abi_def demo_provider_def demo_retry above_ceiling_def
        Let_def bump_def demo_module_def bigint_div_def)
qed

end
