(* ===== verification/Event_Source_Correct.thy ===== *)
theory Event_Source_Correct
  imports Event_Source Demo_Relay "HOL-Library.Multiset"
begin

section \<open>Correctness of the event source\<close>

text \<open>
  A scan returns exactly the events that correlate, in chain order, and fails rather than drop
  one for a transient reason; a correlated event names a message the Core bridge published in
  its transaction, and the devnet guardian's VAA for it passes the checks of the delivery
  module.
\<close>

subsection \<open>What a scan lists\<close>

text \<open>The specification: what one log contributes, and which logs fail the scan.\<close>

fun contributes ::
  "contract_abi \<Rightarrow> (nat \<Rightarrow> parsed_execution \<Rightarrow> decoded_event res) \<Rightarrow> chainId \<Rightarrow> string \<Rightarrow> nat \<times> chain_log \<Rightarrow> decoded_event option" where
  "contributes abi corr c rel (i, lg) =
     (case ab_parseRelayerLog abi (lg_topics lg) (lg_data lg) of
        Inr (Some xa) \<Rightarrow> (case corr i (parsed_from_log c rel lg xa) of Inr ev \<Rightarrow> Some ev | Inl _ \<Rightarrow> None)
      | _ \<Rightarrow> None)"

fun blocks_scan ::
  "contract_abi \<Rightarrow> (nat \<Rightarrow> parsed_execution \<Rightarrow> decoded_event res) \<Rightarrow> chainId \<Rightarrow> string \<Rightarrow> nat \<times> chain_log \<Rightarrow> bool" where
  "blocks_scan abi corr c rel (i, lg) =
     (case ab_parseRelayerLog abi (lg_topics lg) (lg_data lg) of
        Inl _ \<Rightarrow> True
      | Inr None \<Rightarrow> False
      | Inr (Some xa) \<Rightarrow>
          (case corr i (parsed_from_log c rel lg xa) of Inr _ \<Rightarrow> False | Inl err \<Rightarrow> ekind err \<noteq> CorrelationError))"

lemma map_filter_Cons:
  "List.map_filter f (x # xs) = (case f x of None \<Rightarrow> List.map_filter f xs | Some y \<Rightarrow> y # List.map_filter f xs)"
  by (simp add: List.map_filter_simps)

lemma scan_logs_Ok_iff:
  "scan_logs abi corr c rel i logs = Ok out \<longleftrightarrow>
   (\<forall>x \<in> set (enumerate i logs). \<not> blocks_scan abi corr c rel x) \<and>
   out = List.map_filter (contributes abi corr c rel) (enumerate i logs)"
proof (induction logs arbitrary: i out)
  case Nil
  then show ?case by (auto simp: List.map_filter_simps)
next
  case (Cons lg logs)
  have keep: "scan_logs abi corr c rel i (lg # logs) = scan_logs abi corr c rel (Suc i) logs \<Longrightarrow>
      \<not> blocks_scan abi corr c rel (i, lg) \<Longrightarrow> contributes abi corr c rel (i, lg) = None \<Longrightarrow> ?case"
    using Cons [of "Suc i" out] by (simp add: map_filter_Cons)
  show ?case
  proof (cases "ab_parseRelayerLog abi (lg_topics lg) (lg_data lg)")
    case (Inl e)
    then show ?thesis by simp
  next
    case (Inr decoded)
    show ?thesis
    proof (cases decoded)
      case None
      then show ?thesis using Inr by (intro keep) simp_all
    next
      case (Some xa)
      show ?thesis
      proof (cases "corr i (parsed_from_log c rel lg xa)")
        case (Inl err)
        then show ?thesis using Inr Some keep by (cases "ekind err = CorrelationError") simp_all
      next
        case (Inr ev)
        then show ?thesis
          using \<open>ab_parseRelayerLog abi (lg_topics lg) (lg_data lg) = Inr decoded\<close> Some Cons [of "Suc i"]
          by (auto simp: map_filter_Cons bind_res_Ok_iff)
      qed
    qed
  qed
qed

subsection \<open>What a correlated event says\<close>

lemma core_log_message_Some:
  assumes "core_log_message abi core lg = Ok (Some m)"
  shows "toLowerCase (lg_address lg) = core \<and> take 1 (lg_topics lg) = [ab_LOG_MESSAGE_PUBLISHED_TOPIC abi] \<and>
    ab_parseCoreLog abi (lg_topics lg) (lg_data lg) = Ok (Some m)"
  using assms unfolding core_log_message_def if_none_Ok by blast

lemma find_match_Some:
  assumes "find_match abi core pl snd' logs = Ok (Some m)"
  shows "(\<exists>lg \<in> set logs. core_log_message abi core lg = Ok (Some m)) \<and> toLowerCase (cm_payload m) = pl \<and>
    (truthy snd' \<longrightarrow> toLowerCase (cm_sender m) = the snd')"
  using assms by (induction logs) (auto simp: bind_res_Ok_iff split: option.splits if_splits)

lemma correlate_Ok:
  assumes "correlate eth abi retry prov core emit pe = Ok ev"
  obtains rcpt m gas sender emitter where
    "rpc_retry retry (rpc_getTransactionReceipt prov (pe_txHash pe)) = Ok (Some rcpt)"
    "find_match abi (toLowerCase core) (toLowerCase (pe_requestBytes pe)) (map_option toLowerCase emit) (tr_logs rcpt) = Ok (Some m)"
    "ab_decodeUint256 abi (pe_relayInstructions pe) = Ok gas"
    "getAddress eth (cm_sender m) = Ok sender" "toUniversalAddress eth sender = Ok emitter"
    "ev = \<lparr>ev_sourceChainId = pe_sourceChainId pe, ev_destinationChainId = pe_dstChain pe,
       ev_relayerAddress = pe_relayerAddress pe, ev_eventTxHash = pe_txHash pe,
       ev_blockNumber = pe_blockNumber pe, ev_logIndex = pe_logIndex pe, ev_payload = event_payload pe m emitter gas\<rparr>"
proof -
  have catch: "catch_res r (\<lambda>_. Throw e) = Ok v \<longleftrightarrow> r = Ok v" for r :: "int res" and e v
    by (cases r) simp_all
  from assms show ?thesis
    unfolding correlate_def bind_res_Ok_iff catch by (auto simp: bind_res_Ok_iff catch split: option.splits intro: that)
qed

subsection \<open>Properties\<close>

text \<open>A scan that returns lists exactly the events of the window's logs that parse and
  correlate, each once, in order of block and log index; a log that fails for any reason other
  than a missing Core message fails the whole scan, so its event is not lost to the cursor.\<close>

theorem scan_lists_correlated:
  assumes "scan eth abi es c rel lo hi = Ok evs" and "lo \<le> hi"
  shows "\<exists>chain core prov logs k corr. registry_require (es_registry es) c = Ok chain \<and>
    cc_coreBridgeAddress chain = Some core \<and> es_providers es c = Some prov \<and>
    rpc_getLogs (prov 0) rel (ab_EXECUTION_REQUESTED_TOPIC abi) lo hi k = Ok logs \<and>
    corr = (\<lambda>i. correlate eth abi (es_retry es) (prov i) core (cc_expectedTransceiver chain)) \<and>
    (\<forall>x \<in> set (enumerate 1 logs). \<not> blocks_scan abi corr c rel x) \<and>
    sorted (map event_position evs) \<and>
    mset evs = mset (List.map_filter (contributes abi corr c rel) (enumerate 1 logs))"
proof -
  have "\<not> hi < lo" using assms(2) by simp
  with assms(1) obtain chain prov logs out where s:
    "registry_require (es_registry es) c = Ok chain" "truthy (cc_coreBridgeAddress chain)"
    "es_providerFor es c = Ok prov"
    "rpc_retry (es_retry es) (rpc_getLogs (prov 0) rel (ab_EXECUTION_REQUESTED_TOPIC abi) lo hi) = Ok logs"
    "scan_logs abi (\<lambda>i. correlate eth abi (es_retry es) (prov i) (the (cc_coreBridgeAddress chain))
       (cc_expectedTransceiver chain)) c rel 1 logs = Ok out" "evs = sort_key event_position out"
    unfolding scan_def by (auto simp: bind_res_Ok_iff)
  obtain core where core: "cc_coreBridgeAddress chain = Some core" using s(2) by (auto simp: truthy_def)
  have prov: "es_providers es c = Some prov" using s(3) by (auto simp: es_providerFor_def split: option.splits)
  obtain k where k: "rpc_getLogs (prov 0) rel (ab_EXECUTION_REQUESTED_TOPIC abi) lo hi k = Ok logs"
    using s(4) by (rule rpc_retry_Ok)
  let ?corr = "\<lambda>i. correlate eth abi (es_retry es) (prov i) core (cc_expectedTransceiver chain)"
  have "(\<forall>x \<in> set (enumerate 1 logs). \<not> blocks_scan abi ?corr c rel x) \<and>
      out = List.map_filter (contributes abi ?corr c rel) (enumerate 1 logs)"
    using s(5) unfolding core option.sel scan_logs_Ok_iff .
  with s(1,6) core prov k show ?thesis
    by (intro exI [of _ chain] exI [of _ core] exI [of _ prov] exI [of _ logs] exI [of _ k] exI [of _ ?corr]) simp
qed

definition demo_source :: event_source where
  "demo_source = \<lparr>es_registry = [(4, demo_chain)], es_providers = (\<lambda>c. Some (\<lambda>i. demo_provider)), es_retry = DEFAULT_RETRY\<rparr>"

definition demo_execution :: parsed_execution where
  "demo_execution = \<lparr>pe_sourceChainId = 4, pe_relayerAddress = ''0xre'', pe_dstChain = 4, pe_dstAddr = ''0x'',
     pe_requestBytes = ''0x0102'', pe_relayInstructions = ''gas'', pe_txHash = ''0xt'', pe_blockNumber = 7, pe_logIndex = 2\<rparr>"

lemma demo_correlated:
  "\<exists>ev. correlate demo_eth demo_abi DEFAULT_RETRY demo_provider ''0xc0'' None demo_execution = Ok ev \<and>
     ev_eventTxHash ev = ''0xt''"
proof -
  have low: "toLowerCase ''0xc0'' = ''0xc0''" "toLowerCase ''0x0102'' = ''0x0102''" by code_simp+
  show ?thesis
    by (simp add: correlate_def demo_provider_def demo_retry demo_receipt_def demo_execution_def core_log_message_def
        demo_abi_def low truthy_def demo_eth_def toUniversalAddress_def demo_getBytes_hexlify)
qed

theorem scan_lists_correlated_witness:
  "\<exists>evs. scan demo_eth demo_abi demo_source 4 ''0xre'' 5 9 = Ok evs \<and> sorted (map event_position evs)"
proof -
  obtain ev where ev: "correlate demo_eth demo_abi DEFAULT_RETRY demo_provider ''0xc0'' None demo_execution = Ok ev"
    using demo_correlated by blast
  have "parsed_from_log 4 ''0xre'' \<lparr>lg_address = ''0xre'', lg_topics = [''exec''], lg_data = ''0x0102'',
       lg_transactionHash = ''0xt'', lg_blockNumber = 7, lg_index = 2\<rparr>
      \<lparr>xa_dstChain = 4, xa_dstAddr = ''0x'', xa_requestBytes = ''0x0102'', xa_relayInstructions = ''gas''\<rparr> = demo_execution"
    by (simp add: parsed_from_log_def demo_execution_def)
  then have "scan_logs demo_abi (\<lambda>i. correlate demo_eth demo_abi DEFAULT_RETRY demo_provider ''0xc0'' None) 4 ''0xre'' 1
      [\<lparr>lg_address = ''0xre'', lg_topics = [''exec''], lg_data = ''0x0102'',
       lg_transactionHash = ''0xt'', lg_blockNumber = 7, lg_index = 2\<rparr>] = Ok [ev]"
    using ev by (simp add: demo_abi_def)
  moreover have "rpc_getLogs demo_provider a t lo hi = (\<lambda>_. Ok [\<lparr>lg_address = ''0xre'', lg_topics = [''exec''],
       lg_data = ''0x0102'', lg_transactionHash = ''0xt'', lg_blockNumber = 7, lg_index = 2\<rparr>])" for a t lo hi
    by (simp add: demo_provider_def)
  moreover have "cc_coreBridgeAddress demo_chain = Some ''0xc0''" "cc_expectedTransceiver demo_chain = None"
    by (simp_all add: demo_chain_def)
  ultimately have "scan demo_eth demo_abi demo_source 4 ''0xre'' 5 9 = Ok [ev]"
    by (simp add: scan_def demo_source_def registry_require_def es_providerFor_def truthy_def demo_retry
        del: scan_logs.simps One_nat_def)
  from this scan_lists_correlated [OF this] show ?thesis by auto
qed

text \<open>C16: A correlated event names a real message: its transaction's receipt holds a
  \<open>LogMessagePublished\<close> log of the configured Core bridge whose payload is the event's request
  bytes and whose sender is the configured transceiver when one is configured; the VAA identity
  recovered from the stored payload is that message's sender and sequence, and the stored gas
  limit reads back as the decoded one.\<close>

theorem correlation_is_authentic:
  assumes "correlate eth abi retry prov core emit pe = Ok ev"
  shows "\<exists>rcpt lg m sender emitter gas. (\<exists>k. rpc_getTransactionReceipt prov (pe_txHash pe) k = Ok (Some rcpt)) \<and>
    lg \<in> set (tr_logs rcpt) \<and> toLowerCase (lg_address lg) = toLowerCase core \<and>
    take 1 (lg_topics lg) = [ab_LOG_MESSAGE_PUBLISHED_TOPIC abi] \<and>
    ab_parseCoreLog abi (lg_topics lg) (lg_data lg) = Ok (Some m) \<and>
    toLowerCase (cm_payload m) = toLowerCase (rp_requestBytes (ev_payload ev)) \<and>
    (truthy emit \<longrightarrow> toLowerCase (cm_sender m) = toLowerCase (the emit)) \<and>
    getAddress eth (cm_sender m) = Ok sender \<and> zeroPadValue eth sender 32 = Ok emitter \<and>
    (0 \<le> cm_sequence m \<longrightarrow> vaaIdFromPayload (ev_payload ev) =
       Ok \<lparr>vid_emitterChain = ev_sourceChainId ev, vid_emitterAddress = emitter,
           vid_sequence = cm_sequence m, vid_sourceTxHash = Some (ev_eventTxHash ev)\<rparr>) \<and>
    ab_decodeUint256 abi (pe_relayInstructions pe) = Ok gas \<and>
    (0 \<le> gas \<longrightarrow> js_BigInt (rp_gasLimit (ev_payload ev)) = Some gas)"
proof -
  obtain rcpt m gas sender emitter where c:
    "rpc_retry retry (rpc_getTransactionReceipt prov (pe_txHash pe)) = Ok (Some rcpt)"
    "find_match abi (toLowerCase core) (toLowerCase (pe_requestBytes pe)) (map_option toLowerCase emit) (tr_logs rcpt) = Ok (Some m)"
    "ab_decodeUint256 abi (pe_relayInstructions pe) = Ok gas"
    "getAddress eth (cm_sender m) = Ok sender" "toUniversalAddress eth sender = Ok emitter"
    "ev = \<lparr>ev_sourceChainId = pe_sourceChainId pe, ev_destinationChainId = pe_dstChain pe,
       ev_relayerAddress = pe_relayerAddress pe, ev_eventTxHash = pe_txHash pe,
       ev_blockNumber = pe_blockNumber pe, ev_logIndex = pe_logIndex pe, ev_payload = event_payload pe m emitter gas\<rparr>"
    using assms by (rule correlate_Ok)
  obtain k where k: "rpc_getTransactionReceipt prov (pe_txHash pe) k = Ok (Some rcpt)" using c(1) by (rule rpc_retry_Ok)
  obtain lg where lg: "lg \<in> set (tr_logs rcpt)" "core_log_message abi (toLowerCase core) lg = Ok (Some m)"
    and m: "toLowerCase (cm_payload m) = toLowerCase (pe_requestBytes pe)"
      "truthy (map_option toLowerCase emit) \<longrightarrow> toLowerCase (cm_sender m) = the (map_option toLowerCase emit)"
    using find_match_Some [OF c(2)] by blast
  have "truthy emit \<longrightarrow> toLowerCase (cm_sender m) = toLowerCase (the emit)"
    using m(2) by (cases emit) (auto simp: truthy_def toLowerCase_def)
  then show ?thesis
    using k lg(1) core_log_message_Some [OF lg(2)] m(1) c(3,4,5)
    by (intro exI [of _ rcpt] exI [of _ lg] exI [of _ m] exI [of _ sender] exI [of _ emitter] exI [of _ gas])
       (auto simp: c(6) event_payload_def toUniversalAddress_def vaaIdFromPayload_def js_BigInt_show_int)
qed

theorem correlation_is_authentic_witness:
  "\<exists>ev lg. correlate demo_eth demo_abi DEFAULT_RETRY demo_provider ''0xc0'' None demo_execution = Ok ev \<and>
     lg \<in> set (tr_logs demo_receipt) \<and> toLowerCase (lg_address lg) = toLowerCase ''0xc0''"
proof -
  obtain ev where ev: "correlate demo_eth demo_abi DEFAULT_RETRY demo_provider ''0xc0'' None demo_execution = Ok ev"
    using demo_correlated by blast
  obtain rcpt lg k where "rpc_getTransactionReceipt demo_provider (pe_txHash demo_execution) k = Ok (Some rcpt)"
    "lg \<in> set (tr_logs rcpt)" "toLowerCase (lg_address lg) = toLowerCase ''0xc0''"
    using correlation_is_authentic [OF ev] by (elim exE conjE) (rule that)
  moreover from this(1) have "rcpt = demo_receipt" by (simp add: demo_provider_def)
  ultimately show ?thesis using ev by blast
qed

end
