(* ===== verification/Delivery_Correct.thy ===== *)
theory Delivery_Correct
  imports Demo_Relay
begin

section \<open>Correctness of the delivery module\<close>

text \<open>
  What a prepared delivery guarantees about the VAA, the destination, the gas limit and the
  fee; how the gas limit and the fee grow with the attempts; which errors a broadcast can end
  in.
\<close>

subsection \<open>Inversion of the steps\<close>

lemma resolve_vaa_Ok:
  assumes "resolve_vaa eth dm pl = Ok (bytes, p)"
  shows "\<exists>vid. vaaIdFromPayload pl = Ok vid \<and> dm_fetchVaa dm vid = Ok (Some bytes) \<and>
    parseSignedVaa eth bytes = Ok p \<and> vb_sequence p = vid_sequence vid \<and>
    toLowerCase (vb_payload p) = toLowerCase (rp_requestBytes pl)"
  using assms unfolding resolve_vaa_def by (auto simp: bind_res_Ok_iff split: option.splits)

lemma resolve_transceiver_Ok:
  assumes "resolve_transceiver eth dm c a = Ok dst"
  shows "getAddress eth (''0x'' @ slice_last 40 a) = Ok dst \<and> take 24 (drop 2 a) \<noteq> [] \<and>
    set (take 24 (drop 2 a)) = {CHR ''0''} \<and>
    (\<exists>chain. registry_require (dm_registry dm) c = Ok chain \<and>
      cc_expectedTransceiver chain \<in> {None, Some [], Some dst})"
proof -
  have catch: "catch_res r (\<lambda>_. Throw e) = Ok v \<longleftrightarrow> r = Ok v" for r :: "string res" and e v
    by (cases r) simp_all
  obtain t chain where r: "take 24 (drop 2 a) \<noteq> []" "\<forall>x \<in> set (take 24 (drop 2 a)). x = CHR ''0''"
    "getAddress eth (''0x'' @ slice_last 40 a) = Ok t" "registry_require (dm_registry dm) c = Ok chain"
    "(case cc_expectedTransceiver chain of None \<Rightarrow> Ok t | Some e \<Rightarrow>
        (if e \<noteq> [] \<and> e \<noteq> t then Throw (new_error PermanentDeliveryError (''dstAddr '' @ t
           @ '' != configured expectedTransceiver '' @ e @ '' on chain '' @ show_nat c)) else Ok t)) = Ok dst"
    using assms unfolding resolve_transceiver_def Let_def bind_res_Ok_iff guard_res_Ok catch not_not by blast
  have "t = dst \<and> cc_expectedTransceiver chain \<in> {None, Some [], Some dst}"
    using r(5) by (cases "cc_expectedTransceiver chain") (simp_all only: option.case if_throw_Ok sum.inject, auto)
  moreover have "set (take 24 (drop 2 a)) = {CHR ''0''}" using r(1,2) by (cases "take 24 (drop 2 a)") auto
  ultimately show ?thesis using r(1,3,4) by auto
qed

lemma isVAAConsumed_Ok:
  assumes "isVAAConsumed abi dm prov dst h = Ok b"
  shows "\<exists>data raw k. ab_encodeIsVAAConsumed abi h = Ok data \<and> rpc_call prov dst data k = Ok raw \<and>
    ab_decodeIsVAAConsumed abi raw = Ok b"
  using assms unfolding isVAAConsumed_def bind_res_Ok_iff by (blast elim: rpc_retry_Ok)

lemma computeFeeOverrides_Ok:
  assumes "computeFeeOverrides dm prov n = Ok fees"
  shows "(\<exists>a b. fees = [(''maxFeePerGas'', a), (''maxPriorityFeePerGas'', b)] \<and> \<not> above_ceiling (dm_delivery dm) a)
    \<or> (\<exists>a. fees = [(''gasPrice'', a)] \<and> \<not> above_ceiling (dm_delivery dm) a)"
  using assms unfolding computeFeeOverrides_def Let_def
  by (auto simp: bind_res_Ok_iff if_throw_Ok split: option.splits)

lemma finish_preparation_Ok:
  assumes "finish_preparation abi dm prov req dst cd h est = Ok r"
  shows "\<exists>baseGas fees. js_BigInt (rp_gasLimit (pq_payload req)) = Some baseGas \<and>
    computeFeeOverrides dm prov (pq_retryAttempt req) = Ok fees \<and>
    r = ReadyToSend \<lparr>pd_to = dst, pd_callData = cd, pd_vaaHash = h,
      pd_gasLimit = delivery_gas_limit (dm_delivery dm) baseGas est (pq_retryAttempt req), pd_feeOverrides = fees\<rparr>"
  using assms by (auto simp: finish_preparation_def bind_res_Ok_iff split: option.splits)

lemma estimate_and_finish_ready:
  assumes "estimate_and_finish eth abi dm prov req dst bytes h = Ok (ReadyToSend d)"
  shows "\<exists>cd k est. ab_encodeReceiveMessage abi (hexlify eth bytes) = Ok cd \<and>
    rpc_estimateGas prov dst cd k = Ok est \<and>
    finish_preparation abi dm prov req dst cd h est = Ok (ReadyToSend d)"
proof -
  obtain cd where cd: "ab_encodeReceiveMessage abi (hexlify eth bytes) = Ok cd"
    using assms by (auto simp: estimate_and_finish_def bind_res_Ok_iff)
  show ?thesis
  proof (cases "rpc_retry (dm_retry dm) (rpc_estimateGas prov dst cd)")
    case (Inl err)
    then show ?thesis using assms cd by (auto simp: estimate_and_finish_def split: revert_outcome.splits)
  next
    case (Inr est)
    then show ?thesis using assms cd by (auto simp: estimate_and_finish_def elim!: rpc_retry_Ok)
  qed
qed

subsection \<open>Gas arithmetic\<close>

lemma gas_limit_ge:
  assumes "0 \<le> baseGas" and "0 \<le> est"
  shows "baseGas \<le> delivery_gas_limit cfg baseGas est n" and "est \<le> delivery_gas_limit cfg baseGas est n"
proof -
  have "0 \<le> bigint_div (baseGas * int (gasLimitBufferBps cfg)) 10000"
    "0 \<le> bigint_div (baseGas * int (retryAdditionalGasPct cfg)) 100"
    "0 \<le> bigint_div (est * int (gasLimitBufferBps cfg)) 10000"
    using assms by (auto intro!: bigint_div_ge_0)
  then show "baseGas \<le> delivery_gas_limit cfg baseGas est n" "est \<le> delivery_gas_limit cfg baseGas est n"
    by (auto simp: delivery_gas_limit_def Let_def)
qed

lemma bump_ge:
  assumes "0 \<le> v"
  shows "v \<le> bump v bps n"
proof -
  have "v * 10000 \<le> v * int (10000 + bps * n)" using assms by (intro mult_left_mono) simp_all
  then have "bigint_div (v * 10000) 10000 \<le> bigint_div (v * int (10000 + bps * n)) 10000"
    using assms by (intro bigint_div_mono) simp_all
  then show ?thesis using assms by (simp add: bump_def bigint_div_nonneg)
qed

lemma bump_mono:
  assumes "0 \<le> v" and "m \<le> n"
  shows "bump v bps m \<le> bump v bps n"
proof (cases "m = 0 \<or> bps = 0")
  case True
  then show ?thesis using bump_ge [OF assms(1), of bps n] by (auto simp: bump_def)
next
  case False
  have "bps * m \<le> bps * n" using assms(2) by simp
  then have "v * int (10000 + bps * m) \<le> v * int (10000 + bps * n)" using assms(1) by (intro mult_left_mono) linarith+
  then have "bigint_div (v * int (10000 + bps * m)) 10000 \<le> bigint_div (v * int (10000 + bps * n)) 10000"
    using assms(1) by (intro bigint_div_mono) simp_all
  then show ?thesis using False assms(2) by (simp add: bump_def)
qed

subsection \<open>Properties\<close>

text \<open>C15: A delivery that \<open>prepare\<close> declares ready carries the call \<open>receiveMessage\<close> on exactly the
  VAA bytes the fetcher returned; that VAA has the sequence and payload of the source event and
  its double hash was not consumed at the destination; the destination is the event's 20-byte
  address and the configured transceiver when one is configured; the gas limit covers the
  node's estimate and the quoted gas; and the fee per gas respects the ceiling.\<close>

theorem ready_delivery_is_checked:
  assumes "prepare eth abi dm req = Ok (ReadyToSend d)"
  shows "\<exists>prov vid bytes p baseGas est. dm_providers dm (pq_destinationChainId req) = Some prov \<and>
    vaaIdFromPayload (pq_payload req) = Ok vid \<and> dm_fetchVaa dm vid = Ok (Some bytes) \<and>
    ab_encodeReceiveMessage abi (hexlify eth bytes) = Ok (pd_callData d) \<and>
    parseSignedVaa eth bytes = Ok p \<and> vb_sequence p = vid_sequence vid \<and>
    toLowerCase (vb_payload p) = toLowerCase (rp_requestBytes (pq_payload req)) \<and> pd_vaaHash d = pv_hash p \<and>
    (\<exists>data raw k. ab_encodeIsVAAConsumed abi (pd_vaaHash d) = Ok data \<and>
       rpc_call prov (pd_to d) data k = Ok raw \<and> ab_decodeIsVAAConsumed abi raw = Ok False) \<and>
    getAddress eth (''0x'' @ slice_last 40 (rp_dstAddr (pq_payload req))) = Ok (pd_to d) \<and>
    set (take 24 (drop 2 (rp_dstAddr (pq_payload req)))) = {CHR ''0''} \<and>
    (\<exists>chain. registry_require (dm_registry dm) (pq_destinationChainId req) = Ok chain \<and>
       cc_expectedTransceiver chain \<in> {None, Some [], Some (pd_to d)}) \<and>
    (\<exists>k. rpc_estimateGas prov (pd_to d) (pd_callData d) k = Ok est) \<and>
    js_BigInt (rp_gasLimit (pq_payload req)) = Some baseGas \<and>
    (0 \<le> baseGas \<and> 0 \<le> est \<longrightarrow> max baseGas est \<le> pd_gasLimit d) \<and>
    (0 < maxGasPriceWei (dm_delivery dm) \<longrightarrow> snd (hd (pd_feeOverrides d)) \<le> maxGasPriceWei (dm_delivery dm))"
proof -
  obtain prov bytes p dst where
    p: "dm_providers dm (pq_destinationChainId req) = Some prov"
      "resolve_vaa eth dm (pq_payload req) = Ok (bytes, p)"
      "resolve_transceiver eth dm (pq_destinationChainId req) (rp_dstAddr (pq_payload req)) = Ok dst"
      "isVAAConsumed abi dm prov dst (pv_hash p) = Ok False"
      "estimate_and_finish eth abi dm prov req dst bytes (pv_hash p) = Ok (ReadyToSend d)"
    using assms unfolding prepare_def
    by (auto simp: bind_res_Ok_iff dm_providerFor_def split: option.splits if_splits)
  obtain cd k est where e: "ab_encodeReceiveMessage abi (hexlify eth bytes) = Ok cd"
    "rpc_estimateGas prov dst cd k = Ok est"
    "finish_preparation abi dm prov req dst cd (pv_hash p) est = Ok (ReadyToSend d)"
    using estimate_and_finish_ready [OF p(5)] by blast
  obtain baseGas fees where f: "js_BigInt (rp_gasLimit (pq_payload req)) = Some baseGas"
    "computeFeeOverrides dm prov (pq_retryAttempt req) = Ok fees"
    "d = \<lparr>pd_to = dst, pd_callData = cd, pd_vaaHash = pv_hash p,
      pd_gasLimit = delivery_gas_limit (dm_delivery dm) baseGas est (pq_retryAttempt req), pd_feeOverrides = fees\<rparr>"
    using finish_preparation_Ok [OF e(3)] by auto
  have "0 < maxGasPriceWei (dm_delivery dm) \<longrightarrow> snd (hd fees) \<le> maxGasPriceWei (dm_delivery dm)"
    using computeFeeOverrides_Ok [OF f(2)] by (auto simp: above_ceiling_def)
  moreover have "0 \<le> baseGas \<and> 0 \<le> est \<longrightarrow> max baseGas est \<le> pd_gasLimit d"
    using gas_limit_ge [of baseGas est] by (simp add: f(3))
  ultimately show ?thesis
    using p(1) e(1,2) f(1) resolve_vaa_Ok [OF p(2)] resolve_transceiver_Ok [OF p(3)] isVAAConsumed_Ok [OF p(4)]
    unfolding f(3) prepared_delivery.simps by metis
qed

theorem ready_delivery_is_checked_witness:
  "\<exists>d p. prepare demo_eth demo_abi demo_module demo_request = Ok (ReadyToSend d) \<and>
     parseSignedVaa demo_eth demo_vaa = Ok p \<and> pd_vaaHash d = pv_hash p \<and> 90000 \<le> pd_gasLimit d \<and>
     snd (hd (pd_feeOverrides d)) \<le> 100"
proof -
  obtain d where d: "prepare demo_eth demo_abi demo_module demo_request = Ok (ReadyToSend d)"
    using demo_ready by blast
  obtain prov vid bytes p baseGas est k where w:
    "dm_providers demo_module (pq_destinationChainId demo_request) = Some prov" "dm_fetchVaa demo_module vid = Ok (Some bytes)"
    "parseSignedVaa demo_eth bytes = Ok p" "pd_vaaHash d = pv_hash p"
    "rpc_estimateGas prov (pd_to d) (pd_callData d) k = Ok est"
    "js_BigInt (rp_gasLimit (pq_payload demo_request)) = Some baseGas"
    "0 \<le> baseGas \<and> 0 \<le> est \<longrightarrow> max baseGas est \<le> pd_gasLimit d"
    "0 < maxGasPriceWei (dm_delivery demo_module) \<longrightarrow>
       snd (hd (pd_feeOverrides d)) \<le> maxGasPriceWei (dm_delivery demo_module)"
    using ready_delivery_is_checked [OF d] by (elim exE conjE) (rule that)
  have "bytes = demo_vaa" "maxGasPriceWei (dm_delivery demo_module) = 100" "prov = demo_provider"
    using w(1,2) by (simp_all add: demo_module_def demo_request_def)
  moreover from this w(5) have "est = 90000" by (simp add: demo_provider_def)
  moreover have "baseGas = 70000" using w(6) demo_digits by (simp add: demo_request_def demo_payload_def)
  ultimately show ?thesis using d w(3,4,7,8) by auto
qed

text \<open>C19: Retrying escalates: for the same quote, estimate and fee data, a later attempt never asks
  for less gas nor bids a lower fee than an earlier one, and a bump of at least 1000 basis points
  puts every retry at least ten percent above the node's price (up to rounding down), the increase
  nodes ask of a replacement.\<close>

theorem attempts_escalate:
  assumes "0 \<le> baseGas" and "0 \<le> est" and "0 \<le> price" and "m \<le> n"
  shows "delivery_gas_limit cfg baseGas est m \<le> delivery_gas_limit cfg baseGas est n \<and>
    bump price (gasPriceBumpBps cfg) m \<le> bump price (gasPriceBumpBps cfg) n \<and>
    (1000 \<le> gasPriceBumpBps cfg \<and> 1 \<le> n \<longrightarrow> price + price div 10 \<le> bump price (gasPriceBumpBps cfg) n)"
proof (intro conjI impI)
  have "0 \<le> bigint_div (baseGas * int (retryAdditionalGasPct cfg)) 100"
    using assms(1) by (intro bigint_div_ge_0) simp_all
  then show "delivery_gas_limit cfg baseGas est m \<le> delivery_gas_limit cfg baseGas est n"
    using assms(4) by (auto simp: delivery_gas_limit_def Let_def)
  show "bump price (gasPriceBumpBps cfg) m \<le> bump price (gasPriceBumpBps cfg) n"
    using assms(3,4) by (rule bump_mono)
  assume b: "1000 \<le> gasPriceBumpBps cfg \<and> 1 \<le> n"
  then have "1000 * 1 \<le> gasPriceBumpBps cfg * n" by (intro mult_le_mono) simp_all
  then have "11000 \<le> int (10000 + gasPriceBumpBps cfg * n)" by linarith
  then have "price * 11000 \<le> price * int (10000 + gasPriceBumpBps cfg * n)"
    using assms(3) by (intro mult_left_mono)
  then have "price * 11000 div 10000 \<le> bigint_div (price * int (10000 + gasPriceBumpBps cfg * n)) 10000"
    using assms(3) by (subst bigint_div_nonneg) (simp_all add: zdiv_mono1)
  moreover have "price + price div 10 = price * 11000 div 10000" by linarith
  ultimately show "price + price div 10 \<le> bump price (gasPriceBumpBps cfg) n" using b by (simp add: bump_def)
qed

theorem attempts_escalate_witness:
  "delivery_gas_limit (dm_delivery demo_module) 70000 90000 0 \<le> delivery_gas_limit (dm_delivery demo_module) 70000 90000 2 \<and>
   1100 \<le> bump 1000 (gasPriceBumpBps (dm_delivery demo_module)) 2"
  using attempts_escalate [of 70000 90000 1000 0 2 "dm_delivery demo_module"] by (simp add: demo_module_def)

text \<open>C18: A broadcast that fails always fails in one of the three classes the worker routes on: a
  transient RPC error, a used nonce or an already consumed VAA defers; an underpriced replacement
  spends budget; and the delivery is given up as permanent only when the transceiver itself
  reports an unknown peer or unexpected messages.\<close>

theorem broadcast_failure_classes:
  assumes "broadcast abi send d n = Throw e" and "send d n = Throw err"
  shows "ekind e \<in> {DeferDeliveryError, RetriableDeliveryError, PermanentDeliveryError} \<and>
    (isTransientRpcError err \<longrightarrow> ekind e = DeferDeliveryError) \<and>
    (str_includes (toLowerCase (emessage err)) ''nonce too low'' \<longrightarrow> ekind e = DeferDeliveryError) \<and>
    (ekind e = PermanentDeliveryError \<longrightarrow> decodeTransceiverError abi (extractRevertData err) \<in>
      {Some ''InvalidWormholePeer'', Some ''PeerNotRegistered'', Some ''UnexpectedAdditionalMessages''})"
proof -
  have e: "e = classifyBroadcastError abi err" using assms by (simp add: broadcast_def)
  let ?nm = "decodeTransceiverError abi (extractRevertData err)"
  have "ekind (case classifyRevert abi err of Consumed \<Rightarrow> new_error DeferDeliveryError ''VAA consumed during broadcast'' | Failure f \<Rightarrow> f)
      \<in> {DeferDeliveryError, RetriableDeliveryError} \<union>
        (if ?nm \<in> {Some ''InvalidWormholePeer'', Some ''PeerNotRegistered'', Some ''UnexpectedAdditionalMessages''}
         then {PermanentDeliveryError} else {})"
    unfolding classifyRevert_def Let_def if_distrib [of "case_revert_outcome _ _"] revert_outcome.case
      if_distrib [of ekind] new_error_sel by auto
  then show ?thesis
    unfolding e classifyBroadcastError_def Let_def if_distrib [of ekind] new_error_sel
    by (auto simp only: split: if_splits)
qed

theorem broadcast_failure_classes_witness:
  "\<forall>d. \<exists>e. broadcast demo_abi (\<lambda>d n. Throw (new_error ForeignError ''nonce too low'')) d 3 = Throw e \<and>
     ekind e = DeferDeliveryError"
proof
  fix d
  let ?err = "new_error ForeignError ''nonce too low''"
  let ?e = "classifyBroadcastError demo_abi ?err"
  have b: "broadcast demo_abi (\<lambda>d n. Throw ?err) d 3 = Throw ?e" by (simp add: broadcast_def)
  have "str_includes (toLowerCase (emessage ?err)) ''nonce too low''"
    by (simp add: toLowerCase_def lower_char_def)
  with broadcast_failure_classes [OF b refl] b
  show "\<exists>e. broadcast demo_abi (\<lambda>d n. Throw ?err) d 3 = Throw e \<and> ekind e = DeferDeliveryError" by blast
qed

end
