(* ===== verification/Relay_Path.thy ===== *)
theory Relay_Path
  imports Event_Source_Correct Delivery_Correct
begin

section \<open>From the source event to the delivered VAA\<close>

text \<open>
  The event source and the delivery module meet in the stored payload: what correlation writes,
  the VAA fetcher and the delivery checks read back. \<open>ethers_text_laws\<close> states what that path
  relies on beyond \<open>ethers_hex_laws\<close>: \<open>hexlify\<close> of the bytes of a hexadecimal string is that
  string in lower case, and an address survives padding to 32 bytes and cutting its last 40
  digits. \<open>core_log_laws\<close> is the Core bridge's documented behaviour: sequences are unsigned and
  count up per emitter, so one emitter publishes a sequence once.
\<close>

definition ethers_text_laws :: "ethers \<Rightarrow> bool" where
  "ethers_text_laws eth \<longleftrightarrow>
     (\<forall>s bs. getBytes eth s = Ok bs \<longrightarrow> hexlify eth bs = toLowerCase s) \<and>
     (\<forall>a b u. getAddress eth a = Ok b \<and> zeroPadValue eth b 32 = Ok u \<longrightarrow>
        (\<exists>c. getAddress eth (''0x'' @ slice_last 40 u) = Ok c \<and> toLowerCase c = toLowerCase a))"

definition core_log_laws :: "contract_abi \<Rightarrow> string \<Rightarrow> chain_log list \<Rightarrow> bool" where
  "core_log_laws abi core logs \<longleftrightarrow>
     (\<forall>lg \<in> set logs. \<forall>lg' \<in> set logs. \<forall>m m'.
        core_log_message abi core lg = Ok (Some m) \<and> core_log_message abi core lg' = Ok (Some m') \<longrightarrow>
        0 \<le> cm_sequence m \<and>
        (cm_sequence m = cm_sequence m' \<and> toLowerCase (cm_sender m) = toLowerCase (cm_sender m') \<longrightarrow> m = m'))"

lemma find_published_None:
  assumes "find_published abi core sq ev logs = Ok None" and "lg \<in> set logs"
    and "core_log_message abi core lg = Ok (Some m)"
  shows "cm_sequence m \<noteq> sq \<or> toLowerCase (cm_sender m) \<noteq> ev"
  using assms by (induction logs) (auto simp: bind_res_Ok_iff split: option.splits if_splits)

text \<open>What a correlated event says: the message it names, and its identity as it is read back.\<close>

lemma correlated_identity:
  assumes "ethers_text_laws eth" and "correlate eth abi retry prov core emit pe = Ok ev"
    and rc: "\<And>k. rpc_getTransactionReceipt prov (pe_txHash pe) k = Ok (Some rcpt)"
    and laws: "core_log_laws abi (toLowerCase core) (tr_logs rcpt)"
  obtains lg m emitter e where "lg \<in> set (tr_logs rcpt)" "core_log_message abi (toLowerCase core) lg = Ok (Some m)"
    "toLowerCase (cm_payload m) = toLowerCase (rp_requestBytes (ev_payload ev))"
    "vaaIdFromPayload (ev_payload ev) = Ok \<lparr>vid_emitterChain = pe_sourceChainId pe, vid_emitterAddress = emitter,
       vid_sequence = cm_sequence m, vid_sourceTxHash = Some (pe_txHash pe)\<rparr>"
    "getAddress eth (''0x'' @ slice_last 40 emitter) = Ok e" "toLowerCase e = toLowerCase (cm_sender m)"
proof -
  obtain rcpt' m gas sender emitter where c:
    "rpc_retry retry (rpc_getTransactionReceipt prov (pe_txHash pe)) = Ok (Some rcpt')"
    "find_match abi (toLowerCase core) (toLowerCase (pe_requestBytes pe)) (map_option toLowerCase emit) (tr_logs rcpt') = Ok (Some m)"
    "ab_decodeUint256 abi (pe_relayInstructions pe) = Ok gas"
    "getAddress eth (cm_sender m) = Ok sender" "toUniversalAddress eth sender = Ok emitter"
    "ev = \<lparr>ev_sourceChainId = pe_sourceChainId pe, ev_destinationChainId = pe_dstChain pe,
       ev_relayerAddress = pe_relayerAddress pe, ev_eventTxHash = pe_txHash pe,
       ev_blockNumber = pe_blockNumber pe, ev_logIndex = pe_logIndex pe, ev_payload = event_payload pe m emitter gas\<rparr>"
    using assms(2) by (rule correlate_Ok)
  have "rcpt' = rcpt" using c(1) rc by (auto elim!: rpc_retry_Ok)
  with find_match_Some [OF c(2)] obtain lg where lg: "lg \<in> set (tr_logs rcpt)"
    "core_log_message abi (toLowerCase core) lg = Ok (Some m)" "toLowerCase (cm_payload m) = toLowerCase (pe_requestBytes pe)"
    by blast
  have seq: "0 \<le> cm_sequence m" using laws lg(1,2) unfolding core_log_laws_def by blast
  obtain e where e: "getAddress eth (''0x'' @ slice_last 40 emitter) = Ok e" "toLowerCase e = toLowerCase (cm_sender m)"
    using assms(1) c(4,5) unfolding ethers_text_laws_def toUniversalAddress_def by blast
  show thesis
    using lg e seq by (intro that [of lg m emitter e]) (simp_all add: c(6) event_payload_def vaaIdFromPayload_def js_BigInt_show_int)
qed

text \<open>A VAA the dev guardian packed for a published message passes the checks of \<open>resolve_vaa\<close>.\<close>

lemma packed_vaa_resolves:
  assumes "ethers_hex_laws eth" and "ethers_text_laws eth"
    and "packSignedVaa eth (published_fields vid m) gsi sign 0 = Ok (vaa, h)" and "getBytes eth vaa = Ok bytes"
    and "vaaIdFromPayload payload = Ok vid" and "vid_sequence vid = cm_sequence m"
    and "toLowerCase (cm_payload m) = toLowerCase (rp_requestBytes payload)" and "dm_fetchVaa dm vid = Ok (Some bytes)"
  shows "\<exists>p. resolve_vaa eth dm payload = Ok (bytes, p)"
proof -
  obtain bs em pl where p: "getBytes eth vaa = Ok bs" "getBytes eth (cm_payload m) = Ok pl"
    "parseSignedVaa eth bs = Ok \<lparr>vb_timestamp = 0, vb_nonce = cm_nonce m,
       vb_emitterChainId = int (vid_emitterChain vid), vb_emitterAddress = hexlify eth em,
       vb_sequence = cm_sequence m, vb_consistencyLevel = cm_consistencyLevel m,
       vb_payload = hexlify eth pl, pv_version = 1, pv_guardianSetIndex = gsi, pv_numSignatures = 1, pv_hash = h\<rparr>"
    using assms(1,3) by (rule packed_parses) (rule that, simp_all add: published_fields_def assms(6))
  have "hexlify eth pl = toLowerCase (cm_payload m)" using assms(2) p(2) unfolding ethers_text_laws_def by blast
  moreover have "toLowerCase (toLowerCase s) = toLowerCase s" for s by (simp add: toLowerCase_idem)
  moreover have "bs = bytes" using p(1) assms(4) by simp
  ultimately show ?thesis using p(3) assms(5-8) unfolding resolve_vaa_def by simp
qed


subsection \<open>A concrete run\<close>

definition demo_checksum :: "string \<Rightarrow> string res" where
  "demo_checksum s = bind_res (demo_getBytes s) (\<lambda>bs.
     if length bs = 20 then Ok (demo_hexlify bs) else Throw (new_error ForeignError ''invalid address''))"

definition demo_eth20 :: ethers where
  "demo_eth20 = demo_eth\<lparr>getAddress := demo_checksum\<rparr>"

definition demo_guardian :: dev_guardian where
  "demo_guardian = \<lparr>dg_sourceProviderFor = (\<lambda>_. Ok demo_provider), dg_coreAddressFor = (\<lambda>_. Ok ''0xc0''),
     dg_signingKey = (\<lambda>_. Ok (demo_hexlify (replicate 32 1), demo_hexlify (replicate 32 2), 1)),
     dg_guardianSetIndexOverride = Some 4, dg_retry = DEFAULT_RETRY\<rparr>"

lemma hex_digit_round:
  "radix_digit 16 c = Some x \<Longrightarrow> x < 16 \<and> hex_digit x = lower_char c"
  by (auto simp: radix_digit_def hex_digit_def lower_char_def Let_def split: if_splits)

lemma parse_hex_lower: "parse_hex s = Some bs \<Longrightarrow> concat (map hex_byte bs) = toLowerCase s"
proof (induction s arbitrary: bs rule: parse_hex.induct)
  case (3 c d cs)
  then obtain x y bs' where p: "radix_digit 16 c = Some x" "radix_digit 16 d = Some y" "parse_hex cs = Some bs'"
    "bs = word_of_nat (x * 16 + y) # bs'" by (auto split: option.splits)
  then have xy: "x < 16" "y < 16" using hex_digit_round by blast+
  then have "unat (word_of_nat (x * 16 + y) :: 8 word) = x * 16 + y"
    by (simp only: unat_of_nat) simp
  then show ?case using "3.IH" p xy hex_digit_round by (simp add: hex_byte_def toLowerCase_def)
qed (simp_all add: toLowerCase_def)

lemma demo_getBytes_lower: "demo_getBytes s = Ok bs \<Longrightarrow> demo_hexlify bs = toLowerCase s"
proof -
  assume "demo_getBytes s = Ok bs"
  then have h: "take 2 s = ''0x''" "parse_hex (drop 2 s) = Some bs"
    by (auto simp: demo_getBytes_def split: if_splits option.splits)
  then have "toLowerCase s = toLowerCase (''0x'' @ drop 2 s)" by (metis append_take_drop_id)
  also have "\<dots> = ''0x'' @ concat (map hex_byte bs)"
    using parse_hex_lower [OF h(2)] by (simp add: toLowerCase_def lower_char_def)
  finally show "demo_hexlify bs = toLowerCase s" by (simp add: demo_hexlify_def)
qed

lemma length_hex_bytes: "length (concat (map hex_byte bs)) = 2 * length bs"
  by (induction bs) (simp_all add: hex_byte_def)

lemma demo_text_laws: "ethers_hex_laws demo_eth20" "ethers_text_laws demo_eth20"
proof -
  show "ethers_hex_laws demo_eth20" using demo_eth_laws by (simp add: ethers_hex_laws_def demo_eth20_def)
  have "\<exists>c. demo_checksum (''0x'' @ slice_last 40 u) = Ok c \<and> toLowerCase c = toLowerCase a"
    if u: "demo_checksum a = Ok b" "zeroPadValue demo_eth b 32 = Ok u" for a b u
  proof -
    obtain bs where bs: "demo_getBytes a = Ok bs" "length bs = 20" "b = demo_hexlify bs"
      using u(1) by (auto simp: demo_checksum_def bind_res_Ok_iff split: if_splits)
    then have "u = demo_hexlify (replicate 12 0 @ bs)"
      using u(2) by (simp add: demo_eth_def demo_getBytes_hexlify)
    then have "''0x'' @ slice_last 40 u = demo_hexlify bs"
      using bs(2) by (simp add: demo_hexlify_def slice_last_def length_hex_bytes)
    then show ?thesis
      using bs(2) demo_getBytes_lower [OF bs(1), symmetric]
      by (simp add: demo_checksum_def demo_getBytes_hexlify lower_hexlify)
  qed
  then show "ethers_text_laws demo_eth20"
    using demo_getBytes_lower by (auto simp: ethers_text_laws_def demo_eth20_def) (simp_all add: demo_eth_def)
qed


end
