(* ===== verification/Signed_Quote.thy ===== *)
theory Signed_Quote
  imports Demo_Eth
begin

section \<open>Signed quotes\<close>

text \<open>
  \<open>quoter-service/src/signedQuote.ts\<close>: the 132-byte quote body, its signature and the inverse.
  The signing key is a parameter \<open>sign\<close> from the digest to \<open>(r, s, v)\<close>. The layout is written
  the way the code writes it, offset by offset into a zeroed buffer; \<open>quote_layout\<close> is the
  concatenation of the fields the contract reads.
\<close>

definition SIGNED_QUOTE_PREFIX :: string where
  "SIGNED_QUOTE_PREFIX = ''0x50513031''"

definition SIGNED_QUOTE_BODY_LENGTH :: nat where
  "SIGNED_QUOTE_BODY_LENGTH = 132"

definition QUOTE_SIGNATURE_LENGTH :: nat where
  "QUOTE_SIGNATURE_LENGTH = 65"

definition SIGNED_QUOTE_LENGTH :: nat where
  "SIGNED_QUOTE_LENGTH = SIGNED_QUOTE_BODY_LENGTH + QUOTE_SIGNATURE_LENGTH"

record quote_body =
  qb_quoterAddress :: string
  qb_payeeAddress :: string
  qb_srcChain :: int
  qb_dstChain :: int
  qb_expiryTime :: int
  qb_gasLimit :: int
  qb_requiredPayment :: int

record signed_quote = quote_body +
  signedQuoteBytes :: string

definition check_quote :: "ethers \<Rightarrow> ('z quote_body_scheme) \<Rightarrow> unit res" where
  "check_quote eth b =
     bind_res (guard_res (qb_srcChain b < 0 \<or> 0xffff < qb_srcChain b)
       (new_error RangeError (''srcChain '' @ show_int (qb_srcChain b) @ '' out of uint16 range''))) (\<lambda>_.
     bind_res (guard_res (qb_dstChain b < 0 \<or> 0xffff < qb_dstChain b)
       (new_error RangeError (''dstChain '' @ show_int (qb_dstChain b) @ '' out of uint16 range''))) (\<lambda>_.
     bind_res (guard_res (qb_expiryTime b < 0 \<or> 2 ^ 64 - 1 < qb_expiryTime b)
       (new_error RangeError (''expiryTime '' @ show_int (qb_expiryTime b) @ '' out of uint64 range''))) (\<lambda>_.
     bind_res (guard_res (qb_gasLimit b < 0 \<or> 2 ^ 256 - 1 < qb_gasLimit b)
       (new_error RangeError (''gasLimit '' @ show_int (qb_gasLimit b) @ '' out of uint256 range''))) (\<lambda>_.
     bind_res (guard_res (qb_requiredPayment b < 0 \<or> 2 ^ 256 - 1 < qb_requiredPayment b)
       (new_error RangeError (''requiredPayment '' @ show_int (qb_requiredPayment b) @ '' out of uint256 range''))) (\<lambda>_.
     bind_res (guard_res (\<not> isHexString eth (qb_payeeAddress b) 32)
       (new_error TypeError (''payeeAddress must be a 32-byte hex string, got '' @ qb_payeeAddress b))) (\<lambda>_.
     guard_res (\<not> isHexString eth (qb_quoterAddress b) 20)
       (new_error TypeError (''quoterAddress must be a 20-byte hex string, got '' @ qb_quoterAddress b))))))))"

definition set_hex :: "ethers \<Rightarrow> string \<Rightarrow> nat \<Rightarrow> bytes \<Rightarrow> bytes res" where
  "set_hex eth s off out = bind_res (getBytes eth s) (\<lambda>bs. js_set off bs out)"

definition encodeQuoteBody :: "ethers \<Rightarrow> ('z quote_body_scheme) \<Rightarrow> bytes res" where
  "encodeQuoteBody eth b =
     bind_res (check_quote eth b) (\<lambda>_.
     bind_res (set_hex eth SIGNED_QUOTE_PREFIX 0 (replicate SIGNED_QUOTE_BODY_LENGTH 0)) (\<lambda>out.
     bind_res (set_hex eth (qb_quoterAddress b) 4 out) (\<lambda>out.
     bind_res (set_hex eth (qb_payeeAddress b) 24 out) (\<lambda>out.
     (let out = buf_set 56 (be_encode 2 (nat (qb_srcChain b))) out;
          out = buf_set 58 (be_encode 2 (nat (qb_dstChain b))) out;
          out = buf_set 60 (be_encode 8 (nat (qb_expiryTime b))) out in
      bind_res (toBeHex eth (qb_gasLimit b) 32) (\<lambda>gas.
      bind_res (set_hex eth gas 68 out) (\<lambda>out.
      bind_res (toBeHex eth (qb_requiredPayment b) 32) (\<lambda>pay.
      set_hex eth pay 100 out))))))))"

definition signQuote ::
  "ethers \<Rightarrow> (string \<Rightarrow> (string \<times> string \<times> int) res) \<Rightarrow> quote_body \<Rightarrow> signed_quote res" where
  "signQuote eth sign b =
     bind_res (encodeQuoteBody eth b) (\<lambda>encoded.
     bind_res (sign (keccak256 eth encoded)) (\<lambda>(r, s, v).
     bind_res (getBytes eth r) (\<lambda>rb.
     bind_res (getBytes eth s) (\<lambda>sb.
       Ok (quote_body.extend b \<lparr>signedQuoteBytes = hexlify eth (encoded @ rb @ sb @ [word_of_int v])\<rparr>)))))"

definition decodeSignedQuote :: "ethers \<Rightarrow> string \<Rightarrow> signed_quote res" where
  "decodeSignedQuote eth sqb =
     bind_res (getBytes eth sqb) (\<lambda>bytes.
     bind_res (guard_res (length bytes \<noteq> SIGNED_QUOTE_LENGTH)
       (new_error RangeError (''signedQuoteBytes length '' @ show_nat (length bytes) @ '' != ''
         @ show_nat SIGNED_QUOTE_LENGTH))) (\<lambda>_.
     bind_res (getAddress eth (hexlify eth (subarray 4 24 bytes))) (\<lambda>quoterAddress.
     (case (js_BigInt (hexlify eth (subarray 68 100 bytes)), js_BigInt (hexlify eth (subarray 100 132 bytes))) of
        (Some gas, Some pay) \<Rightarrow>
          Ok \<lparr>qb_quoterAddress = quoterAddress, qb_payeeAddress = hexlify eth (subarray 24 56 bytes),
              qb_srcChain = int (get_uint 2 56 bytes), qb_dstChain = int (get_uint 2 58 bytes),
              qb_expiryTime = int (get_uint 8 60 bytes), qb_gasLimit = gas, qb_requiredPayment = pay,
              signedQuoteBytes = hexlify eth bytes\<rparr>
      | _ \<Rightarrow> Throw (new_error ForeignError ''Cannot convert to a BigInt'')))))"

subsection \<open>The layout\<close>

definition quote_layout :: "bytes \<Rightarrow> bytes \<Rightarrow> bytes \<Rightarrow> int \<Rightarrow> int \<Rightarrow> int \<Rightarrow> int \<Rightarrow> int \<Rightarrow> bytes" where
  "quote_layout pre quoter payee src dst expiry gas pay =
     pre @ quoter @ payee @ be_encode 2 (nat src) @ be_encode 2 (nat dst) @ be_encode 8 (nat expiry) @
     be_encode 32 (nat gas) @ be_encode 32 (nat pay)"

text \<open>
  What decoding relies on: \<open>BigInt\<close> reads the hexadecimal text of some bytes as their big-endian
  value, and the checksummed form of an address still encodes its 20 bytes.
\<close>

definition ethers_quote_laws :: "ethers \<Rightarrow> bool" where
  "ethers_quote_laws eth \<longleftrightarrow> ethers_hex_laws eth \<and> isHexString eth SIGNED_QUOTE_PREFIX 4 \<and>
     (\<forall>bs. bs \<noteq> [] \<longrightarrow> js_BigInt (hexlify eth bs) = Some (int (be_decode bs))) \<and>
     (\<forall>bs. length bs = 20 \<longrightarrow> (\<exists>a. getAddress eth (hexlify eth bs) = Ok a \<and> getBytes eth a = Ok bs))"

lemma check_quote_Ok:
  assumes "check_quote eth b = Ok u"
  shows "0 \<le> qb_srcChain b \<and> qb_srcChain b < 2 ^ 16 \<and> 0 \<le> qb_dstChain b \<and> qb_dstChain b < 2 ^ 16 \<and>
    0 \<le> qb_expiryTime b \<and> qb_expiryTime b < 2 ^ 64 \<and> 0 \<le> qb_gasLimit b \<and> qb_gasLimit b < 2 ^ 256 \<and>
    0 \<le> qb_requiredPayment b \<and> qb_requiredPayment b < 2 ^ 256 \<and>
    isHexString eth (qb_payeeAddress b) 32 \<and> isHexString eth (qb_quoterAddress b) 20"
  using assms unfolding check_quote_def bind_res_Ok_iff guard_res_Ok by simp

lemma set_hex_eq:
  assumes "getBytes eth s = Ok bs" and "off + length bs \<le> length out"
  shows "set_hex eth s off out = Ok (buf_set off bs out)"
  using assms by (simp add: set_hex_def js_set_def)

lemma buf_set_quote:
  assumes "length pre = 4" "length q = 20" "length p = 32"
  shows "buf_set 100 (be_encode 32 e) (buf_set 68 (be_encode 32 d) (buf_set 60 (be_encode 8 c)
      (buf_set 58 (be_encode 2 b) (buf_set 56 (be_encode 2 a) (buf_set 24 p (buf_set 4 q (buf_set 0 pre
        (replicate 132 0))))))))
    = pre @ q @ p @ be_encode 2 a @ be_encode 2 b @ be_encode 8 c @ be_encode 32 d @ be_encode 32 e"
  using assms by (simp add: buf_set_def del: be_encode.simps)

lemma encodeQuoteBody_Ok:
  assumes laws: "ethers_quote_laws eth" and "encodeQuoteBody eth b = Ok body"
  obtains pre q p where "length pre = 4" "getBytes eth (qb_quoterAddress b) = Ok q" "length q = 20"
    "getBytes eth (qb_payeeAddress b) = Ok p" "length p = 32" "check_quote eth b = Ok ()"
    "body = quote_layout pre q p (qb_srcChain b) (qb_dstChain b) (qb_expiryTime b) (qb_gasLimit b) (qb_requiredPayment b)"
proof -
  have c: "check_quote eth b = Ok ()" using assms(2) by (auto simp: encodeQuoteBody_def bind_res_Ok_iff)
  note r = check_quote_Ok [OF c]
  have hex: "isHexString eth s n \<Longrightarrow> \<exists>bs. getBytes eth s = Ok bs \<and> length bs = n" for s n
    using laws unfolding ethers_quote_laws_def ethers_hex_laws_def by blast
  obtain pre where pre: "getBytes eth SIGNED_QUOTE_PREFIX = Ok pre" "length pre = 4"
    using hex laws unfolding ethers_quote_laws_def by blast
  obtain q where q: "getBytes eth (qb_quoterAddress b) = Ok q" "length q = 20" using hex r by blast
  obtain p where p: "getBytes eth (qb_payeeAddress b) = Ok p" "length p = 32" using hex r by blast
  have be: "toBeHex eth v 32 = Ok (hexlify eth (be_encode 32 (nat v)))"
    "getBytes eth (hexlify eth (be_encode 32 (nat v))) = Ok (be_encode 32 (nat v))" if "0 \<le> v" "v < 2 ^ 256" for v
    using laws that unfolding ethers_quote_laws_def ethers_hex_laws_def by simp_all
  have "encodeQuoteBody eth b = Ok (buf_set 100 (be_encode 32 (nat (qb_requiredPayment b)))
      (buf_set 68 (be_encode 32 (nat (qb_gasLimit b))) (buf_set 60 (be_encode 8 (nat (qb_expiryTime b)))
      (buf_set 58 (be_encode 2 (nat (qb_dstChain b))) (buf_set 56 (be_encode 2 (nat (qb_srcChain b)))
      (buf_set 24 p (buf_set 4 q (buf_set 0 pre (replicate 132 0)))))))))"
    using c r pre p q be [of "qb_gasLimit b"] be [of "qb_requiredPayment b"]
    by (simp add: encodeQuoteBody_def SIGNED_QUOTE_BODY_LENGTH_def set_hex_eq Let_def del: be_encode.simps)
  then have "body = quote_layout pre q p (qb_srcChain b) (qb_dstChain b) (qb_expiryTime b) (qb_gasLimit b) (qb_requiredPayment b)"
    using assms(2) buf_set_quote [OF pre(2) q(2) p(2)] by (simp add: quote_layout_def del: be_encode.simps)
  with pre(2) q p c show ?thesis by (rule that)
qed

lemma quote_fields:
  assumes "length pre = 4" "length q = 20" "length p = 32"
    and "0 \<le> src" "src < 2 ^ 16" "0 \<le> dst" "dst < 2 ^ 16" "0 \<le> ex" "ex < 2 ^ 64" "0 \<le> gas" "gas < 2 ^ 256"
      "0 \<le> pay" "pay < 2 ^ 256"
  fixes sig :: bytes
  defines "bytes \<equiv> quote_layout pre q p src dst ex gas pay @ sig"
  shows "length bytes = 132 + length sig" and "subarray 4 24 bytes = q" and "subarray 24 56 bytes = p"
    and "int (get_uint 2 56 bytes) = src" and "int (get_uint 2 58 bytes) = dst" and "int (get_uint 8 60 bytes) = ex"
    and "int (be_decode (subarray 68 100 bytes)) = gas" and "int (be_decode (subarray 100 132 bytes)) = pay"
proof -
  have "nat src < 256 ^ 2" "nat dst < 256 ^ 2" "nat ex < 256 ^ 8" "nat gas < 256 ^ 32" "nat pay < 256 ^ 32"
    using assms by (simp_all add: nat_less_iff)
  note dec = this [THEN be_decode_encode]
  show "length bytes = 132 + length sig" "subarray 4 24 bytes = q" "subarray 24 56 bytes = p"
    "int (get_uint 2 56 bytes) = src" "int (get_uint 2 58 bytes) = dst" "int (get_uint 8 60 bytes) = ex"
    "int (be_decode (subarray 68 100 bytes)) = gas" "int (be_decode (subarray 100 132 bytes)) = pay"
    using assms(1-13) dec by (simp_all add: bytes_def quote_layout_def slice_simps del: be_encode.simps)
qed

subsection \<open>Round trip\<close>

definition key_signs :: "ethers \<Rightarrow> (string \<Rightarrow> (string \<times> string \<times> int) res) \<Rightarrow> bool" where
  "key_signs eth sign \<longleftrightarrow>
     (\<forall>d r s v. sign d = Ok (r, s, v) \<longrightarrow> isHexString eth r 32 \<and> isHexString eth s 32)"

lemma signed_quote_decodes:
  assumes laws: "ethers_quote_laws eth" and "key_signs eth sign" and "signQuote eth sign b = Ok sq"
  obtains a q p where "getBytes eth (qb_quoterAddress b) = Ok q" "getBytes eth a = Ok q"
    "getBytes eth (qb_payeeAddress b) = Ok p"
    "sq = quote_body.extend b \<lparr>signedQuoteBytes = signedQuoteBytes sq\<rparr>"
    "decodeSignedQuote eth (signedQuoteBytes sq) =
      Ok (sq\<lparr>qb_quoterAddress := a, qb_payeeAddress := hexlify eth p\<rparr>)"
proof -
  obtain body r s v rb sb where e: "encodeQuoteBody eth b = Ok body" "sign (keccak256 eth body) = Ok (r, s, v)"
    "getBytes eth r = Ok rb" "getBytes eth s = Ok sb"
    "sq = quote_body.extend b \<lparr>signedQuoteBytes = hexlify eth (body @ rb @ sb @ [word_of_int v])\<rparr>"
    using assms(3) by (auto simp: signQuote_def bind_res_Ok_iff)
  have hex: "isHexString eth x n \<Longrightarrow> getBytes eth x = Ok bs \<Longrightarrow> length bs = n" for x n bs
    using laws unfolding ethers_quote_laws_def ethers_hex_laws_def by fastforce
  have "isHexString eth r 32 \<and> isHexString eth s 32" using assms(2) e(2) unfolding key_signs_def by blast
  then have sig: "length (rb @ sb @ [word_of_int v :: 8 word]) = 65"
    using hex [of r 32 rb] hex [of s 32 sb] e(3,4) by simp
  obtain pre q p where l: "length pre = 4" "getBytes eth (qb_quoterAddress b) = Ok q" "length q = 20"
    "getBytes eth (qb_payeeAddress b) = Ok p" "length p = 32" "check_quote eth b = Ok ()"
    "body = quote_layout pre q p (qb_srcChain b) (qb_dstChain b) (qb_expiryTime b) (qb_gasLimit b) (qb_requiredPayment b)"
    using laws e(1) by (rule encodeQuoteBody_Ok)
  have "0 \<le> qb_srcChain b" "qb_srcChain b < 2 ^ 16" "0 \<le> qb_dstChain b" "qb_dstChain b < 2 ^ 16"
    "0 \<le> qb_expiryTime b" "qb_expiryTime b < 2 ^ 64" "0 \<le> qb_gasLimit b" "qb_gasLimit b < 2 ^ 256"
    "0 \<le> qb_requiredPayment b" "qb_requiredPayment b < 2 ^ 256" using check_quote_Ok [OF l(6)] by blast+
  note f = quote_fields [OF l(1,3,5) this, where sig = "rb @ sb @ [word_of_int v]", folded l(7)]
  obtain a where a: "getAddress eth (hexlify eth q) = Ok a" "getBytes eth a = Ok q"
    using laws l(3) unfolding ethers_quote_laws_def by blast
  let ?bytes = "body @ rb @ sb @ [word_of_int v]"
  have "subarray 68 100 ?bytes \<noteq> []" "subarray 100 132 ?bytes \<noteq> []"
    using f(1) sig by (auto simp: subarray_def)
  moreover have num: "bs \<noteq> [] \<Longrightarrow> js_BigInt (hexlify eth bs) = Some (int (be_decode bs))"
    and get: "getBytes eth (hexlify eth bs) = Ok bs" for bs
    using laws unfolding ethers_quote_laws_def ethers_hex_laws_def by blast+
  ultimately have "decodeSignedQuote eth (hexlify eth ?bytes) =
      Ok (sq\<lparr>qb_quoterAddress := a, qb_payeeAddress := hexlify eth p\<rparr>)"
    using f sig a(1) by (simp add: decodeSignedQuote_def SIGNED_QUOTE_LENGTH_def SIGNED_QUOTE_BODY_LENGTH_def
        QUOTE_SIGNATURE_LENGTH_def e(5) quote_body.defs)
  then show ?thesis using l(2,4) a(2) e(5) by (intro that [of q a p]) (simp_all add: quote_body.defs)
qed

text \<open>C22: A signed quote decodes to the quote that was signed: the chains, the expiry, the gas limit
  and the required payment are recovered exactly, and the quoter and payee decode to the same
  bytes.\<close>

theorem quote_round_trip:
  assumes "ethers_quote_laws eth" and "key_signs eth sign" and "signQuote eth sign b = Ok sq"
  shows "\<exists>d. decodeSignedQuote eth (signedQuoteBytes sq) = Ok d \<and>
    qb_srcChain d = qb_srcChain b \<and> qb_dstChain d = qb_dstChain b \<and> qb_expiryTime d = qb_expiryTime b \<and>
    qb_gasLimit d = qb_gasLimit b \<and> qb_requiredPayment d = qb_requiredPayment b \<and>
    getBytes eth (qb_quoterAddress d) = getBytes eth (qb_quoterAddress b) \<and>
    getBytes eth (qb_payeeAddress d) = getBytes eth (qb_payeeAddress b) \<and>
    signedQuoteBytes d = signedQuoteBytes sq"
proof -
  obtain a q p where d: "getBytes eth (qb_quoterAddress b) = Ok q" "getBytes eth a = Ok q"
    "getBytes eth (qb_payeeAddress b) = Ok p" "sq = quote_body.extend b \<lparr>signedQuoteBytes = signedQuoteBytes sq\<rparr>"
    "decodeSignedQuote eth (signedQuoteBytes sq) = Ok (sq\<lparr>qb_quoterAddress := a, qb_payeeAddress := hexlify eth p\<rparr>)"
    using assms by (rule signed_quote_decodes)
  have "getBytes eth (hexlify eth p) = Ok p"
    using assms(1) by (simp add: ethers_quote_laws_def ethers_hex_laws_def)
  moreover have "qb_srcChain sq = qb_srcChain b \<and> qb_dstChain sq = qb_dstChain b \<and> qb_expiryTime sq = qb_expiryTime b \<and>
      qb_gasLimit sq = qb_gasLimit b \<and> qb_requiredPayment sq = qb_requiredPayment b"
    by (subst (1 2 3 4 5) d(4)) (simp add: quote_body.defs)
  ultimately show ?thesis using d(1-3,5) by (intro exI [of _ "sq\<lparr>qb_quoterAddress := a, qb_payeeAddress := hexlify eth p\<rparr>"]) simp
qed

definition demo_quote :: quote_body where
  "demo_quote = \<lparr>qb_quoterAddress = demo_hexlify (replicate 20 5), qb_payeeAddress = demo_hexlify (replicate 32 6),
     qb_srcChain = 2, qb_dstChain = 4, qb_expiryTime = 1700000000, qb_gasLimit = 500000, qb_requiredPayment = 10 ^ 18\<rparr>"

definition demo_key :: "string \<Rightarrow> (string \<times> string \<times> int) res" where
  "demo_key d = Ok (demo_hexlify (replicate 32 1), demo_hexlify (replicate 32 2), 27)"

lemma demo_quote_laws: "ethers_quote_laws demo_eth"
proof -
  have "isHexString demo_eth SIGNED_QUOTE_PREFIX 4"
    by (simp add: demo_eth_def SIGNED_QUOTE_PREFIX_def demo_getBytes_def radix_digit_def)
  moreover have "js_BigInt (hexlify demo_eth bs) = Some (int (be_decode bs))" if "bs \<noteq> []" for bs
    using that by (simp add: demo_eth_def demo_hexlify_number)
  moreover have "getAddress demo_eth (hexlify demo_eth bs) = Ok (demo_hexlify bs) \<and>
      getBytes demo_eth (demo_hexlify bs) = Ok bs" for bs
    by (simp add: demo_eth_def demo_getBytes_hexlify)
  ultimately show ?thesis using demo_eth_laws unfolding ethers_quote_laws_def by blast
qed

lemma demo_key_signs: "key_signs demo_eth demo_key"
  by (simp add: key_signs_def demo_key_def demo_eth_def demo_getBytes_hexlify)

lemma demo_quote_signed: "\<exists>sq. signQuote demo_eth demo_key demo_quote = Ok sq"
proof -
  have get: "getBytes demo_eth (demo_hexlify bs) = Ok bs" for bs by (simp add: demo_eth_def demo_getBytes_hexlify)
  have be: "toBeHex demo_eth v 32 = Ok (demo_hexlify (be_encode 32 (nat v)))" if "0 \<le> v" "v < 2 ^ 256" for v
    using that by (simp add: demo_eth_def)
  have pre: "getBytes demo_eth SIGNED_QUOTE_PREFIX = Ok [0x50, 0x51, 0x30, 0x31]"
    by (simp add: demo_eth_def SIGNED_QUOTE_PREFIX_def demo_getBytes_def radix_digit_def)
  have "check_quote demo_eth demo_quote = Ok ()"
    by (simp add: check_quote_def demo_quote_def) (simp add: demo_eth_def demo_getBytes_hexlify)
  then show ?thesis
    by (simp add: signQuote_def encodeQuoteBody_def set_hex_def pre js_set_def SIGNED_QUOTE_BODY_LENGTH_def Let_def
        demo_quote_def get be demo_key_def del: be_encode.simps)
qed

theorem quote_round_trip_witness:
  "\<exists>sq d. signQuote demo_eth demo_key demo_quote = Ok sq \<and> decodeSignedQuote demo_eth (signedQuoteBytes sq) = Ok d \<and>
     qb_requiredPayment d = 10 ^ 18 \<and> qb_gasLimit d = 500000"
proof -
  obtain sq where sq: "signQuote demo_eth demo_key demo_quote = Ok sq" using demo_quote_signed by blast
  from quote_round_trip [OF demo_quote_laws demo_key_signs this] sq show ?thesis by (auto simp: demo_quote_def)
qed

end
