(* ===== verification/Js_Values.thy ===== *)
theory Js_Values
  imports Prelude Complex_Main
begin

section \<open>JavaScript values at the edges of the services\<close>

text \<open>
  Numbers read from text, JSON documents and environment variables. A \<open>number\<close> is an exact
  rational or one of the three special values; rounding to a double is not modelled. \<open>js_Number\<close>
  is \<open>Number(string)\<close>. The parser \<open>JSON.parse\<close> is a parameter of the code that calls it (\<open>None\<close>
  where it throws); \<open>jfield\<close> is property access on its result, where the last of duplicate keys
  counts.
\<close>

datatype js_num = Num rat | NaN | PosInf | NegInf

definition js_isInteger :: "js_num \<Rightarrow> bool" where
  "js_isInteger n = (case n of Num r \<Rightarrow> snd (quotient_of r) = 1 | _ \<Rightarrow> False)"

definition num_int :: "js_num \<Rightarrow> int" where
  "num_int n = (case n of Num r \<Rightarrow> \<lfloor>r\<rfloor> | _ \<Rightarrow> 0)"

definition num_less :: "js_num \<Rightarrow> rat \<Rightarrow> bool" where
  "num_less n b = (case n of Num r \<Rightarrow> r < b | NegInf \<Rightarrow> True | _ \<Rightarrow> False)"

definition num_greater :: "js_num \<Rightarrow> rat \<Rightarrow> bool" where
  "num_greater n b = (case n of Num r \<Rightarrow> b < r | PosInf \<Rightarrow> True | _ \<Rightarrow> False)"

subsection \<open>\<open>Number(string)\<close>\<close>

definition pow10 :: "int \<Rightarrow> rat" where
  "pow10 k = (if 0 \<le> k then 10 ^ nat k else 1 / 10 ^ nat (- k))"

definition exponent_part :: "string \<Rightarrow> int option" where
  "exponent_part s =
     (if s = [] then Some 0
      else if hd s \<notin> {CHR ''e'', CHR ''E''} then None
      else
        (let t = tl s;
             neg = (t \<noteq> [] \<and> hd t = CHR ''-'');
             ds = (if t \<noteq> [] \<and> hd t \<in> {CHR ''-'', CHR ''+''} then tl t else t)
         in if ds = [] \<or> \<not> list_all is_digit ds then None
            else Some (if neg then - int (dec_val ds) else int (dec_val ds))))"

definition unsigned_decimal :: "string \<Rightarrow> rat option" where
  "unsigned_decimal s =
     (let ip = takeWhile is_digit s;
          rest = dropWhile is_digit s;
          dot = (rest \<noteq> [] \<and> hd rest = CHR ''.'');
          fp = (if dot then takeWhile is_digit (tl rest) else []);
          rest = (if dot then dropWhile is_digit (tl rest) else rest)
      in if ip = [] \<and> fp = [] then None
         else map_option (\<lambda>e. of_nat (dec_val (ip @ fp)) * pow10 (e - int (length fp))) (exponent_part rest))"

definition signed_decimal :: "bool \<Rightarrow> string \<Rightarrow> js_num" where
  "signed_decimal neg s =
     (if s = ''Infinity'' then (if neg then NegInf else PosInf)
      else (case unsigned_decimal s of
              None \<Rightarrow> NaN
            | Some r \<Rightarrow> (if 2 ^ 1024 \<le> r then (if neg then NegInf else PosInf)
                        else Num (if neg then - r else r))))"

definition num_of_option :: "int option \<Rightarrow> js_num" where
  "num_of_option v = (case v of None \<Rightarrow> NaN | Some i \<Rightarrow> Num (of_int i))"

definition js_Number :: "string \<Rightarrow> js_num" where
  "js_Number raw =
     (let s = js_trim raw in
      if s = [] then Num 0
      else if take 2 s \<in> {''0x'', ''0X''} then num_of_option (unsigned_literal 16 (drop 2 s))
      else if take 2 s \<in> {''0o'', ''0O''} then num_of_option (unsigned_literal 8 (drop 2 s))
      else if take 2 s \<in> {''0b'', ''0B''} then num_of_option (unsigned_literal 2 (drop 2 s))
      else if hd s = CHR ''-'' then signed_decimal True (tl s)
      else if hd s = CHR ''+'' then signed_decimal False (tl s)
      else signed_decimal False s)"

text \<open>A number as it appears in a message: the digits of a fraction are cut after seventeen.\<close>

fun frac_digits :: "nat \<Rightarrow> rat \<Rightarrow> string" where
  "frac_digits 0 r = []"
| "frac_digits (Suc k) r =
     (if r = 0 then [] else digit_char (nat \<lfloor>r * 10\<rfloor>) # frac_digits k (r * 10 - of_int \<lfloor>r * 10\<rfloor>))"

definition show_num :: "js_num \<Rightarrow> string" where
  "show_num n =
     (case n of NaN \<Rightarrow> ''NaN'' | PosInf \<Rightarrow> ''Infinity'' | NegInf \<Rightarrow> ''-Infinity''
      | Num r \<Rightarrow>
          (if snd (quotient_of r) = 1 then show_int \<lfloor>r\<rfloor>
           else (if r < 0 then ''-'' else []) @ show_int \<lfloor>\<bar>r\<bar>\<rfloor> @ ''.'' @ frac_digits 17 (\<bar>r\<bar> - of_int \<lfloor>\<bar>r\<bar>\<rfloor>)))"

lemma js_isInteger_num: "js_isInteger n \<Longrightarrow> n = Num (of_int (num_int n))"
proof (cases n)
  case (Num r)
  assume "js_isInteger n"
  then obtain a where "quotient_of r = (a, 1)" using Num by (cases "quotient_of r") (simp add: js_isInteger_def)
  then have "r = of_int a" using quotient_of_div by fastforce
  then show ?thesis using Num by (simp add: num_int_def)
qed (simp_all add: js_isInteger_def)

lemma js_isInteger_of_int [simp]: "js_isInteger (Num (of_int i))" "num_int (Num (of_int i)) = i"
  by (simp_all add: js_isInteger_def num_int_def quotient_of_int)

text \<open>\<open>Number\<close> of a plain decimal literal.\<close>

lemma js_Number_digits:
  assumes ne: "s \<noteq> []" and d: "\<forall>c \<in> set s. is_digit c" and "dec_val s < 2 ^ 1024"
  shows "js_Number s = Num (of_nat (dec_val s))"
proof -
  have tw: "takeWhile is_digit s = s" "dropWhile is_digit s = []" using d by simp_all
  have "of_nat (dec_val s) < (of_nat (2 ^ 1024) :: rat)" using assms(3) unfolding of_nat_less_iff .
  then have small: "\<not> 2 ^ 1024 \<le> (of_nat (dec_val s) :: rat)" unfolding of_nat_power of_nat_numeral not_le .
  have "unsigned_decimal s = Some (of_nat (dec_val s))"
    using ne by (simp add: unsigned_decimal_def tw exponent_part_def pow10_def)
  moreover have "s \<noteq> ''Infinity''" using d by (auto simp: is_digit_def)
  ultimately have sd: "signed_decimal False s = Num (of_nat (dec_val s))"
    unfolding signed_decimal_def using small by (simp only: if_False option.case if_not_P)
  have pre: "take 2 s \<noteq> [a, b]" if "\<not> is_digit b" for a b
  proof
    assume "take 2 s = [a, b]"
    then have "b \<in> set (take 2 s)" by simp
    with d that show False by (auto dest: in_set_takeD)
  qed
  have "take 2 s \<notin> {''0x'', ''0X''}" "take 2 s \<notin> {''0o'', ''0O''}" "take 2 s \<notin> {''0b'', ''0B''}"
    using pre by (auto simp: is_digit_def)
  moreover have "hd s \<noteq> CHR ''-''" "hd s \<noteq> CHR ''+''" using d ne by (auto simp: is_digit_def dest!: hd_in_set)
  ultimately show ?thesis using ne sd js_trim_digits [OF d] by (simp only: js_Number_def Let_def if_False)
qed

subsection \<open>JSON\<close>

datatype json =
    JNull | JBool bool | JNumber js_num | JString string | JArray "json list"
  | JObject "(string \<times> json) list" | JBigInt int

definition jfield :: "string \<Rightarrow> json \<Rightarrow> json option" where
  "jfield nm j = (case j of JObject kvs \<Rightarrow> map_of (rev kvs) nm | _ \<Rightarrow> None)"

text \<open>The replacer the server gives to \<open>JSON.stringify\<close>: a \<open>bigint\<close> is written as a string.\<close>

fun stringify_bigints :: "json \<Rightarrow> json" where
  "stringify_bigints (JBigInt i) = JString (show_int i)"
| "stringify_bigints (JArray xs) = JArray (map stringify_bigints xs)"
| "stringify_bigints (JObject kvs) = JObject (map (\<lambda>(k, v). (k, stringify_bigints v)) kvs)"
| "stringify_bigints j = j"

text \<open>\<open>String(value)\<close> of a JSON value.\<close>

fun json_String :: "json \<Rightarrow> string" where
  "json_String JNull = ''null''"
| "json_String (JBool b) = (if b then ''true'' else ''false'')"
| "json_String (JNumber n) = show_num n"
| "json_String (JString s) = s"
| "json_String (JArray xs) = join_with '','' (map (\<lambda>x. if x = JNull then [] else json_String x) xs)"
| "json_String (JObject _) = ''[object Object]''"
| "json_String (JBigInt i) = show_int i"

subsection \<open>Environment variables\<close>

type_synonym env = "string \<Rightarrow> string option"

definition env_or :: "env \<Rightarrow> string \<Rightarrow> string \<Rightarrow> string" where
  "env_or env nm fallback = (case env nm of None \<Rightarrow> fallback | Some v \<Rightarrow> v)"

definition required :: "env \<Rightarrow> string \<Rightarrow> string res" where
  "required env nm =
     (case env nm of
        None \<Rightarrow> Throw (new_error PlainError (nm @ '' env var is required''))
      | Some v \<Rightarrow> (if v = [] then Throw (new_error PlainError (nm @ '' env var is required'')) else Ok v))"

lemma required_Ok: "required env nm = Ok v \<longleftrightarrow> env nm = Some v \<and> v \<noteq> []"
  by (auto simp: required_def split: option.splits)

text \<open>What an ethers \<open>Wallet\<close> built from a private key offers the services.\<close>

record eth_wallet =
  wl_address :: string
  wl_sign :: "string \<Rightarrow> (string \<times> string \<times> int) res"

end
