(* ===== verification/Quoter_Service.thy ===== *)
theory Quoter_Service
  imports Signed_Quote Js_Values Retry_Calls
begin

section \<open>The quoter service\<close>

text \<open>
  \<open>quoter-service/src/quoter.ts\<close> (the price the contract asks), \<open>server.ts\<close> (the HTTP endpoint
  that signs quotes) and \<open>config.ts\<close>. The contract's answers are fields of \<open>onchain_quoter\<close>, by
  attempt. A request is its method, URL and the body's chunks, a response the status and the
  JSON body; \<open>handleQuote\<close> throws where the handler rejects, and the server turns that into 500.
\<close>

record onchain_quoter =
  oq_requestQuote :: "int \<Rightarrow> string \<Rightarrow> string \<Rightarrow> string \<Rightarrow> string \<Rightarrow> nat \<Rightarrow> int res"
  oq_isAuthorizedQuoter :: "string \<Rightarrow> nat \<Rightarrow> bool res"
  oq_contractAddress :: string
  oq_retry :: retry_options

record quote_request =
  qr_dstChain :: int
  qr_dstAddr :: string
  qr_msgValue :: int
  qr_gasLimit :: int

definition UNUSED_REFUND_ADDR :: string where
  "UNUSED_REFUND_ADDR = ''0x'' @ replicate 40 CHR ''0''"

definition normalizeDstAddr :: "ethers \<Rightarrow> string \<Rightarrow> string res" where
  "normalizeDstAddr eth raw =
     (if isHexString eth raw 32 then Ok (toLowerCase raw)
      else if isHexString eth raw 20 then bind_res (zeroPadValue eth raw 32) (\<lambda>p. Ok (toLowerCase p))
      else Throw (new_error TypeError (''dstAddr must be 20- or 32-byte hex string, got '' @ raw)))"

definition padStart :: "nat \<Rightarrow> char \<Rightarrow> string \<Rightarrow> string" where
  "padStart n c s = replicate (n - length s) c @ s"

definition encodeUint256 :: "int \<Rightarrow> string res" where
  "encodeUint256 v =
     (if v < 0 then Throw (new_error RangeError (''expected non-negative uint256, got '' @ show_int v))
      else Ok (''0x'' @ padStart 64 CHR ''0'' (show_hex (nat v))))"

definition fetchRequiredPayment :: "ethers \<Rightarrow> onchain_quoter \<Rightarrow> quote_request \<Rightarrow> int res" where
  "fetchRequiredPayment eth oq req =
     bind_res (normalizeDstAddr eth (qr_dstAddr req)) (\<lambda>dstAddr.
     bind_res (encodeUint256 (qr_msgValue req)) (\<lambda>requestBytes.
     bind_res (encodeUint256 (qr_gasLimit req)) (\<lambda>relayInstructions.
       quoter_retry (oq_retry oq)
         (oq_requestQuote oq (qr_dstChain req) dstAddr UNUSED_REFUND_ADDR requestBytes relayInstructions))))"

definition assertAuthorized :: "ethers \<Rightarrow> onchain_quoter \<Rightarrow> string \<Rightarrow> unit res" where
  "assertAuthorized eth oq quoterAddress =
     bind_res (getAddress eth quoterAddress) (\<lambda>addr.
     bind_res (quoter_retry (oq_retry oq) (oq_isAuthorizedQuoter oq addr)) (\<lambda>ok.
     guard_res (\<not> ok) (new_error QuoterNotAuthorizedError
       (''quoter '' @ addr @ '' is not in PenguinBridgeExecutionQuoter('' @ oq_contractAddress oq
         @ '').authorizedQuoters -- register it via addQuoter() or rotate the signing key''))))"

subsection \<open>Requests\<close>

definition parseBigInt :: "string \<Rightarrow> json option \<Rightarrow> int res" where
  "parseBigInt nm raw =
     (case raw of
        None \<Rightarrow> Ok 0
      | Some JNull \<Rightarrow> Ok 0
      | Some (JNumber n) \<Rightarrow>
          (if \<not> js_isInteger n \<or> num_less n 0 then
             Throw (new_error BadRequest (nm @ '' must be a non-negative integer''))
           else Ok (num_int n))
      | Some (JString s) \<Rightarrow>
          (if s = [] then Ok 0
           else (case js_BigInt s of
                   None \<Rightarrow> Throw (new_error BadRequest (nm @ '' is not a valid integer''))
                 | Some v \<Rightarrow> (if v < 0 then Throw (new_error BadRequest (nm @ '' must be non-negative'')) else Ok v)))
      | _ \<Rightarrow> Throw (new_error BadRequest (nm @ '' must be a number or numeric string'')))"

definition parseUint16 :: "string \<Rightarrow> json option \<Rightarrow> int res" where
  "parseUint16 nm raw =
     (case raw of
        Some (JNumber n) \<Rightarrow>
          (if \<not> js_isInteger n \<or> num_less n 0 \<or> num_greater n 0xffff
           then Throw (new_error BadRequest (nm @ '' must be a uint16'')) else Ok (num_int n))
      | _ \<Rightarrow> Throw (new_error BadRequest (nm @ '' must be a uint16'')))"

definition parseHexAddress :: "ethers \<Rightarrow> string \<Rightarrow> json option \<Rightarrow> string res" where
  "parseHexAddress eth nm raw =
     (case raw of
        Some (JString s) \<Rightarrow>
          (if \<not> isHexString eth s 20 \<and> \<not> isHexString eth s 32
           then Throw (new_error BadRequest (nm @ '' must be a 20- or 32-byte hex string'')) else Ok s)
      | _ \<Rightarrow> Throw (new_error BadRequest (nm @ '' must be a hex string'')))"

definition parseQuoteRequest :: "ethers \<Rightarrow> json \<Rightarrow> quote_request res" where
  "parseQuoteRequest eth body =
     bind_res (parseUint16 ''dstChain'' (jfield ''dstChain'' body)) (\<lambda>dstChain.
     bind_res (parseHexAddress eth ''dstAddr'' (jfield ''dstAddr'' body)) (\<lambda>dstAddr.
     bind_res (parseBigInt ''msgValue'' (jfield ''msgValue'' body)) (\<lambda>msgValue.
     bind_res (parseBigInt ''gasLimit'' (jfield ''gasLimit'' body)) (\<lambda>gasLimit.
       Ok \<lparr>qr_dstChain = dstChain, qr_dstAddr = dstAddr, qr_msgValue = msgValue, qr_gasLimit = gasLimit\<rparr>))))"

definition MAX_BODY_BYTES :: nat where
  "MAX_BODY_BYTES = 16 * 1024"

fun read_chunks :: "nat \<Rightarrow> bytes \<Rightarrow> bytes list \<Rightarrow> bytes res" where
  "read_chunks sofar acc [] = Ok acc"
| "read_chunks sofar acc (c # cs) =
     (let sofar = sofar + length c in
      if MAX_BODY_BYTES < sofar then Throw (new_error BadRequest ''request body too large'')
      else read_chunks sofar (acc @ c) cs)"

definition readJsonBody :: "(bytes \<Rightarrow> json option) \<Rightarrow> bytes list \<Rightarrow> json res" where
  "readJsonBody json_parse chunks =
     bind_res (read_chunks 0 [] chunks) (\<lambda>bytes.
       if bytes = [] then Ok (JObject [])
       else (case json_parse bytes of
               None \<Rightarrow> Throw (new_error BadRequest ''invalid JSON body'')
             | Some j \<Rightarrow> Ok j))"

subsection \<open>The server\<close>

record quoter_config =
  qc_sign :: "string \<Rightarrow> (string \<times> string \<times> int) res"
  qc_quoterAddress :: string
  qc_payeeAddress :: string
  qc_rpcUrl :: string
  qc_contractAddress :: string
  qc_srcChain :: int
  qc_validitySeconds :: int
  qc_host :: string
  qc_port :: int
  qc_retry :: retry_options

type_synonym http_response = "nat \<times> json"

definition sendJson :: "nat \<Rightarrow> json \<Rightarrow> http_response" where
  "sendJson st body = (st, stringify_bigints body)"

definition bad_request :: "js_error \<Rightarrow> http_response" where
  "bad_request err =
     sendJson 400 (JObject [(''error'', JString (if ekind err = BadRequest then emessage err else ''bad request''))])"

definition quote_for :: "quoter_config \<Rightarrow> quote_request \<Rightarrow> int \<Rightarrow> int \<Rightarrow> quote_body" where
  "quote_for cfg req now pay =
     \<lparr>qb_quoterAddress = qc_quoterAddress cfg, qb_payeeAddress = qc_payeeAddress cfg,
      qb_srcChain = qc_srcChain cfg, qb_dstChain = qr_dstChain req,
      qb_expiryTime = now + qc_validitySeconds cfg, qb_gasLimit = qr_gasLimit req, qb_requiredPayment = pay\<rparr>"

definition quote_response :: "quote_body \<Rightarrow> string \<Rightarrow> http_response" where
  "quote_response b sqb =
     sendJson 200 (JObject
       [(''signedQuoteBytes'', JString sqb), (''requiredPayment'', JString (show_int (qb_requiredPayment b))),
        (''expiryTime'', JString (show_int (qb_expiryTime b))), (''gasLimit'', JString (show_int (qb_gasLimit b))),
        (''srcChain'', JNumber (Num (of_int (qb_srcChain b)))), (''dstChain'', JNumber (Num (of_int (qb_dstChain b)))),
        (''quoterAddress'', JString (qb_quoterAddress b)), (''payeeAddress'', JString (qb_payeeAddress b))])"

definition handleQuote ::
  "ethers \<Rightarrow> (bytes \<Rightarrow> json option) \<Rightarrow> quoter_config \<Rightarrow> onchain_quoter \<Rightarrow> int \<Rightarrow> bytes list \<Rightarrow> http_response res" where
  "handleQuote eth json_parse cfg oq now chunks =
     (case readJsonBody json_parse chunks of
        Inl err \<Rightarrow> Ok (bad_request err)
      | Inr raw \<Rightarrow>
          (case parseQuoteRequest eth (if raw = JNull then JObject [] else raw) of
             Inl err \<Rightarrow> Ok (bad_request err)
           | Inr req \<Rightarrow>
               (case fetchRequiredPayment eth oq req of
                  Inl err \<Rightarrow> Ok (sendJson 502 (JObject [(''error'', JString ''upstream quote fetch failed''),
                                                       (''detail'', JString (emessage err))]))
                | Inr pay \<Rightarrow>
                    bind_res (signQuote eth (qc_sign cfg) (quote_for cfg req now pay)) (\<lambda>signed.
                      Ok (quote_response (quote_for cfg req now pay) (signedQuoteBytes signed))))))"

definition quoter_server ::
  "ethers \<Rightarrow> (bytes \<Rightarrow> json option) \<Rightarrow> quoter_config \<Rightarrow> onchain_quoter \<Rightarrow> int \<Rightarrow> string \<Rightarrow> string \<Rightarrow> bytes list \<Rightarrow> http_response" where
  "quoter_server eth json_parse cfg oq now method url chunks =
     (if method = ''GET'' \<and> (url = ''/health'' \<or> url = ''/healthz'') then
        sendJson 200 (JObject [(''status'', JString ''ok'')])
      else if method = ''POST'' \<and> url = ''/quote'' then
        (case handleQuote eth json_parse cfg oq now chunks of
           Inr r \<Rightarrow> r
         | Inl err \<Rightarrow> sendJson 500 (JObject [(''error'', JString ''internal error''), (''detail'', JString (emessage err))]))
      else sendJson 404 (JObject [(''error'', JString ''not found'')]))"

subsection \<open>Configuration\<close>

definition parsePayeeAddress :: "ethers \<Rightarrow> string \<Rightarrow> string res" where
  "parsePayeeAddress eth raw =
     (if isHexString eth raw 32 then Ok (toLowerCase raw)
      else if isHexString eth raw 20 then bind_res (zeroPadValue eth raw 32) (\<lambda>p. Ok (toLowerCase p))
      else Throw (new_error PlainError (''QUOTER_PAYEE_ADDRESS must be a 20- or 32-byte hex string, got '' @ raw)))"

definition checked_number :: "js_num \<Rightarrow> bool \<Rightarrow> string \<Rightarrow> int res" where
  "checked_number n bad msg =
     (if \<not> js_isInteger n \<or> bad then Throw (new_error PlainError (msg @ show_num n)) else Ok (num_int n))"

definition number_env :: "string \<Rightarrow> (js_num \<Rightarrow> bool) \<Rightarrow> string \<Rightarrow> int res" where
  "number_env raw bad msg = checked_number (js_Number raw) (bad (js_Number raw)) msg"

definition quoter_network :: "env \<Rightarrow> (int \<times> int \<times> int) res" where
  "quoter_network env =
     bind_res (required env ''QUOTER_SRC_CHAIN'') (\<lambda>rawChain.
     bind_res (number_env rawChain (\<lambda>n. num_less n 0 \<or> num_greater n 0xffff)
       ''QUOTER_SRC_CHAIN must be a uint16, got '') (\<lambda>srcChain.
     bind_res (number_env (env_or env ''QUOTER_VALIDITY_SECONDS'' ''120'') (\<lambda>n. \<not> num_greater n 0 \<or> num_greater n 3600)
       ''QUOTER_VALIDITY_SECONDS must be an integer in (0, 3600], got '') (\<lambda>validity.
     bind_res (number_env (env_or env ''QUOTER_PORT'' ''3000'') (\<lambda>n. num_less n 0 \<or> num_greater n 0xffff)
       ''QUOTER_PORT must be a uint16, got '') (\<lambda>port.
       Ok (srcChain, validity, port)))))"

definition quoter_rpc_retry :: "env \<Rightarrow> retry_options res" where
  "quoter_rpc_retry env =
     bind_res (number_env (env_or env ''QUOTER_RPC_MAX_ATTEMPTS'' ''3'') (\<lambda>n. num_less n 1)
       ''QUOTER_RPC_MAX_ATTEMPTS must be >= 1, got '') (\<lambda>maxA.
     bind_res (number_env (env_or env ''QUOTER_RPC_INITIAL_DELAY_MS'' ''200'') (\<lambda>n. num_less n 0)
       ''QUOTER_RPC_INITIAL_DELAY_MS must be >= 0, got '') (\<lambda>initD.
     bind_res (number_env (env_or env ''QUOTER_RPC_MAX_DELAY_MS'' ''2000'') (\<lambda>n. num_less n (of_int initD))
       ''QUOTER_RPC_MAX_DELAY_MS must be an integer >= QUOTER_RPC_INITIAL_DELAY_MS, got '') (\<lambda>maxD.
       Ok \<lparr>maxAttempts = nat maxA, initialDelayMs = nat initD, maxDelayMs = nat maxD\<rparr>)))"

definition quoter_loadConfig :: "ethers \<Rightarrow> (string \<Rightarrow> eth_wallet res) \<Rightarrow> env \<Rightarrow> quoter_config res" where
  "quoter_loadConfig eth newWallet env =
     bind_res (required env ''QUOTER_PRIVATE_KEY'') (\<lambda>key.
     bind_res (newWallet key) (\<lambda>wallet.
     bind_res (quoter_network env) (\<lambda>(srcChain, validity, port).
     bind_res (quoter_rpc_retry env) (\<lambda>retry.
     bind_res (getAddress eth (wl_address wallet)) (\<lambda>quoterAddress.
     bind_res (required env ''QUOTER_PAYEE_ADDRESS'') (\<lambda>rawPayee.
     bind_res (parsePayeeAddress eth rawPayee) (\<lambda>payee.
     bind_res (required env ''QUOTER_RPC_URL'') (\<lambda>rpc.
     bind_res (required env ''QUOTER_CONTRACT_ADDRESS'') (\<lambda>rawContract.
     bind_res (getAddress eth rawContract) (\<lambda>contract.
       Ok \<lparr>qc_sign = wl_sign wallet, qc_quoterAddress = quoterAddress, qc_payeeAddress = payee,
           qc_rpcUrl = rpc, qc_contractAddress = contract, qc_srcChain = srcChain, qc_validitySeconds = validity,
           qc_host = env_or env ''QUOTER_HOST'' ''127.0.0.1'', qc_port = port, qc_retry = retry\<rparr>))))))))))"

end
