(* ===== verification/Quoter_Correct.thy ===== *)
theory Quoter_Correct
  imports Quoter_Service
begin

section \<open>Correctness of the quoter service\<close>

text \<open>
  What a configuration that loads guarantees, what the contract is asked, what a signed response
  says, and which status the server answers with.
\<close>

lemma checked_number_Ok: "checked_number n bad msg = Ok i \<longleftrightarrow> js_isInteger n \<and> \<not> bad \<and> i = num_int n"
  by (auto simp: checked_number_def)

lemma num_bounds:
  assumes "js_isInteger n"
  shows "num_less n b \<longleftrightarrow> of_int (num_int n) < b" and "num_greater n b \<longleftrightarrow> b < of_int (num_int n)"
  by (subst js_isInteger_num [OF assms], simp add: num_less_def num_greater_def)+

lemma number_env_Ok:
  assumes "number_env raw bad msg = Ok i"
  shows "\<exists>n. js_isInteger n \<and> \<not> bad n \<and> i = num_int n"
  using assms unfolding number_env_def checked_number_Ok by blast

lemma quoter_network_Ok:
  assumes "quoter_network env = Ok (src, val, pt)"
  shows "0 \<le> src \<and> src \<le> 65535 \<and> 0 < val \<and> val \<le> 3600 \<and> 0 \<le> pt \<and> pt \<le> 65535"
  using assms unfolding quoter_network_def bind_res_Ok_iff
  by (elim exE conjE) (drule number_env_Ok, drule number_env_Ok, drule number_env_Ok, auto simp: num_bounds)

lemma quoter_rpc_retry_Ok:
  assumes "quoter_rpc_retry env = Ok retry"
  shows "1 \<le> maxAttempts retry \<and> initialDelayMs retry \<le> maxDelayMs retry"
  using assms unfolding quoter_rpc_retry_def bind_res_Ok_iff
  by (elim exE conjE) (drule number_env_Ok, drule number_env_Ok, drule number_env_Ok, auto simp: num_bounds)

lemma quoter_loadConfig_Ok:
  assumes "quoter_loadConfig eth newWallet env = Ok cfg"
  shows "0 \<le> qc_srcChain cfg \<and> qc_srcChain cfg \<le> 65535 \<and> 0 < qc_validitySeconds cfg \<and> qc_validitySeconds cfg \<le> 3600 \<and>
    0 \<le> qc_port cfg \<and> qc_port cfg \<le> 65535 \<and> 1 \<le> maxAttempts (qc_retry cfg) \<and>
    initialDelayMs (qc_retry cfg) \<le> maxDelayMs (qc_retry cfg)"
proof -
  obtain src val pt where "quoter_network env = Ok (src, val, pt)"
    "qc_srcChain cfg = src" "qc_validitySeconds cfg = val" "qc_port cfg = pt" "quoter_rpc_retry env = Ok (qc_retry cfg)"
    using assms unfolding quoter_loadConfig_def bind_res_Ok_iff by (auto simp: bind_res_Ok_iff)
  with quoter_network_Ok quoter_rpc_retry_Ok show ?thesis by blast
qed

lemma encodeUint256_Ok:
  assumes "encodeUint256 v = Ok s"
  shows "0 \<le> v \<and> js_BigInt s = Some v \<and> (length s = 66 \<longleftrightarrow> v < 2 ^ 256)"
proof -
  let ?h = "show_hex (nat v)"
  have v: "0 \<le> v" and s: "s = ''0x'' @ padStart 64 CHR ''0'' ?h"
    using assms by (auto simp: encodeUint256_def split: if_splits)
  have zeros: "radix_val 16 0 (replicate k CHR ''0'' @ t) = radix_val 16 0 t" for k t
    by (induction k) (simp_all add: radix_digit_def)
  have "length ?h \<noteq> 0" by (subst show_hex.simps) simp
  then have ne: "padStart 64 CHR ''0'' ?h \<noteq> []" by (simp add: padStart_def)
  have "last ?h = hex_digit (nat v mod 16)" by (subst show_hex.simps) simp
  then have "\<not> is_space (last (padStart 64 CHR ''0'' ?h))"
    using \<open>length ?h \<noteq> 0\<close> by (auto simp: padStart_def is_space_def hex_digit_def)
  then have "js_trim s = s" using ne by (simp add: s js_trim_def is_space_def dropWhile_eq_self_iff hd_rev)
  then have "js_BigInt s = Some v"
    using ne v by (simp add: s js_BigInt_def unsigned_literal_def padStart_def zeros radix_val_show_hex)
  moreover have "length s = 66 \<longleftrightarrow> length ?h \<le> 64" by (auto simp: s padStart_def)
  then have "length s = 66 \<longleftrightarrow> nat v < 16 ^ 64" by (simp add: length_show_hex)
  then have "length s = 66 \<longleftrightarrow> v < 2 ^ 256" using v by (simp add: nat_less_iff)
  ultimately show ?thesis using v by blast
qed

lemma fetchRequiredPayment_Ok:
  assumes "fetchRequiredPayment eth oq req = Ok pay"
  shows "\<exists>dst mb gb k. normalizeDstAddr eth (qr_dstAddr req) = Ok dst \<and>
    oq_requestQuote oq (qr_dstChain req) dst UNUSED_REFUND_ADDR mb gb k = Ok pay \<and>
    js_BigInt mb = Some (qr_msgValue req) \<and> js_BigInt gb = Some (qr_gasLimit req)"
  using assms encodeUint256_Ok unfolding fetchRequiredPayment_def bind_res_Ok_iff service_retry_eq
  by (blast elim: rpc_retry_Ok)

lemma quote_fields_of_response:
  "jfield ''signedQuoteBytes'' (snd (quote_response b sqb)) = Some (JString sqb)"
  "jfield ''requiredPayment'' (snd (quote_response b sqb)) = Some (JString (show_int (qb_requiredPayment b)))"
  "jfield ''expiryTime'' (snd (quote_response b sqb)) = Some (JString (show_int (qb_expiryTime b)))"
  by (simp_all add: quote_response_def sendJson_def jfield_def)

lemma server_200:
  assumes "quoter_server eth jp cfg oq now ''POST'' ''/quote'' chunks = (200, body)"
  obtains raw req pay sq where "readJsonBody jp chunks = Ok raw"
    "parseQuoteRequest eth (if raw = JNull then JObject [] else raw) = Ok req"
    "fetchRequiredPayment eth oq req = Ok pay" "signQuote eth (qc_sign cfg) (quote_for cfg req now pay) = Ok sq"
    "(200, body) = quote_response (quote_for cfg req now pay) (signedQuoteBytes sq)"
proof -
  have st: "fst (sendJson n j) = n" for n j by (simp add: sendJson_def)
  have srv: "(case handleQuote eth jp cfg oq now chunks of Inr r \<Rightarrow> r
      | Inl err \<Rightarrow> sendJson 500 (JObject [(''error'', JString ''internal error''), (''detail'', JString (emessage err))])) = (200, body)"
    using assms by (simp add: quoter_server_def)
  then have h: "handleQuote eth jp cfg oq now chunks = Ok (200, body)"
    by (cases "handleQuote eth jp cfg oq now chunks") (auto simp: sendJson_def)
  obtain raw where raw: "readJsonBody jp chunks = Ok raw"
    using h by (cases "readJsonBody jp chunks") (auto simp: handleQuote_def bad_request_def sendJson_def)
  obtain req where req: "parseQuoteRequest eth (if raw = JNull then JObject [] else raw) = Ok req"
    using h raw by (cases "parseQuoteRequest eth (if raw = JNull then JObject [] else raw)")
      (auto simp: handleQuote_def bad_request_def sendJson_def)
  obtain pay where pay: "fetchRequiredPayment eth oq req = Ok pay"
    using h raw req by (cases "fetchRequiredPayment eth oq req") (auto simp: handleQuote_def sendJson_def)
  show ?thesis
    using h raw req pay by (auto simp: handleQuote_def bind_res_Ok_iff intro!: that [OF raw req pay])
qed

text \<open>C20: A quote the server answers with 200 is the quote it signed: the returned bytes decode to the
  destination chain and gas limit of the request, the payment the contract asked for exactly that
  request, and the service's own chain; the figures in the JSON body are those of the signed
  bytes; and the quote expires after now and at most an hour later.\<close>

theorem quote_response_is_signed:
  assumes "ethers_quote_laws eth" and "key_signs eth (qc_sign cfg)"
    and "quoter_loadConfig eth newWallet env = Ok cfg"
    and "quoter_server eth jp cfg oq now ''POST'' ''/quote'' chunks = (200, body)"
  shows "\<exists>raw req dst mb gb k sqb d. readJsonBody jp chunks = Ok raw \<and>
    parseQuoteRequest eth (if raw = JNull then JObject [] else raw) = Ok req \<and>
    oq_requestQuote oq (qr_dstChain req) dst UNUSED_REFUND_ADDR mb gb k = Ok (qb_requiredPayment d) \<and>
    js_BigInt mb = Some (qr_msgValue req) \<and> js_BigInt gb = Some (qr_gasLimit req) \<and>
    jfield ''signedQuoteBytes'' body = Some (JString sqb) \<and> decodeSignedQuote eth sqb = Ok d \<and>
    qb_dstChain d = qr_dstChain req \<and> qb_gasLimit d = qr_gasLimit req \<and> qb_srcChain d = qc_srcChain cfg \<and>
    now < qb_expiryTime d \<and> qb_expiryTime d \<le> now + 3600 \<and>
    jfield ''requiredPayment'' body = Some (JString (show_int (qb_requiredPayment d))) \<and>
    jfield ''expiryTime'' body = Some (JString (show_int (qb_expiryTime d)))"
proof -
  obtain raw req pay sq where s: "readJsonBody jp chunks = Ok raw"
    "parseQuoteRequest eth (if raw = JNull then JObject [] else raw) = Ok req"
    "fetchRequiredPayment eth oq req = Ok pay" "signQuote eth (qc_sign cfg) (quote_for cfg req now pay) = Ok sq"
    "(200, body) = quote_response (quote_for cfg req now pay) (signedQuoteBytes sq)"
    using assms(4) by (rule server_200)
  let ?b = "quote_for cfg req now pay"
  obtain a p where d: "sq = quote_body.extend ?b \<lparr>signedQuoteBytes = signedQuoteBytes sq\<rparr>"
    "decodeSignedQuote eth (signedQuoteBytes sq) = Ok (sq\<lparr>qb_quoterAddress := a, qb_payeeAddress := hexlify eth p\<rparr>)"
    using assms(1,2) s(4) by (blast elim: signed_quote_decodes)
  let ?d = "sq\<lparr>qb_quoterAddress := a, qb_payeeAddress := hexlify eth p\<rparr>"
  have f: "qb_srcChain ?d = qb_srcChain ?b" "qb_dstChain ?d = qb_dstChain ?b" "qb_expiryTime ?d = qb_expiryTime ?b"
    "qb_gasLimit ?d = qb_gasLimit ?b" "qb_requiredPayment ?d = qb_requiredPayment ?b"
    by (subst d(1), simp add: quote_body.defs)+
  have body: "body = snd (quote_response ?b (signedQuoteBytes sq))" using s(5) by (metis snd_conv)
  have b: "qb_srcChain ?b = qc_srcChain cfg" "qb_dstChain ?b = qr_dstChain req" "qb_gasLimit ?b = qr_gasLimit req"
    "qb_expiryTime ?b = now + qc_validitySeconds cfg" "qb_requiredPayment ?b = pay" by (simp_all add: quote_for_def)
  obtain dst mb gb k where c: "oq_requestQuote oq (qr_dstChain req) dst UNUSED_REFUND_ADDR mb gb k = Ok pay"
    "js_BigInt mb = Some (qr_msgValue req)" "js_BigInt gb = Some (qr_gasLimit req)"
    using fetchRequiredPayment_Ok [OF s(3)] by blast
  show ?thesis
  proof (intro exI conjI)
    show "readJsonBody jp chunks = Ok raw" by (rule s(1))
    show "parseQuoteRequest eth (if raw = JNull then JObject [] else raw) = Ok req" by (rule s(2))
    show "oq_requestQuote oq (qr_dstChain req) dst UNUSED_REFUND_ADDR mb gb k = Ok (qb_requiredPayment ?d)"
      unfolding f b by (rule c(1))
    show "decodeSignedQuote eth (signedQuoteBytes sq) = Ok ?d" by (rule d(2))
    show "jfield ''signedQuoteBytes'' body = Some (JString (signedQuoteBytes sq))"
      "jfield ''requiredPayment'' body = Some (JString (show_int (qb_requiredPayment ?d)))"
      "jfield ''expiryTime'' body = Some (JString (show_int (qb_expiryTime ?d)))"
      unfolding f body by (rule quote_fields_of_response)+
    show "qb_dstChain ?d = qr_dstChain req" "qb_gasLimit ?d = qr_gasLimit req" "qb_srcChain ?d = qc_srcChain cfg"
      unfolding f b by (rule refl)+
    show "now < qb_expiryTime ?d" "qb_expiryTime ?d \<le> now + 3600"
      unfolding f b using quoter_loadConfig_Ok [OF assms(3)] by linarith+
  qed (rule c)+
qed

subsection \<open>Which status the server answers with\<close>

lemma parseBigInt_Ok: "parseBigInt nm raw = Ok v \<Longrightarrow> 0 \<le> v"
  by (auto simp: parseBigInt_def num_bounds split: option.splits json.splits if_splits)

lemma parseUint16_Ok: "parseUint16 nm raw = Ok v \<Longrightarrow> 0 \<le> v \<and> v \<le> 65535"
  by (auto simp: parseUint16_def num_bounds split: option.splits json.splits if_splits)

lemma parseQuoteRequest_Ok:
  assumes "parseQuoteRequest eth body = Ok req"
  shows "0 \<le> qr_dstChain req \<and> qr_dstChain req \<le> 65535 \<and> 0 \<le> qr_gasLimit req"
proof -
  have "parseUint16 ''dstChain'' (jfield ''dstChain'' body) = Ok (qr_dstChain req)"
    "parseBigInt ''gasLimit'' (jfield ''gasLimit'' body) = Ok (qr_gasLimit req)"
    using assms unfolding parseQuoteRequest_def bind_res_Ok_iff by (elim exE conjE, simp only: sum.inject, fastforce)+
  then show ?thesis using parseUint16_Ok parseBigInt_Ok by blast
qed

lemma check_quote_iff:
  "check_quote eth b = Ok u \<longleftrightarrow> 0 \<le> qb_srcChain b \<and> qb_srcChain b \<le> 65535 \<and> 0 \<le> qb_dstChain b \<and> qb_dstChain b \<le> 65535 \<and>
    0 \<le> qb_expiryTime b \<and> qb_expiryTime b \<le> 2 ^ 64 - 1 \<and> 0 \<le> qb_gasLimit b \<and> qb_gasLimit b \<le> 2 ^ 256 - 1 \<and>
    0 \<le> qb_requiredPayment b \<and> qb_requiredPayment b \<le> 2 ^ 256 - 1 \<and>
    isHexString eth (qb_payeeAddress b) 32 \<and> isHexString eth (qb_quoterAddress b) 20"
  unfolding check_quote_def bind_res_Ok_iff guard_res_Ok by (auto simp: not_less)

lemma signQuote_Ok_iff:
  assumes laws: "ethers_quote_laws eth" and "key_signs eth sign" and "\<And>d. \<not> isl (sign d)"
  shows "isl (signQuote eth sign b) \<longleftrightarrow> isl (check_quote eth b)"
proof (cases "check_quote eth b")
  case (Inl e)
  then show ?thesis by (simp add: signQuote_def encodeQuoteBody_def)
next
  case (Inr u)
  have hex: "isHexString eth s n \<Longrightarrow> \<exists>bs. getBytes eth s = Ok bs \<and> length bs = n" for s n
    using laws unfolding ethers_quote_laws_def ethers_hex_laws_def by blast
  note c = Inr [unfolded check_quote_iff]
  obtain pre where pre: "getBytes eth SIGNED_QUOTE_PREFIX = Ok pre" "length pre = 4"
    using hex laws unfolding ethers_quote_laws_def by blast
  obtain q where q: "getBytes eth (qb_quoterAddress b) = Ok q" "length q = 20" using hex c by blast
  obtain p where p: "getBytes eth (qb_payeeAddress b) = Ok p" "length p = 32" using hex c by blast
  have be: "toBeHex eth v 32 = Ok (hexlify eth (be_encode 32 (nat v)))"
    "getBytes eth (hexlify eth (be_encode 32 (nat v))) = Ok (be_encode 32 (nat v))" if "0 \<le> v" "v \<le> 2 ^ 256 - 1" for v
    using laws that unfolding ethers_quote_laws_def ethers_hex_laws_def by simp_all
  have "\<exists>body. encodeQuoteBody eth b = Ok body"
    using Inr c pre p q be [of "qb_gasLimit b"] be [of "qb_requiredPayment b"]
    by (simp add: encodeQuoteBody_def SIGNED_QUOTE_BODY_LENGTH_def set_hex_eq Let_def del: be_encode.simps)
  then obtain body where body: "encodeQuoteBody eth b = Ok body" ..
  obtain r s v where sg: "sign (keccak256 eth body) = Ok (r, s, v)"
    using assms(3) [of "keccak256 eth body"] by (cases "sign (keccak256 eth body)") auto
  then obtain rb sb where "getBytes eth r = Ok rb" "getBytes eth s = Ok sb"
    using hex assms(2) unfolding key_signs_def by blast
  then show ?thesis using Inr body sg by (simp add: signQuote_def)
qed

text \<open>C21: The server's status says who is at fault: an unreadable or invalid request is answered with
  400, a failing price read with 502, and everything else is signed and answered with 200, but
  for one case: a gas limit that does not fit 256 bits passes the validation, is priced, and then
  fails to encode, so the client's mistake is reported as the internal error 500.\<close>

theorem quoter_status_classes:
  assumes "ethers_quote_laws eth" and "key_signs eth (qc_sign cfg)" and "\<And>d. \<not> isl (qc_sign cfg d)"
    and "quoter_loadConfig eth newWallet env = Ok cfg"
    and "isHexString eth (qc_payeeAddress cfg) 32" and "isHexString eth (qc_quoterAddress cfg) 20"
    and "0 \<le> now" and "now < 2 ^ 63"
    and "\<And>c a r m g k p. oq_requestQuote oq c a r m g k = Ok p \<Longrightarrow> 0 \<le> p \<and> p < 2 ^ 256"
  shows "let st = fst (quoter_server eth jp cfg oq now ''POST'' ''/quote'' chunks) in
    case bind_res (readJsonBody jp chunks) (\<lambda>raw. parseQuoteRequest eth (if raw = JNull then JObject [] else raw)) of
      Inl _ \<Rightarrow> st = 400
    | Inr req \<Rightarrow>
        (case fetchRequiredPayment eth oq req of
           Inl _ \<Rightarrow> st = 502
         | Inr _ \<Rightarrow> st = (if qr_gasLimit req < 2 ^ 256 then 200 else 500))"
proof -
  have srv: "quoter_server eth jp cfg oq now ''POST'' ''/quote'' chunks =
      (case handleQuote eth jp cfg oq now chunks of Inr r \<Rightarrow> r
       | Inl err \<Rightarrow> sendJson 500 (JObject [(''error'', JString ''internal error''), (''detail'', JString (emessage err))]))"
    by (simp add: quoter_server_def)
  have st: "fst (sendJson n j) = n" "fst (bad_request e) = 400" "fst (quote_response b x) = 200" for n j e b x
    by (simp_all add: sendJson_def bad_request_def quote_response_def)
  show ?thesis
  proof (cases "bind_res (readJsonBody jp chunks) (\<lambda>raw. parseQuoteRequest eth (if raw = JNull then JObject [] else raw))")
    case (Inl e)
    then show ?thesis
      unfolding srv handleQuote_def Let_def by (cases "readJsonBody jp chunks") (simp_all add: st)
  next
    case (Inr req)
    then obtain raw where raw: "readJsonBody jp chunks = Ok raw"
      "parseQuoteRequest eth (if raw = JNull then JObject [] else raw) = Ok req" by (auto simp: bind_res_Ok_iff)
    show ?thesis
    proof (cases "fetchRequiredPayment eth oq req")
      case (Inl e)
      then show ?thesis unfolding srv handleQuote_def Let_def Inr raw by (simp add: st raw)
    next
      case (Inr pay)
      have pay: "0 \<le> pay" "pay < 2 ^ 256" using fetchRequiredPayment_Ok [OF Inr] assms(9) by blast+
      let ?b = "quote_for cfg req now pay"
      have "check_quote eth ?b = Ok () \<longleftrightarrow> qr_gasLimit req < 2 ^ 256"
        using pay assms(5-8) parseQuoteRequest_Ok [OF raw(2)] quoter_loadConfig_Ok [OF assms(4)]
        unfolding check_quote_iff by (simp add: quote_for_def) linarith
      then have ok: "isl (signQuote eth (qc_sign cfg) ?b) \<longleftrightarrow> \<not> qr_gasLimit req < 2 ^ 256"
        unfolding signQuote_Ok_iff [OF assms(1-3)] by (cases "check_quote eth ?b") auto
      have "fst (quoter_server eth jp cfg oq now ''POST'' ''/quote'' chunks) = (if qr_gasLimit req < 2 ^ 256 then 200 else 500)"
        unfolding srv handleQuote_def using ok Inr raw(1)
        by (cases "signQuote eth (qc_sign cfg) ?b") (simp_all add: st raw(2))
      then show ?thesis unfolding Let_def \<open>bind_res _ _ = Inr req\<close> sum.case Inr by simp
    qed
  qed
qed

subsection \<open>A concrete server\<close>

definition demo_env :: env where
  "demo_env nm =
     (if nm = ''QUOTER_PRIVATE_KEY'' then Some ''key'' else if nm = ''QUOTER_SRC_CHAIN'' then Some ''2''
      else if nm = ''QUOTER_PAYEE_ADDRESS'' then Some (demo_hexlify (replicate 32 6))
      else if nm = ''QUOTER_RPC_URL'' then Some ''http'' else if nm = ''QUOTER_CONTRACT_ADDRESS'' then Some ''0xc'' else None)"

definition demo_wallet :: "string \<Rightarrow> eth_wallet res" where
  "demo_wallet key = Ok \<lparr>wl_address = demo_hexlify (replicate 20 5), wl_sign = demo_key\<rparr>"

definition demo_config :: quoter_config where
  "demo_config = \<lparr>qc_sign = demo_key, qc_quoterAddress = demo_hexlify (replicate 20 5),
     qc_payeeAddress = demo_hexlify (replicate 32 6), qc_rpcUrl = ''http'', qc_contractAddress = ''0xc'',
     qc_srcChain = 2, qc_validitySeconds = 120, qc_host = ''127.0.0.1'', qc_port = 3000, qc_retry = DEFAULT_RETRY\<rparr>"

definition demo_oq :: onchain_quoter where
  "demo_oq = \<lparr>oq_requestQuote = (\<lambda>c a r m g k. Ok 7000), oq_isAuthorizedQuoter = (\<lambda>a k. Ok True),
     oq_contractAddress = ''0xc'', oq_retry = DEFAULT_RETRY\<rparr>"

definition demo_json :: "int \<Rightarrow> json" where
  "demo_json gas = JObject [(''dstChain'', JNumber (Num (of_int 4))), (''dstAddr'', JString (demo_hexlify (replicate 20 3))),
     (''gasLimit'', JNumber (Num (of_int gas)))]"

lemma demo_numbers:
  "js_Number ''2'' = Num (of_int 2)" "js_Number ''120'' = Num (of_int 120)" "js_Number ''3000'' = Num (of_int 3000)"
  "js_Number ''3'' = Num (of_int 3)" "js_Number ''200'' = Num (of_int 200)" "js_Number ''2000'' = Num (of_int 2000)"
  by (simp_all add: js_Number_digits is_digit_def dec_val_def digit_val_def)

lemma demo_config_loads: "quoter_loadConfig demo_eth demo_wallet demo_env = Ok demo_config"
proof -
  have num: "number_env raw bad msg = (if bad (Num (of_int i)) then checked_number (Num (of_int i)) True msg else Ok i)"
    if "js_Number raw = Num (of_int i)" for raw bad msg i
    using that by (simp add: number_env_def checked_number_def)
  have env: "demo_env ''QUOTER_PRIVATE_KEY'' = Some ''key''" "demo_env ''QUOTER_SRC_CHAIN'' = Some ''2''"
    "demo_env ''QUOTER_PAYEE_ADDRESS'' = Some (demo_hexlify (replicate 32 6))" "demo_env ''QUOTER_RPC_URL'' = Some ''http''"
    "demo_env ''QUOTER_CONTRACT_ADDRESS'' = Some ''0xc''" "demo_env ''QUOTER_VALIDITY_SECONDS'' = None"
    "demo_env ''QUOTER_PORT'' = None" "demo_env ''QUOTER_RPC_MAX_ATTEMPTS'' = None" "demo_env ''QUOTER_RPC_INITIAL_DELAY_MS'' = None"
    "demo_env ''QUOTER_RPC_MAX_DELAY_MS'' = None" "demo_env ''QUOTER_HOST'' = None"
    by (simp_all add: demo_env_def)
  have "quoter_network demo_env = Ok (2, 120, 3000)"
    unfolding quoter_network_def required_def env_or_def env option.case
    by (simp add: num [OF demo_numbers(1)] num [OF demo_numbers(2)] num [OF demo_numbers(3)] num_less_def num_greater_def)
  moreover have "quoter_rpc_retry demo_env = Ok DEFAULT_RETRY"
    unfolding quoter_rpc_retry_def env_or_def env option.case
    by (simp add: num [OF demo_numbers(4)] num [OF demo_numbers(5)] num [OF demo_numbers(6)] num_less_def DEFAULT_RETRY_def)
  moreover have "parsePayeeAddress demo_eth (demo_hexlify (replicate 32 6)) = Ok (demo_hexlify (replicate 32 6))"
    by (simp add: parsePayeeAddress_def demo_eth_def demo_getBytes_hexlify lower_hexlify)
  moreover have "demo_hexlify (replicate 32 6) \<noteq> []" by (simp add: demo_hexlify_def)
  moreover have "getAddress demo_eth a = Ok a" for a by (simp add: demo_eth_def)
  ultimately show ?thesis
    unfolding quoter_loadConfig_def required_def env_or_def env option.case demo_wallet_def demo_config_def by simp
qed

lemma demo_parsed:
  assumes "0 \<le> gas"
  shows "parseQuoteRequest demo_eth (demo_json gas) =
    Ok \<lparr>qr_dstChain = 4, qr_dstAddr = demo_hexlify (replicate 20 3), qr_msgValue = 0, qr_gasLimit = gas\<rparr>"
proof -
  have f: "jfield ''dstChain'' (demo_json gas) = Some (JNumber (Num (of_int 4)))"
    "jfield ''dstAddr'' (demo_json gas) = Some (JString (demo_hexlify (replicate 20 3)))"
    "jfield ''msgValue'' (demo_json gas) = None" "jfield ''gasLimit'' (demo_json gas) = Some (JNumber (Num (of_int gas)))"
    by (simp_all add: demo_json_def jfield_def)
  have "isHexString demo_eth (demo_hexlify (replicate 20 3)) 20" by (simp add: demo_eth_def demo_getBytes_hexlify)
  moreover have "num_less (Num (of_int gas)) 0 = False" using assms by (simp add: num_less_def)
  moreover have "js_isInteger (Num (of_int 4))" "num_int (Num (of_int 4)) = 4" by (rule js_isInteger_of_int)+
  ultimately show ?thesis
    unfolding parseQuoteRequest_def f parseUint16_def parseHexAddress_def parseBigInt_def
    by (simp add: num_less_def num_greater_def)
qed

lemma demo_payment:
  assumes "0 \<le> gas"
  shows "fetchRequiredPayment demo_eth demo_oq
    \<lparr>qr_dstChain = 4, qr_dstAddr = demo_hexlify (replicate 20 3), qr_msgValue = 0, qr_gasLimit = gas\<rparr> = Ok 7000"
  using assms rpc_retry_const [of DEFAULT_RETRY "Ok 7000"]
  by (simp add: fetchRequiredPayment_def normalizeDstAddr_def demo_eth_def demo_getBytes_hexlify encodeUint256_def
      demo_oq_def DEFAULT_RETRY_def)

lemma demo_body:
  "readJsonBody (\<lambda>_. Some (demo_json gas)) [[1]] = Ok (demo_json gas)" "demo_json gas \<noteq> JNull"
  by (simp_all add: readJsonBody_def MAX_BODY_BYTES_def demo_json_def)

lemma demo_key_total: "\<not> isl (qc_sign demo_config d)" "key_signs demo_eth (qc_sign demo_config)"
  using demo_key_signs by (simp_all add: demo_config_def demo_key_def)

lemma demo_hex_config:
  "isHexString demo_eth (qc_payeeAddress demo_config) 32" "isHexString demo_eth (qc_quoterAddress demo_config) 20"
  by (simp_all add: demo_config_def demo_eth_def demo_getBytes_hexlify)

theorem quoter_status_classes_witness:
  "fst (quoter_server demo_eth (\<lambda>_. Some (demo_json 500000)) demo_config demo_oq 1000 ''POST'' ''/quote'' [[1]]) = 200 \<and>
   fst (quoter_server demo_eth (\<lambda>_. Some (demo_json (2 ^ 256))) demo_config demo_oq 1000 ''POST'' ''/quote'' [[1]]) = 500"
proof -
  have pays: "0 \<le> p \<and> p < 2 ^ 256" if "oq_requestQuote demo_oq c a r m g k = Ok p" for c a r m g k p
    using that by (auto simp: demo_oq_def)
  have "fst (quoter_server demo_eth (\<lambda>_. Some (demo_json gas)) demo_config demo_oq 1000 ''POST'' ''/quote'' [[1]]) =
      (if gas < 2 ^ 256 then 200 else 500)" if "0 \<le> gas" for gas
    using quoter_status_classes [OF demo_quote_laws demo_key_total(2,1) demo_config_loads demo_hex_config, of 1000 demo_oq
        "\<lambda>_. Some (demo_json gas)" "[[1]]"] pays demo_parsed [OF that] demo_payment [OF that]
    unfolding Let_def demo_body bind_res_simps by (simp add: demo_body(2))
  from this [of 500000] this [of "2 ^ 256"] show ?thesis by simp
qed

theorem quote_response_is_signed_witness:
  "\<exists>body d sqb. quoter_server demo_eth (\<lambda>_. Some (demo_json 500000)) demo_config demo_oq 1000 ''POST'' ''/quote'' [[1]] = (200, body) \<and>
     jfield ''signedQuoteBytes'' body = Some (JString sqb) \<and> decodeSignedQuote demo_eth sqb = Ok d \<and> qb_expiryTime d \<le> 4600"
proof -
  have check: "check_quote demo_eth (quote_for demo_config
      \<lparr>qr_dstChain = 4, qr_dstAddr = demo_hexlify (replicate 20 3), qr_msgValue = 0, qr_gasLimit = 500000\<rparr> 1000 7000) = Ok ()"
    using demo_hex_config unfolding check_quote_iff by (simp add: quote_for_def) (simp add: demo_config_def)
  then obtain sq where sq: "signQuote demo_eth (qc_sign demo_config) (quote_for demo_config
      \<lparr>qr_dstChain = 4, qr_dstAddr = demo_hexlify (replicate 20 3), qr_msgValue = 0, qr_gasLimit = 500000\<rparr> 1000 7000) = Ok sq"
    using signQuote_Ok_iff [OF demo_quote_laws demo_key_total(2,1)] by (metis isl_def obj_sumE sum.disc(2))
  have "quoter_server demo_eth (\<lambda>_. Some (demo_json 500000)) demo_config demo_oq 1000 ''POST'' ''/quote'' [[1]] =
      (200, snd (quote_response (quote_for demo_config
        \<lparr>qr_dstChain = 4, qr_dstAddr = demo_hexlify (replicate 20 3), qr_msgValue = 0, qr_gasLimit = 500000\<rparr> 1000 7000) (signedQuoteBytes sq)))"
    using demo_body [of 500000] demo_parsed [of 500000] demo_payment [of 500000] sq
    by (simp add: quoter_server_def handleQuote_def) (simp add: quote_response_def sendJson_def)
  from this quote_response_is_signed [OF demo_quote_laws demo_key_total(2) demo_config_loads this]
  show ?thesis by (elim exE conjE) (intro exI conjI, assumption+, simp)
qed

end
