(* ===== verification/Oracle_Scaling.thy ===== *)
theory Oracle_Scaling
  imports Js_Values
begin

section \<open>Price scaling\<close>

text \<open>
  \<open>oracle-service/src/scaling.ts\<close>: USD prices as integers scaled by \<open>1e10\<close>, and the range checks
  of the contract's integer types. The specification is \<open>price_value\<close>, the rational a price
  denotes; the code goes through decimal strings, and \<open>usdToScaled_rounds\<close> shows that it rounds
  that rational half up. A price is a \<open>number\<close> or a numeric string.
\<close>

definition PRICE_DECIMALS :: nat where
  "PRICE_DECIMALS = 10"

definition WAD :: int where
  "WAD = 10 ^ 18"

datatype price = PNumber js_num | PString string

definition show_price :: "price \<Rightarrow> string" where
  "show_price p = (case p of PNumber n \<Rightarrow> show_num n | PString s \<Rightarrow> s)"

text \<open>The regular expression \<open>^(\d+)(?:\.(\d+))?$\<close>: the two groups, the second empty when absent.\<close>

definition match_decimal :: "string \<Rightarrow> (string \<times> string) option" where
  "match_decimal s =
     (let ip = takeWhile is_digit s; rest = dropWhile is_digit s in
      if ip = [] then None
      else if rest = [] then Some (ip, [])
      else if hd rest = CHR ''.'' \<and> tl rest \<noteq> [] \<and> list_all is_digit (tl rest) then Some (ip, tl rest)
      else None)"

definition scaleDecimalString :: "string \<Rightarrow> nat \<Rightarrow> int res" where
  "scaleDecimalString raw decimals =
     (case match_decimal (js_trim raw) of
        None \<Rightarrow> Throw (new_error RangeError (''not a non-negative decimal: '' @ raw))
      | Some (intPart, fr) \<Rightarrow>
          (let roundUp = (decimals < length fr \<and> 5 \<le> digit_val (fr ! decimals));
               fr = (if decimals < length fr then take decimals fr
                       else fr @ replicate (decimals - length fr) CHR ''0'')
           in case js_BigInt (intPart @ fr) of
                None \<Rightarrow> Throw (new_error ForeignError ''Cannot convert to a BigInt'')
              | Some scaled \<Rightarrow> Ok (if roundUp then scaled + 1 else scaled)))"

text \<open>\<open>Number.prototype.toFixed\<close>: nearest, ties to the larger; from \<open>1e21\<close> on it gives exponential notation.\<close>

definition fixed_digits :: "nat \<Rightarrow> nat \<Rightarrow> string" where
  "fixed_digits d n =
     (let m = show_nat n;
          m = (if length m \<le> d then replicate (d + 1 - length m) CHR ''0'' @ m else m)
      in take (length m - d) m @ ''.'' @ drop (length m - d) m)"

definition exponential :: "rat \<Rightarrow> string" where
  "exponential r = (let m = show_int \<lfloor>r\<rfloor> in take 1 m @ ''.'' @ drop 1 m @ ''e+'' @ show_nat (length m - 1))"

definition toFixed :: "rat \<Rightarrow> nat \<Rightarrow> string" where
  "toFixed r d =
     (if 10 ^ 21 \<le> \<bar>r\<bar> then (if r < 0 then ''-'' else []) @ exponential \<bar>r\<bar>
      else (if r < 0 then ''-'' else []) @ fixed_digits d (nat \<lfloor>\<bar>r\<bar> * 10 ^ d + 1 / 2\<rfloor>))"

definition usdToScaled :: "price \<Rightarrow> int res" where
  "usdToScaled p =
     bind_res (case p of
         PNumber (Num r) \<Rightarrow> Ok (toFixed r PRICE_DECIMALS)
       | PNumber n \<Rightarrow> Throw (new_error RangeError (''price must be finite, got '' @ show_num n))
       | PString s \<Rightarrow> Ok s) (\<lambda>asString.
     bind_res (scaleDecimalString asString PRICE_DECIMALS) (\<lambda>scaled.
     bind_res (guard_res (scaled \<le> 0) (new_error RangeError (''price must be positive, got '' @ show_price p))) (\<lambda>_.
     bind_res (guard_res (2 ^ 64 - 1 < scaled)
       (new_error RangeError (''price '' @ show_price p @ '' scaled by 1e10 exceeds uint64''))) (\<lambda>_.
       Ok scaled))))"

definition assertUint :: "nat \<Rightarrow> string \<Rightarrow> int \<Rightarrow> string \<Rightarrow> int res" where
  "assertUint w nm v label =
     (if v < 0 then Throw (new_error RangeError (label @ '' must be non-negative, got '' @ show_int v))
      else if 2 ^ w - 1 < v then Throw (new_error RangeError (label @ '' '' @ show_int v @ '' exceeds '' @ nm))
      else Ok v)"

definition assertUint64 :: "int \<Rightarrow> string \<Rightarrow> int res" where
  "assertUint64 v label = assertUint 64 ''uint64'' v label"

definition assertUint256 :: "int \<Rightarrow> string \<Rightarrow> int res" where
  "assertUint256 v label = assertUint 256 ''uint256'' v label"

definition assertUint16 :: "int \<Rightarrow> string \<Rightarrow> int res" where
  "assertUint16 v label = assertUint 16 ''uint16'' v label"

definition usdRatioWad :: "price \<Rightarrow> price \<Rightarrow> int res" where
  "usdRatioWad numeratorUsd denominatorUsd =
     bind_res (usdToScaled numeratorUsd) (\<lambda>num.
     bind_res (usdToScaled denominatorUsd) (\<lambda>den.
       (let ratio = bigint_div (num * WAD) den in
        bind_res (guard_res (ratio \<le> 0) (new_error RangeError
          (''ratio '' @ show_price numeratorUsd @ ''/'' @ show_price denominatorUsd @ '' scaled to wad is zero''))) (\<lambda>_.
          Ok ratio))))"

subsection \<open>Decimal strings\<close>

lemma dec_val_append: "dec_val (s @ t) = dec_val s * 10 ^ length t + dec_val t"
proof (induction t rule: rev_induct)
  case (snoc c t)
  have "dec_val (s @ t @ [c]) = dec_val (s @ t) * 10 + digit_val c" using dec_val_snoc [of "s @ t" c] by simp
  then show ?case using snoc by (simp add: algebra_simps)
qed simp

lemma dec_val_zeros [simp]: "dec_val (replicate k CHR ''0'') = 0"
proof (induction k)
  case (Suc k)
  have "replicate (Suc k) CHR ''0'' = replicate k CHR ''0'' @ [CHR ''0'']" by (simp add: replicate_append_same)
  then show ?case using Suc by (simp only: dec_val_snoc) (simp add: digit_val_def)
qed simp

lemma digit_val_le: "is_digit c \<Longrightarrow> digit_val c \<le> 9"
  unfolding is_digit_def digit_val_def by linarith

lemma dec_val_less: "\<forall>c \<in> set s. is_digit c \<Longrightarrow> dec_val s < 10 ^ length s"
proof (induction s rule: rev_induct)
  case (snoc c s)
  then have "digit_val c \<le> 9" "dec_val s < 10 ^ length s" by (auto simp: is_digit_def digit_val_def)
  then show ?case by simp
qed simp

text \<open>The rational a decimal string denotes: the specification of the scaling.\<close>

definition decimal_value :: "string \<Rightarrow> rat option" where
  "decimal_value s =
     map_option (\<lambda>(ip, fr). of_nat (dec_val (ip @ fr)) / 10 ^ length fr) (match_decimal (js_trim s))"

lemma match_decimal_Some:
  assumes "match_decimal s = Some (ip, fr)"
  shows "ip \<noteq> [] \<and> (\<forall>c \<in> set ip. is_digit c) \<and> (\<forall>c \<in> set fr. is_digit c)"
  using assms by (auto simp: match_decimal_def Let_def list_all_iff split: if_splits dest: set_takeWhileD)

lemma round_half_up:
  assumes "\<forall>c \<in> set fr. is_digit c" and "d < length fr"
  shows "\<lfloor>of_nat (dec_val (ip @ fr)) / 10 ^ length fr * 10 ^ d + 1 / 2 :: rat\<rfloor> =
    int (dec_val (ip @ take d fr)) + (if 5 \<le> digit_val (fr ! d) then 1 else 0)"
proof -
  define k where "k = length fr - Suc d"
  define a where "a = dec_val (ip @ take d fr)"
  define g where "g = digit_val (fr ! d)"
  define t where "t = dec_val (drop (Suc d) fr)"
  have split: "ip @ fr = ((ip @ take d fr) @ [fr ! d]) @ drop (Suc d) fr"
    using assms(2) by (simp add: id_take_nth_drop [symmetric] Cons_nth_drop_Suc)
  have t: "t < 10 ^ k"
    using dec_val_less [of "drop (Suc d) fr"] assms(1) by (auto simp: t_def k_def dest: in_set_dropD)
  have g: "g \<le> 9" using assms by (simp add: g_def digit_val_le)
  have "dec_val (ip @ fr) = (a * 10 + g) * 10 ^ k + t"
    unfolding split dec_val_append [of "(ip @ take d fr) @ [fr ! d]"] dec_val_snoc
    by (simp add: a_def g_def t_def k_def)
  moreover have len: "length fr = d + Suc k" using assms(2) by (simp add: k_def)
  ultimately have eq: "of_nat (dec_val (ip @ fr)) / 10 ^ length fr * 10 ^ d =
      (of_nat a + of_nat g / 10 + of_nat t / 10 ^ Suc k :: rat)"
    by (simp add: power_add field_simps)
  define e where "e = (of_nat t / 10 ^ Suc k :: rat)"
  have tq: "0 \<le> (of_nat t / 10 ^ Suc k :: rat)" "(of_nat t / 10 ^ Suc k :: rat) < 1 / 10"
  proof -
    have "(of_nat t :: rat) < of_nat (10 ^ k)" using t unfolding of_nat_less_iff .
    then show "(of_nat t / 10 ^ Suc k :: rat) < 1 / 10" by (simp add: field_simps)
  qed simp
  show ?thesis
  proof (cases "5 \<le> g")
    case True
    have "(5 :: rat) \<le> of_nat g" "(of_nat g :: rat) \<le> 9" using True g by simp_all
    with tq [folded e_def] have "\<lfloor>of_nat a + of_nat g / 10 + e + 1 / 2 :: rat\<rfloor> = int a + 1"
      unfolding floor_eq_iff by simp
    with True show ?thesis unfolding eq a_def [symmetric] g_def [symmetric] e_def by simp
  next
    case False
    then have "g \<le> 4" by simp
    then have "(of_nat g :: rat) \<le> 4" by simp
    moreover have "(0 :: rat) \<le> of_nat g" by simp
    ultimately have "\<lfloor>of_nat a + of_nat g / 10 + e + 1 / 2 :: rat\<rfloor> = int a"
      using tq [folded e_def] unfolding floor_eq_iff by simp
    with False show ?thesis unfolding eq a_def [symmetric] g_def [symmetric] e_def by simp
  qed
qed

lemma scaleDecimalString_rounds:
  "scaleDecimalString s d = Ok n \<longleftrightarrow> (\<exists>q. decimal_value s = Some q \<and> n = \<lfloor>q * 10 ^ d + 1 / 2\<rfloor>)"
proof (cases "match_decimal (js_trim s)")
  case None
  then show ?thesis by (simp add: scaleDecimalString_def decimal_value_def)
next
  case (Some g)
  obtain ip fr where g: "g = (ip, fr)" by (cases g)
  note m = match_decimal_Some [OF Some [unfolded g]]
  let ?q = "of_nat (dec_val (ip @ fr)) / 10 ^ length fr :: rat"
  have q: "decimal_value s = Some ?q" using Some g by (simp add: decimal_value_def)
  have big: "js_BigInt (ip @ t) = Some (int (dec_val (ip @ t)))" if "\<forall>c \<in> set t. is_digit c" for t
    using m that by (intro js_BigInt_digits) auto
  have "scaleDecimalString s d = Ok \<lfloor>?q * 10 ^ d + 1 / 2\<rfloor>"
  proof (cases "d < length fr")
    case True
    have "js_BigInt (ip @ take d fr) = Some (int (dec_val (ip @ take d fr)))" using m by (intro big) (auto dest: in_set_takeD)
    then show ?thesis
      using Some True m unfolding round_half_up [OF conjunct2 [OF conjunct2 [OF m]] True]
      by (simp add: scaleDecimalString_def g)
  next
    case False
    let ?z = "replicate (d - length fr) CHR ''0''"
    have "js_BigInt (ip @ fr @ ?z) = Some (int (dec_val (ip @ fr @ ?z)))" using m by (intro big) (auto simp: is_digit_def)
    moreover have "dec_val (ip @ fr @ ?z) = dec_val (ip @ fr) * 10 ^ (d - length fr)"
      using dec_val_append [of "ip @ fr" ?z] by simp
    moreover have "?q * 10 ^ d = of_nat (dec_val (ip @ fr) * 10 ^ (d - length fr))"
    proof -
      have "(10 :: rat) ^ d = 10 ^ length fr * 10 ^ (d - length fr)" using False by (simp add: power_add [symmetric])
      then show ?thesis by simp
    qed
    moreover have "\<lfloor>of_nat k + 1 / 2 :: rat\<rfloor> = int k" for k by (simp add: floor_eq_iff)
    ultimately show ?thesis using Some False by (simp only: scaleDecimalString_def g) simp
  qed
  with q show ?thesis by auto
qed

lemma fixed_digits_value:
  assumes "0 < d"
  shows "decimal_value (fixed_digits d n) = Some (of_nat n / 10 ^ d)"
proof -
  define m where "m = (if length (show_nat n) \<le> d then replicate (d + 1 - length (show_nat n)) CHR ''0'' @ show_nat n else show_nat n)"
  have len: "d < length m" by (simp add: m_def)
  have val: "dec_val m = n" by (simp add: m_def dec_val_append)
  have dig: "\<forall>c \<in> set m. is_digit c" using show_nat_digits by (auto simp: m_def is_digit_def)
  let ?i = "take (length m - d) m" and ?f = "drop (length m - d) m"
  have i: "\<forall>c \<in> set ?i. is_digit c" "?i \<noteq> []" using dig len by (auto dest: in_set_takeD)
  have f: "\<forall>c \<in> set ?f. is_digit c" "?f \<noteq> []" "length ?f = d" using dig len assms by (auto dest: in_set_dropD)
  let ?s = "?i @ ''.'' @ ?f"
  have dot: "\<not> is_digit CHR ''.''" by (simp add: is_digit_def)
  have "\<not> is_space (hd ?s)" using i by (cases ?i) (auto dest: digit_not_space)
  moreover have "last ?s = last ?f" using f(2) by (simp only: last_append) simp
  then have "\<not> is_space (last ?s)" using f(1) last_in_set [OF f(2)] digit_not_space by metis
  ultimately have "js_trim ?s = ?s" by (intro js_trim_id) simp_all
  moreover have "match_decimal ?s = Some (?i, ?f)"
    using i f dot by (simp add: match_decimal_def Let_def list_all_iff)
  moreover have "?i @ ?f = m" by simp
  ultimately show ?thesis
    using f(3) val unfolding fixed_digits_def Let_def m_def [symmetric] decimal_value_def by simp
qed

lemma decimal_value_chars:
  assumes "decimal_value s = Some q" and "c \<in> set s"
  shows "is_digit c \<or> c = CHR ''.'' \<or> is_space c"
proof -
  obtain ip fr where m: "match_decimal (js_trim s) = Some (ip, fr)"
    using assms(1) by (auto simp: decimal_value_def)
  let ?t = "js_trim s"
  have "?t = takeWhile is_digit ?t @ dropWhile is_digit ?t" by simp
  moreover have "\<forall>c \<in> set (takeWhile is_digit ?t). is_digit c" by (auto dest: set_takeWhileD)
  moreover have "\<forall>c \<in> set (dropWhile is_digit ?t). is_digit c \<or> c = CHR ''.''"
  proof (cases "dropWhile is_digit ?t")
    case Nil
    show ?thesis unfolding Nil by simp
  next
    case (Cons x xs)
    then have "x = CHR ''.'' \<and> list_all is_digit xs"
      using m unfolding match_decimal_def Let_def Cons by (simp split: if_splits)
    then show ?thesis unfolding Cons by (auto simp: list_all_iff)
  qed
  ultimately have "\<forall>c \<in> set ?t. is_digit c \<or> c = CHR ''.''" by (metis Un_iff set_append)
  then show ?thesis using js_trim_keeps [OF assms(2)] by blast
qed

lemma toFixed_value:
  "decimal_value (toFixed r 10) = (if 0 \<le> r \<and> r < 10 ^ 21 then Some (of_int \<lfloor>r * 10 ^ 10 + 1 / 2\<rfloor> / 10 ^ 10) else None)"
proof -
  have bad: "decimal_value s = None" if "c \<in> set s" "c \<in> {CHR ''-'', CHR ''e''}" for c s
    using decimal_value_chars [OF _ that(1)] that(2) by (cases "decimal_value s") (auto simp: is_digit_def is_space_def)
  have e: "CHR ''e'' \<in> set (exponential x)" for x by (simp add: exponential_def Let_def)
  consider "r < 0" | "10 ^ 21 \<le> r" "0 \<le> r" | "0 \<le> r" "r < 10 ^ 21" by linarith
  then show ?thesis
  proof cases
    case 1
    then have "CHR ''-'' \<in> set (toFixed r 10)" by (simp add: toFixed_def)
    with bad 1 show ?thesis by simp
  next
    case 2
    then have "CHR ''e'' \<in> set (toFixed r 10)" using e by (simp add: toFixed_def)
    with bad 2 show ?thesis by simp
  next
    case 3
    then have "toFixed r 10 = fixed_digits 10 (nat \<lfloor>r * 10 ^ 10 + 1 / 2\<rfloor>)" by (simp add: toFixed_def)
    moreover have "0 \<le> \<lfloor>r * 10 ^ 10 + 1 / 2\<rfloor>" using 3 by simp
    ultimately show ?thesis using 3 fixed_digits_value [of 10 "nat \<lfloor>r * 10 ^ 10 + 1 / 2\<rfloor>"] by simp
  qed
qed

text \<open>The rational a price denotes.\<close>

definition price_value :: "price \<Rightarrow> rat option" where
  "price_value p =
     (case p of
        PNumber (Num r) \<Rightarrow> (if 0 \<le> r then Some r else None)
      | PNumber _ \<Rightarrow> None
      | PString s \<Rightarrow> decimal_value s)"

lemma usdToScaled_Ok_iff:
  "usdToScaled p = Ok n \<longleftrightarrow>
   (\<exists>q. price_value p = Some q \<and> n = \<lfloor>q * 10 ^ 10 + 1 / 2\<rfloor> \<and> 0 < n \<and> n < 2 ^ 64)"
proof -
  have core: "bind_res (scaleDecimalString s PRICE_DECIMALS) (\<lambda>scaled.
       bind_res (guard_res (scaled \<le> 0) e) (\<lambda>_. bind_res (guard_res (2 ^ 64 - 1 < scaled) f) (\<lambda>_. Ok scaled))) = Ok n
     \<longleftrightarrow> (\<exists>q. decimal_value s = Some q \<and> n = \<lfloor>q * 10 ^ 10 + 1 / 2\<rfloor> \<and> 0 < n \<and> n < 2 ^ 64)" for s e f
    unfolding bind_res_Ok_iff scaleDecimalString_rounds PRICE_DECIMALS_def guard_res_Ok by auto
  have ex: "(\<exists>q. (if c then Some v else None) = Some q \<and> P q) \<longleftrightarrow> c \<and> P v" for c v and P :: "rat \<Rightarrow> bool"
    by auto
  have idem: "\<lfloor>of_int k / 10 ^ 10 * 10 ^ 10 + 1 / 2 :: rat\<rfloor> = k" for k by (simp add: floor_eq_iff)
  show ?thesis
  proof (cases p)
    case (PString s)
    then show ?thesis unfolding usdToScaled_def by (simp only: price.case bind_res_simps core price_value_def)
  next
    case (PNumber m)
    show ?thesis
    proof (cases m)
      case (Num r)
      have "r < 10 ^ 21" if "\<lfloor>r * 10 ^ 10 + 1 / 2\<rfloor> < 2 ^ 64"
      proof -
        have "r * 10 ^ 10 + 1 / 2 < of_int (2 ^ 64)" using that by (simp add: floor_less_iff)
        then show ?thesis by simp
      qed
      then show ?thesis
        unfolding usdToScaled_def PNumber Num
        by (simp only: price.case js_num.case bind_res_simps core price_value_def,
            simp only: PRICE_DECIMALS_def toFixed_value ex idem) auto
    qed (simp_all add: usdToScaled_def PNumber price_value_def)
  qed
qed

subsection \<open>Properties\<close>

text \<open>C26: \<open>usdToScaled\<close> implements its specification exactly: it succeeds on the prices that denote a
  non-negative rational whose value times \<open>1e10\<close>, rounded half up, is positive and fits a uint64,
  and returns that rounded value; numbers and numeric strings alike, however many digits the
  string has.\<close>

theorem usdToScaled_rounds:
  "usdToScaled p = Ok n \<longleftrightarrow>
   (\<exists>q. price_value p = Some q \<and> n = \<lfloor>q * 10 ^ 10 + 1 / 2\<rfloor> \<and> 0 < n \<and> n < 2 ^ 64)"
  by (rule usdToScaled_Ok_iff)

end
