(* ===== verification/Oracle_Config.thy ===== *)
theory Oracle_Config
  imports Oracle_Scaling Retry_Calls Demo_Eth
begin

section \<open>Configuration of the oracle service\<close>

text \<open>
  \<open>oracle-service/src/config.ts\<close>: the environment is read and checked once, at startup. The
  private key's wallet and \<open>JSON.parse\<close> are parameters. \<open>oracle_loadConfig_typed\<close> is the type
  of a loaded configuration: every value it holds fits the contract's integer type.
\<close>

datatype pricing_mode = Twap | PenguinSwap

record oracle_chain =
  och_chainId :: int
  och_rpcUrl :: string
  och_coingeckoId :: string
  och_priceBuffer :: int
  och_baseFee :: int

record oracle_config =
  oc_oracleAddress :: string
  oc_rpcUrl :: string
  oc_contractAddress :: string
  oc_ctcTokenId :: string
  oc_attestTokenId :: "string option"
  oc_coingeckoBaseUrl :: string
  oc_coingeckoApiKey :: "string option"
  oc_pushIntervalMs :: int
  oc_twapWindowMs :: int
  oc_txWaitTimeoutMs :: int
  oc_chains :: "oracle_chain list"
  oc_heartbeatFile :: "string option"
  oc_retry :: retry_options

definition parseIntEnv :: "env \<Rightarrow> string \<Rightarrow> int \<Rightarrow> int \<Rightarrow> int res" where
  "parseIntEnv env nm fallback mn =
     (case env nm of
        None \<Rightarrow> Ok fallback
      | Some raw \<Rightarrow>
          (if js_trim raw = [] then Ok fallback
           else
             (let v = js_Number (js_trim raw) in
              if \<not> js_isInteger v \<or> num_less v (of_int mn)
              then Throw (new_error PlainError (nm @ '' must be an integer >= '' @ show_int mn @ '', got '' @ raw))
              else Ok (num_int v))))"

definition parseAmountField :: "string \<Rightarrow> json option \<Rightarrow> int res" where
  "parseAmountField nm raw =
     (case raw of
        None \<Rightarrow> Ok 0
      | Some JNull \<Rightarrow> Ok 0
      | Some j \<Rightarrow>
          (case (case j of JString s \<Rightarrow> (if js_trim s \<noteq> [] \<and> list_all is_digit (js_trim s) then js_BigInt (js_trim s) else None)
                 | _ \<Rightarrow> None) of
             Some v \<Rightarrow> Ok v
           | None \<Rightarrow> Throw (new_error PlainError
               (nm @ '' must be a non-negative integer encoded as a string (e.g. '' @ [CHR 0x22] @ ''1000000000000000''
                 @ [CHR 0x22] @ ''), got '' @ json_String j))))"

subsection \<open>Chains\<close>

definition parse_chain_id :: "string \<Rightarrow> int list \<Rightarrow> json option \<Rightarrow> int res" where
  "parse_chain_id label seen raw =
     (case raw of
        Some (JNumber n) \<Rightarrow>
          (if \<not> js_isInteger n \<or> \<not> num_greater n 0 \<or> num_greater n 0xffff
           then Throw (new_error PlainError (label @ ''.chainId must be a non-zero uint16''))
           else if num_int n \<in> set seen
           then Throw (new_error PlainError (''ORACLE_CHAINS has duplicate chainId '' @ show_int (num_int n)))
           else Ok (num_int n))
      | _ \<Rightarrow> Throw (new_error PlainError (label @ ''.chainId must be a non-zero uint16'')))"

definition nonempty_string :: "string \<Rightarrow> json option \<Rightarrow> string res" where
  "nonempty_string label raw =
     (case raw of
        Some (JString s) \<Rightarrow> (if s = [] then Throw (new_error PlainError (label @ '' must be a non-empty string'')) else Ok s)
      | _ \<Rightarrow> Throw (new_error PlainError (label @ '' must be a non-empty string'')))"

definition is_js_object :: "json \<Rightarrow> bool" where
  "is_js_object j = (case j of JObject _ \<Rightarrow> True | JArray _ \<Rightarrow> True | _ \<Rightarrow> False)"

definition parse_chain :: "nat \<Rightarrow> int list \<Rightarrow> json \<Rightarrow> oracle_chain res" where
  "parse_chain i seen item =
     (let label = ''ORACLE_CHAINS['' @ show_nat i @ '']'' in
      bind_res (guard_res (\<not> is_js_object item) (new_error PlainError (label @ '' must be an object''))) (\<lambda>_.
      bind_res (parse_chain_id label seen (jfield ''chainId'' item)) (\<lambda>chainId.
      bind_res (nonempty_string (label @ ''.rpcUrl'') (jfield ''rpcUrl'' item)) (\<lambda>rpcUrl.
      bind_res (nonempty_string (label @ ''.coingeckoId'') (jfield ''coingeckoId'' item)) (\<lambda>coingeckoId.
      bind_res (parseAmountField (label @ ''.priceBuffer'') (jfield ''priceBuffer'' item)) (\<lambda>rawBuffer.
      bind_res (assertUint16 rawBuffer (label @ ''.priceBuffer'')) (\<lambda>priceBuffer.
      bind_res (parseAmountField (label @ ''.baseFee'') (jfield ''baseFee'' item)) (\<lambda>rawFee.
      bind_res (assertUint256 rawFee (label @ ''.baseFee'')) (\<lambda>baseFee.
        Ok \<lparr>och_chainId = chainId, och_rpcUrl = rpcUrl, och_coingeckoId = coingeckoId,
            och_priceBuffer = priceBuffer, och_baseFee = baseFee\<rparr>)))))))))"

fun parse_chain_items :: "nat \<Rightarrow> int list \<Rightarrow> json list \<Rightarrow> oracle_chain list res" where
  "parse_chain_items i seen [] = Ok []"
| "parse_chain_items i seen (item # items) =
     bind_res (parse_chain i seen item) (\<lambda>c.
     bind_res (parse_chain_items (Suc i) (och_chainId c # seen) items) (\<lambda>cs. Ok (c # cs)))"

definition oracle_parseChains :: "(string \<Rightarrow> json option) \<Rightarrow> string \<Rightarrow> oracle_chain list res" where
  "oracle_parseChains json_parse raw =
     (case json_parse raw of
        None \<Rightarrow> Throw (new_error PlainError ''ORACLE_CHAINS must be valid JSON'')
      | Some (JArray items) \<Rightarrow>
          (if items = [] then Throw (new_error PlainError ''ORACLE_CHAINS must be a non-empty JSON array'')
           else parse_chain_items 0 [] items)
      | Some _ \<Rightarrow> Throw (new_error PlainError ''ORACLE_CHAINS must be a non-empty JSON array''))"

subsection \<open>The environment\<close>

definition env_truthy :: "env \<Rightarrow> string \<Rightarrow> string option" where
  "env_truthy env nm = (if env nm = Some [] then None else env nm)"

definition oracle_rpc_retry :: "env \<Rightarrow> retry_options res" where
  "oracle_rpc_retry env =
     bind_res (parseIntEnv env ''ORACLE_RPC_MAX_ATTEMPTS'' 3 1) (\<lambda>maxA.
     bind_res (parseIntEnv env ''ORACLE_RPC_INITIAL_DELAY_MS'' 200 0) (\<lambda>initD.
     bind_res (parseIntEnv env ''ORACLE_RPC_MAX_DELAY_MS'' 2000 0) (\<lambda>maxD.
     bind_res (guard_res (maxD < initD)
       (new_error PlainError ''ORACLE_RPC_MAX_DELAY_MS must be >= ORACLE_RPC_INITIAL_DELAY_MS'')) (\<lambda>_.
       Ok \<lparr>maxAttempts = nat maxA, initialDelayMs = nat initD, maxDelayMs = nat maxD\<rparr>))))"

definition oracle_timings :: "env \<Rightarrow> (int \<times> int \<times> int) res" where
  "oracle_timings env =
     bind_res (parseIntEnv env ''ORACLE_PUSH_INTERVAL_MS'' 60000 15000) (\<lambda>push.
     bind_res (parseIntEnv env ''ORACLE_TWAP_WINDOW_MS'' 300000 0) (\<lambda>window.
     bind_res (parseIntEnv env ''ORACLE_TX_WAIT_TIMEOUT_MS'' 120000 1) (\<lambda>wait.
       Ok (push, window, wait))))"

definition oracle_loadConfig ::
  "ethers \<Rightarrow> (string \<Rightarrow> eth_wallet res) \<Rightarrow> (string \<Rightarrow> json option) \<Rightarrow> env \<Rightarrow> oracle_config res" where
  "oracle_loadConfig eth newWallet json_parse env =
     bind_res (required env ''ORACLE_PRIVATE_KEY'') (\<lambda>key.
     bind_res (catch_res (newWallet key) (\<lambda>_. Throw (new_error PlainError
       ''ORACLE_PRIVATE_KEY must be a valid 32-byte secp256k1 private key''))) (\<lambda>wallet.
     bind_res (required env ''ORACLE_CTC_TOKEN_ID'') (\<lambda>ctc.
     bind_res (oracle_timings env) (\<lambda>(push, window, wait).
     bind_res (oracle_rpc_retry env) (\<lambda>retry.
     bind_res (getAddress eth (wl_address wallet)) (\<lambda>addr.
     bind_res (required env ''ORACLE_RPC_URL'') (\<lambda>rpc.
     bind_res (required env ''ORACLE_CONTRACT_ADDRESS'') (\<lambda>rawContract.
     bind_res (getAddress eth rawContract) (\<lambda>contract.
     bind_res (required env ''ORACLE_CHAINS'') (\<lambda>rawChains.
     bind_res (oracle_parseChains json_parse rawChains) (\<lambda>chains.
       Ok \<lparr>oc_oracleAddress = addr, oc_rpcUrl = rpc, oc_contractAddress = contract, oc_ctcTokenId = ctc,
           oc_attestTokenId = env_truthy env ''ORACLE_ATTEST_TOKEN_ID'',
           oc_coingeckoBaseUrl = env_or env ''ORACLE_COINGECKO_BASE_URL'' ''https://api.coingecko.com/api/v3'',
           oc_coingeckoApiKey = env_truthy env ''ORACLE_COINGECKO_API_KEY'',
           oc_pushIntervalMs = push, oc_twapWindowMs = window, oc_txWaitTimeoutMs = wait, oc_chains = chains,
           oc_heartbeatFile = env_truthy env ''ORACLE_HEARTBEAT_FILE'', oc_retry = retry\<rparr>)))))))))))"

subsection \<open>Well-typed configurations\<close>

definition chain_typed :: "oracle_chain \<Rightarrow> bool" where
  "chain_typed c \<longleftrightarrow>
     1 \<le> och_chainId c \<and> och_chainId c < 2 ^ 16 \<and> och_rpcUrl c \<noteq> [] \<and> och_coingeckoId c \<noteq> [] \<and>
     0 \<le> och_priceBuffer c \<and> och_priceBuffer c < 2 ^ 16 \<and> 0 \<le> och_baseFee c \<and> och_baseFee c < 2 ^ 256"

definition config_typed :: "oracle_config \<Rightarrow> bool" where
  "config_typed cfg \<longleftrightarrow>
     oc_chains cfg \<noteq> [] \<and> list_all chain_typed (oc_chains cfg) \<and> distinct (map och_chainId (oc_chains cfg)) \<and>
     oc_ctcTokenId cfg \<noteq> [] \<and> oc_attestTokenId cfg \<noteq> Some [] \<and>
     15000 \<le> oc_pushIntervalMs cfg \<and> 0 \<le> oc_twapWindowMs cfg \<and> 1 \<le> oc_txWaitTimeoutMs cfg \<and>
     1 \<le> maxAttempts (oc_retry cfg) \<and> initialDelayMs (oc_retry cfg) \<le> maxDelayMs (oc_retry cfg)"

lemma parseIntEnv_Ok:
  assumes "parseIntEnv env nm fallback mn = Ok v" and "mn \<le> fallback"
  shows "mn \<le> v"
proof -
  have "v = fallback \<or> (\<exists>n. js_isInteger n \<and> \<not> num_less n (of_int mn) \<and> v = num_int n)"
    using assms(1) by (auto simp: parseIntEnv_def Let_def split: option.splits if_splits)
  then show ?thesis
  proof
    assume "\<exists>n. js_isInteger n \<and> \<not> num_less n (of_int mn) \<and> v = num_int n"
    then obtain n where n: "n = Num (of_int v)" "\<not> num_less n (of_int mn)" using js_isInteger_num by blast
    then show ?thesis by (simp add: num_less_def)
  qed (use assms(2) in simp)
qed

lemma assertUint_Ok: "assertUint w nm v label = Ok u \<longleftrightarrow> u = v \<and> 0 \<le> v \<and> v < 2 ^ w"
  unfolding assertUint_def by auto

lemma parse_chain_id_Ok:
  assumes "parse_chain_id label seen raw = Ok v"
  shows "1 \<le> v \<and> v < 2 ^ 16 \<and> v \<notin> set seen"
proof -
  obtain n where n: "js_isInteger n" "num_greater n 0" "\<not> num_greater n 0xffff" "v = num_int n" "v \<notin> set seen"
    using assms by (auto simp: parse_chain_id_def split: option.splits json.splits if_splits)
  have "n = Num (of_int v)" using js_isInteger_num [OF n(1)] n(4) by simp
  then show ?thesis using n(2,3,5) by (simp add: num_greater_def)
qed

lemma nonempty_string_Ok: "nonempty_string label raw = Ok s \<Longrightarrow> s \<noteq> []"
  by (auto simp: nonempty_string_def split: option.splits json.splits if_splits)

lemma parse_chain_Ok:
  assumes "parse_chain i seen item = Ok c"
  shows "chain_typed c \<and> och_chainId c \<notin> set seen"
  using assms parse_chain_id_Ok nonempty_string_Ok
  unfolding parse_chain_def Let_def bind_res_Ok_iff assertUint16_def assertUint256_def assertUint_Ok chain_typed_def
  by (elim exE conjE) (auto dest: parse_chain_id_Ok nonempty_string_Ok)

lemma parse_chain_items_Ok:
  "parse_chain_items i seen items = Ok cs \<Longrightarrow>
   length cs = length items \<and> list_all chain_typed cs \<and> distinct (map och_chainId cs) \<and> set (map och_chainId cs) \<inter> set seen = {}"
proof (induction i seen items arbitrary: cs rule: parse_chain_items.induct)
  case (2 i seen item items)
  then obtain c cs' where c: "parse_chain i seen item = Ok c" "cs = c # cs'"
    "parse_chain_items (Suc i) (och_chainId c # seen) items = Ok cs'"
    by (auto simp: bind_res_Ok_iff)
  show ?case using "2.IH" [OF c(1,3)] parse_chain_Ok [OF c(1)] c(2) by auto
qed simp

lemma oracle_parseChains_Ok:
  assumes "oracle_parseChains json_parse raw = Ok cs"
  shows "cs \<noteq> [] \<and> list_all chain_typed cs \<and> distinct (map och_chainId cs)"
proof -
  obtain items where "items \<noteq> []" "parse_chain_items 0 [] items = Ok cs"
    using assms by (auto simp: oracle_parseChains_def split: option.splits json.splits if_splits)
  then show ?thesis using parse_chain_items_Ok by fastforce
qed

lemma oracle_timings_Ok:
  assumes "oracle_timings env = Ok (push, window, wait)"
  shows "15000 \<le> push \<and> 0 \<le> window \<and> 1 \<le> wait"
  using assms parseIntEnv_Ok unfolding oracle_timings_def bind_res_Ok_iff by fastforce

lemma oracle_rpc_retry_Ok:
  assumes "oracle_rpc_retry env = Ok r"
  shows "1 \<le> maxAttempts r \<and> initialDelayMs r \<le> maxDelayMs r"
proof -
  obtain a i m where "parseIntEnv env ''ORACLE_RPC_MAX_ATTEMPTS'' 3 1 = Ok a" "\<not> m < i"
    "r = \<lparr>maxAttempts = nat a, initialDelayMs = nat i, maxDelayMs = nat m\<rparr>"
    using assms unfolding oracle_rpc_retry_def bind_res_Ok_iff guard_res_Ok by blast
  then show ?thesis using parseIntEnv_Ok [of env "''ORACLE_RPC_MAX_ATTEMPTS''" 3 1 a] by simp linarith
qed

subsection \<open>Properties\<close>

text \<open>A configuration that loads is well typed: at least one chain, chain ids distinct and
  non-zero \<open>uint16\<close>, every buffer a \<open>uint16\<close> and every base fee a \<open>uint256\<close>, a push interval of at
  least fifteen seconds, and a retry policy that tries at least once with ordered delays.\<close>

theorem oracle_loadConfig_typed:
  assumes "oracle_loadConfig eth newWallet json_parse env = Ok cfg"
  shows "config_typed cfg"
proof -
  obtain ctc push window wait retry raw chains where
    l: "required env ''ORACLE_CTC_TOKEN_ID'' = Ok ctc" "oracle_timings env = Ok (push, window, wait)"
      "oracle_rpc_retry env = Ok retry" "oracle_parseChains json_parse raw = Ok chains"
    and cfg: "oc_ctcTokenId cfg = ctc" "oc_attestTokenId cfg = env_truthy env ''ORACLE_ATTEST_TOKEN_ID''"
      "oc_pushIntervalMs cfg = push" "oc_twapWindowMs cfg = window" "oc_txWaitTimeoutMs cfg = wait"
      "oc_chains cfg = chains" "oc_retry cfg = retry"
    using assms unfolding oracle_loadConfig_def bind_res_Ok_iff case_prod_beta
    by (elim exE conjE) (rule that, auto)
  show ?thesis
    unfolding config_typed_def cfg
    using oracle_timings_Ok [OF l(2)] oracle_rpc_retry_Ok [OF l(3)] oracle_parseChains_Ok [OF l(4)] l(1)
    by (auto simp: required_Ok env_truthy_def)
qed

text \<open>A concrete environment, with the wallet and the JSON parser instantiated.\<close>

definition demo_oracle_env :: env where
  "demo_oracle_env = map_of
     [(''ORACLE_PRIVATE_KEY'', ''k''), (''ORACLE_CTC_TOKEN_ID'', ''creditcoin-2''), (''ORACLE_ATTEST_TOKEN_ID'', ''attest''),
      (''ORACLE_RPC_URL'', ''http://source''), (''ORACLE_CONTRACT_ADDRESS'', ''0xquoter''), (''ORACLE_CHAINS'', ''[..]'')]"

definition demo_chains_json :: "string \<Rightarrow> json option" where
  "demo_chains_json raw = Some (JArray
     [JObject [(''chainId'', JNumber (Num 2)), (''rpcUrl'', JString ''http://eth''), (''coingeckoId'', JString ''ethereum''),
               (''priceBuffer'', JString ''500'')],
      JObject [(''chainId'', JNumber (Num 4)), (''rpcUrl'', JString ''http://bsc''), (''coingeckoId'', JString ''binancecoin''),
               (''baseFee'', JString ''7'')]])"

definition demo_wallet :: "string \<Rightarrow> eth_wallet res" where
  "demo_wallet key = Ok \<lparr>wl_address = ''0xoracle'', wl_sign = (\<lambda>_. Throw (new_error PlainError ''unused''))\<rparr>"

definition demo_config :: oracle_config where
  "demo_config = \<lparr>oc_oracleAddress = ''0xoracle'', oc_rpcUrl = ''http://source'', oc_contractAddress = ''0xquoter'',
     oc_ctcTokenId = ''creditcoin-2'', oc_attestTokenId = Some ''attest'',
     oc_coingeckoBaseUrl = ''https://api.coingecko.com/api/v3'', oc_coingeckoApiKey = None,
     oc_pushIntervalMs = 60000, oc_twapWindowMs = 300000, oc_txWaitTimeoutMs = 120000,
     oc_chains = [\<lparr>och_chainId = 2, och_rpcUrl = ''http://eth'', och_coingeckoId = ''ethereum'', och_priceBuffer = 500, och_baseFee = 0\<rparr>,
       \<lparr>och_chainId = 4, och_rpcUrl = ''http://bsc'', och_coingeckoId = ''binancecoin'', och_priceBuffer = 0, och_baseFee = 7\<rparr>],
     oc_heartbeatFile = None, oc_retry = \<lparr>maxAttempts = 3, initialDelayMs = 200, maxDelayMs = 2000\<rparr>\<rparr>"

lemma demo_amount: "js_BigInt ''500'' = Some 500" "js_BigInt ''7'' = Some 7"
    "js_trim ''500'' = ''500''" "js_trim ''7'' = ''7''"
  using js_BigInt_digits [of "''500''"] js_BigInt_digits [of "''7''"] js_trim_digits [of "''500''"] js_trim_digits [of "''7''"]
  by (simp_all add: is_digit_def dec_val_def digit_val_def)

lemma demo_chains:
  "oracle_parseChains demo_chains_json raw = Ok (oc_chains demo_config)"
proof -
  have n: "js_isInteger (Num 2)" "js_isInteger (Num 4)" "num_int (Num 2) = 2" "num_int (Num 4) = 4"
    using js_isInteger_of_int [of 2] js_isInteger_of_int [of 4] by simp_all
  show ?thesis
    by (simp add: oracle_parseChains_def demo_chains_json_def parse_chain_def Let_def is_js_object_def jfield_def
        parse_chain_id_def n num_greater_def nonempty_string_def parseAmountField_def demo_amount is_digit_def
        assertUint16_def assertUint256_def assertUint_def demo_config_def)
qed

lemma demo_loads: "oracle_loadConfig demo_eth demo_wallet demo_chains_json demo_oracle_env = Ok demo_config"
proof -
  have "oracle_timings demo_oracle_env = Ok (60000, 300000, 120000)"
    by (simp add: oracle_timings_def parseIntEnv_def demo_oracle_env_def)
  moreover have "oracle_rpc_retry demo_oracle_env = Ok \<lparr>maxAttempts = 3, initialDelayMs = 200, maxDelayMs = 2000\<rparr>"
    by (simp add: oracle_rpc_retry_def parseIntEnv_def demo_oracle_env_def)
  ultimately show ?thesis
    by (simp add: oracle_loadConfig_def required_def demo_wallet_def demo_chains demo_eth_def)
      (simp add: demo_oracle_env_def demo_config_def env_truthy_def env_or_def)
qed

theorem oracle_loadConfig_typed_witness: "config_typed demo_config"
  using oracle_loadConfig_typed [OF demo_loads] .

end
