(* ===== verification/Oracle_Writer.thy ===== *)
theory Oracle_Writer
  imports Oracle_Config Rpc
begin

section \<open>The oracle's writer and gas reader\<close>

text \<open>
  \<open>oracle-service/src/oracle.ts\<close>. \<open>oracle_writer\<close> is the state of a \<open>RpcOracleWriter\<close>: the last
  send not confirmed mined, the highest nonce confirmed mined and the cached TWAPReader address;
  \<open>ow_trace\<close> is the history of what the writer handed to the chain, newest first (it is not read by
  the code). The contract's answers during a call are the fields of \<open>quoter_contract\<close> (by attempt),
  the node's answers during one \<open>send\<close> those of \<open>send_env\<close>.
\<close>

record pricing_data =
  pd_baseFee :: int
  pd_dstGasPrice :: int
  pd_dstPrice :: int
  pd_srcPrice :: int
  pd_priceBuffer :: int

record chain_price_update =
  cu_chainId :: int
  cu_pricing :: pricing_data

datatype oracle_call =
    BatchPriceUpdate int "int list" "pricing_data list"
  | TwapUpdate int

record sent_fees =
  sf_nonce :: int
  sf_maxFeePerGas :: "int option"
  sf_maxPriorityFeePerGas :: "int option"
  sf_gasPrice :: "int option"
  sf_gasLimit :: int

record overrides =
  ov_nonce :: int
  ov_maxFeePerGas :: "int option"
  ov_maxPriorityFeePerGas :: "int option"
  ov_gasPrice :: "int option"
  ov_gasLimit :: "int option"

record sent_tx =
  st_hash :: string
  st_maxFeePerGas :: "int option"
  st_maxPriorityFeePerGas :: "int option"
  st_gasPrice :: "int option"
  st_gasLimit :: int

datatype write_event =
    Attempt string oracle_call overrides
  | Accepted sent_fees
  | Mined int

record oracle_writer =
  ow_lastSent :: "sent_fees option"
  ow_lastMinedNonce :: "int option"
  ow_twapReaderCache :: "string option"
  ow_trace :: "write_event list"

record quoter_contract =
  qt_target :: string
  qt_oracleService :: "nat \<Rightarrow> string res"
  qt_pricingMode :: "nat \<Rightarrow> int res"
  qt_attestCtcPath :: "int \<Rightarrow> nat \<Rightarrow> string res"
  qt_twapReader :: "nat \<Rightarrow> string res"
  qt_readerOracleService :: "string \<Rightarrow> nat \<Rightarrow> string res"

record send_env =
  se_address :: string
  se_latest :: "string res"
  se_pending :: "string res"
  se_feeData :: "fee_data res"
  se_encode :: "oracle_call \<Rightarrow> string res"
  se_estimateGas :: "string \<Rightarrow> string \<Rightarrow> string \<Rightarrow> string res"
  se_submit :: "string \<Rightarrow> oracle_call \<Rightarrow> overrides \<Rightarrow> sent_tx res"
  se_wait :: "sent_tx \<Rightarrow> unit res"

definition new_writer :: oracle_writer where
  "new_writer = \<lparr>ow_lastSent = None, ow_lastMinedNonce = None, ow_twapReaderCache = None, ow_trace = []\<rparr>"

definition ZeroAddress :: string where
  "ZeroAddress = ''0x'' @ replicate 40 CHR ''0''"

subsection \<open>Reads\<close>

definition not_authorized :: "string \<Rightarrow> string \<Rightarrow> string \<Rightarrow> string \<Rightarrow> js_error" where
  "not_authorized oracleAddress registered contractAddress contractName =
     new_error OracleNotAuthorizedError
       (''signer '' @ oracleAddress @ '' is not '' @ contractName @ ''('' @ contractAddress @ '').oracleService (registered: ''
         @ registered @ '') -- call setOracleService() or rotate the key'')"

definition check_registered :: "ethers \<Rightarrow> string \<Rightarrow> string \<Rightarrow> string \<Rightarrow> string \<Rightarrow> unit res" where
  "check_registered eth addr registered target contractName =
     bind_res (getAddress eth registered) (\<lambda>reg.
       if reg \<noteq> addr then bind_res (getAddress eth target) (\<lambda>t. Throw (not_authorized addr reg t contractName))
       else Ok ())"

definition oracle_assertAuthorized :: "ethers \<Rightarrow> retry_options \<Rightarrow> quoter_contract \<Rightarrow> string \<Rightarrow> unit res" where
  "oracle_assertAuthorized eth retry qt oracleAddress =
     bind_res (getAddress eth oracleAddress) (\<lambda>addr.
     bind_res (oracle_retry retry (qt_oracleService qt)) (\<lambda>registered.
       check_registered eth addr registered (qt_target qt) ''USCRelayingQuoter''))"

definition twapReader :: "ethers \<Rightarrow> retry_options \<Rightarrow> quoter_contract \<Rightarrow> oracle_writer \<Rightarrow> string res \<times> oracle_writer" where
  "twapReader eth retry qt w =
     (case bind_res (oracle_retry retry (qt_twapReader qt)) (\<lambda>raw.
           bind_res (getAddress eth raw) (\<lambda>addr.
           bind_res (guard_res (addr = ZeroAddress) (new_error PlainError
             (''USCRelayingQuoter('' @ qt_target qt @ '').twapReader() is unset -- ''
               @ ''TWAP mode needs a TWAPReader (owner must call setTWAPReader())''))) (\<lambda>_.
           bind_res (case ow_twapReaderCache w of None \<Rightarrow> Ok None | Some c \<Rightarrow> bind_res (getAddress eth c) (\<lambda>a. Ok (Some a))) (\<lambda>cached.
             Ok (addr, cached))))) of
        Inl e \<Rightarrow> (Throw e, w)
      | Inr (addr, cached) \<Rightarrow>
          (let w = (if cached \<noteq> Some addr then w\<lparr>ow_twapReaderCache := Some addr\<rparr> else w)
           in (Ok (case ow_twapReaderCache w of None \<Rightarrow> addr | Some c \<Rightarrow> c), w)))"

definition assertTwapReaderAuthorized ::
  "ethers \<Rightarrow> retry_options \<Rightarrow> quoter_contract \<Rightarrow> string \<Rightarrow> oracle_writer \<Rightarrow> unit res \<times> oracle_writer" where
  "assertTwapReaderAuthorized eth retry qt oracleAddress w =
     (case getAddress eth oracleAddress of
        Inl e \<Rightarrow> (Throw e, w)
      | Inr addr \<Rightarrow>
          (case twapReader eth retry qt w of
             (Inl e, w) \<Rightarrow> (Throw e, w)
           | (Inr reader, w) \<Rightarrow>
               (bind_res (oracle_retry retry (qt_readerOracleService qt reader)) (\<lambda>registered.
                  check_registered eth addr registered reader ''TWAPReader''), w)))"

definition pricingMode :: "retry_options \<Rightarrow> quoter_contract \<Rightarrow> pricing_mode res" where
  "pricingMode retry qt =
     bind_res (catch_res (oracle_retry retry (qt_pricingMode qt)) (\<lambda>err.
         if ecode err = Some ''CALL_EXCEPTION'' \<or> ecode err = Some ''BAD_DATA'' then
           Throw (new_error PlainError (''USCRelayingQuoter('' @ qt_target qt @ '').pricingMode() is not callable -- ''
             @ ''the deployed contract must expose the pricing-mode getter''))
         else Throw err)) (\<lambda>raw.
       if raw = 0 then Ok Twap
       else if raw = 1 then Ok PenguinSwap
       else Throw (new_error PlainError (''contract returned unknown pricingMode '' @ show_int raw)))"

definition hasAttestCtcPool :: "ethers \<Rightarrow> retry_options \<Rightarrow> quoter_contract \<Rightarrow> bool res" where
  "hasAttestCtcPool eth retry qt =
     catch_res (bind_res (oracle_retry retry (qt_attestCtcPath qt 0)) (\<lambda>firstPool.
         bind_res (getAddress eth firstPool) (\<lambda>a. Ok (a \<noteq> ZeroAddress))))
       (\<lambda>err. if ecode err = Some ''CALL_EXCEPTION'' then Ok False else Throw err)"

subsection \<open>Sending\<close>

definition bumpFee :: "int \<Rightarrow> int" where
  "bumpFee v = bigint_div (v * 1125) 1000 + 1"

definition maxBigint :: "int \<Rightarrow> int \<Rightarrow> int" where
  "maxBigint a b = (if a > b then a else b)"

definition js_isSafeInteger :: "int \<Rightarrow> bool" where
  "js_isSafeInteger n \<longleftrightarrow> \<bar>n\<bar> \<le> 2 ^ 53 - 1"

definition read_nonce :: "string \<Rightarrow> string res \<Rightarrow> int res" where
  "read_nonce label reply =
     bind_res reply (\<lambda>raw.
       case js_BigInt raw of
         None \<Rightarrow> Throw (new_error ForeignError (''Cannot convert '' @ raw @ '' to a BigInt''))
       | Some n \<Rightarrow>
           (if js_isSafeInteger n then Ok n
            else Throw (new_error RangeError (label @ '' '' @ raw @ '' exceeds JavaScript safe integer range''))))"

definition send_nonce :: "send_env \<Rightarrow> oracle_writer \<Rightarrow> int res" where
  "send_nonce env w =
     bind_res (read_nonce ''account nonce'' (se_latest env)) (\<lambda>nonce.
     bind_res (read_nonce ''pending account nonce'' (se_pending env)) (\<lambda>pendingNonce.
     bind_res (guard_res (ow_lastSent w = None \<and> pendingNonce > nonce) (new_error PlainError
       (''oracle account has '' @ show_int (pendingNonce - nonce) @ '' unknown pending transaction(s); ''
         @ ''waiting rather than replacing a transaction whose fees are unavailable after restart''))) (\<lambda>_.
       Ok (case ow_lastMinedNonce w of
             None \<Rightarrow> nonce
           | Some m \<Rightarrow> (if nonce \<le> m then m + 1 else nonce)))))"

definition or_zero :: "int option \<Rightarrow> int" where
  "or_zero v = (case v of None \<Rightarrow> 0 | Some x \<Rightarrow> x)"

definition plain_overrides :: "int \<Rightarrow> overrides" where
  "plain_overrides nonce =
     \<lparr>ov_nonce = nonce, ov_maxFeePerGas = None, ov_maxPriorityFeePerGas = None, ov_gasPrice = None, ov_gasLimit = None\<rparr>"

definition replacement_fees :: "fee_data \<Rightarrow> sent_fees \<Rightarrow> overrides \<Rightarrow> overrides" where
  "replacement_fees fee lst ov =
     (case sf_maxFeePerGas lst of
        Some lastMax \<Rightarrow>
          (let prio = maxBigint (or_zero (fd_maxPriorityFeePerGas fee)) (bumpFee (or_zero (sf_maxPriorityFeePerGas lst)))
           in ov\<lparr>ov_maxPriorityFeePerGas := Some prio,
                 ov_maxFeePerGas := Some (maxBigint (maxBigint (or_zero (fd_maxFeePerGas fee)) (bumpFee lastMax)) prio)\<rparr>)
      | None \<Rightarrow>
          (case sf_gasPrice lst of
             Some lastGas \<Rightarrow> ov\<lparr>ov_gasPrice := Some (maxBigint (or_zero (fd_gasPrice fee)) (bumpFee lastGas))\<rparr>
           | None \<Rightarrow> ov))"

definition parse_estimate :: "string \<Rightarrow> int res" where
  "parse_estimate est =
     (case js_BigInt est of
        None \<Rightarrow> Throw (new_error ForeignError (''Cannot convert '' @ est @ '' to a BigInt''))
      | Some v \<Rightarrow> Ok v)"

definition send_overrides ::
  "send_env \<Rightarrow> string \<Rightarrow> oracle_call \<Rightarrow> int \<Rightarrow> oracle_writer \<Rightarrow> overrides res" where
  "send_overrides env target call nonce w =
     (case ow_lastSent w of
        None \<Rightarrow> Ok (plain_overrides nonce)
      | Some lst \<Rightarrow>
          (if sf_nonce lst \<noteq> nonce then Ok (plain_overrides nonce)
           else
             bind_res (se_feeData env) (\<lambda>fee.
             bind_res (se_encode env call) (\<lambda>data.
             bind_res (se_estimateGas env (se_address env) target data) (\<lambda>rawEst.
             bind_res (parse_estimate rawEst) (\<lambda>est.
               Ok ((replacement_fees fee lst (plain_overrides nonce))
                 \<lparr>ov_gasLimit := Some (maxBigint est (sf_gasLimit lst))\<rparr>))))))) "

definition fees_of :: "int \<Rightarrow> sent_tx \<Rightarrow> sent_fees" where
  "fees_of nonce tx =
     \<lparr>sf_nonce = nonce, sf_maxFeePerGas = st_maxFeePerGas tx, sf_maxPriorityFeePerGas = st_maxPriorityFeePerGas tx,
      sf_gasPrice = st_gasPrice tx, sf_gasLimit = st_gasLimit tx\<rparr>"

definition note_event :: "write_event \<Rightarrow> oracle_writer \<Rightarrow> oracle_writer" where
  "note_event e w = w\<lparr>ow_trace := e # ow_trace w\<rparr>"

definition submit_and_wait ::
  "send_env \<Rightarrow> string \<Rightarrow> oracle_call \<Rightarrow> overrides \<Rightarrow> oracle_writer \<Rightarrow> string res \<times> oracle_writer" where
  "submit_and_wait env target call ov w =
     (let nonce = ov_nonce ov; w = note_event (Attempt target call ov) w in
      case se_submit env target call ov of
        Inl e \<Rightarrow> (Throw e, w)
      | Inr tx \<Rightarrow>
          (let w = note_event (Accepted (fees_of nonce tx)) (w\<lparr>ow_lastSent := Some (fees_of nonce tx)\<rparr>) in
           case se_wait env tx of
             Inl e \<Rightarrow> (Throw e, w)
           | Inr _ \<Rightarrow> (Ok (st_hash tx), note_event (Mined nonce) (w\<lparr>ow_lastSent := None, ow_lastMinedNonce := Some nonce\<rparr>))))"

definition send :: "send_env \<Rightarrow> string \<Rightarrow> oracle_call \<Rightarrow> oracle_writer \<Rightarrow> string res \<times> oracle_writer" where
  "send env target call w =
     (case bind_res (send_nonce env w) (\<lambda>nonce. send_overrides env target call nonce w) of
        Inl e \<Rightarrow> (Throw e, w)
      | Inr ov \<Rightarrow> submit_and_wait env target call ov w)"

definition pushPrices ::
  "quoter_contract \<Rightarrow> send_env \<Rightarrow> int \<Rightarrow> chain_price_update list \<Rightarrow> oracle_writer \<Rightarrow> string res \<times> oracle_writer" where
  "pushPrices qt env sourcePrice updates w =
     send env (qt_target qt) (BatchPriceUpdate sourcePrice (map cu_chainId updates) (map cu_pricing updates)) w"

definition pushTwapSample ::
  "ethers \<Rightarrow> retry_options \<Rightarrow> quoter_contract \<Rightarrow> send_env \<Rightarrow> int \<Rightarrow> oracle_writer \<Rightarrow> string res \<times> oracle_writer" where
  "pushTwapSample eth retry qt env ctcPerAttest w =
     (case twapReader eth retry qt w of
        (Inl e, w) \<Rightarrow> (Throw e, w)
      | (Inr reader, w) \<Rightarrow> send env reader (TwapUpdate ctcPerAttest) w)"

subsection \<open>The gas reader\<close>

record gas_reader =
  gr_rpcByChain :: "int \<Rightarrow> string option"
  gr_providers :: "int \<Rightarrow> string option"
  gr_retry :: retry_options

definition new_gas_reader :: "oracle_chain list \<Rightarrow> partial_retry option \<Rightarrow> gas_reader" where
  "new_gas_reader cs retry =
     \<lparr>gr_rpcByChain = foldl (\<lambda>m c. m(och_chainId c \<mapsto> och_rpcUrl c)) Map.empty cs,
      gr_providers = Map.empty, gr_retry = merge_retry retry\<rparr>"

definition providerFor :: "int \<Rightarrow> gas_reader \<Rightarrow> string res \<times> gas_reader" where
  "providerFor chainId gr =
     (case gr_providers gr chainId of
        Some p \<Rightarrow> (Ok p, gr)
      | None \<Rightarrow>
          (case gr_rpcByChain gr chainId of
             None \<Rightarrow> (Throw (new_error PlainError (''no RPC configured for chainId '' @ show_int chainId)), gr)
           | Some url \<Rightarrow>
               (if url = [] then (Throw (new_error PlainError (''no RPC configured for chainId '' @ show_int chainId)), gr)
                else (Ok url, gr\<lparr>gr_providers := (gr_providers gr)(chainId \<mapsto> url)\<rparr>))))"

definition gasPrice :: "(string \<Rightarrow> nat \<Rightarrow> fee_data res) \<Rightarrow> int \<Rightarrow> gas_reader \<Rightarrow> int res \<times> gas_reader" where
  "gasPrice getFeeData chainId gr =
     (case providerFor chainId gr of
        (Inl e, gr) \<Rightarrow> (Throw e, gr)
      | (Inr p, gr) \<Rightarrow>
          (oracle_retry (gr_retry gr) (\<lambda>attempt. bind_res (getFeeData p attempt) (\<lambda>fee.
             case fd_gasPrice fee of
               None \<Rightarrow> Throw (new_error PlainError (''no gasPrice returned for chainId '' @ show_int chainId))
             | Some g \<Rightarrow> Ok g)), gr))"

end
