(* ===== verification/Oracle_Nonce.thy ===== *)
theory Oracle_Nonce
  imports Oracle_Writer
begin

section \<open>Nonces and fees of the oracle's transactions\<close>

text \<open>
  The writer's history over any sequence of its operations, with any answers of the node and the
  contracts. \<open>disciplined\<close> is the specification, over the history alone; the fields the code keeps
  are shown to be functions of the history (\<open>in_flight\<close>, the newest mined nonce), and the
  specification follows by rule induction. \<open>price_writer\<close> is the interface the runner relies on.
\<close>

inductive writer_step :: "ethers \<Rightarrow> oracle_writer \<Rightarrow> oracle_writer \<Rightarrow> bool" for eth where
  prices: "writer_step eth w (snd (pushPrices qt env p us w))"
| sample: "writer_step eth w (snd (pushTwapSample eth retry qt env c w))"
| check: "writer_step eth w (snd (assertTwapReaderAuthorized eth retry qt a w))"

subsection \<open>The specification\<close>

fun mined :: "write_event list \<Rightarrow> int list" where
  "mined [] = []"
| "mined (Mined n # es) = n # mined es"
| "mined (_ # es) = mined es"

text \<open>The transaction that was accepted last, until something is mined.\<close>

fun in_flight :: "write_event list \<Rightarrow> sent_fees option" where
  "in_flight [] = None"
| "in_flight (Accepted f # es) = Some f"
| "in_flight (Mined _ # es) = None"
| "in_flight (Attempt _ _ _ # es) = in_flight es"

definition outbids :: "overrides \<Rightarrow> sent_fees \<Rightarrow> bool" where
  "outbids ov f \<longleftrightarrow>
     (\<exists>g. ov_gasLimit ov = Some g \<and> sf_gasLimit f \<le> g) \<and>
     (case sf_maxFeePerGas f of
        Some m \<Rightarrow> (\<exists>a b. ov_maxFeePerGas ov = Some a \<and> ov_maxPriorityFeePerGas ov = Some b \<and>
                   1125 * m \<le> 1000 * a \<and> 1125 * or_zero (sf_maxPriorityFeePerGas f) \<le> 1000 * b \<and> b \<le> a)
      | None \<Rightarrow> (case sf_gasPrice f of
                   Some g \<Rightarrow> (\<exists>a. ov_gasPrice ov = Some a \<and> 1125 * g \<le> 1000 * a)
                 | None \<Rightarrow> True))"

definition event_disciplined :: "write_event \<Rightarrow> write_event list \<Rightarrow> bool" where
  "event_disciplined e es =
     (case e of
        Attempt t c ov \<Rightarrow>
          (\<forall>n \<in> set (mined es). n < ov_nonce ov) \<and>
          (case in_flight es of None \<Rightarrow> True | Some f \<Rightarrow> (if sf_nonce f = ov_nonce ov then outbids ov f else True))
      | Accepted f \<Rightarrow> (\<forall>n \<in> set (mined es). n < sf_nonce f)
      | Mined m \<Rightarrow> (\<forall>n \<in> set (mined es). n < m))"

fun disciplined :: "write_event list \<Rightarrow> bool" where
  "disciplined [] = True"
| "disciplined (e # es) = (event_disciplined e es \<and> disciplined es)"

definition writer_inv :: "oracle_writer \<Rightarrow> bool" where
  "writer_inv w \<longleftrightarrow>
     disciplined (ow_trace w) \<and> ow_lastSent w = in_flight (ow_trace w) \<and>
     ow_lastMinedNonce w = (case mined (ow_trace w) of [] \<Rightarrow> None | m # _ \<Rightarrow> Some m) \<and>
     (\<forall>m. ow_lastMinedNonce w = Some m \<longrightarrow> (\<forall>n \<in> set (mined (ow_trace w)). n \<le> m))"

subsection \<open>Nonce and fees of one send\<close>

lemma maxBigint_ge [simp]: "a \<le> maxBigint a b" "b \<le> maxBigint a b"
  by (simp_all add: maxBigint_def)

lemma div_above: "0 < k \<Longrightarrow> (x :: int) < k * (x div k) + k" "0 < k \<Longrightarrow> k * (x div k) \<le> (x :: int)"
  using mult_div_mod_eq [of k x] pos_mod_bound [of k x] pos_mod_sign [of k x] by linarith+

lemma bumpFee_ge: "1125 * v \<le> 1000 * bumpFee v"
proof (cases "0 \<le> v")
  case True
  define q where "q = v * 1125 div 1000"
  have "v * 1125 < 1000 * q + 1000" unfolding q_def by (rule div_above) simp
  moreover have "bumpFee v = q + 1" 
    unfolding bumpFee_def q_def using True by (subst bigint_div_nonneg) simp_all
  ultimately show ?thesis by linarith
next
  case False
  define q where "q = - (v * 1125) div 1000"
  have "1000 * q \<le> - (v * 1125)" unfolding q_def by (rule div_above) simp
  moreover have "bumpFee v = - q + 1" using False by (simp only: bumpFee_def bigint_div_def q_def) simp
  ultimately show ?thesis by linarith
qed

lemma max_bump: "1125 * v \<le> 1000 * maxBigint x (bumpFee v)"
  using bumpFee_ge [of v] maxBigint_ge(2) [where a = x and b = "bumpFee v"] by linarith

lemma send_nonce_above:
  assumes "send_nonce env w = Ok nonce" and "ow_lastMinedNonce w = Some m"
  shows "m < nonce"
  using assms by (auto simp: send_nonce_def bind_res_Ok_iff split: if_splits)

lemma replacement_fees_sel [simp]:
  "ov_nonce (replacement_fees fee f ov) = ov_nonce ov" "ov_gasLimit (replacement_fees fee f ov) = ov_gasLimit ov"
  by (simp_all add: replacement_fees_def Let_def split: option.splits)

lemma replacement_outbids:
  "outbids ((replacement_fees fee f ov)\<lparr>ov_gasLimit := Some (maxBigint est (sf_gasLimit f))\<rparr>) f"
proof -
  have "1125 * m \<le> 1000 * maxBigint (maxBigint x (bumpFee m)) p" for m x p
    using max_bump [of m x] maxBigint_ge(1) [of "maxBigint x (bumpFee m)" p] by linarith
  then show ?thesis
    unfolding outbids_def replacement_fees_def Let_def using max_bump by (auto split: option.splits simp del: mult_le_cancel_left)
qed

lemma send_overrides_Ok:
  assumes "send_overrides env target call nonce w = Ok ov"
  shows "ov_nonce ov = nonce" and "ow_lastSent w = Some f \<Longrightarrow> sf_nonce f = nonce \<Longrightarrow> outbids ov f"
  using assms replacement_outbids
  by (auto simp: send_overrides_def plain_overrides_def bind_res_Ok_iff split: option.splits if_splits)

lemma attempt_disciplined:
  assumes inv: "writer_inv w" and "send_nonce env w = Ok nonce" and "send_overrides env target call nonce w = Ok ov"
  shows "event_disciplined (Attempt target call ov) (ow_trace w)" and "\<forall>n \<in> set (mined (ow_trace w)). n < ov_nonce ov"
proof -
  show above: "\<forall>n \<in> set (mined (ow_trace w)). n < ov_nonce ov"
  proof
    fix n assume n: "n \<in> set (mined (ow_trace w))"
    then obtain m where m: "ow_lastMinedNonce w = Some m" using inv by (auto simp: writer_inv_def split: list.splits)
    then have "n \<le> m" using inv n by (simp add: writer_inv_def)
    then show "n < ov_nonce ov" using send_nonce_above [OF assms(2) m] send_overrides_Ok(1) [OF assms(3)] by simp
  qed
  show "event_disciplined (Attempt target call ov) (ow_trace w)"
    using above inv send_overrides_Ok [OF assms(3)]
    by (auto simp: event_disciplined_def writer_inv_def split: option.splits)
qed

lemma submit_keeps_inv:
  assumes inv: "writer_inv w" and "event_disciplined (Attempt target call ov) (ow_trace w)"
    and "\<forall>n \<in> set (mined (ow_trace w)). n < ov_nonce ov"
  shows "writer_inv (snd (submit_and_wait env target call ov w))"
  using assms
  by (auto simp: submit_and_wait_def Let_def note_event_def writer_inv_def event_disciplined_def fees_of_def
      split: sum.splits)

lemma send_keeps_inv: "writer_inv w \<Longrightarrow> writer_inv (snd (send env target call w))"
  using submit_keeps_inv attempt_disciplined by (auto simp: send_def bind_res_Ok_iff split: sum.splits)

lemma twapReader_frame:
  "ow_trace (snd (twapReader eth retry qt w)) = ow_trace w"
  "ow_lastSent (snd (twapReader eth retry qt w)) = ow_lastSent w"
  "ow_lastMinedNonce (snd (twapReader eth retry qt w)) = ow_lastMinedNonce w"
  by (auto simp: twapReader_def Let_def split: sum.splits prod.splits)

lemma twapReader_keeps_inv: "writer_inv w \<Longrightarrow> writer_inv (snd (twapReader eth retry qt w))"
  by (simp add: writer_inv_def twapReader_frame)

lemma writer_step_inv: "writer_step eth w w' \<Longrightarrow> writer_inv w \<Longrightarrow> writer_inv w'"
proof (induction rule: writer_step.induct)
  case (prices w qt env p us)
  then show ?case by (simp add: pushPrices_def send_keeps_inv)
next
  case (sample w retry qt env c)
  then have "writer_inv (snd (twapReader eth retry qt w))" by (rule twapReader_keeps_inv)
  then show ?case by (auto simp: pushTwapSample_def send_keeps_inv split: prod.splits sum.splits)
next
  case (check w retry qt a)
  then have "writer_inv (snd (twapReader eth retry qt w))" by (rule twapReader_keeps_inv)
  then show ?case using check by (auto simp: assertTwapReaderAuthorized_def split: prod.splits sum.splits)
qed

lemmas push_inv = writer_step_inv [OF prices] writer_step_inv [OF sample]

lemma pushPrices_inv: "pushPrices qt env p us w = (r, w') \<Longrightarrow> writer_inv w \<Longrightarrow> writer_inv w'"
  using push_inv(1) [of w qt env p us] by simp

lemma pushTwapSample_inv: "pushTwapSample eth retry qt env c w = (r, w') \<Longrightarrow> writer_inv w \<Longrightarrow> writer_inv w'"
  using push_inv(2) [of w eth retry qt env c] by simp

subsection \<open>The writer as the runner uses it\<close>

fun calls :: "write_event list \<Rightarrow> oracle_call list" where
  "calls [] = []"
| "calls (Attempt _ c _ # es) = calls es @ [c]"
| "calls (_ # es) = calls es"

text \<open>
  The contract of the two pushes: each hands over at most its own call, in the order of the
  history, and a push that returns a hash has handed it over.
\<close>

locale price_writer =
  fixes push_sample :: "'e \<Rightarrow> int \<Rightarrow> 'w \<Rightarrow> string res \<times> 'w"
    and push_batch :: "'f \<Rightarrow> int \<Rightarrow> chain_price_update list \<Rightarrow> 'w \<Rightarrow> string res \<times> 'w"
    and history :: "'w \<Rightarrow> oracle_call list"
  assumes sample_history:
      "push_sample e c w = (r, w') \<Longrightarrow>
       history w' = history w \<and> (\<exists>err. r = Inl err) \<or> history w' = history w @ [TwapUpdate c]"
    and batch_history:
      "push_batch f p us w = (r, w') \<Longrightarrow>
       history w' = history w \<and> (\<exists>err. r = Inl err) \<or>
       history w' = history w @ [BatchPriceUpdate p (map cu_chainId us) (map cu_pricing us)]"
begin

definition push_both ::
  "'e \<Rightarrow> 'f \<Rightarrow> int option \<Rightarrow> int \<Rightarrow> chain_price_update list \<Rightarrow> 'w \<Rightarrow> (string option \<times> string) res \<times> 'w" where
  "push_both e f c p us w =
     (case (case c of None \<Rightarrow> (Ok None, w)
            | Some v \<Rightarrow> (case push_sample e v w of (Inl err, w) \<Rightarrow> (Throw err, w) | (Inr h, w) \<Rightarrow> (Ok (Some h), w))) of
        (Inl err, w) \<Rightarrow> (Throw err, w)
      | (Inr th, w) \<Rightarrow> (case push_batch f p us w of (Inl err, w) \<Rightarrow> (Throw err, w) | (Inr h, w) \<Rightarrow> (Ok (th, h), w)))"

text \<open>The sample goes first, the batch at most once and only after a sample that succeeded.\<close>

lemma push_both_history:
  assumes "push_both e f c p us w = (r, w')"
  defines "planned \<equiv> (case c of None \<Rightarrow> [] | Some v \<Rightarrow> [TwapUpdate v]) @
    [BatchPriceUpdate p (map cu_chainId us) (map cu_pricing us)]"
  shows "\<exists>n. history w' = history w @ take n planned \<and> (case r of Inl _ \<Rightarrow> True | Inr _ \<Rightarrow> n = length planned)"
proof (cases c)
  case None
  obtain r1 w1 where b: "push_batch f p us w = (r1, w1)" by fastforce
  from batch_history [OF b] show ?thesis
  proof
    assume "history w1 = history w \<and> (\<exists>err. r1 = Inl err)"
    then show ?thesis using assms None b by (intro exI [of _ 0]) (auto simp: push_both_def)
  next
    assume "history w1 = history w @ [BatchPriceUpdate p (map cu_chainId us) (map cu_pricing us)]"
    then show ?thesis using assms None b by (intro exI [of _ 1]) (auto simp: push_both_def split: sum.splits)
  qed
next
  case (Some v)
  obtain r0 w0 where s: "push_sample e v w = (r0, w0)" by fastforce
  obtain r1 w1 where b: "push_batch f p us w0 = (r1, w1)" by fastforce
  show ?thesis
  proof (cases r0)
    case (Inl err)
    then have "w' = w0" "r = Inl err" using assms(1) Some s by (simp_all add: push_both_def)
    then show ?thesis
      using sample_history [OF s] Some
      by (elim disjE) (rule exI [of _ 0], simp, rule exI [of _ 1], simp add: planned_def)
  next
    case (Inr h)
    then have h0: "history w0 = history w @ [TwapUpdate v]" using sample_history [OF s] by simp
    from batch_history [OF b] show ?thesis
    proof
      assume "history w1 = history w0 \<and> (\<exists>err. r1 = Inl err)"
      then show ?thesis
        using assms Some s b Inr h0 by (intro exI [of _ 1]) (auto simp: push_both_def)
    next
      assume "history w1 = history w0 @ [BatchPriceUpdate p (map cu_chainId us) (map cu_pricing us)]"
      then show ?thesis
        using assms Some s b Inr h0 by (intro exI [of _ 2]) (auto simp: push_both_def split: sum.splits)
    qed
  qed
qed

end

lemma send_calls:
  assumes "send env target call w = (r, w')"
  shows "calls (ow_trace w') = calls (ow_trace w) \<and> (\<exists>err. r = Inl err) \<or> calls (ow_trace w') = calls (ow_trace w) @ [call]"
  using assms by (auto simp: send_def submit_and_wait_def Let_def note_event_def split: sum.splits)

lemma pushTwapSample_calls:
  assumes "pushTwapSample eth retry qt env c w = (r, w')"
  shows "calls (ow_trace w') = calls (ow_trace w) \<and> (\<exists>err. r = Inl err) \<or>
    calls (ow_trace w') = calls (ow_trace w) @ [TwapUpdate c]"
proof -
  obtain r0 w0 where t: "twapReader eth retry qt w = (r0, w0)" by fastforce
  have "ow_trace w0 = ow_trace w" using twapReader_frame(1) [of eth retry qt w] t by simp
  then show ?thesis
    using assms t send_calls [of env _ "TwapUpdate c" w0 r w'] by (auto simp: pushTwapSample_def split: sum.splits)
qed

interpretation rpc_writer: price_writer
  "\<lambda>(eth, retry, qt, env). pushTwapSample eth retry qt env" "\<lambda>(qt, env). pushPrices qt env" "\<lambda>w. calls (ow_trace w)"
proof
  fix e c w r w'
  show "(case e of (eth, retry, qt, env) \<Rightarrow> pushTwapSample eth retry qt env) c w = (r, w') \<Longrightarrow>
    calls (ow_trace w') = calls (ow_trace w) \<and> (\<exists>err. r = Inl err) \<or> calls (ow_trace w') = calls (ow_trace w) @ [TwapUpdate c]"
    using pushTwapSample_calls by (cases e) auto
next
  fix f p us w r w'
  show "(case f of (qt, env) \<Rightarrow> pushPrices qt env) p us w = (r, w') \<Longrightarrow>
    calls (ow_trace w') = calls (ow_trace w) \<and> (\<exists>err. r = Inl err) \<or>
    calls (ow_trace w') = calls (ow_trace w) @ [BatchPriceUpdate p (map cu_chainId us) (map cu_pricing us)]"
    using send_calls by (cases f) (auto simp: pushPrices_def)
qed

subsection \<open>Properties\<close>

text \<open>C23: Whatever the node and the contracts answer, in every history a new writer can reach: a
  transaction is handed over only under a nonce above every nonce confirmed mined (a stale
  \<open>latest\<close> count is never reused), mined nonces strictly increase, and a transaction that reuses
  the nonce of the one in flight bids at least 12.5 percent above it in every fee field it had, with
  at least its gas limit.\<close>

theorem oracle_nonces_disciplined:
  assumes "(writer_step eth)\<^sup>*\<^sup>* new_writer w"
  shows "disciplined (ow_trace w)"
proof -
  from assms have "writer_inv w"
  proof (induction rule: rtranclp_induct)
    case base
    then show ?case by (simp add: writer_inv_def new_writer_def)
  next
    case (step w w')
    then show ?case using writer_step_inv by blast
  qed
  then show ?thesis by (simp add: writer_inv_def)
qed

text \<open>
  The floor at the last mined nonce comes after the check for unknown pending transactions: a node
  whose \<open>latest\<close> count lags but whose \<open>pending\<close> count already has the writer's own mined transaction
  makes the next send fail, although nothing unknown is pending.
\<close>

lemma own_mined_taken_for_unknown:
  assumes "ow_lastSent w = None" and "ow_lastMinedNonce w = Some (int n)" and "int n + 1 < 2 ^ 53"
    and "se_latest env = Ok (show_nat n)" and "se_pending env = Ok (show_nat (n + 1))"
  shows "\<exists>e. send env target call w = (Throw e, w)"
  using assms by (simp add: send_def send_nonce_def read_nonce_def js_isSafeInteger_def)

text \<open>A node that accepts what it is given and, in the second send, confirms it.\<close>

definition demo_quoter :: quoter_contract where
  "demo_quoter = \<lparr>qt_target = ''0xquoter'', qt_oracleService = (\<lambda>_. Ok ''0xoracle''), qt_pricingMode = (\<lambda>_. Ok 0),
     qt_attestCtcPath = (\<lambda>_ _. Throw (coded_error ForeignError ''CALL_EXCEPTION'' ''execution reverted'')),
     qt_twapReader = (\<lambda>_. Ok ''0xreader''), qt_readerOracleService = (\<lambda>_ _. Ok ''0xoracle'')\<rparr>"

definition demo_send :: "nat \<Rightarrow> nat \<Rightarrow> unit res \<Rightarrow> send_env" where
  "demo_send latest pending confirm = \<lparr>se_address = ''0xoracle'', se_latest = Ok (show_nat latest), se_pending = Ok (show_nat pending),
     se_feeData = Ok \<lparr>fd_maxFeePerGas = Some 90, fd_maxPriorityFeePerGas = Some 2, fd_gasPrice = Some 80\<rparr>,
     se_encode = (\<lambda>_. Ok ''0x''), se_estimateGas = (\<lambda>_ _ _. Ok (show_nat 21000)),
     se_submit = (\<lambda>_ _ ov. Ok \<lparr>st_hash = ''0xhash'', st_maxFeePerGas = Some (max 100 (or_zero (ov_maxFeePerGas ov))),
       st_maxPriorityFeePerGas = Some (max 1 (or_zero (ov_maxPriorityFeePerGas ov))), st_gasPrice = None,
       st_gasLimit = max 50000 (or_zero (ov_gasLimit ov))\<rparr>),
     se_wait = (\<lambda>_. confirm)\<rparr>"

definition stuck_writer :: oracle_writer where
  "stuck_writer = snd (pushPrices demo_quoter (demo_send 5 5 (Throw (coded_error ForeignError ''TIMEOUT'' ''timeout''))) 7 [] new_writer)"

definition unstuck_writer :: oracle_writer where
  "unstuck_writer = snd (pushPrices demo_quoter (demo_send 5 6 (Ok ())) 8 [] stuck_writer)"

lemmas send_simps = pushPrices_def send_def send_nonce_def read_nonce_def js_isSafeInteger_def send_overrides_def
  plain_overrides_def submit_and_wait_def note_event_def fees_of_def replacement_fees_def parse_estimate_def or_zero_def Let_def

lemma stuck_writer_eq:
  "stuck_writer = \<lparr>ow_lastSent = Some \<lparr>sf_nonce = 5, sf_maxFeePerGas = Some 100, sf_maxPriorityFeePerGas = Some 1,
      sf_gasPrice = None, sf_gasLimit = 50000\<rparr>, ow_lastMinedNonce = None, ow_twapReaderCache = None,
     ow_trace = [Accepted \<lparr>sf_nonce = 5, sf_maxFeePerGas = Some 100, sf_maxPriorityFeePerGas = Some 1, sf_gasPrice = None, sf_gasLimit = 50000\<rparr>,
       Attempt ''0xquoter'' (BatchPriceUpdate 7 [] []) (plain_overrides 5)]\<rparr>"
  by (simp add: stuck_writer_def send_simps demo_send_def demo_quoter_def new_writer_def)

lemma unstuck_trace:
  "take 1 (ow_trace unstuck_writer) = [Mined 5]"
  "calls (ow_trace unstuck_writer) = [BatchPriceUpdate 7 [] [], BatchPriceUpdate 8 [] []]"
  unfolding unstuck_writer_def stuck_writer_eq
  by (simp_all add: send_simps demo_send_def demo_quoter_def)

theorem oracle_nonces_disciplined_witness:
  "disciplined (ow_trace unstuck_writer) \<and> take 1 (ow_trace unstuck_writer) = [Mined 5] \<and>
   calls (ow_trace unstuck_writer) = [BatchPriceUpdate 7 [] [], BatchPriceUpdate 8 [] []]"
proof -
  have "writer_step demo_eth new_writer stuck_writer" "writer_step demo_eth stuck_writer unstuck_writer"
    unfolding stuck_writer_def unstuck_writer_def by (rule prices)+
  then have "(writer_step demo_eth)\<^sup>*\<^sup>* new_writer unstuck_writer" by simp
  then show ?thesis using oracle_nonces_disciplined unstuck_trace by blast
qed

end
