(* ===== verification/Price_Source.thy ===== *)
theory Price_Source
  imports Oracle_Scaling Rpc
begin

section \<open>Prices and their time-weighted average\<close>

text \<open>
  \<open>oracle-service/src/priceSource.ts\<close>: the CoinGecko client and the rolling window of samples. The
  HTTP client is a parameter: whether a URL parses, and what the server answers for it with a
  query and headers on an attempt.
  The window is kept per coin id; \<open>now()\<close> is an argument of \<open>twap_record\<close>. Prices are exact
  rationals.
\<close>

record http_reply =
  hr_ok :: bool
  hr_status :: nat
  hr_json :: "json option"

record coingecko =
  cg_baseUrl :: string
  cg_apiKey :: "string option"
  cg_retry :: retry_options
  cg_parseUrl :: "string \<Rightarrow> string res"
  cg_fetch :: "string \<Rightarrow> (string \<times> string) list \<Rightarrow> (string \<times> string) list \<Rightarrow> nat \<Rightarrow> http_reply res"

text \<open>The constructor drops the trailing slashes of the base URL and fills in the retry defaults.\<close>

definition strip_slashes :: "string \<Rightarrow> string" where
  "strip_slashes s = rev (dropWhile (\<lambda>c. c = CHR ''/'') (rev s))"

definition new_price_source ::
  "string \<Rightarrow> string option \<Rightarrow> partial_retry option \<Rightarrow> (string \<Rightarrow> string res) \<Rightarrow>
   (string \<Rightarrow> (string \<times> string) list \<Rightarrow> (string \<times> string) list \<Rightarrow> nat \<Rightarrow> http_reply res) \<Rightarrow> coingecko" where
  "new_price_source baseUrl apiKey retry parseUrl fetch =
     \<lparr>cg_baseUrl = strip_slashes baseUrl, cg_apiKey = apiKey, cg_retry = merge_retry retry,
      cg_parseUrl = parseUrl, cg_fetch = fetch\<rparr>"

text \<open>\<open>new Set(ids)\<close> in insertion order.\<close>

definition js_unique :: "'a list \<Rightarrow> 'a list" where
  "js_unique xs = rev (remdups (rev xs))"

lemma js_unique_props [simp]: "set (js_unique xs) = set xs" "distinct (js_unique xs)"
  by (simp_all add: js_unique_def)

definition requestOnce ::
  "coingecko \<Rightarrow> string \<Rightarrow> (string \<times> string) list \<Rightarrow> (string \<times> string) list \<Rightarrow> nat \<Rightarrow> json res" where
  "requestOnce cg url query headers attempt =
     (case cg_fetch cg url query headers attempt of
        Inl err \<Rightarrow> Throw (coded_error CoinGeckoError ''NETWORK_ERROR'' (''CoinGecko request failed: '' @ emessage err))
      | Inr res \<Rightarrow>
          (if \<not> hr_ok res then
             (let transient = (500 \<le> hr_status res \<or> hr_status res = 429)
              in Throw (coded_error CoinGeckoError (if transient then ''SERVER_ERROR'' else ''BAD_DATA'')
                   (''CoinGecko responded '' @ show_nat (hr_status res))))
           else
             (case hr_json res of
                None \<Rightarrow> Throw (coded_error CoinGeckoError ''BAD_DATA'' ''CoinGecko returned invalid JSON'')
              | Some j \<Rightarrow> Ok j)))"

text \<open>\<open>body[id]?.usd\<close>: reading a property of \<open>null\<close> throws, of an absent entry it is \<open>undefined\<close>.\<close>

definition usd_of :: "json \<Rightarrow> string \<Rightarrow> json option res" where
  "usd_of body cid =
     (if body = JNull then Throw (new_error TypeError ''Cannot read properties of null'')
      else Ok (case jfield cid body of None \<Rightarrow> None | Some JNull \<Rightarrow> None | Some entry \<Rightarrow> jfield ''usd'' entry))"

definition usable_price :: "json option \<Rightarrow> rat option" where
  "usable_price usd = (case usd of Some (JNumber (Num r)) \<Rightarrow> (if 0 < r then Some r else None) | _ \<Rightarrow> None)"

fun collect_prices :: "json \<Rightarrow> string list \<Rightarrow> (string \<rightharpoonup> rat) \<Rightarrow> (string \<rightharpoonup> rat) res" where
  "collect_prices body [] out = Ok out"
| "collect_prices body (cid # ids) out =
     bind_res (usd_of body cid) (\<lambda>usd.
       case usable_price usd of
         None \<Rightarrow> Throw (coded_error CoinGeckoError ''BAD_DATA''
                   (''CoinGecko returned no usable usd price for '' @ [CHR 0x22] @ cid @ [CHR 0x22]))
       | Some r \<Rightarrow> collect_prices body ids (out(cid \<mapsto> r)))"

definition price_headers :: "coingecko \<Rightarrow> (string \<times> string) list" where
  "price_headers cg =
     (''accept'', ''application/json'') #
     (case cg_apiKey cg of
        None \<Rightarrow> []
      | Some k \<Rightarrow> (if k = [] then []
                  else [(if str_includes (cg_baseUrl cg) ''pro-api'' then ''x-cg-pro-api-key'' else ''x-cg-demo-api-key'', k)]))"

definition fetchUsdPrices :: "coingecko \<Rightarrow> string list \<Rightarrow> (string \<rightharpoonup> rat) res" where
  "fetchUsdPrices cg ids =
     (let unique = js_unique ids in
      if unique = [] then Ok Map.empty
      else
        bind_res (cg_parseUrl cg (cg_baseUrl cg @ ''/simple/price'')) (\<lambda>url.
        bind_res (oracle_retry (cg_retry cg) (requestOnce cg url
          [(''ids'', join_with '','' unique), (''vs_currencies'', ''usd'')] (price_headers cg))) (\<lambda>body.
        collect_prices body unique Map.empty)))"

subsection \<open>The window\<close>

record twap_sample =
  ts_t :: int
  ts_price :: rat

record twap_aggregator =
  ta_windowMs :: int
  ta_samples :: "string \<Rightarrow> twap_sample list option"

definition twap_record :: "string \<Rightarrow> rat \<Rightarrow> int \<Rightarrow> twap_aggregator \<Rightarrow> twap_aggregator" where
  "twap_record cid p t ta =
     (let xs = (case ta_samples ta cid of None \<Rightarrow> [] | Some l \<Rightarrow> l) @ [\<lparr>ts_t = t, ts_price = p\<rparr>];
          cutoff = t - ta_windowMs ta;
          trimmed = filter (\<lambda>s. cutoff \<le> ts_t s) xs;
          trimmed = (if trimmed = [] then [last xs] else trimmed)
      in ta\<lparr>ta_samples := (ta_samples ta)(cid \<mapsto> trimmed)\<rparr>)"

fun weigh :: "twap_sample \<Rightarrow> twap_sample list \<Rightarrow> rat \<Rightarrow> int \<Rightarrow> rat \<times> int" where
  "weigh prev [] weighted tot = (weighted, tot)"
| "weigh prev (s # ss) weighted tot =
     (let dt = max 0 (ts_t s - ts_t prev)
      in weigh s ss (weighted + ts_price s * of_int dt) (tot + dt))"

definition twap_average :: "twap_aggregator \<Rightarrow> string \<Rightarrow> rat res" where
  "twap_average ta cid =
     (case ta_samples ta cid of
        None \<Rightarrow> Throw (new_error PlainError (''no samples recorded for '' @ [CHR 0x22] @ cid @ [CHR 0x22]))
      | Some [] \<Rightarrow> Throw (new_error PlainError (''no samples recorded for '' @ [CHR 0x22] @ cid @ [CHR 0x22]))
      | Some [s] \<Rightarrow> Ok (ts_price s)
      | Some (s # ss) \<Rightarrow>
          (let (weighted, tot) = weigh s ss 0 0
           in if tot = 0 then Ok (ts_price (last ss)) else Ok (weighted / of_int tot)))"

subsection \<open>Collected prices\<close>

lemma usable_price_pos: "usable_price u = Some r \<Longrightarrow> 0 < r"
  by (auto simp: usable_price_def split: option.splits json.splits js_num.splits if_splits)

lemma collect_prices_Ok:
  "collect_prices body ids out = Ok m \<Longrightarrow> (\<forall>x \<in> ran out. 0 < x) \<Longrightarrow>
   dom m = set ids \<union> dom out \<and> (\<forall>x \<in> ran m. 0 < x)"
proof (induction body ids out rule: collect_prices.induct)
  case (2 body cid ids out)
  obtain u r where u: "usd_of body cid = Ok u" "usable_price u = Some r" "collect_prices body ids (out(cid \<mapsto> r)) = Ok m"
    using "2.prems"(1) by (auto simp: bind_res_Ok_iff split: option.splits)
  have "\<forall>x \<in> ran (out(cid \<mapsto> r)). 0 < x"
    using "2.prems"(2) usable_price_pos [OF u(2)] by (auto simp: ran_def split: if_splits)
  from "2.IH" [OF u(1,2,3) this] show ?case by auto
qed auto

lemma fetchUsdPrices_Ok:
  assumes "fetchUsdPrices cg ids = Ok m"
  shows "dom m = set ids" and "\<And>cid r. m cid = Some r \<Longrightarrow> 0 < r"
proof -
  have "m = Map.empty \<and> js_unique ids = [] \<or> (\<exists>body. collect_prices body (js_unique ids) Map.empty = Ok m)"
    using assms by (auto simp: fetchUsdPrices_def Let_def bind_res_Ok_iff split: if_splits)
  then have *: "dom m = set (js_unique ids) \<and> (\<forall>x \<in> ran m. 0 < x)"
  proof
    assume "\<exists>body. collect_prices body (js_unique ids) Map.empty = Ok m"
    then show ?thesis using collect_prices_Ok [of _ "js_unique ids" Map.empty m] by (auto simp del: js_unique_props)
  qed auto
  show "dom m = set ids" using * by simp
  show "\<And>cid r. m cid = Some r \<Longrightarrow> 0 < r" using * by (auto simp: ran_def)
qed

subsection \<open>Bounds of the average\<close>

lemma weigh_bounds:
  assumes "\<forall>s \<in> set ss. lo \<le> ts_price s \<and> ts_price s \<le> hi" and "weigh prev ss w tot = (w', tot')"
    and "lo * of_int tot \<le> w" "w \<le> hi * of_int tot" "0 \<le> tot"
  shows "lo * of_int tot' \<le> w' \<and> w' \<le> hi * of_int tot' \<and> 0 \<le> tot'"
  using assms
proof (induction ss arbitrary: prev w tot)
  case (Cons s ss)
  define dt where "dt = max 0 (ts_t s - ts_t prev)"
  have dt: "0 \<le> (of_int dt :: rat)" "0 \<le> dt" by (simp_all add: dt_def)
  have p: "lo * of_int dt \<le> ts_price s * of_int dt" "ts_price s * of_int dt \<le> hi * of_int dt"
    using Cons.prems(1) dt(1) by (auto intro: mult_right_mono)
  have "lo * of_int (tot + dt) \<le> w + ts_price s * of_int dt" "w + ts_price s * of_int dt \<le> hi * of_int (tot + dt)"
    using Cons.prems(3,4) p by (simp_all add: distrib_left)
  moreover have "weigh s ss (w + ts_price s * of_int dt) (tot + dt) = (w', tot')"
    using Cons.prems(2) by (simp add: dt_def Let_def)
  ultimately show ?case using Cons.IH [of s] Cons.prems(1,5) dt(2) by simp
qed simp

lemma twap_average_between:
  assumes "ta_samples ta cid = Some xs" and "xs \<noteq> []" and "\<forall>s \<in> set xs. lo \<le> ts_price s \<and> ts_price s \<le> hi"
  shows "\<exists>a. twap_average ta cid = Ok a \<and> lo \<le> a \<and> a \<le> hi"
proof -
  obtain s ss where xs: "xs = s # ss" using assms(2) by (cases xs) auto
  show ?thesis
  proof (cases ss)
    case Nil
    then show ?thesis using assms xs by (simp add: twap_average_def)
  next
    case (Cons y ys)
    obtain w tot where w: "weigh s ss 0 0 = (w, tot)" by fastforce
    have b: "lo * of_int tot \<le> w" "w \<le> hi * of_int tot" "0 \<le> tot"
      using weigh_bounds [OF _ w, of lo hi] assms(3) xs by simp_all
    show ?thesis
    proof (cases "tot = 0")
      case True
      moreover have "last ss \<in> set xs" using Cons xs by simp
      ultimately show ?thesis using assms(1,3) xs Cons w by (simp add: twap_average_def)
    next
      case False
      then have "lo \<le> w / of_int tot" "w / of_int tot \<le> hi" using b by (simp_all add: field_simps)
      then show ?thesis using False assms(1) xs Cons w by (simp add: twap_average_def)
    qed
  qed
qed

subsection \<open>Properties\<close>

text \<open>The samples of one id among all that were recorded, oldest first.\<close>

definition recorded :: "(string \<times> rat \<times> int) list \<Rightarrow> string \<Rightarrow> (rat \<times> int) list" where
  "recorded ops cid = map snd (filter (\<lambda>(c, _). c = cid) ops)"

definition record_all :: "(string \<times> rat \<times> int) list \<Rightarrow> twap_aggregator \<Rightarrow> twap_aggregator" where
  "record_all ops ta = foldl (\<lambda>a (c, p, t). twap_record c p t a) ta ops"

definition fresh_aggregator :: "int \<Rightarrow> twap_aggregator" where
  "fresh_aggregator w = \<lparr>ta_windowMs = w, ta_samples = Map.empty\<rparr>"

lemma record_all_snoc: "record_all (ops @ [(c, p, t)]) ta = twap_record c p t (record_all ops ta)"
  by (simp add: record_all_def)

lemma twap_record_sel:
  assumes "0 \<le> ta_windowMs ta"
  shows "ta_windowMs (twap_record c p t ta) = ta_windowMs ta"
    and "ta_samples (twap_record c p t ta) cid =
      (if cid = c then Some (filter (\<lambda>s. t - ta_windowMs ta \<le> ts_t s)
         ((case ta_samples ta c of None \<Rightarrow> [] | Some l \<Rightarrow> l) @ [\<lparr>ts_t = t, ts_price = p\<rparr>]))
       else ta_samples ta cid)"
  using assms by (simp_all add: twap_record_def Let_def)

lemma record_all_samples:
  assumes "0 \<le> w"
  shows "ta_windowMs (record_all ops (fresh_aggregator w)) = w \<and>
    (case ta_samples (record_all ops (fresh_aggregator w)) cid of
       None \<Rightarrow> recorded ops cid = []
     | Some xs \<Rightarrow> xs \<noteq> [] \<and> recorded ops cid \<noteq> [] \<and>
         (\<forall>s \<in> set xs. (ts_price s, ts_t s) \<in> set (recorded ops cid) \<and> snd (last (recorded ops cid)) - w \<le> ts_t s))"
proof (induction ops rule: rev_induct)
  case Nil
  then show ?case by (simp add: record_all_def fresh_aggregator_def recorded_def)
next
  case (snoc op ops)
  obtain c p t where op: "op = (c, p, t)" by (cases op)
  let ?ta = "record_all ops (fresh_aggregator w)"
  have win: "ta_windowMs ?ta = w" using snoc by blast
  note sel = twap_record_sel [of ?ta c p t, unfolded win, OF assms]
  show ?case
  proof (cases "c = cid")
    case True
    have rec: "recorded (ops @ [op]) cid = recorded ops cid @ [(p, t)]" using True op by (simp add: recorded_def)
    show ?thesis
      unfolding op record_all_snoc sel using snoc assms rec [unfolded op] True
      by (auto split: option.splits)
  next
    case False
    then have rec: "recorded (ops @ [(c, p, t)]) cid = recorded ops cid" by (simp add: recorded_def)
    show ?thesis unfolding op record_all_snoc sel rec using snoc False by simp
  qed
qed

text \<open>Once a coin has been recorded its average exists, and it lies between any two bounds that
  hold for the prices recorded within one window before its last record: an older price cannot
  influence it, and no weighting of the clock's readings (they may even run backwards) takes it
  outside what was observed.\<close>

theorem twap_within_window:
  assumes "0 \<le> w" and "recorded ops cid \<noteq> []"
    and "\<forall>(p, t) \<in> set (recorded ops cid). snd (last (recorded ops cid)) - w \<le> t \<longrightarrow> lo \<le> p \<and> p \<le> hi"
  shows "\<exists>a. twap_average (record_all ops (fresh_aggregator w)) cid = Ok a \<and> lo \<le> a \<and> a \<le> hi"
proof -
  obtain xs where xs: "ta_samples (record_all ops (fresh_aggregator w)) cid = Some xs" "xs \<noteq> []"
    "\<forall>s \<in> set xs. (ts_price s, ts_t s) \<in> set (recorded ops cid) \<and> snd (last (recorded ops cid)) - w \<le> ts_t s"
    using record_all_samples [OF assms(1), of ops cid] assms(2) by (auto split: option.splits)
  then have "\<forall>s \<in> set xs. lo \<le> ts_price s \<and> ts_price s \<le> hi" using assms(3) by blast
  with xs(1,2) show ?thesis by (rule twap_average_between)
qed

theorem twap_within_window_witness:
  "\<exists>a. twap_average (record_all [(''ctc'', 9, 0), (''ctc'', 2, 100), (''eth'', 5, 120), (''ctc'', 4, 140)] (fresh_aggregator 60)) ''ctc'' = Ok a
     \<and> 2 \<le> a \<and> a \<le> 4"
  using twap_within_window [of 60 "[(''ctc'', 9, 0), (''ctc'', 2, 100), (''eth'', 5, 120), (''ctc'', 4, 140)]" "''ctc''" 2 4]
  by (simp add: recorded_def)

end
