(* ===== verification/Oracle_Runner.thy ===== *)
theory Oracle_Runner
  imports Oracle_Nonce Price_Source
begin

section \<open>The oracle's push loop\<close>

text \<open>
  \<open>oracle-service/src/runner.ts\<close>. \<open>tick_env\<close> holds what the outside answers during one tick: the
  quoter contract, the price source, the clock at each \<open>record\<close>, the destination chains' fee data
  and the source node during the two sends. \<open>Promise.all\<close> over the chains runs every chain's reads
  (so every provider is created) and fails when one fails; which error is reported when several
  fail is the first in configuration order here, the first in time in the code. A \<open>stop()\<close> that
  arrives while a tick is awaiting is \<open>te_stop\<close>.
\<close>

record tick_env =
  te_quoter :: quoter_contract
  te_source :: coingecko
  te_clock :: "nat \<Rightarrow> int"
  te_gas :: "string \<Rightarrow> nat \<Rightarrow> fee_data res"
  te_send_sample :: send_env
  te_send_batch :: send_env
  te_onSuccess :: "unit res"
  te_stop :: bool

record oracle_state =
  os_twap :: twap_aggregator
  os_gas :: gas_reader
  os_writer :: oracle_writer

record tick_result =
  tk_txHash :: string
  tk_twapTxHash :: "string option"
  tk_sourcePrice :: int
  tk_ctcPerAttest :: "int option"
  tk_updates :: "chain_price_update list"
  tk_mode :: pricing_mode
  tk_usesTwapReader :: bool

fun mode_name :: "pricing_mode \<Rightarrow> string" where
  "mode_name Twap = ''twap''"
| "mode_name PenguinSwap = ''penguinswap''"

definition readActivePricing :: "ethers \<Rightarrow> oracle_config \<Rightarrow> quoter_contract \<Rightarrow> (pricing_mode \<times> bool) res" where
  "readActivePricing eth cfg qt =
     bind_res (pricingMode (oc_retry cfg) qt) (\<lambda>mode.
     bind_res (if mode = Twap then Ok True
               else bind_res (hasAttestCtcPool eth (oc_retry cfg) qt) (\<lambda>pool. Ok (\<not> pool))) (\<lambda>usesTwapReader.
     bind_res (guard_res (usesTwapReader \<and> (oc_attestTokenId cfg = None \<or> oc_attestTokenId cfg = Some []))
       (new_error PlainError (''active pricing mode is '' @ [CHR 0x22] @ mode_name mode @ [CHR 0x22] @ '' but ORACLE_ATTEST_TOKEN_ID is unset -- ''
         @ (if mode = Twap then ''twap mode'' else ''PenguinSwap fallback'')
         @ '' needs the ATTEST/USD leg to derive ctcPerAttest''))) (\<lambda>_.
       Ok (mode, usesTwapReader))))"

definition readActiveMode :: "ethers \<Rightarrow> oracle_config \<Rightarrow> quoter_contract \<Rightarrow> pricing_mode res" where
  "readActiveMode eth cfg qt = bind_res (readActivePricing eth cfg qt) (\<lambda>(mode, _). Ok mode)"

subsection \<open>One tick\<close>

definition attest_id :: "oracle_config \<Rightarrow> string" where
  "attest_id cfg = (case oc_attestTokenId cfg of None \<Rightarrow> [] | Some s \<Rightarrow> s)"

definition tick_ids :: "oracle_config \<Rightarrow> bool \<Rightarrow> string list" where
  "tick_ids cfg usesTwapReader =
     [oc_ctcTokenId cfg] @ (if usesTwapReader then [attest_id cfg] else []) @ map och_coingeckoId (oc_chains cfg)"

text \<open>\<open>prices.get(id)!\<close>: every id that is asked for has a price (\<open>fetchUsdPrices_Ok\<close>).\<close>

definition price_at :: "(string \<Rightarrow> rat option) \<Rightarrow> string \<Rightarrow> rat" where
  "price_at prices cid = (case prices cid of None \<Rightarrow> 0 | Some r \<Rightarrow> r)"

fun record_prices :: "(nat \<Rightarrow> int) \<Rightarrow> (string \<Rightarrow> rat option) \<Rightarrow> nat \<Rightarrow> string list \<Rightarrow> twap_aggregator \<Rightarrow> twap_aggregator" where
  "record_prices clock prices i [] ta = ta"
| "record_prices clock prices i (cid # ids) ta =
     record_prices clock prices (Suc i) ids (twap_record cid (price_at prices cid) (clock i) ta)"

definition scaled_average :: "twap_aggregator \<Rightarrow> string \<Rightarrow> int res" where
  "scaled_average ta cid = bind_res (twap_average ta cid) (\<lambda>a. usdToScaled (PNumber (Num a)))"

definition chain_update ::
  "tick_env \<Rightarrow> int \<Rightarrow> twap_aggregator \<Rightarrow> oracle_chain \<Rightarrow> gas_reader \<Rightarrow> chain_price_update res \<times> gas_reader" where
  "chain_update env sourcePrice ta c gr =
     (case scaled_average ta (och_coingeckoId c) of
        Inl e \<Rightarrow> (Throw e, gr)
      | Inr dstPrice \<Rightarrow>
          (case gasPrice (te_gas env) (och_chainId c) gr of
             (Inl e, gr) \<Rightarrow> (Throw e, gr)
           | (Inr dstGasPrice, gr) \<Rightarrow>
               (Ok \<lparr>cu_chainId = och_chainId c,
                    cu_pricing = \<lparr>pd_baseFee = och_baseFee c, pd_dstGasPrice = dstGasPrice, pd_dstPrice = dstPrice,
                                  pd_srcPrice = sourcePrice, pd_priceBuffer = och_priceBuffer c\<rparr>\<rparr>, gr)))"

fun chain_updates ::
  "tick_env \<Rightarrow> int \<Rightarrow> twap_aggregator \<Rightarrow> oracle_chain list \<Rightarrow> gas_reader \<Rightarrow> chain_price_update res list \<times> gas_reader" where
  "chain_updates env sourcePrice ta [] gr = ([], gr)"
| "chain_updates env sourcePrice ta (c # cs) gr =
     (let (r, gr) = chain_update env sourcePrice ta c gr;
          (rs, gr) = chain_updates env sourcePrice ta cs gr
      in (r # rs, gr))"

record tick_plan =
  tp_mode :: pricing_mode
  tp_usesTwapReader :: bool
  tp_sourcePrice :: int
  tp_updates :: "chain_price_update list"
  tp_ctcPerAttest :: "int option"

text \<open>Steps 1 and 2: the active pricing and every USD leg; then the plan of steps 4 to 6.\<close>

definition tick_prices :: "ethers \<Rightarrow> oracle_config \<Rightarrow> tick_env \<Rightarrow> (pricing_mode \<times> bool \<times> (string \<Rightarrow> rat option)) res" where
  "tick_prices eth cfg env =
     bind_res (readActivePricing eth cfg (te_quoter env)) (\<lambda>(mode, usesTwapReader).
     bind_res (fetchUsdPrices (te_source env) (tick_ids cfg usesTwapReader)) (\<lambda>prices.
       Ok (mode, usesTwapReader, prices)))"

definition ctc_per_attest :: "oracle_config \<Rightarrow> bool \<Rightarrow> (string \<Rightarrow> rat option) \<Rightarrow> int option res" where
  "ctc_per_attest cfg usesTwapReader prices =
     (if usesTwapReader
      then bind_res (usdRatioWad (PNumber (Num (price_at prices (attest_id cfg)))) (PNumber (Num (price_at prices (oc_ctcTokenId cfg)))))
             (\<lambda>v. Ok (Some v))
      else Ok None)"

definition assemble_plan ::
  "oracle_config \<Rightarrow> pricing_mode \<Rightarrow> bool \<Rightarrow> (string \<Rightarrow> rat option) \<Rightarrow> int \<Rightarrow> chain_price_update res list \<Rightarrow> tick_plan res" where
  "assemble_plan cfg mode usesTwapReader prices sourcePrice rs =
     bind_res (map_res (\<lambda>r. r) rs) (\<lambda>updates.
     bind_res (ctc_per_attest cfg usesTwapReader prices) (\<lambda>ctcPerAttest.
       Ok \<lparr>tp_mode = mode, tp_usesTwapReader = usesTwapReader, tp_sourcePrice = sourcePrice,
           tp_updates = updates, tp_ctcPerAttest = ctcPerAttest\<rparr>))"

text \<open>Everything a tick reads and computes before the first write.\<close>

definition tick_reads :: "ethers \<Rightarrow> oracle_config \<Rightarrow> tick_env \<Rightarrow> oracle_state \<Rightarrow> tick_plan res \<times> oracle_state" where
  "tick_reads eth cfg env st =
     (case tick_prices eth cfg env of
        Inl e \<Rightarrow> (Throw e, st)
      | Inr (mode, usesTwapReader, prices) \<Rightarrow>
          (let ta = record_prices (te_clock env) prices 0 (js_unique (tick_ids cfg usesTwapReader)) (os_twap st);
               st = st\<lparr>os_twap := ta\<rparr>
           in case scaled_average ta (oc_ctcTokenId cfg) of
                Inl e \<Rightarrow> (Throw e, st)
              | Inr sourcePrice \<Rightarrow>
                  (let (rs, gr) = chain_updates env sourcePrice ta (oc_chains cfg) (os_gas st)
                   in (assemble_plan cfg mode usesTwapReader prices sourcePrice rs, st\<lparr>os_gas := gr\<rparr>))))"

definition tick_writes ::
  "ethers \<Rightarrow> oracle_config \<Rightarrow> tick_env \<Rightarrow> tick_plan \<Rightarrow> oracle_writer \<Rightarrow> tick_result res \<times> oracle_writer" where
  "tick_writes eth cfg env plan w =
     (case (case tp_ctcPerAttest plan of
              None \<Rightarrow> (Ok None, w)
            | Some v \<Rightarrow>
                (case pushTwapSample eth (oc_retry cfg) (te_quoter env) (te_send_sample env) v w of
                   (Inl e, w) \<Rightarrow> (Throw e, w)
                 | (Inr h, w) \<Rightarrow> (Ok (Some h), w))) of
        (Inl e, w) \<Rightarrow> (Throw e, w)
      | (Inr twapTxHash, w) \<Rightarrow>
          (case pushPrices (te_quoter env) (te_send_batch env) (tp_sourcePrice plan) (tp_updates plan) w of
             (Inl e, w) \<Rightarrow> (Throw e, w)
           | (Inr txHash, w) \<Rightarrow>
               (Ok \<lparr>tk_txHash = txHash, tk_twapTxHash = twapTxHash, tk_sourcePrice = tp_sourcePrice plan,
                    tk_ctcPerAttest = tp_ctcPerAttest plan, tk_updates = tp_updates plan, tk_mode = tp_mode plan,
                    tk_usesTwapReader = tp_usesTwapReader plan\<rparr>, w)))"

definition runTick :: "ethers \<Rightarrow> oracle_config \<Rightarrow> tick_env \<Rightarrow> oracle_state \<Rightarrow> tick_result res \<times> oracle_state" where
  "runTick eth cfg env st =
     (case tick_reads eth cfg env st of
        (Inl e, st) \<Rightarrow> (Throw e, st)
      | (Inr plan, st) \<Rightarrow>
          (let (r, w) = tick_writes eth cfg env plan (os_writer st) in (r, st\<lparr>os_writer := w\<rparr>)))"

subsection \<open>The loop\<close>

datatype log_line = Info string | Error_line string

record runner =
  rn_state :: oracle_state
  rn_stopped :: bool
  rn_timer :: "int option"
  rn_log :: "log_line list"

definition pushed_line :: "tick_result \<Rightarrow> string" where
  "pushed_line t =
     ''pushed sourcePrice='' @ show_int (tk_sourcePrice t) @ '' (mode='' @ mode_name (tk_mode t) @ '') to ''
       @ show_nat (length (tk_updates t)) @ '' chain(s) in tx '' @ tk_txHash t
       @ (case tk_twapTxHash t of
            None \<Rightarrow> []
          | Some h \<Rightarrow> (if h = [] then []
              else '' (ctcPerAttest='' @ (case tk_ctcPerAttest t of None \<Rightarrow> ''undefined'' | Some v \<Rightarrow> show_int v)
                @ '' in tx '' @ h @ '')''))"

definition tick_lines :: "tick_env \<Rightarrow> tick_result res \<Rightarrow> log_line list" where
  "tick_lines env r =
     (case r of
        Inr t \<Rightarrow> Info (pushed_line t) #
          (case te_onSuccess env of
             Inr _ \<Rightarrow> []
           | Inl err \<Rightarrow> [Error_line (''post-push hook failed (push succeeded): '' @ emessage err)])
      | Inl err \<Rightarrow> [Error_line (''tick skipped: '' @ emessage err)])"

definition tick :: "ethers \<Rightarrow> oracle_config \<Rightarrow> tick_env \<Rightarrow> runner \<Rightarrow> runner" where
  "tick eth cfg env rn =
     (if rn_stopped rn then rn
      else
        (let (r, st) = runTick eth cfg env (rn_state rn) in
         \<lparr>rn_state = st, rn_stopped = te_stop env,
          rn_timer = (if te_stop env then None else Some (oc_pushIntervalMs cfg)),
          rn_log = rn_log rn @ tick_lines env r\<rparr>))"

definition stop :: "runner \<Rightarrow> runner" where
  "stop rn = rn\<lparr>rn_stopped := True, rn_timer := None\<rparr>"

definition initial_state :: "oracle_config \<Rightarrow> oracle_state" where
  "initial_state cfg =
     \<lparr>os_twap = fresh_aggregator (oc_twapWindowMs cfg),
      os_gas = new_gas_reader (oc_chains cfg)
        (Some \<lparr>pr_maxAttempts = Some (maxAttempts (oc_retry cfg)), pr_initialDelayMs = Some (initialDelayMs (oc_retry cfg)),
               pr_maxDelayMs = Some (maxDelayMs (oc_retry cfg))\<rparr>),
      os_writer = new_writer\<rparr>"

definition startRunner :: "ethers \<Rightarrow> oracle_config \<Rightarrow> tick_env \<Rightarrow> oracle_state \<Rightarrow> runner" where
  "startRunner eth cfg env st = tick eth cfg env \<lparr>rn_state = st, rn_stopped = False, rn_timer = None, rn_log = []\<rparr>"

text \<open>
  \<open>main\<close> of \<open>bin.ts\<close>: the three checks before the loop starts. A failed one ends the process; the
  result of the others is the active pricing and the writer with its cached reader.
\<close>

definition startup_checks ::
  "ethers \<Rightarrow> oracle_config \<Rightarrow> quoter_contract \<Rightarrow> oracle_writer \<Rightarrow> (pricing_mode \<times> bool) res \<times> oracle_writer" where
  "startup_checks eth cfg qt w =
     (case bind_res (oracle_assertAuthorized eth (oc_retry cfg) qt (oc_oracleAddress cfg)) (\<lambda>_. readActivePricing eth cfg qt) of
        Inl e \<Rightarrow> (Throw e, w)
      | Inr (mode, usesTwapReader) \<Rightarrow>
          (if usesTwapReader
           then (case assertTwapReaderAuthorized eth (oc_retry cfg) qt (oc_oracleAddress cfg) w of
                   (Inl e, w) \<Rightarrow> (Throw e, w)
                 | (Inr _, w) \<Rightarrow> (Ok (mode, usesTwapReader), w))
           else (Ok (mode, usesTwapReader), w)))"

text \<open>The timer fires, or the process is told to stop.\<close>

inductive runner_step :: "ethers \<Rightarrow> oracle_config \<Rightarrow> runner \<Rightarrow> runner \<Rightarrow> bool" for eth cfg where
  fire: "rn_timer rn \<noteq> None \<Longrightarrow> runner_step eth cfg rn (tick eth cfg env (rn\<lparr>rn_timer := None\<rparr>))"
| halt: "runner_step eth cfg rn (stop rn)"

end
