(* ===== verification/Oracle_Correct.thy ===== *)
theory Oracle_Correct
  imports Oracle_Runner
begin

section \<open>Correctness of the push loop\<close>

text \<open>
  What a tick may put on the chain, whatever fails in it, and that the loop goes on. The writer's
  pushes are used through the facts of \<open>rpc_writer\<close> (the interpretation of \<open>price_writer\<close>).
\<close>

subsection \<open>The gas reader\<close>

definition gas_ready :: "oracle_chain list \<Rightarrow> gas_reader \<Rightarrow> bool" where
  "gas_ready cs gr \<longleftrightarrow>
     (\<forall>c \<in> set cs. gr_rpcByChain gr (och_chainId c) = Some (och_rpcUrl c)) \<and>
     (\<forall>i p. gr_providers gr i = Some p \<longrightarrow> gr_rpcByChain gr i = Some p)"

lemma rpc_map:
  "distinct (map och_chainId cs) \<Longrightarrow> c \<in> set cs \<Longrightarrow>
   foldl (\<lambda>m c. m(och_chainId c \<mapsto> och_rpcUrl c)) m cs (och_chainId c) = Some (och_rpcUrl c)"
proof (induction cs arbitrary: m)
  case (Cons d cs)
  have other: "foldl (\<lambda>m c. m(och_chainId c \<mapsto> och_rpcUrl c)) m cs i = m i" if "i \<notin> och_chainId ` set cs" for m i
    using that by (induction cs arbitrary: m) auto
  show ?case
  proof (cases "c = d")
    case True
    then show ?thesis using Cons.prems other [of "och_chainId d"] by (simp del: fun_upd_apply) simp
  next
    case False
    then show ?thesis using Cons by simp
  qed
qed simp

lemma new_gas_reader_ready: "distinct (map och_chainId cs) \<Longrightarrow> gas_ready cs (new_gas_reader cs retry)"
  by (simp add: gas_ready_def new_gas_reader_def rpc_map)

lemma gasPrice_ready:
  assumes "gas_ready cs gr" and "gasPrice fees i gr = (r, gr')"
  shows "gas_ready cs gr'"
  using assms by (auto simp: gasPrice_def providerFor_def gas_ready_def split: option.splits if_splits)

lemma gasPrice_Ok:
  assumes "gas_ready cs gr" and "c \<in> set cs" and "gasPrice fees (och_chainId c) gr = (Ok g, gr')"
  shows "\<exists>k fee. fees (och_rpcUrl c) k = Ok fee \<and> fd_gasPrice fee = Some g"
proof -
  have p: "providerFor (och_chainId c) gr = (Ok p, gr'') \<Longrightarrow> p = och_rpcUrl c" for p gr''
    using assms(1,2) by (auto simp: providerFor_def gas_ready_def split: option.splits if_splits)
  obtain gr1 opts where "rpc_retry opts (\<lambda>attempt. bind_res (fees (och_rpcUrl c) attempt) (\<lambda>fee.
      case fd_gasPrice fee of None \<Rightarrow> Throw (new_error PlainError (''no gasPrice returned for chainId '' @ show_int (och_chainId c)))
      | Some g \<Rightarrow> Ok g)) = Ok g"
    using assms(3) p by (auto simp: gasPrice_def split: prod.splits sum.splits)
  then obtain k where "bind_res (fees (och_rpcUrl c) k) (\<lambda>fee.
      case fd_gasPrice fee of None \<Rightarrow> Throw (new_error PlainError (''no gasPrice returned for chainId '' @ show_int (och_chainId c)))
      | Some g \<Rightarrow> Ok g) = Ok g"
    by (rule rpc_retry_Ok)
  then show ?thesis by (auto simp: bind_res_Ok_iff split: option.splits)
qed

subsection \<open>What a tick reads\<close>

lemma usdToScaled_range: "usdToScaled p = Ok v \<Longrightarrow> 0 < v \<and> v < 2 ^ 64"
  unfolding usdToScaled_def bind_res_Ok_iff guard_res_Ok by auto

lemma scaled_average_range: "scaled_average ta cid = Ok v \<Longrightarrow> 0 < v \<and> v < 2 ^ 64"
  using usdToScaled_range by (auto simp: scaled_average_def bind_res_Ok_iff)

lemma usdRatioWad_pos: "usdRatioWad a b = Ok v \<Longrightarrow> 0 < v"
  unfolding usdRatioWad_def Let_def bind_res_Ok_iff guard_res_Ok by auto

text \<open>A chain's update is complete: the operator's constants, the averages of the window, and a gas price its node gave.\<close>

definition chain_priced :: "tick_env \<Rightarrow> int \<Rightarrow> twap_aggregator \<Rightarrow> oracle_chain \<Rightarrow> chain_price_update \<Rightarrow> bool" where
  "chain_priced env src ta c u \<longleftrightarrow>
     cu_chainId u = och_chainId c \<and> pd_baseFee (cu_pricing u) = och_baseFee c \<and>
     pd_priceBuffer (cu_pricing u) = och_priceBuffer c \<and> pd_srcPrice (cu_pricing u) = src \<and>
     scaled_average ta (och_coingeckoId c) = Ok (pd_dstPrice (cu_pricing u)) \<and>
     (\<exists>k fee. te_gas env (och_rpcUrl c) k = Ok fee \<and> fd_gasPrice fee = Some (pd_dstGasPrice (cu_pricing u)))"

lemma chain_update_ready:
  assumes "gas_ready cs gr" and "chain_update env src ta c gr = (r, gr')"
  shows "gas_ready cs gr'"
  using assms gasPrice_ready by (auto simp: chain_update_def split: sum.splits prod.splits)

lemma chain_update_Ok:
  assumes "gas_ready cs gr" and "c \<in> set cs" and "chain_update env src ta c gr = (Ok u, gr')"
  shows "chain_priced env src ta c u"
proof -
  obtain d g gr'' where d: "scaled_average ta (och_coingeckoId c) = Ok d"
    "gasPrice (te_gas env) (och_chainId c) gr = (Ok g, gr'')"
    "u = \<lparr>cu_chainId = och_chainId c, cu_pricing = \<lparr>pd_baseFee = och_baseFee c, pd_dstGasPrice = g, pd_dstPrice = d,
            pd_srcPrice = src, pd_priceBuffer = och_priceBuffer c\<rparr>\<rparr>"
    using assms(3) by (auto simp: chain_update_def split: sum.splits prod.splits)
  show ?thesis using d(1) gasPrice_Ok [OF assms(1,2) d(2)] unfolding chain_priced_def d(3) by simp
qed

lemma chain_updates_ready:
  "gas_ready cs gr \<Longrightarrow> chain_updates env src ta xs gr = (rs, gr') \<Longrightarrow> gas_ready cs gr'"
  by (induction xs arbitrary: gr rs) (auto split: prod.splits dest: chain_update_ready)

lemma chain_updates_Ok:
  "gas_ready cs gr \<Longrightarrow> set xs \<subseteq> set cs \<Longrightarrow> chain_updates env src ta xs gr = (rs, gr') \<Longrightarrow> map_res (\<lambda>r. r) rs = Ok us \<Longrightarrow>
   list_all2 (chain_priced env src ta) xs us"
proof (induction xs arbitrary: gr rs us)
  case (Cons c xs)
  obtain r gr1 rs' where r: "chain_update env src ta c gr = (r, gr1)" "chain_updates env src ta xs gr1 = (rs', gr')" "rs = r # rs'"
    using Cons.prems(3) by (auto split: prod.splits)
  obtain u us' where u: "r = Ok u" "map_res (\<lambda>r. r) rs' = Ok us'" "us = u # us'"
    using Cons.prems(4) r(3) by (auto simp: bind_res_Ok_iff)
  have "chain_priced env src ta c u" using chain_update_Ok [OF Cons.prems(1)] Cons.prems(2) r(1) u(1) by simp
  then show ?case using Cons.IH [OF chain_update_ready [OF Cons.prems(1) r(1)] _ r(2) u(2)] Cons.prems(2) u(3) by simp
qed simp

text \<open>The specification of a plan: what the reads of the tick say.\<close>

definition complete_plan :: "ethers \<Rightarrow> oracle_config \<Rightarrow> tick_env \<Rightarrow> twap_aggregator \<Rightarrow> oracle_call list \<Rightarrow> bool" where
  "complete_plan eth cfg env ta planned \<longleftrightarrow>
     (\<exists>mode uses src us c.
        readActivePricing eth cfg (te_quoter env) = Ok (mode, uses) \<and>
        planned = (if uses then [TwapUpdate c] else []) @ [BatchPriceUpdate src (map cu_chainId us) (map cu_pricing us)] \<and>
        0 < c \<and> scaled_average ta (oc_ctcTokenId cfg) = Ok src \<and>
        list_all2 (chain_priced env src ta) (oc_chains cfg) us)"

definition planned_calls :: "tick_plan \<Rightarrow> oracle_call list" where
  "planned_calls plan =
     (case tp_ctcPerAttest plan of None \<Rightarrow> [] | Some v \<Rightarrow> [TwapUpdate v]) @
     [BatchPriceUpdate (tp_sourcePrice plan) (map cu_chainId (tp_updates plan)) (map cu_pricing (tp_updates plan))]"

lemma tick_reads_frame:
  assumes "tick_reads eth cfg env st = (r, st')"
  shows "os_writer st' = os_writer st" and "gas_ready cs (os_gas st) \<Longrightarrow> gas_ready cs (os_gas st')"
  using assms chain_updates_ready
  by (auto simp: tick_reads_def Let_def split: sum.splits prod.splits)

lemma tick_reads_Ok:
  assumes "tick_reads eth cfg env st = (Ok plan, st')" and "gas_ready (oc_chains cfg) (os_gas st)"
  shows "complete_plan eth cfg env (os_twap st') (planned_calls plan)"
proof -
  obtain mode uses prices src rs gr where
    r: "tick_prices eth cfg env = Ok (mode, uses, prices)" "scaled_average (os_twap st') (oc_ctcTokenId cfg) = Ok src"
      "chain_updates env src (os_twap st') (oc_chains cfg) (os_gas st) = (rs, gr)"
      "assemble_plan cfg mode uses prices src rs = Ok plan"
    using assms(1) by (auto simp: tick_reads_def Let_def split: sum.splits prod.splits)
  obtain us ratio where
    p: "map_res (\<lambda>r. r) rs = Ok us" "ctc_per_attest cfg uses prices = Ok ratio"
      "tp_sourcePrice plan = src" "tp_updates plan = us" "tp_ctcPerAttest plan = ratio"
    using r(4) by (auto simp: assemble_plan_def bind_res_Ok_iff)
  have mode: "readActivePricing eth cfg (te_quoter env) = Ok (mode, uses)"
    using r(1) by (auto simp: tick_prices_def bind_res_Ok_iff)
  have us: "list_all2 (chain_priced env src (os_twap st')) (oc_chains cfg) us"
    using chain_updates_Ok [OF assms(2) _ r(3) p(1)] by simp
  show ?thesis
  proof (cases uses)
    case True
    then obtain v where v: "ratio = Some v" "0 < v" 
      using p(2) usdRatioWad_pos by (auto simp: ctc_per_attest_def bind_res_Ok_iff)
    then show ?thesis
      using True mode r(2) us unfolding complete_plan_def planned_calls_def p(3-5) by auto
  next
    case False
    then have "ratio = None" using p(2) by (simp add: ctc_per_attest_def)
    then show ?thesis
      using False mode r(2) us scaled_average_range [OF r(2)] unfolding complete_plan_def planned_calls_def p(3-5)
      by (intro exI [of _ mode] exI [of _ uses] exI [of _ src] exI [of _ us]) simp
  qed
qed

subsection \<open>What a tick writes\<close>

lemma tick_writes_both:
  "tick_writes eth cfg env plan w =
     (case rpc_writer.push_both (eth, oc_retry cfg, te_quoter env, te_send_sample env) (te_quoter env, te_send_batch env)
             (tp_ctcPerAttest plan) (tp_sourcePrice plan) (tp_updates plan) w of
        (Inl e, w) \<Rightarrow> (Throw e, w)
      | (Inr (th, h), w) \<Rightarrow>
          (Ok \<lparr>tk_txHash = h, tk_twapTxHash = th, tk_sourcePrice = tp_sourcePrice plan, tk_ctcPerAttest = tp_ctcPerAttest plan,
               tk_updates = tp_updates plan, tk_mode = tp_mode plan, tk_usesTwapReader = tp_usesTwapReader plan\<rparr>, w))"
  by (auto simp: tick_writes_def rpc_writer.push_both_def split: option.splits prod.splits sum.splits)

lemma tick_writes_calls:
  assumes "tick_writes eth cfg env plan w = (r, w')"
  shows "\<exists>n. calls (ow_trace w') = calls (ow_trace w) @ take n (planned_calls plan) \<and>
    (case r of Inl _ \<Rightarrow> True | Inr _ \<Rightarrow> n = length (planned_calls plan))"
proof -
  obtain q w1 where q: "rpc_writer.push_both (eth, oc_retry cfg, te_quoter env, te_send_sample env) (te_quoter env, te_send_batch env)
      (tp_ctcPerAttest plan) (tp_sourcePrice plan) (tp_updates plan) w = (q, w1)" by fastforce
  obtain n where n: "calls (ow_trace w1) = calls (ow_trace w) @ take n (planned_calls plan)"
    "case q of Inl _ \<Rightarrow> True | Inr _ \<Rightarrow> n = length (planned_calls plan)"
    using rpc_writer.push_both_history [OF q] unfolding planned_calls_def by blast
  have "w' = w1" "(\<exists>e. q = Inl e \<and> r = Inl e) \<or> (\<exists>x y. q = Inr x \<and> r = Inr y)"
    using assms q by (auto simp: tick_writes_both split: sum.splits prod.splits)
  then show ?thesis using n by (intro exI [of _ n]) auto
qed

subsection \<open>The writer's and the loop's invariants\<close>

lemma tick_writes_inv:
  assumes "tick_writes eth cfg env plan w = (r, w')" and "writer_inv w"
  shows "writer_inv w'"
  using assms by (auto simp: tick_writes_def split: option.splits sum.splits prod.splits dest!: pushPrices_inv pushTwapSample_inv)

lemma runTick_writer_inv:
  assumes "runTick eth cfg env st = (r, st')" and "writer_inv (os_writer st)"
  shows "writer_inv (os_writer st')"
  using assms
  by (auto simp: runTick_def Let_def split: sum.splits prod.splits dest: tick_reads_frame(1) dest!: tick_writes_inv)

definition runner_inv :: "oracle_config \<Rightarrow> runner \<Rightarrow> bool" where
  "runner_inv cfg rn \<longleftrightarrow>
     writer_inv (os_writer (rn_state rn)) \<and> rn_timer rn = (if rn_stopped rn then None else Some (oc_pushIntervalMs cfg))"

lemma tick_inv:
  assumes "writer_inv (os_writer (rn_state rn))" and "rn_stopped rn \<Longrightarrow> rn_timer rn = None"
  shows "runner_inv cfg (tick eth cfg env rn)"
  using assms runTick_writer_inv by (auto simp: runner_inv_def tick_def split: prod.splits)

lemma runner_step_inv: "runner_step eth cfg rn rn' \<Longrightarrow> runner_inv cfg rn \<Longrightarrow> runner_inv cfg rn'"
proof (induction rule: runner_step.induct)
  case (fire rn env)
  then show ?case by (intro tick_inv) (auto simp: runner_inv_def)
next
  case (halt rn)
  then show ?case by (simp add: runner_inv_def stop_def)
qed

subsection \<open>Properties\<close>


text \<open>C25: The loop never ends by itself. In every state it reaches from its start, with any
  failures in any tick, it is either stopped by the operator, and then no timer is armed and no
  step changes what the oracle did, or the next tick is scheduled at the configured interval; and
  the writer's nonces and replacement fees stay disciplined throughout.\<close>

theorem runner_keeps_pushing:
  assumes "(runner_step eth cfg)\<^sup>*\<^sup>* (startRunner eth cfg env (initial_state cfg)) rn"
  shows "rn_timer rn = (if rn_stopped rn then None else Some (oc_pushIntervalMs cfg)) \<and>
    (rn_stopped rn \<longrightarrow> (\<forall>rn'. runner_step eth cfg rn rn' \<longrightarrow> rn' = rn)) \<and>
    disciplined (ow_trace (os_writer (rn_state rn)))"
proof -
  from assms have inv: "runner_inv cfg rn"
  proof (induction rule: rtranclp_induct)
    case base
    show ?case unfolding startRunner_def by (rule tick_inv) (simp_all add: initial_state_def new_writer_def writer_inv_def)
  next
    case (step rn1 rn2)
    then show ?case using runner_step_inv by blast
  qed
  moreover have "rn' = rn" if "rn_stopped rn" "runner_step eth cfg rn rn'" for rn'
    using that(2,1) inv by cases (simp_all add: runner_inv_def stop_def)
  ultimately show ?thesis by (auto simp: runner_inv_def writer_inv_def)
qed

subsection \<open>A concrete tick\<close>

definition demo_body :: json where
  "demo_body = JObject
     [(''creditcoin-2'', JObject [(''usd'', JNumber (Num 2))]), (''attest'', JObject [(''usd'', JNumber (Num 1))]),
      (''ethereum'', JObject [(''usd'', JNumber (Num 3000))]), (''binancecoin'', JObject [(''usd'', JNumber (Num 600))])]"

definition demo_source :: coingecko where
  "demo_source = new_price_source ''https://api.coingecko.com/api/v3'' None None Ok
     (\<lambda>_ _ _ _. Ok \<lparr>hr_ok = True, hr_status = 200, hr_json = Some demo_body\<rparr>)"

definition demo_tick :: tick_env where
  "demo_tick = \<lparr>te_quoter = demo_quoter, te_source = demo_source, te_clock = (\<lambda>_. 1000),
     te_gas = (\<lambda>_ _. Ok \<lparr>fd_maxFeePerGas = None, fd_maxPriorityFeePerGas = None, fd_gasPrice = Some 9\<rparr>),
     te_send_sample = demo_send 5 5 (Ok ()), te_send_batch = demo_send 5 5 (Ok ()), te_onSuccess = Ok (), te_stop = False\<rparr>"

lemma demo_active: "readActivePricing demo_eth demo_config demo_quoter = Ok (Twap, True)"
  by (simp add: readActivePricing_def pricingMode_def demo_quoter_def rpc_retry_const demo_config_def)

lemma demo_fetch:
  "fetchUsdPrices demo_source (tick_ids demo_config True) =
     Ok [''creditcoin-2'' \<mapsto> 2, ''attest'' \<mapsto> 1, ''ethereum'' \<mapsto> 3000, ''binancecoin'' \<mapsto> 600]"
proof -
  have ids: "tick_ids demo_config True = [''creditcoin-2'', ''attest'', ''ethereum'', ''binancecoin'']"
    by (simp add: tick_ids_def demo_config_def attest_id_def)
  have u: "js_unique [''creditcoin-2'', ''attest'', ''ethereum'', ''binancecoin''] = [''creditcoin-2'', ''attest'', ''ethereum'', ''binancecoin'']"
    by (simp add: js_unique_def)
  have "requestOnce demo_source url q h = (\<lambda>_. Ok demo_body)" for url q h
    by (rule ext) (simp add: requestOnce_def demo_source_def new_price_source_def)
  then show ?thesis
    by (simp add: fetchUsdPrices_def ids u Let_def rpc_retry_const demo_source_def new_price_source_def merge_retry_def DEFAULT_RETRY_def)
      (simp add: demo_body_def usd_of_def jfield_def usable_price_def)
qed

definition demo_window :: twap_aggregator where
  "demo_window = \<lparr>ta_windowMs = 300000, ta_samples =
     [''creditcoin-2'' \<mapsto> [\<lparr>ts_t = 1000, ts_price = 2\<rparr>], ''attest'' \<mapsto> [\<lparr>ts_t = 1000, ts_price = 1\<rparr>],
      ''ethereum'' \<mapsto> [\<lparr>ts_t = 1000, ts_price = 3000\<rparr>], ''binancecoin'' \<mapsto> [\<lparr>ts_t = 1000, ts_price = 600\<rparr>]]\<rparr>"

lemma demo_recorded:
  "record_prices (\<lambda>_. 1000) [''creditcoin-2'' \<mapsto> 2, ''attest'' \<mapsto> 1, ''ethereum'' \<mapsto> 3000, ''binancecoin'' \<mapsto> 600] 0
     (js_unique (tick_ids demo_config True)) (fresh_aggregator 300000) = demo_window"
proof -
  have "js_unique (tick_ids demo_config True) = [''creditcoin-2'', ''attest'', ''ethereum'', ''binancecoin'']"
    by (simp add: js_unique_def tick_ids_def demo_config_def attest_id_def)
  then show ?thesis
    by (simp add: twap_record_def Let_def fresh_aggregator_def price_at_def demo_window_def)
qed

lemma scaled_whole: "0 < n \<Longrightarrow> n < 1000000000 \<Longrightarrow> usdToScaled (PNumber (Num (of_int n))) = Ok (n * 10 ^ 10)"
proof -
  assume n: "0 < n" "n < 1000000000"
  have "\<lfloor>of_int n * 10 ^ 10 + 1 / 2 :: rat\<rfloor> = n * 10 ^ 10" by (rule floor_unique) simp_all
  then show ?thesis using n by (simp add: usdToScaled_Ok_iff price_value_def)
qed

lemma demo_scaled:
  "scaled_average demo_window ''creditcoin-2'' = Ok 20000000000"
  "scaled_average demo_window ''ethereum'' = Ok 30000000000000"
  "scaled_average demo_window ''binancecoin'' = Ok 6000000000000"
  using scaled_whole [of 2] scaled_whole [of 3000] scaled_whole [of 600]
  by (simp_all add: scaled_average_def demo_window_def twap_average_def)

definition demo_updates :: "chain_price_update list" where
  "demo_updates =
     [\<lparr>cu_chainId = 2, cu_pricing = \<lparr>pd_baseFee = 0, pd_dstGasPrice = 9, pd_dstPrice = 30000000000000, pd_srcPrice = 20000000000, pd_priceBuffer = 500\<rparr>\<rparr>,
      \<lparr>cu_chainId = 4, cu_pricing = \<lparr>pd_baseFee = 7, pd_dstGasPrice = 9, pd_dstPrice = 6000000000000, pd_srcPrice = 20000000000, pd_priceBuffer = 0\<rparr>\<rparr>]"

lemma demo_plan:
  "fst (tick_reads demo_eth demo_config demo_tick (initial_state demo_config)) =
     Ok \<lparr>tp_mode = Twap, tp_usesTwapReader = True, tp_sourcePrice = 20000000000, tp_updates = demo_updates,
         tp_ctcPerAttest = Some 500000000000000000\<rparr>"
proof -
  have prices: "tick_prices demo_eth demo_config demo_tick =
    Ok (Twap, True, [''creditcoin-2'' \<mapsto> 2, ''attest'' \<mapsto> 1, ''ethereum'' \<mapsto> 3000, ''binancecoin'' \<mapsto> 600])"
    by (simp add: tick_prices_def demo_tick_def demo_active demo_fetch)
  have win: "record_prices (te_clock demo_tick) [''creditcoin-2'' \<mapsto> 2, ''attest'' \<mapsto> 1, ''ethereum'' \<mapsto> 3000, ''binancecoin'' \<mapsto> 600] 0
     (js_unique (tick_ids demo_config True)) (os_twap (initial_state demo_config)) = demo_window"
    using demo_recorded by (simp add: demo_tick_def initial_state_def demo_config_def)
  have gas: "gasPrice (te_gas demo_tick) i gr = (Ok 9, gr')"
    if "providerFor i gr = (Ok url, gr')" "1 \<le> maxAttempts (gr_retry gr')" for i gr gr' url
    using that by (simp add: gasPrice_def demo_tick_def rpc_retry_const)
  obtain gr where ups: "chain_updates demo_tick 20000000000 demo_window (oc_chains demo_config) (os_gas (initial_state demo_config)) =
      (map Ok demo_updates, gr)"
    by (simp add: demo_config_def initial_state_def new_gas_reader_def merge_retry_def chain_update_def demo_scaled
        gas providerFor_def demo_updates_def)
  have ratio: "ctc_per_attest demo_config True [''creditcoin-2'' \<mapsto> 2, ''attest'' \<mapsto> 1, ''ethereum'' \<mapsto> 3000, ''binancecoin'' \<mapsto> 600]
      = Ok (Some 500000000000000000)"
    using scaled_whole [of 1] scaled_whole [of 2]
    by (simp add: ctc_per_attest_def price_at_def attest_id_def demo_config_def usdRatioWad_def WAD_def bigint_div_def)
  have mode: "oc_ctcTokenId demo_config = ''creditcoin-2''" by (simp add: demo_config_def)
  have "map_res (\<lambda>r. r) (map Ok demo_updates) = Ok demo_updates" by (simp add: demo_updates_def)
  then show ?thesis
    by (simp add: tick_reads_def prices win Let_def mode demo_scaled ups assemble_plan_def ratio)
qed

lemma demo_writes:
  "fst (tick_writes demo_eth demo_config demo_tick plan new_writer) \<noteq> Inl e"
  if "tp_ctcPerAttest plan = Some v"
proof -
  have "ZeroAddress \<noteq> ''0xreader''" by (auto simp: ZeroAddress_def dest: arg_cong [of _ _ length])
  then have "twapReader demo_eth (oc_retry demo_config) demo_quoter new_writer = (Ok ''0xreader'', new_writer\<lparr>ow_twapReaderCache := Some ''0xreader''\<rparr>)"
    by (simp add: twapReader_def demo_quoter_def rpc_retry_const demo_config_def demo_eth_def new_writer_def)
  then show ?thesis using that
    by (simp add: tick_writes_def pushTwapSample_def demo_tick_def send_simps demo_send_def demo_quoter_def new_writer_def)
qed


theorem runner_keeps_pushing_witness:
  "rn_timer (startRunner demo_eth demo_config demo_tick (initial_state demo_config)) = Some 60000 \<and>
   disciplined (ow_trace (os_writer (rn_state (startRunner demo_eth demo_config demo_tick (initial_state demo_config)))))"
proof -
  have "\<not> rn_stopped (startRunner demo_eth demo_config demo_tick (initial_state demo_config))"
    by (simp add: startRunner_def tick_def demo_tick_def split: prod.splits)
  then show ?thesis
    using runner_keeps_pushing [of demo_eth demo_config demo_tick "startRunner demo_eth demo_config demo_tick (initial_state demo_config)"]
    by (simp add: demo_config_def)
qed

end
