(* ===== verification/Redis_Queue.thy ===== *)
theory Redis_Queue
  imports Relay_Types Retry_Policy Effects
begin

section \<open>The Redis Streams queue\<close>

text \<open>
  \<open>queue/redisStreams.ts\<close>: the production driver of the queue. The Redis server is a parameter:
  \<open>'r redis\<close> is the record of the commands the driver issues, each an effect on the server's state
  \<open>'r\<close> that may throw, having been carried out or not (a lost reply). \<open>JSON.stringify\<close> and
  \<open>JSON.parse\<close> of a message are the fields \<open>ro_stringify\<close> and \<open>ro_parse\<close>. The client's own state is
  the set of partitions whose consumer group is known to exist and those with a blocking connection.
  A flat reply \<open>[field, value, field, value, \<dots>]\<close> is a list of strings.
\<close>

record 'r redis =
  rx_xgroup_create :: "string \<Rightarrow> string \<Rightarrow> ('r, unit) eff"
  rx_xadd :: "string \<Rightarrow> string list \<Rightarrow> ('r, string) eff"
  rx_zrangebyscore :: "string \<Rightarrow> int \<Rightarrow> nat \<Rightarrow> ('r, string list) eff"
  rx_zadd :: "string \<Rightarrow> int \<Rightarrow> string \<Rightarrow> ('r, unit) eff"
  rx_zrem :: "string \<Rightarrow> string \<Rightarrow> ('r, unit) eff"
  rx_xreadgroup :: "string \<Rightarrow> string \<Rightarrow> nat \<Rightarrow> nat \<Rightarrow> string \<Rightarrow> ('r, (string \<times> (string \<times> string list) list) list option) eff"
  rx_xautoclaim :: "string \<Rightarrow> string \<Rightarrow> string \<Rightarrow> nat \<Rightarrow> nat \<Rightarrow> ('r, (string \<times> string list) list) eff"
  rx_xack :: "string \<Rightarrow> string \<Rightarrow> string \<Rightarrow> ('r, unit) eff"
  rx_xdel :: "string \<Rightarrow> string \<Rightarrow> ('r, unit) eff"
  rx_quit :: "('r, unit) eff"

record 'r redis_opts =
  ro_client :: "'r redis"
  ro_prefix :: string
  ro_group :: string
  ro_consumer :: string
  ro_visibilityTimeoutMs :: nat
  ro_retry :: retry_options
  ro_stringify :: "relay_message \<Rightarrow> string"
  ro_parse :: "string \<Rightarrow> relay_message res"

record 'r redis_state =
  rq_server :: 'r
  rq_ready :: "chainId set"
  rq_blocking :: "chainId set"

record redis_delivery =
  rd_message :: relay_message
  rd_partition :: chainId
  rd_receiptHandle :: string
  rd_deliveryAttempt :: nat

fun fieldsToMap :: "string list \<Rightarrow> string \<Rightarrow> string option" where
  "fieldsToMap (k # v # rest) nm =
     (case fieldsToMap rest nm of Some w \<Rightarrow> Some w | None \<Rightarrow> (if k = nm then Some v else None))"
| "fieldsToMap _ nm = None"

definition streamKey :: "'r redis_opts \<Rightarrow> chainId \<Rightarrow> string" where
  "streamKey ro p = ro_prefix ro @ '':msgs:'' @ show_nat p"

definition retryKey :: "'r redis_opts \<Rightarrow> chainId \<Rightarrow> string" where
  "retryKey ro p = ro_prefix ro @ '':retry:'' @ show_nat p"

definition dlqKey :: "'r redis_opts \<Rightarrow> string" where
  "dlqKey ro = ro_prefix ro @ '':dlq''"

definition srv :: "('r, 'a) eff \<Rightarrow> ('r redis_state, 'a) eff" where
  "srv m s = (case m (rq_server s) of (x, r) \<Rightarrow> (x, s\<lparr>rq_server := r\<rparr>))"

subsection \<open>Retried bodies\<close>

text \<open>
  \<open>withRetry\<close> around a body with effects: a failed attempt leaves the state it reached and the whole
  body runs again. \<open>run_attempts_withRetry\<close> ties it to \<open>withRetry\<close>.
\<close>

fun run_attempts :: "nat \<Rightarrow> (js_error \<Rightarrow> bool) \<Rightarrow> ('s, 'a) eff \<Rightarrow> js_error \<Rightarrow> ('s, 'a) eff" where
  "run_attempts 0 isTransient body lastErr s = (Throw lastErr, s)"
| "run_attempts (Suc n) isTransient body lastErr s =
     (case body s of
        (Inr v, s') \<Rightarrow> (Ok v, s')
      | (Inl err, s') \<Rightarrow>
          (if n = 0 \<or> \<not> isTransient err then (Throw err, s') else run_attempts n isTransient body err s'))"

definition redis_transient :: "js_error \<Rightarrow> bool" where
  "redis_transient err = isTransientRedisError (ecode err) (error_name (ekind err))"

definition run :: "'r redis_opts \<Rightarrow> ('r redis_state, 'a) eff \<Rightarrow> ('r redis_state, 'a) eff" where
  "run ro body = run_attempts (maxAttempts (ro_retry ro)) redis_transient body undefined_error"

subsection \<open>The operations\<close>

definition ensureGroup :: "'r redis_opts \<Rightarrow> chainId \<Rightarrow> ('r redis_state, unit) eff" where
  "ensureGroup ro p s =
     (if p \<in> rq_ready s then (Ok (), s)
      else
        (case srv (rx_xgroup_create (ro_client ro) (streamKey ro p) (ro_group ro)) s of
           (Inr _, s) \<Rightarrow> (Ok (), s\<lparr>rq_ready := insert p (rq_ready s)\<rparr>)
         | (Inl err, s) \<Rightarrow>
             (if str_includes (js_String err) ''BUSYGROUP'' then (Ok (), s\<lparr>rq_ready := insert p (rq_ready s)\<rparr>)
              else (Throw (new_error QueueError
                     (''failed to create consumer group for partition '' @ show_nat p @ '': '' @ js_String err)), s))))"

definition decode :: "'r redis_opts \<Rightarrow> string option \<Rightarrow> relay_message res" where
  "decode ro json =
     (case json of
        None \<Rightarrow> Throw (new_error QueueError ''stream entry missing data field'')
      | Some j \<Rightarrow> (if j = [] then Throw (new_error QueueError ''stream entry missing data field'') else ro_parse ro j))"

definition redis_publish :: "'r redis_opts \<Rightarrow> relay_message \<Rightarrow> ('r redis_state, unit) eff" where
  "redis_publish ro msg =
     bindM (ensureGroup ro (chain_id msg)) (\<lambda>_.
     bindM (run ro (srv (rx_xadd (ro_client ro) (streamKey ro (chain_id msg)) [''data'', ro_stringify ro msg]))) (\<lambda>_.
       returnM ()))"

definition pump_member :: "'r redis_opts \<Rightarrow> chainId \<Rightarrow> string \<Rightarrow> ('r redis_state, unit) eff" where
  "pump_member ro p member =
     bindM (run ro (srv (rx_xadd (ro_client ro) (streamKey ro p) [''data'', member]))) (\<lambda>_.
       run ro (srv (rx_zrem (ro_client ro) (retryKey ro p) member)))"

definition pumpDelayed :: "'r redis_opts \<Rightarrow> int \<Rightarrow> chainId \<Rightarrow> ('r redis_state, unit) eff" where
  "pumpDelayed ro now p =
     bindM (run ro (srv (rx_zrangebyscore (ro_client ro) (retryKey ro p) now 100))) (\<lambda>due.
       forM due (pump_member ro p))"

definition toDelivery :: "'r redis_opts \<Rightarrow> chainId \<Rightarrow> nat \<Rightarrow> string \<times> string list \<Rightarrow> redis_delivery res" where
  "toDelivery ro p attempt entry =
     bind_res (decode ro (fieldsToMap (snd entry) ''data'')) (\<lambda>m.
       Ok \<lparr>rd_message = m, rd_partition = p, rd_receiptHandle = fst entry, rd_deliveryAttempt = attempt\<rparr>)"

definition blockingClientFor :: "chainId \<Rightarrow> ('r redis_state, unit) eff" where
  "blockingClientFor p s = (Ok (), s\<lparr>rq_blocking := insert p (rq_blocking s)\<rparr>)"

definition redis_consume ::
  "'r redis_opts \<Rightarrow> int \<Rightarrow> nat \<Rightarrow> chainId \<Rightarrow> nat \<Rightarrow> ('r redis_state, redis_delivery list) eff" where
  "redis_consume ro now blockMs p mx =
     bindM (ensureGroup ro p) (\<lambda>_.
     bindM (pumpDelayed ro now p) (\<lambda>_.
     bindM (blockingClientFor p) (\<lambda>_.
     bindM (run ro (srv (rx_xreadgroup (ro_client ro) (ro_group ro) (ro_consumer ro) mx blockMs (streamKey ro p)))) (\<lambda>res.
       case res of
         None \<Rightarrow> returnM []
       | Some streams \<Rightarrow>
           (if streams = [] then returnM [] else liftM (map_res (toDelivery ro p 1) (snd (hd streams))))))))"

definition redis_reclaimExpired :: "'r redis_opts \<Rightarrow> chainId \<Rightarrow> nat \<Rightarrow> ('r redis_state, redis_delivery list) eff" where
  "redis_reclaimExpired ro p mx =
     bindM (ensureGroup ro p) (\<lambda>_.
     bindM (run ro (srv (rx_xautoclaim (ro_client ro) (streamKey ro p) (ro_group ro) (ro_consumer ro)
              (ro_visibilityTimeoutMs ro) mx))) (\<lambda>entries.
       liftM (map_res (toDelivery ro p 2) entries)))"

definition remove_entry :: "'r redis_opts \<Rightarrow> redis_delivery \<Rightarrow> ('r redis_state, unit) eff" where
  "remove_entry ro d =
     bindM (srv (rx_xack (ro_client ro) (streamKey ro (rd_partition d)) (ro_group ro) (rd_receiptHandle d))) (\<lambda>_.
       srv (rx_xdel (ro_client ro) (streamKey ro (rd_partition d)) (rd_receiptHandle d)))"

definition redis_ack :: "'r redis_opts \<Rightarrow> redis_delivery \<Rightarrow> ('r redis_state, unit) eff" where
  "redis_ack ro d = run ro (remove_entry ro d)"

definition redis_nack :: "'r redis_opts \<Rightarrow> int \<Rightarrow> redis_delivery \<Rightarrow> int \<Rightarrow> ('r redis_state, unit) eff" where
  "redis_nack ro now d delayMs =
     run ro (bindM (srv (rx_zadd (ro_client ro) (retryKey ro (rd_partition d)) (now + delayMs) (ro_stringify ro (rd_message d)))) (\<lambda>_.
       remove_entry ro d))"

definition redis_deadLetter :: "'r redis_opts \<Rightarrow> redis_delivery \<Rightarrow> string \<Rightarrow> ('r redis_state, unit) eff" where
  "redis_deadLetter ro d reason =
     run ro (bindM (srv (rx_xadd (ro_client ro) (dlqKey ro)
         [''data'', ro_stringify ro (rd_message d), ''reason'', reason, ''orig_id'', rd_receiptHandle d])) (\<lambda>_.
       remove_entry ro d))"

definition redis_close :: "'r redis_opts \<Rightarrow> ('r redis_state, unit) eff" where
  "redis_close ro =
     bindM (\<lambda>s. (Ok (), s\<lparr>rq_blocking := {}\<rparr>)) (\<lambda>_. srv (rx_quit (ro_client ro)))"

subsection \<open>Retried bodies and \<open>withRetry\<close>\<close>

lemma run_attempts_loop:
  "a + n = Suc (maxAttempts opts) \<Longrightarrow>
   fst (run_attempts n tr (\<lambda>k. (fn k, Suc k)) e a) = fst (retry_loop fn opts tr j a e)"
proof (induction n arbitrary: a e)
  case 0
  then show ?case by (simp add: retry_loop.simps)
next
  case (Suc n)
  have "fst (run_attempts n tr (\<lambda>k. (fn k, Suc k)) err (Suc a)) = fst (retry_loop fn opts tr j (Suc a) err)" for err
    using Suc.prems by (intro Suc.IH) simp
  then show ?case
    using Suc.prems by (subst retry_loop.simps) (auto split: sum.splits prod.splits)
qed

text \<open>On a body whose answer depends on the attempt only, a retried body is \<open>withRetry\<close>.\<close>

lemma run_attempts_withRetry:
  "fst (run_attempts (maxAttempts opts) tr (\<lambda>k. (fn k, Suc k)) undefined_error 1) = fst (withRetry fn opts tr j)"
  unfolding withRetry_def by (rule run_attempts_loop) simp

lemma valid_run_attempts:
  assumes "valid P body Q (\<lambda>_. P)" and "\<And>s. P s \<Longrightarrow> E s"
  shows "valid P (run_attempts n tr body e) Q (\<lambda>_. E)"
proof (induction n arbitrary: e)
  case 0
  then show ?case using assms(2) by (auto simp: valid_def)
next
  case (Suc n)
  show ?case
  proof (rule validI)
    fix s x s'
    assume "P s" "run_attempts (Suc n) tr body e s = (Ok x, s')"
    then show "Q x s'" using validD [OF assms(1)] validD [OF Suc.IH]
      by (auto split: prod.splits sum.splits if_splits) blast+
  next
    fix s err s'
    assume "P s" "run_attempts (Suc n) tr body e s = (Throw err, s')"
    then show "E s'" using validD [OF assms(1)] validD [OF Suc.IH] assms(2)
      by (auto split: prod.splits sum.splits if_splits) blast+
  qed
qed

lemma moves_run: "(\<And>s. R s s) \<Longrightarrow> (\<And>s t u. R s t \<Longrightarrow> R t u \<Longrightarrow> R s u) \<Longrightarrow> moves R body \<Longrightarrow> moves R (run ro body)"
proof -
  assume r: "\<And>s. R s s" and t: "\<And>s t u. R s t \<Longrightarrow> R t u \<Longrightarrow> R s u" and m: "moves R body"
  have "R s (snd (run_attempts n redis_transient body e s))" for n e s
  proof (induction n arbitrary: e s)
    case (Suc n)
    obtain x s' where x: "body s = (x, s')" by fastforce
    then have "R s s'" using m by (blast dest: movesD)
    then show ?case using x Suc t by (auto split: sum.splits)
  qed (simp add: r)
  then show "moves R (run ro body)" by (simp add: moves_def run_def)
qed

end
