(* ===== verification/Redis_Queue_Correct.thy ===== *)
theory Redis_Queue_Correct
  imports Redis_Queue Demo_Env
begin

section \<open>The Redis queue never loses a message\<close>

text \<open>
  What the driver relies on of the server is \<open>redis_laws\<close>, over a view of its state: the entries a
  stream ever had (ids are not reused), those still in it, and the members of a sorted set. Only
  \<open>XDEL\<close> takes an entry out and only \<open>ZREM\<close> a member; a command that fails may have been carried
  out; other clients may add at any time (the laws are inclusions). A message is held when a live
  entry of its partition or a member of the partition's delay set decodes to it.
\<close>

record 'r redis_view =
  rv_log :: "'r \<Rightarrow> string \<Rightarrow> string \<Rightarrow> string list option"
  rv_live :: "'r \<Rightarrow> string \<Rightarrow> string set"
  rv_members :: "'r \<Rightarrow> string \<Rightarrow> string set"

definition grows :: "'r redis_view \<Rightarrow> 'r \<Rightarrow> 'r \<Rightarrow> bool" where
  "grows v r r' \<longleftrightarrow>
     (\<forall>k. rv_log v r k \<subseteq>\<^sub>m rv_log v r' k \<and> rv_live v r k \<subseteq> rv_live v r' k \<and> rv_members v r k \<subseteq> rv_members v r' k)"

definition loses_entry :: "'r redis_view \<Rightarrow> string \<Rightarrow> string \<Rightarrow> 'r \<Rightarrow> 'r \<Rightarrow> bool" where
  "loses_entry v k0 i r r' \<longleftrightarrow>
     (\<forall>k. rv_log v r k \<subseteq>\<^sub>m rv_log v r' k \<and> rv_live v r k - (if k = k0 then {i} else {}) \<subseteq> rv_live v r' k \<and>
          rv_members v r k \<subseteq> rv_members v r' k)"

definition loses_member :: "'r redis_view \<Rightarrow> string \<Rightarrow> string \<Rightarrow> 'r \<Rightarrow> 'r \<Rightarrow> bool" where
  "loses_member v k0 m r r' \<longleftrightarrow>
     (\<forall>k. rv_log v r k \<subseteq>\<^sub>m rv_log v r' k \<and> rv_live v r k \<subseteq> rv_live v r' k \<and>
          rv_members v r k - (if k = k0 then {m} else {}) \<subseteq> rv_members v r' k)"

definition redis_laws :: "'r redis \<Rightarrow> 'r redis_view \<Rightarrow> bool" where
  "redis_laws rx v \<longleftrightarrow>
     (\<forall>k g. moves (grows v) (rx_xgroup_create rx k g)) \<and>
     (\<forall>k fs. moves (grows v) (rx_xadd rx k fs)) \<and>
     (\<forall>k t n. moves (grows v) (rx_zrangebyscore rx k t n)) \<and>
     (\<forall>k t m. moves (grows v) (rx_zadd rx k t m)) \<and>
     (\<forall>g c n b k. moves (grows v) (rx_xreadgroup rx g c n b k)) \<and>
     (\<forall>k g c t n. moves (grows v) (rx_xautoclaim rx k g c t n)) \<and>
     (\<forall>k g i. moves (grows v) (rx_xack rx k g i)) \<and>
     (\<forall>k i. moves (loses_entry v k i) (rx_xdel rx k i)) \<and>
     (\<forall>k m. moves (loses_member v k m) (rx_zrem rx k m)) \<and>
     (\<forall>k fs r i r'. rx_xadd rx k fs r = (Ok i, r') \<longrightarrow> i \<in> rv_live v r' k \<and> rv_log v r' k i = Some fs) \<and>
     (\<forall>k t m r r'. rx_zadd rx k t m r = (Ok (), r') \<longrightarrow> m \<in> rv_members v r' k) \<and>
     (\<forall>g c n b k r ss r'. rx_xreadgroup rx g c n b k r = (Ok (Some ss), r') \<and> ss \<noteq> [] \<longrightarrow>
        (\<forall>i fs. (i, fs) \<in> set (snd (hd ss)) \<longrightarrow> rv_log v r' k i = Some fs)) \<and>
     (\<forall>k g c t n r es r'. rx_xautoclaim rx k g c t n r = (Ok es, r') \<longrightarrow> (\<forall>i fs. (i, fs) \<in> set es \<longrightarrow> rv_log v r' k i = Some fs))"

lemma redis_lawsD:
  assumes "redis_laws rx v"
  shows "moves (grows v) (rx_xgroup_create rx k g)" "moves (grows v) (rx_xadd rx k fs)"
    "moves (grows v) (rx_zrangebyscore rx k t n)" "moves (grows v) (rx_zadd rx k t m)"
    "moves (grows v) (rx_xreadgroup rx g c n b k)" "moves (grows v) (rx_xautoclaim rx k g c n b)"
    "moves (grows v) (rx_xack rx k g i)" "moves (loses_entry v k i) (rx_xdel rx k i)" "moves (loses_member v k m) (rx_zrem rx k m)"
    "rx_xadd rx k fs r = (Ok i, r') \<Longrightarrow> i \<in> rv_live v r' k \<and> rv_log v r' k i = Some fs"
    "rx_zadd rx k t m r = (Ok u, r') \<Longrightarrow> m \<in> rv_members v r' k"
    "rx_xreadgroup rx g c n b k r = (Ok (Some ss), r') \<Longrightarrow> ss \<noteq> [] \<Longrightarrow> (i, fs) \<in> set (snd (hd ss)) \<Longrightarrow> rv_log v r' k i = Some fs"
    "rx_xautoclaim rx k g c n b r = (Ok es, r') \<Longrightarrow> (i, fs) \<in> set es \<Longrightarrow> rv_log v r' k i = Some fs"
  using assms unfolding redis_laws_def by (elim conjE, simp)+

text \<open>
  What the code relies on of \<open>JSON\<close>: the messages it can write (\<open>ms\<close>) survive their text, which is
  not empty, and reading a text gives such a message.
\<close>

definition message_codec :: "'r redis_opts \<Rightarrow> relay_message set \<Rightarrow> bool" where
  "message_codec ro ms \<longleftrightarrow>
     (\<forall>m \<in> ms. ro_stringify ro m \<noteq> [] \<and> ro_parse ro (ro_stringify ro m) = Ok m) \<and> (\<forall>s m. ro_parse ro s = Ok m \<longrightarrow> m \<in> ms)"

definition message_of :: "'r redis_opts \<Rightarrow> string list \<Rightarrow> relay_message res" where
  "message_of ro fs = decode ro (fieldsToMap fs ''data'')"

definition delayed :: "'r redis_opts \<Rightarrow> 'r redis_view \<Rightarrow> 'r \<Rightarrow> chainId \<Rightarrow> relay_message \<Rightarrow> bool" where
  "delayed ro v r p m \<longleftrightarrow> (\<exists>s \<in> rv_members v r (retryKey ro p). decode ro (Some s) = Ok m)"

definition streamed :: "'r redis_opts \<Rightarrow> 'r redis_view \<Rightarrow> 'r \<Rightarrow> string \<Rightarrow> relay_message \<Rightarrow> bool" where
  "streamed ro v r k m \<longleftrightarrow> (\<exists>i fs. i \<in> rv_live v r k \<and> rv_log v r k i = Some fs \<and> message_of ro fs = Ok m)"

definition held :: "'r redis_opts \<Rightarrow> 'r redis_view \<Rightarrow> 'r \<Rightarrow> chainId \<Rightarrow> relay_message \<Rightarrow> bool" where
  "held ro v r p m \<longleftrightarrow> streamed ro v r (streamKey ro p) m \<or> delayed ro v r p m"

abbreviation dead_lettered :: "'r redis_opts \<Rightarrow> 'r redis_view \<Rightarrow> 'r \<Rightarrow> relay_message \<Rightarrow> bool" where
  "dead_lettered ro v r m \<equiv> streamed ro v r (dlqKey ro) m"

text \<open>Nothing held or dead-lettered disappears, save possibly \<open>gone\<close>.\<close>

definition kept :: "'r redis_opts \<Rightarrow> 'r redis_view \<Rightarrow> relay_message set \<Rightarrow> 'r redis_state \<Rightarrow> 'r redis_state \<Rightarrow> bool" where
  "kept ro v gone s s' \<longleftrightarrow>
     (\<forall>k. rv_log v (rq_server s) k \<subseteq>\<^sub>m rv_log v (rq_server s') k) \<and>
     (\<forall>p m. held ro v (rq_server s) p m \<longrightarrow>
        held ro v (rq_server s') p m \<or> dead_lettered ro v (rq_server s') m \<or> m \<in> gone) \<and>
     (\<forall>m. dead_lettered ro v (rq_server s) m \<longrightarrow> dead_lettered ro v (rq_server s') m)"

lemma kept_refl: "kept ro v gone s s"
  by (simp add: kept_def)

lemma kept_trans: "kept ro v gone s t \<Longrightarrow> kept ro v gone t u \<Longrightarrow> kept ro v gone s u"
  unfolding kept_def by (meson map_le_trans)

interpretation keep: preorder_effects "kept ro v gone" for ro v gone
  by unfold_locales (rule kept_refl, rule kept_trans)

subsection \<open>Keys and entries\<close>

lemma key_simps [simp]:
  "streamKey ro p = streamKey ro q \<longleftrightarrow> p = q" "retryKey ro p = retryKey ro q \<longleftrightarrow> p = q"
  "streamKey ro p \<noteq> dlqKey ro" "dlqKey ro \<noteq> streamKey ro p"
  by (auto simp: streamKey_def retryKey_def dlqKey_def show_nat_inject)

lemma message_of_data [simp]: "message_of ro [''data'', s] = decode ro (Some s)"
  by (simp add: message_of_def)

lemma message_of_dead [simp]: "message_of ro [''data'', s, ''reason'', a, ''orig_id'', b] = decode ro (Some s)"
  by (simp add: message_of_def)

lemma decode_stringify: "message_codec ro ms \<Longrightarrow> m \<in> ms \<Longrightarrow> decode ro (Some (ro_stringify ro m)) = Ok m"
  by (simp add: message_codec_def decode_def)

lemma decode_codec: "message_codec ro ms \<Longrightarrow> decode ro t = Ok m \<Longrightarrow> m \<in> ms"
  by (auto simp: message_codec_def decode_def split: option.splits if_splits)

lemma streamed_mono:
  "streamed ro v r k m \<Longrightarrow> rv_log v r k \<subseteq>\<^sub>m rv_log v r' k \<Longrightarrow> rv_live v r k \<subseteq> rv_live v r' k \<Longrightarrow> streamed ro v r' k m"
  unfolding streamed_def map_le_def by (metis domI subsetD)

lemma grows_held: "grows v r r' \<Longrightarrow> held ro v r p m \<Longrightarrow> held ro v r' p m"
  unfolding held_def delayed_def grows_def by (meson streamed_mono subsetD)

lemma grows_kept: "grows v (rq_server s) (rq_server s') \<Longrightarrow> kept ro v gone s s'"
  unfolding kept_def using grows_held streamed_mono unfolding grows_def by metis

lemma moves_srv:
  assumes "moves (grows v) m"
  shows "moves (kept ro v gone) (srv m)"
  unfolding moves_def
proof
  fix s
  show "kept ro v gone s (snd (srv m s))"
    using movesD [OF assms, of "rq_server s"] by (auto simp: srv_def intro!: grows_kept split: prod.splits)
qed

lemma moves_keep_run: "moves (kept ro v gone) body \<Longrightarrow> moves (kept ro v gone) (run ro' body)"
  by (rule moves_run [OF kept_refl kept_trans])

lemma ensureGroup_moves:
  assumes "redis_laws (ro_client ro) v"
  shows "moves (kept ro v gone) (ensureGroup ro p)"
  unfolding moves_def
proof
  fix s
  have "moves (kept ro v gone) (srv (rx_xgroup_create (ro_client ro) (streamKey ro p) (ro_group ro)))"
    by (intro moves_srv redis_lawsD(1) [OF assms])
  note movesD [OF this, of s]
  then show "kept ro v gone s (snd (ensureGroup ro p s))"
    by (auto simp: ensureGroup_def kept_def split: prod.splits sum.splits)
qed

lemmas keep_rules = keep.moves_pure keep.moves_bind keep.moves_cases keep.moves_for moves_keep_run moves_srv ensureGroup_moves

subsection \<open>Removing an entry\<close>

definition delivered :: "'r redis_opts \<Rightarrow> 'r redis_view \<Rightarrow> redis_delivery \<Rightarrow> 'r redis_state \<Rightarrow> bool" where
  "delivered ro v d s \<longleftrightarrow>
     (\<exists>fs. rv_log v (rq_server s) (streamKey ro (rd_partition d)) (rd_receiptHandle d) = Some fs \<and>
           message_of ro fs = Ok (rd_message d))"

lemma delivered_codec: "message_codec ro ms \<Longrightarrow> delivered ro v d s \<Longrightarrow> rd_message d \<in> ms"
  unfolding delivered_def message_of_def using decode_codec by blast

lemma delivered_kept: "kept ro v gone s s' \<Longrightarrow> delivered ro v d s \<Longrightarrow> delivered ro v d s'"
  unfolding kept_def delivered_def map_le_def by (metis domI)

text \<open>The message of a delivery is safe elsewhere, or may go.\<close>

definition safe :: "'r redis_opts \<Rightarrow> 'r redis_view \<Rightarrow> relay_message set \<Rightarrow> redis_delivery \<Rightarrow> 'r redis_state \<Rightarrow> bool" where
  "safe ro v gone d s \<longleftrightarrow>
     delayed ro v (rq_server s) (rd_partition d) (rd_message d) \<or> dead_lettered ro v (rq_server s) (rd_message d) \<or>
     rd_message d \<in> gone"

lemma loses_entry_kept:
  assumes "loses_entry v (streamKey ro (rd_partition d)) (rd_receiptHandle d) (rq_server s) (rq_server s')"
    and "delivered ro v d s" and "safe ro v gone d s"
  shows "kept ro v gone s s' \<and> safe ro v gone d s'"
proof -
  let ?r = "rq_server s" and ?r' = "rq_server s'"
  have l: "rv_log v ?r k \<subseteq>\<^sub>m rv_log v ?r' k" "rv_members v ?r k \<subseteq> rv_members v ?r' k" for k
    using assms(1) by (simp_all add: loses_entry_def)
  have del: "delayed ro v ?r p m \<Longrightarrow> delayed ro v ?r' p m" for p m using l(2) by (auto simp: delayed_def)
  have "rv_live v ?r (dlqKey ro) - (if dlqKey ro = streamKey ro (rd_partition d) then {rd_receiptHandle d} else {}) \<subseteq> rv_live v ?r' (dlqKey ro)"
    using assms(1) unfolding loses_entry_def by blast
  then have dead: "dead_lettered ro v ?r m \<Longrightarrow> dead_lettered ro v ?r' m" for m
    using streamed_mono [OF _ l(1)] by simp
  have safe': "safe ro v gone d s'" using assms(3) del dead by (auto simp: safe_def)
  have "held ro v ?r' p m \<or> dead_lettered ro v ?r' m \<or> m \<in> gone" if str: "streamed ro v ?r (streamKey ro p) m" for p m
  proof -
    obtain i fs where i: "i \<in> rv_live v ?r (streamKey ro p)" "rv_log v ?r (streamKey ro p) i = Some fs" "message_of ro fs = Ok m"
      using str unfolding streamed_def by blast
    show ?thesis
    proof (cases "p = rd_partition d \<and> i = rd_receiptHandle d")
      case True
      then have "m = rd_message d" using i assms(2) by (auto simp: delivered_def)
      then show ?thesis using True safe' by (auto simp: safe_def held_def)
    next
      case False
      have "rv_live v ?r (streamKey ro p) - (if streamKey ro p = streamKey ro (rd_partition d) then {rd_receiptHandle d} else {})
          \<subseteq> rv_live v ?r' (streamKey ro p)" using assms(1) unfolding loses_entry_def by blast
      then have "i \<in> rv_live v ?r' (streamKey ro p)" using False i(1) by (auto split: if_splits)
      moreover have "rv_log v ?r' (streamKey ro p) i = Some fs" using i(2) l(1) by (metis domI map_le_def)
      ultimately show ?thesis using i(3) by (auto simp: held_def streamed_def)
    qed
  qed
  then show ?thesis using safe' l(1) del dead by (auto simp: kept_def held_def)
qed

text \<open>The states a settling operation passes through.\<close>

definition settling ::
  "'r redis_opts \<Rightarrow> 'r redis_view \<Rightarrow> relay_message set \<Rightarrow> redis_delivery \<Rightarrow> 'r redis_state \<Rightarrow> 'r redis_state \<Rightarrow> bool" where
  "settling ro v gone d s0 s \<longleftrightarrow> kept ro v gone s0 s \<and> delivered ro v d s"

lemma settling_step: "settling ro v gone d s0 s \<Longrightarrow> kept ro v gone s s' \<Longrightarrow> settling ro v gone d s0 s'"
  unfolding settling_def using kept_trans delivered_kept by blast

lemma valid_srv_grows:
  assumes "moves (grows v) m" and "\<And>r x r'. m r = (Ok x, r') \<Longrightarrow> F r'"
  shows "valid (settling ro v gone d s0) (srv m) (\<lambda>_ s. settling ro v gone d s0 s \<and> F (rq_server s)) (\<lambda>_. settling ro v gone d s0)"
proof (rule validI)
  fix s x s'
  assume s: "settling ro v gone d s0 s" "srv m s = (Ok x, s')"
  then have "settling ro v gone d s0 s'" using movesD [OF moves_srv [OF assms(1)]] settling_step by blast
  then show "settling ro v gone d s0 s' \<and> F (rq_server s')" using s(2) assms(2) by (auto simp: srv_def split: prod.splits)
next
  fix s e s'
  assume "settling ro v gone d s0 s" "srv m s = (Throw e, s')"
  then show "settling ro v gone d s0 s'" using movesD [OF moves_srv [OF assms(1)]] settling_step by blast
qed

lemma valid_remove_entry:
  assumes laws: "redis_laws (ro_client ro) v"
  shows "valid (\<lambda>s. settling ro v gone d s0 s \<and> safe ro v gone d s) (remove_entry ro d)
    (\<lambda>_. settling ro v gone d s0) (\<lambda>_. settling ro v gone d s0)"
proof -
  let ?P = "\<lambda>s. settling ro v gone d s0 s \<and> safe ro v gone d s"
  have grow: "moves (grows v) (rx_xack (ro_client ro) k g i)" for k g i by (rule redis_lawsD(7) [OF laws])
  have keep_safe: "safe ro v gone d s'" if "grows v (rq_server s) (rq_server s')" "safe ro v gone d s" for s s'
    using that unfolding safe_def delayed_def grows_def by (meson streamed_mono subsetD)
  have step: "?P s'" if "?P s" "srv (rx_xack (ro_client ro) k g i) s = (x, s')" for k g i s x s'
  proof -
    have "grows v (rq_server s) (rq_server s')" using that(2) movesD [OF grow] by (auto simp: srv_def split: prod.splits)
    then show ?thesis using that(1) keep_safe settling_step grows_kept by blast
  qed
  have ack: "valid ?P (srv (rx_xack (ro_client ro) k g i)) (\<lambda>_. ?P) (\<lambda>_. settling ro v gone d s0)" for k g i
    by (rule validI) (drule (1) step, simp)+
  note del = movesD [OF redis_lawsD(8) [OF laws]]
  have "settling ro v gone d s0 s'"
    if "?P s" "srv (rx_xdel (ro_client ro) (streamKey ro (rd_partition d)) (rd_receiptHandle d)) s = (x, s')" for s s' x
  proof -
    have "loses_entry v (streamKey ro (rd_partition d)) (rd_receiptHandle d) (rq_server s) (rq_server s')"
      using that(2) del by (auto simp: srv_def split: prod.splits)
    then show ?thesis using loses_entry_kept settling_step that(1) by (metis settling_def)
  qed
  then show ?thesis
    unfolding remove_entry_def by (intro valid_bind [OF ack] validI) blast+
qed

subsection \<open>The operations\<close>

lemma ack_keeps:
  assumes "redis_laws (ro_client ro) v" and "delivered ro v d s" and "redis_ack ro d s = (x, s')"
  shows "kept ro v {rd_message d} s s'"
proof -
  have "valid (settling ro v {rd_message d} d s) (remove_entry ro d) (\<lambda>_. settling ro v {rd_message d} d s) (\<lambda>_. settling ro v {rd_message d} d s)"
    by (rule valid_pre [OF valid_remove_entry [OF assms(1)]]) (simp add: safe_def)
  then have "valid (settling ro v {rd_message d} d s) (redis_ack ro d) (\<lambda>_. settling ro v {rd_message d} d s) (\<lambda>_. settling ro v {rd_message d} d s)"
    unfolding redis_ack_def run_def by (rule valid_run_attempts)
  moreover have "settling ro v {rd_message d} d s s" using assms(2) kept_refl by (simp add: settling_def)
  ultimately have "settling ro v {rd_message d} d s s'" using assms(3) by (cases x) (blast dest: validD)+
  then show ?thesis by (simp add: settling_def)
qed

lemma settle_body_keeps:
  assumes "redis_laws (ro_client ro) v" and "delivered ro v d s"
    and "moves (grows v) save" and "\<And>r y r'. save r = (Ok y, r') \<Longrightarrow>
      delayed ro v r' (rd_partition d) (rd_message d) \<or> dead_lettered ro v r' (rd_message d)"
    and "run ro (bindM (srv save) (\<lambda>_. remove_entry ro d)) s = (x, s')"
  shows "kept ro v {} s s'"
proof -
  let ?S = "settling ro v {} d s"
  have "valid ?S (bindM (srv save) (\<lambda>_. remove_entry ro d)) (\<lambda>_. ?S) (\<lambda>_. ?S)"
    by (rule valid_bind [OF valid_srv_grows [OF assms(3,4)]], assumption, rule valid_pre [OF valid_remove_entry [OF assms(1)]])
      (auto simp: safe_def)
  then have "valid ?S (run ro (bindM (srv save) (\<lambda>_. remove_entry ro d))) (\<lambda>_. ?S) (\<lambda>_. ?S)"
    unfolding run_def by (rule valid_run_attempts)
  moreover have "?S s" using assms(2) kept_refl by (simp add: settling_def)
  ultimately have "?S s'" using assms(5) by (cases x) (blast dest: validD)+
  then show ?thesis by (simp add: settling_def)
qed

lemma nack_keeps:
  assumes "redis_laws (ro_client ro) v" and "message_codec ro ms" and "delivered ro v d s"
    and "redis_nack ro now d delay s = (x, s')"
  shows "kept ro v {} s s'"
  using assms(4) unfolding redis_nack_def
proof (rule settle_body_keeps [OF assms(1,3), rotated 2])
  let ?z = "rx_zadd (ro_client ro) (retryKey ro (rd_partition d)) (now + delay) (ro_stringify ro (rd_message d))"
  show "moves (grows v) ?z" by (rule redis_lawsD(4) [OF assms(1)])
  fix r y r'
  assume "?z r = (Ok y, r')"
  then have "ro_stringify ro (rd_message d) \<in> rv_members v r' (retryKey ro (rd_partition d))"
    by (rule redis_lawsD(11) [OF assms(1)])
  then show "delayed ro v r' (rd_partition d) (rd_message d) \<or> dead_lettered ro v r' (rd_message d)"
    using decode_stringify [OF assms(2) delivered_codec [OF assms(2,3)]] by (auto simp: delayed_def)
qed

lemma deadLetter_keeps:
  assumes "redis_laws (ro_client ro) v" and "message_codec ro ms" and "delivered ro v d s"
    and "redis_deadLetter ro d why s = (x, s')"
  shows "kept ro v {} s s'"
  using assms(4) unfolding redis_deadLetter_def
proof (rule settle_body_keeps [OF assms(1,3), rotated 2])
  let ?fs = "[''data'', ro_stringify ro (rd_message d), ''reason'', why, ''orig_id'', rd_receiptHandle d]"
  show "moves (grows v) (rx_xadd (ro_client ro) (dlqKey ro) ?fs)" by (rule redis_lawsD(2) [OF assms(1)])
  fix r y r'
  assume "rx_xadd (ro_client ro) (dlqKey ro) ?fs r = (Ok y, r')"
  then have "y \<in> rv_live v r' (dlqKey ro) \<and> rv_log v r' (dlqKey ro) y = Some ?fs"
    by (rule redis_lawsD(10) [OF assms(1)])
  then show "delayed ro v r' (rd_partition d) (rd_message d) \<or> dead_lettered ro v r' (rd_message d)"
    using decode_stringify [OF assms(2) delivered_codec [OF assms(2,3)]] by (auto simp: streamed_def)
qed

lemma loses_member_kept:
  assumes l: "loses_member v (retryKey ro p) mem (rq_server s) (rq_server s')"
    and "\<exists>i. i \<in> rv_live v (rq_server s) (streamKey ro p) \<and> rv_log v (rq_server s) (streamKey ro p) i = Some [''data'', mem]"
  shows "kept ro v gone s s' \<and>
    (\<exists>i. i \<in> rv_live v (rq_server s') (streamKey ro p) \<and> rv_log v (rq_server s') (streamKey ro p) i = Some [''data'', mem])"
proof -
  let ?r = "rq_server s" and ?r' = "rq_server s'"
  have m: "rv_log v ?r k \<subseteq>\<^sub>m rv_log v ?r' k" "rv_live v ?r k \<subseteq> rv_live v ?r' k"
    "rv_members v ?r k - (if k = retryKey ro p then {mem} else {}) \<subseteq> rv_members v ?r' k" for k
    using l unfolding loses_member_def by blast+
  obtain i where i: "i \<in> rv_live v ?r' (streamKey ro p)" "rv_log v ?r' (streamKey ro p) i = Some [''data'', mem]"
    using assms(2) m(1,2) unfolding map_le_def by (metis domI subsetD)
  have str: "streamed ro v ?r k x \<Longrightarrow> streamed ro v ?r' k x" for k x by (erule streamed_mono [OF _ m(1,2)])
  have "held ro v ?r' q x" if d: "delayed ro v ?r q x" for q x
  proof -
    obtain t where t: "t \<in> rv_members v ?r (retryKey ro q)" "decode ro (Some t) = Ok x" using d unfolding delayed_def by blast
    show ?thesis
    proof (cases "q = p \<and> t = mem")
      case True
      then have "streamed ro v ?r' (streamKey ro q) x"
        unfolding streamed_def using i t(2) by (intro exI [of _ i] exI [of _ "[''data'', mem]"]) simp
      then show ?thesis by (simp add: held_def)
    next
      case False
      then have "t \<in> rv_members v ?r' (retryKey ro q)" using t(1) m(3) [of "retryKey ro q"] by (auto split: if_splits)
      then show ?thesis using t(2) by (auto simp: held_def delayed_def)
    qed
  qed
  then have "kept ro v gone s s'" using m(1) str by (auto simp: kept_def held_def)
  then show ?thesis using i by blast
qed

text \<open>Adding before removing: a member leaves the delay set only once its text is in the stream.\<close>

lemma pump_member_keeps:
  assumes laws: "redis_laws (ro_client ro) v"
  shows "moves (kept ro v gone) (pump_member ro p mem)"
  unfolding moves_def
proof
  fix s0
  let ?K = "kept ro v gone s0"
  let ?F = "\<lambda>r. \<exists>i. i \<in> rv_live v r (streamKey ro p) \<and> rv_log v r (streamKey ro p) i = Some [''data'', mem]"
  let ?add = "rx_xadd (ro_client ro) (streamKey ro p) [''data'', mem]" and ?rem = "rx_zrem (ro_client ro) (retryKey ro p) mem"
  have add: "moves (grows v) ?add" "\<And>r i r'. ?add r = (Ok i, r') \<Longrightarrow> ?F r'" and rem: "moves (loses_member v (retryKey ro p) mem) ?rem"
    using redis_lawsD(2,9,10) [OF laws] by blast+
  have addK: "?K s'" if "?K s" "srv ?add s = (x, s')" for s x s'
    using that movesD [OF moves_srv [OF add(1)]] kept_trans by blast
  have addF: "?F (rq_server s')" if "srv ?add s = (Ok x, s')" for s x s'
    using that add(2) by (auto simp: srv_def split: prod.splits)
  have "valid ?K (srv ?add) (\<lambda>_ s. ?K s \<and> ?F (rq_server s)) (\<lambda>_. ?K)"
    by (rule validI) (use addK addF in blast)+
  then have a: "valid ?K (run ro (srv ?add)) (\<lambda>_ s. ?K s \<and> ?F (rq_server s)) (\<lambda>_. ?K)"
    unfolding run_def by (rule valid_run_attempts)
  have step: "?K s' \<and> ?F (rq_server s')" if s: "?K s" "?F (rq_server s)" "srv ?rem s = (x, s')" for s x s'
  proof -
    have "loses_member v (retryKey ro p) mem (rq_server s) (rq_server s')"
      using s(3) movesD [OF rem] by (auto simp: srv_def split: prod.splits)
    from loses_member_kept [OF this s(2)] show ?thesis using s(1) kept_trans by blast
  qed
  have "valid (\<lambda>s. ?K s \<and> ?F (rq_server s)) (srv ?rem) (\<lambda>_ s. ?K s) (\<lambda>_ s. ?K s \<and> ?F (rq_server s))"
    by (rule validI) (use step in blast)+
  then have "valid (\<lambda>s. ?K s \<and> ?F (rq_server s)) (run ro (srv ?rem)) (\<lambda>_. ?K) (\<lambda>_. ?K)"
    unfolding run_def by (rule valid_run_attempts) blast
  then have v: "valid ?K (pump_member ro p mem) (\<lambda>_. ?K) (\<lambda>_. ?K)"
    unfolding pump_member_def by (intro valid_bind [OF a])
  obtain x s' where x: "pump_member ro p mem s0 = (x, s')" by fastforce
  then show "?K (snd (pump_member ro p mem s0))"
    using validD [OF v kept_refl] by (cases x) simp_all
qed

lemma pumpDelayed_keeps: "redis_laws (ro_client ro) v \<Longrightarrow> moves (kept ro v gone) (pumpDelayed ro now p)"
  unfolding pumpDelayed_def by (intro keep_rules pump_member_keeps redis_lawsD)

lemma blocking_keeps: "moves (kept ro v gone) (blockingClientFor p)"
  by (simp add: moves_def blockingClientFor_def kept_def)

lemma consume_keeps: "redis_laws (ro_client ro) v \<Longrightarrow> moves (kept ro v gone) (redis_consume ro now b p n)"
  unfolding redis_consume_def by (intro keep_rules pumpDelayed_keeps blocking_keeps redis_lawsD)

lemma reclaim_keeps: "redis_laws (ro_client ro) v \<Longrightarrow> moves (kept ro v gone) (redis_reclaimExpired ro p n)"
  unfolding redis_reclaimExpired_def by (intro keep_rules redis_lawsD)

lemma publish_keeps: "redis_laws (ro_client ro) v \<Longrightarrow> moves (kept ro v gone) (redis_publish ro m)"
  unfolding redis_publish_def by (intro keep_rules redis_lawsD)

lemma run_srv_Ok:
  assumes "run ro (srv m) s = (Ok x, s')"
  shows "\<exists>r. m r = (Ok x, rq_server s')"
proof -
  have "valid (\<lambda>_. True) (srv m) (\<lambda>x s'. \<exists>r. m r = (Ok x, rq_server s')) (\<lambda>_ _. True)"
    by (rule validI) (auto simp: srv_def split: prod.splits)
  then have "valid (\<lambda>_. True) (run ro (srv m)) (\<lambda>x s'. \<exists>r. m r = (Ok x, rq_server s')) (\<lambda>_ _. True)"
    unfolding run_def by (rule valid_run_attempts) simp
  from validD(1) [OF this _ assms] show ?thesis by simp
qed

lemma redis_publish_Ok:
  assumes "redis_laws (ro_client ro) v" and "message_codec ro ms" and "redis_publish ro m s = (Ok u, s')" and "m \<in> ms"
  shows "held ro v (rq_server s') (chain_id m) m"
proof -
  obtain x s1 where x: "run ro (srv (rx_xadd (ro_client ro) (streamKey ro (chain_id m)) [''data'', ro_stringify ro m])) s1 = (Ok x, s')"
    using assms(3) unfolding redis_publish_def bindM_Ok_iff returnM_def by auto
  obtain r where "rx_xadd (ro_client ro) (streamKey ro (chain_id m)) [''data'', ro_stringify ro m] r = (Ok x, rq_server s')"
    using run_srv_Ok [OF x] by blast
  from redis_lawsD(10) [OF assms(1) this] show ?thesis
    unfolding held_def streamed_def using decode_stringify [OF assms(2,4)]
    by (intro disjI1 exI [of _ x] exI [of _ "[''data'', ro_stringify ro m]"]) simp
qed

lemma toDelivery_delivered:
  assumes "map_res (toDelivery ro p a) es = Ok ds" and "\<And>i fs. (i, fs) \<in> set es \<Longrightarrow> rv_log v (rq_server s) (streamKey ro p) i = Some fs"
    and "d \<in> set ds"
  shows "delivered ro v d s"
proof -
  obtain n where n: "n < length ds" "d = ds ! n" using assms(3) by (auto simp: in_set_conv_nth)
  then have "es ! n \<in> set es" "toDelivery ro p a (es ! n) = Ok d"
    using assms(1) by (auto simp: map_res_Ok_iff list_all2_conv_all_nth)
  then obtain e where e: "e \<in> set es" "toDelivery ro p a e = Ok d" by blast
  then show ?thesis
    using assms(2) [of "fst e" "snd e"] by (auto simp: toDelivery_def delivered_def message_of_def bind_res_Ok_iff)
qed

lemma consume_delivers:
  assumes "redis_laws (ro_client ro) v" and "redis_consume ro now b p n s = (Ok ds, s')" and "d \<in> set ds"
  shows "delivered ro v d s'"
proof -
  obtain s1 res where c: "run ro (srv (rx_xreadgroup (ro_client ro) (ro_group ro) (ro_consumer ro) n b (streamKey ro p))) s1 = (Ok res, s')"
    "res \<noteq> None \<and> the res \<noteq> [] \<and> map_res (toDelivery ro p 1) (snd (hd (the res))) = Ok ds"
    using assms(2,3) unfolding redis_consume_def bindM_Ok_iff
    by (auto simp: returnM_def liftM_def split: option.splits if_splits)
  obtain r where "rx_xreadgroup (ro_client ro) (ro_group ro) (ro_consumer ro) n b (streamKey ro p) r = (Ok (Some (the res)), rq_server s')"
    using run_srv_Ok [OF c(1)] c(2) by auto
  then show ?thesis using toDelivery_delivered [OF conjunct2 [OF conjunct2 [OF c(2)]] _ assms(3)] redis_lawsD(12) [OF assms(1)] c(2) by blast
qed

lemma reclaim_delivers:
  assumes "redis_laws (ro_client ro) v" and "redis_reclaimExpired ro p n s = (Ok ds, s')" and "d \<in> set ds"
  shows "delivered ro v d s'"
proof -
  obtain s1 es where c: "run ro (srv (rx_xautoclaim (ro_client ro) (streamKey ro p) (ro_group ro) (ro_consumer ro) (ro_visibilityTimeoutMs ro) n)) s1 = (Ok es, s')"
    "map_res (toDelivery ro p 2) es = Ok ds"
    using assms(2) unfolding redis_reclaimExpired_def bindM_Ok_iff by (auto simp: liftM_def)
  obtain r where "rx_xautoclaim (ro_client ro) (streamKey ro p) (ro_group ro) (ro_consumer ro) (ro_visibilityTimeoutMs ro) n r = (Ok es, rq_server s')"
    using run_srv_Ok [OF c(1)] by blast
  then show ?thesis using toDelivery_delivered [OF c(2) _ assms(3)] redis_lawsD(13) [OF assms(1)] by blast
qed

subsection \<open>Runs of the queue\<close>

record 'r queue_run =
  qn_state :: "'r redis_state"
  qn_handed :: "redis_delivery set"
  qn_published :: "relay_message set"
  qn_acked :: "relay_message set"

definition handed_over :: "redis_delivery list res \<Rightarrow> redis_delivery set" where
  "handed_over r = (case r of Inl _ \<Rightarrow> {} | Inr ds \<Rightarrow> set ds)"

inductive queue_step :: "'r redis_opts \<Rightarrow> relay_message set \<Rightarrow> 'r queue_run \<Rightarrow> 'r queue_run \<Rightarrow> bool" for ro ms where
  publish_step: "m \<in> ms \<Longrightarrow> redis_publish ro m (qn_state q) = (x, s) \<Longrightarrow>
     queue_step ro ms q (q\<lparr>qn_state := s, qn_published := (if x = Ok () then insert m (qn_published q) else qn_published q)\<rparr>)"
| consume_step: "redis_consume ro now b p n (qn_state q) = (x, s) \<Longrightarrow>
     queue_step ro ms q (q\<lparr>qn_state := s, qn_handed := qn_handed q \<union> handed_over x\<rparr>)"
| reclaim_step: "redis_reclaimExpired ro p n (qn_state q) = (x, s) \<Longrightarrow>
     queue_step ro ms q (q\<lparr>qn_state := s, qn_handed := qn_handed q \<union> handed_over x\<rparr>)"
| ack_step: "d \<in> qn_handed q \<Longrightarrow> redis_ack ro d (qn_state q) = (x, s) \<Longrightarrow>
     queue_step ro ms q (q\<lparr>qn_state := s, qn_acked := insert (rd_message d) (qn_acked q)\<rparr>)"
| nack_step: "d \<in> qn_handed q \<Longrightarrow> redis_nack ro now d delay (qn_state q) = (x, s) \<Longrightarrow> queue_step ro ms q (q\<lparr>qn_state := s\<rparr>)"
| dead_step: "d \<in> qn_handed q \<Longrightarrow> redis_deadLetter ro d why (qn_state q) = (x, s) \<Longrightarrow> queue_step ro ms q (q\<lparr>qn_state := s\<rparr>)"

definition run_inv :: "'r redis_opts \<Rightarrow> 'r redis_view \<Rightarrow> 'r queue_run \<Rightarrow> bool" where
  "run_inv ro v q \<longleftrightarrow>
     (\<forall>d \<in> qn_handed q. delivered ro v d (qn_state q)) \<and>
     (\<forall>m \<in> qn_published q. held ro v (rq_server (qn_state q)) (chain_id m) m \<or>
        dead_lettered ro v (rq_server (qn_state q)) m \<or> m \<in> qn_acked q)"

lemma run_inv_kept:
  assumes "run_inv ro v q" and "kept ro v gone (qn_state q) s" and "gone \<subseteq> acked" and "qn_acked q \<subseteq> acked"
    and "\<And>d. d \<in> handed \<Longrightarrow> d \<in> qn_handed q \<or> delivered ro v d s"
    and "\<And>m. m \<in> published \<Longrightarrow> m \<in> qn_published q \<or> held ro v (rq_server s) (chain_id m) m"
  shows "run_inv ro v \<lparr>qn_state = s, qn_handed = handed, qn_published = published, qn_acked = acked\<rparr>"
proof -
  have "delivered ro v d s" if "d \<in> handed" for d
    using assms(5) [OF that] assms(1) delivered_kept [OF assms(2)] by (auto simp: run_inv_def)
  moreover have "held ro v (rq_server s) (chain_id m) m \<or> dead_lettered ro v (rq_server s) m \<or> m \<in> acked" if "m \<in> published" for m
    using assms(6) [OF that] assms(1,3,4) assms(2) unfolding run_inv_def kept_def by blast
  ultimately show ?thesis by (simp add: run_inv_def)
qed

lemma queue_step_inv:
  assumes "redis_laws (ro_client ro) v" and "message_codec ro ms" and "queue_step ro ms q q'" and inv: "run_inv ro v q"
  shows "run_inv ro v q'"
  using assms(3)
proof cases
  case (publish_step m x s)
  have "kept ro v {} (qn_state q) s" using movesD [OF publish_keeps [OF assms(1)] publish_step(3)] .
  then show ?thesis
    using redis_publish_Ok [OF assms(1,2) _ publish_step(2)] publish_step
    by (cases q) (auto intro!: run_inv_kept [OF inv])
next
  case (consume_step now b p n x s)
  have "kept ro v {} (qn_state q) s" using movesD [OF consume_keeps [OF assms(1)] consume_step(2)] .
  then show ?thesis
    using consume_delivers [OF assms(1)] consume_step
    by (cases q) (auto intro!: run_inv_kept [OF inv] simp: handed_over_def split: sum.splits)
next
  case (reclaim_step p n x s)
  have "kept ro v {} (qn_state q) s" using movesD [OF reclaim_keeps [OF assms(1)] reclaim_step(2)] .
  then show ?thesis
    using reclaim_delivers [OF assms(1)] reclaim_step
    by (cases q) (auto intro!: run_inv_kept [OF inv] simp: handed_over_def split: sum.splits)
next
  case (ack_step d x s)
  have "delivered ro v d (qn_state q)" using inv ack_step(2) by (simp add: run_inv_def)
  from ack_keeps [OF assms(1) this ack_step(3)] show ?thesis
    using ack_step(1) by (cases q) (auto intro!: run_inv_kept [OF inv])
next
  case (nack_step d now delay x s)
  have "delivered ro v d (qn_state q)" using inv nack_step(2) by (simp add: run_inv_def)
  from nack_keeps [OF assms(1,2) this nack_step(3)] show ?thesis
    using nack_step(1) by (cases q) (auto intro!: run_inv_kept [OF inv])
next
  case (dead_step d why x s)
  have "delivered ro v d (qn_state q)" using inv dead_step(2) by (simp add: run_inv_def)
  from deadLetter_keeps [OF assms(1,2) this dead_step(3)] show ?thesis
    using dead_step(1) by (cases q) (auto intro!: run_inv_kept [OF inv])
qed

subsection \<open>Properties\<close>

text \<open>C27: The Redis queue delivers at least once. In every run of its operations, in any order and
  with any command failing (before or after it took effect, also within a retried body), a message
  whose \<open>publish\<close> returned is still in its partition's stream or delay set, or in the dead-letter
  stream, unless a delivery of it was acknowledged.\<close>

theorem redis_queue_never_loses:
  assumes "redis_laws (ro_client ro) v" and "message_codec ro ms"
    and "(queue_step ro ms)\<^sup>*\<^sup>* \<lparr>qn_state = s0, qn_handed = {}, qn_published = {}, qn_acked = {}\<rparr> q"
    and "m \<in> qn_published q" and "m \<notin> qn_acked q"
  shows "held ro v (rq_server (qn_state q)) (chain_id m) m \<or> dead_lettered ro v (rq_server (qn_state q)) m"
proof -
  from assms(3) have "run_inv ro v q"
  proof (induction rule: rtranclp_induct)
    case base
    then show ?case by (simp add: run_inv_def)
  next
    case (step q q')
    then show ?case using queue_step_inv [OF assms(1,2)] by blast
  qed
  then show ?thesis using assms(4,5) by (auto simp: run_inv_def)
qed

text \<open>A server in memory: streams with a liveness flag per entry, indexed by the entry's number.\<close>

record demo_server =
  dv_streams :: "string \<Rightarrow> (string list \<times> bool) list"
  dv_sets :: "string \<Rightarrow> string list"

definition demo_entries :: "demo_server \<Rightarrow> string \<Rightarrow> (string \<times> string list) list" where
  "demo_entries r k =
     map (\<lambda>n. (show_nat n, fst (dv_streams r k ! n))) (filter (\<lambda>n. snd (dv_streams r k ! n)) [0..<length (dv_streams r k)])"

definition demo_view :: "demo_server redis_view" where
  "demo_view =
     \<lparr>rv_log = (\<lambda>r k i. if show_nat (dec_val i) = i \<and> dec_val i < length (dv_streams r k)
                        then Some (fst (dv_streams r k ! dec_val i)) else None),
      rv_live = (\<lambda>r k. {i. show_nat (dec_val i) = i \<and> dec_val i < length (dv_streams r k) \<and> snd (dv_streams r k ! dec_val i)}),
      rv_members = (\<lambda>r k. set (dv_sets r k))\<rparr>"

definition demo_redis :: "demo_server redis" where
  "demo_redis =
     \<lparr>rx_xgroup_create = (\<lambda>_ _. returnM ()),
      rx_xadd = (\<lambda>k fs r. (Ok (show_nat (length (dv_streams r k))), r\<lparr>dv_streams := (dv_streams r)(k := dv_streams r k @ [(fs, True)])\<rparr>)),
      rx_zrangebyscore = (\<lambda>k _ _ r. (Ok (dv_sets r k), r)),
      rx_zadd = (\<lambda>k _ m r. (Ok (), r\<lparr>dv_sets := (dv_sets r)(k := m # dv_sets r k)\<rparr>)),
      rx_zrem = (\<lambda>k m r. (Ok (), r\<lparr>dv_sets := (dv_sets r)(k := filter (\<lambda>x. x \<noteq> m) (dv_sets r k))\<rparr>)),
      rx_xreadgroup = (\<lambda>_ _ n _ k r. (Ok (Some [(k, take n (demo_entries r k))]), r)),
      rx_xautoclaim = (\<lambda>k _ _ _ n r. (Ok (take n (demo_entries r k)), r)),
      rx_xack = (\<lambda>_ _ _. returnM ()),
      rx_xdel = (\<lambda>k i r. (Ok (), r\<lparr>dv_streams := (dv_streams r)(k := (if dec_val i < length (dv_streams r k) \<and> show_nat (dec_val i) = i
                   then (dv_streams r k)[dec_val i := (fst (dv_streams r k ! dec_val i), False)] else dv_streams r k))\<rparr>)),
      rx_quit = returnM ()\<rparr>"

lemma demo_entries_log: "(i, fs) \<in> set (demo_entries r k) \<Longrightarrow> rv_log demo_view r k i = Some fs"
  by (auto simp: demo_entries_def demo_view_def)

lemma demo_redis_laws: "redis_laws demo_redis demo_view"
proof -
  have xdel: "moves (loses_entry demo_view k i) (rx_xdel demo_redis k i)" for k i
    by (auto simp: moves_def loses_entry_def demo_redis_def demo_view_def map_le_def nth_list_update split: if_splits)
  have zrem: "moves (loses_member demo_view k m) (rx_zrem demo_redis k m)" for k m
    by (auto simp: moves_def loses_member_def demo_redis_def demo_view_def map_le_def)
  have xadd: "moves (grows demo_view) (rx_xadd demo_redis k fs)" for k fs
    by (auto simp: moves_def grows_def demo_redis_def demo_view_def map_le_def nth_append split: if_splits)
  have rest: "moves (grows demo_view) (rx_xgroup_create demo_redis k g)" "moves (grows demo_view) (rx_zrangebyscore demo_redis k t n)"
    "moves (grows demo_view) (rx_zadd demo_redis k t m)" "moves (grows demo_view) (rx_xreadgroup demo_redis g c n b k)"
    "moves (grows demo_view) (rx_xautoclaim demo_redis k g c n b)" "moves (grows demo_view) (rx_xack demo_redis k g i)"
    for k g t n m c b i
    by (auto simp: moves_def grows_def demo_redis_def demo_view_def returnM_def map_le_def)
  have reads: "(i, fs) \<in> set (snd (hd ss)) \<Longrightarrow> rx_xreadgroup demo_redis g c n b k r = (Ok (Some ss), r') \<Longrightarrow> rv_log demo_view r' k i = Some fs"
    "(i, fs) \<in> set es \<Longrightarrow> rx_xautoclaim demo_redis k g c n b r = (Ok es, r') \<Longrightarrow> rv_log demo_view r' k i = Some fs" for i fs ss g c n b k r r' es
    using demo_entries_log by (auto simp: demo_redis_def dest!: in_set_takeD)
  have adds: "rx_xadd demo_redis k fs r = (Ok i, r') \<Longrightarrow> i \<in> rv_live demo_view r' k \<and> rv_log demo_view r' k i = Some fs"
    "rx_zadd demo_redis k t m r = (Ok (), r') \<Longrightarrow> m \<in> rv_members demo_view r' k" for k fs r i r' t m
    by (auto simp: demo_redis_def demo_view_def)
  note adds' = adds(1) [THEN conjunct1] adds(1) [THEN conjunct2] adds(2)
  show ?thesis
    unfolding redis_laws_def
    by (intro conjI allI impI; (elim conjE)?; (rule xdel zrem xadd rest | (erule adds') | (rule reads, assumption+)))
qed

definition demo_opts :: "demo_server redis_opts" where
  "demo_opts = \<lparr>ro_client = demo_redis, ro_prefix = ''relayer'', ro_group = ''workers'', ro_consumer = ''host:1'',
     ro_visibilityTimeoutMs = 60000, ro_retry = DEFAULT_RETRY,
     ro_stringify = (\<lambda>m. if m = demo_message then ''m'' else ''?''),
     ro_parse = (\<lambda>s. if s = ''m'' then Ok demo_message else Throw (new_error ForeignError ''SyntaxError''))\<rparr>"

definition demo_fresh :: "demo_server redis_state" where
  "demo_fresh = \<lparr>rq_server = \<lparr>dv_streams = (\<lambda>_. []), dv_sets = (\<lambda>_. [])\<rparr>, rq_ready = {}, rq_blocking = {}\<rparr>"

definition demo_start :: "demo_server queue_run" where
  "demo_start = \<lparr>qn_state = demo_fresh, qn_handed = {}, qn_published = {}, qn_acked = {}\<rparr>"

lemma demo_run_Ok: "body s = (Ok x, s') \<Longrightarrow> run demo_opts body s = (Ok x, s')"
proof -
  have "maxAttempts (ro_retry demo_opts) = Suc 2" by (simp add: demo_opts_def DEFAULT_RETRY_def)
  then show "body s = (Ok x, s') \<Longrightarrow> run demo_opts body s = (Ok x, s')"
    unfolding run_def by (simp only: run_attempts.simps) simp
qed

lemma demo_publish: "fst (redis_publish demo_opts demo_message demo_fresh) = Ok ()"
proof -
  have g: "ensureGroup demo_opts p demo_fresh = (Ok (), demo_fresh\<lparr>rq_ready := {p}\<rparr>)" for p
    by (simp add: ensureGroup_def demo_fresh_def srv_def demo_opts_def demo_redis_def returnM_def)
  have "\<exists>i s'. srv (rx_xadd (ro_client demo_opts) k fs) s = (Ok i, s')" for k fs s
    by (simp add: srv_def demo_opts_def demo_redis_def)
  then obtain i s' where i: "srv (rx_xadd (ro_client demo_opts) (streamKey demo_opts (chain_id demo_message))
      [''data'', ro_stringify demo_opts demo_message]) (demo_fresh\<lparr>rq_ready := {chain_id demo_message}\<rparr>) = (Ok i, s')" by blast
  have "run demo_opts (srv (rx_xadd (ro_client demo_opts) (streamKey demo_opts (chain_id demo_message))
      [''data'', ro_stringify demo_opts demo_message])) (demo_fresh\<lparr>rq_ready := {chain_id demo_message}\<rparr>) = (Ok i, s')"
    using i by (rule demo_run_Ok)
  then show ?thesis by (simp add: redis_publish_def bindM_def g returnM_def)
qed

theorem redis_queue_never_loses_witness:
  "held demo_opts demo_view (rq_server (snd (redis_consume demo_opts 0 0 2 1 (snd (redis_publish demo_opts demo_message demo_fresh)))))
     2 demo_message \<or>
   dead_lettered demo_opts demo_view
     (rq_server (snd (redis_consume demo_opts 0 0 2 1 (snd (redis_publish demo_opts demo_message demo_fresh))))) demo_message"
proof -
  let ?s1 = "snd (redis_publish demo_opts demo_message demo_fresh)"
  let ?s2 = "snd (redis_consume demo_opts 0 0 2 1 ?s1)"
  let ?q1 = "demo_start\<lparr>qn_state := ?s1, qn_published := {demo_message}\<rparr>"
  let ?q2 = "?q1\<lparr>qn_state := ?s2, qn_handed := {} \<union> handed_over (fst (redis_consume demo_opts 0 0 2 1 ?s1))\<rparr>"
  have p: "redis_publish demo_opts demo_message (qn_state demo_start) = (Ok (), ?s1)"
    using demo_publish by (simp add: demo_start_def prod_eq_iff)
  have "queue_step demo_opts {demo_message} demo_start ?q1"
    using publish_step [OF _ p, of "{demo_message}"] by (simp add: demo_start_def)
  moreover have "queue_step demo_opts {demo_message} ?q1 ?q2"
    using consume_step [of demo_opts 0 0 2 1 ?q1 _ ?s2 "{demo_message}"] by (simp add: demo_start_def prod_eq_iff)
  ultimately have "(queue_step demo_opts {demo_message})\<^sup>*\<^sup>* demo_start ?q2" by simp
  moreover have "message_codec demo_opts {demo_message}" by (simp add: message_codec_def demo_opts_def)
  moreover have "redis_laws (ro_client demo_opts) demo_view" using demo_redis_laws by (simp add: demo_opts_def)
  ultimately have "held demo_opts demo_view (rq_server (qn_state ?q2)) (chain_id demo_message) demo_message \<or>
    dead_lettered demo_opts demo_view (rq_server (qn_state ?q2)) demo_message"
    unfolding demo_start_def by (intro redis_queue_never_loses) auto
  then show ?thesis by (simp add: demo_message_def)
qed

end
