(* ===== verification/Relayer_Config.thy ===== *)
theory Relayer_Config
  imports Relay_Types Js_Values Retry_Calls Demo_Eth
begin

section \<open>Configuration of the relayer bot\<close>

text \<open>
  \<open>relayer-bot/src/config.ts\<close>: the environment is validated once, for the role the process runs.
  \<open>JSON.parse\<close> and ethers' \<open>parseEther\<close> are parameters. A chain's \<open>name\<close> of another JSON type is kept
  as its text and an \<open>evmChainId\<close> that is not a natural number is dropped, where the code passes both
  through unchecked. \<open>relayer_loadConfig_typed\<close> says what a loaded configuration guarantees.
\<close>

datatype relayer_role = Listener_role | Worker_role | Cron_role | Migrate_role

record bot_config = relayer_config +
  bc_role :: relayer_role
  bc_walletSecretNames :: "string list"
  bc_useDevSecrets :: bool
  bc_queueVisibilityTimeoutMs :: nat
  bc_walletMinBalanceWei :: int
  bc_databaseUrl :: string
  bc_redisUrl :: string
  bc_keyVaultUrl :: "string option"
  bc_wormholescanUrl :: string
  bc_slackWebhookUrl :: "string option"
  bc_healthHost :: string
  bc_healthPort :: nat
  bc_rpcRetry :: retry_options

definition parseIntInRange :: "env \<Rightarrow> string \<Rightarrow> string \<Rightarrow> int \<Rightarrow> int \<Rightarrow> nat res" where
  "parseIntInRange env nm fallback mn mx =
     (let v = js_Number (env_or env nm fallback) in
      if \<not> js_isInteger v \<or> num_less v (of_int mn) \<or> num_greater v (of_int mx)
      then Throw (new_error PlainError (nm @ '' must be an integer in ['' @ show_int mn @ '', '' @ show_int mx @ ''], got ''
             @ (case env nm of None \<Rightarrow> ''undefined'' | Some raw \<Rightarrow> raw)))
      else Ok (nat (num_int v)))"

fun split_commas :: "string \<Rightarrow> string list" where
  "split_commas [] = [[]]"
| "split_commas (c # cs) =
     (if c = CHR '','' then [] # split_commas cs
      else (case split_commas cs of [] \<Rightarrow> [[c]] | w # ws \<Rightarrow> (c # w) # ws))"

definition parseCsv :: "string \<Rightarrow> string list" where
  "parseCsv raw = filter (\<lambda>s. s \<noteq> []) (map js_trim (split_commas raw))"

subsection \<open>Chains\<close>

definition chain_error :: "nat \<Rightarrow> string \<Rightarrow> js_error" where
  "chain_error i msg = new_error PlainError (''RELAYER_CHAINS['' @ show_nat i @ '']'' @ msg)"

definition raw_chain_id :: "nat \<Rightarrow> json \<Rightarrow> nat res" where
  "raw_chain_id i entry =
     (if entry = JNull then Throw (new_error TypeError ''Cannot read properties of null'')
      else
        (case jfield ''chainId'' entry of
           Some (JNumber n) \<Rightarrow>
             (if \<not> js_isInteger n \<or> num_less n 0 \<or> num_greater n 0xffff
              then Throw (chain_error i ''.chainId must be a uint16'') else Ok (nat (num_int n)))
         | _ \<Rightarrow> Throw (chain_error i ''.chainId must be a uint16'')))"

definition raw_rpc_url :: "nat \<Rightarrow> json \<Rightarrow> string res" where
  "raw_rpc_url i entry =
     (case jfield ''rpcUrl'' entry of
        Some (JString s) \<Rightarrow> (if s = [] then Throw (chain_error i ''.rpcUrl is required'') else Ok s)
      | _ \<Rightarrow> Throw (chain_error i ''.rpcUrl is required''))"

definition raw_confirmations :: "nat \<Rightarrow> json \<Rightarrow> nat res" where
  "raw_confirmations i entry =
     (case jfield ''confirmations'' entry of
        None \<Rightarrow> Ok 1
      | Some JNull \<Rightarrow> Ok 1
      | Some (JNumber n) \<Rightarrow>
          (if \<not> js_isInteger n \<or> num_less n 0 then Throw (chain_error i ''.confirmations must be >= 0'')
           else Ok (nat (num_int n)))
      | Some _ \<Rightarrow> Throw (chain_error i ''.confirmations must be >= 0''))"

text \<open>\<open>BigInt(value)\<close> of a JSON value; \<open>None\<close> where it throws.\<close>

definition json_BigInt :: "json \<Rightarrow> int option" where
  "json_BigInt j =
     (case j of
        JNumber n \<Rightarrow> (if js_isInteger n then Some (num_int n) else None)
      | JBool b \<Rightarrow> Some (if b then 1 else 0)
      | JNull \<Rightarrow> None
      | _ \<Rightarrow> js_BigInt (json_String j))"

definition raw_genesis :: "nat \<Rightarrow> json \<Rightarrow> int res" where
  "raw_genesis i entry =
     bind_res (case jfield ''genesisBlock'' entry of
         None \<Rightarrow> Ok 0
       | Some JNull \<Rightarrow> Ok 0
       | Some j \<Rightarrow> (case json_BigInt j of None \<Rightarrow> Throw (chain_error i ''.genesisBlock must be an integer'') | Some v \<Rightarrow> Ok v)) (\<lambda>g.
     bind_res (guard_res (g < 0) (chain_error i ''.genesisBlock must be >= 0'')) (\<lambda>_. Ok g))"

definition raw_address :: "ethers \<Rightarrow> nat \<Rightarrow> json \<Rightarrow> string \<Rightarrow> string option res" where
  "raw_address eth i entry key =
     (case jfield key entry of
        None \<Rightarrow> Ok None
      | Some (JString s) \<Rightarrow>
          (case getAddress eth s of
             Inl _ \<Rightarrow> Throw (chain_error i (''.'' @ key @ '' is not a valid address''))
           | Inr _ \<Rightarrow> Ok (Some s))
      | Some _ \<Rightarrow> Throw (chain_error i (''.'' @ key @ '' is not a valid address'')))"

definition raw_name :: "nat \<Rightarrow> json \<Rightarrow> string" where
  "raw_name cid entry =
     (case jfield ''name'' entry of None \<Rightarrow> ''chain-'' @ show_nat cid | Some JNull \<Rightarrow> ''chain-'' @ show_nat cid | Some j \<Rightarrow> json_String j)"

definition raw_evm_chain_id :: "json \<Rightarrow> nat option" where
  "raw_evm_chain_id entry =
     (case jfield ''evmChainId'' entry of
        Some (JNumber n) \<Rightarrow> (if js_isInteger n \<and> \<not> num_less n 0 then Some (nat (num_int n)) else None)
      | _ \<Rightarrow> None)"

definition parse_relayer_chain :: "ethers \<Rightarrow> nat \<Rightarrow> json \<Rightarrow> chain_config res" where
  "parse_relayer_chain eth i entry =
     bind_res (raw_chain_id i entry) (\<lambda>cid.
     bind_res (raw_rpc_url i entry) (\<lambda>rpcUrl.
     bind_res (raw_confirmations i entry) (\<lambda>confirmations.
     bind_res (raw_genesis i entry) (\<lambda>genesis.
     bind_res (raw_address eth i entry ''specialRelayerAddress'') (\<lambda>special.
     bind_res (raw_address eth i entry ''coreBridgeAddress'') (\<lambda>core.
     bind_res (raw_address eth i entry ''expectedTransceiver'') (\<lambda>expected.
       Ok \<lparr>cc_chainId = cid, cc_name = raw_name cid entry, cc_rpcUrl = rpcUrl, cc_specialRelayerAddress = special,
           cc_coreBridgeAddress = core, cc_expectedTransceiver = expected, cc_confirmations = confirmations,
           cc_genesisBlock = genesis, cc_evmChainId = raw_evm_chain_id entry\<rparr>)))))))"

fun parse_relayer_chains :: "ethers \<Rightarrow> nat \<Rightarrow> json list \<Rightarrow> chain_config list res" where
  "parse_relayer_chains eth i [] = Ok []"
| "parse_relayer_chains eth i (e # es) =
     bind_res (parse_relayer_chain eth i e) (\<lambda>c. bind_res (parse_relayer_chains eth (Suc i) es) (\<lambda>cs. Ok (c # cs)))"

definition parseChains :: "ethers \<Rightarrow> (string \<Rightarrow> json option) \<Rightarrow> string \<Rightarrow> chain_config list res" where
  "parseChains eth json_parse raw =
     (case json_parse raw of
        None \<Rightarrow> Throw (new_error PlainError ''RELAYER_CHAINS must be valid JSON'')
      | Some (JArray es) \<Rightarrow>
          (if es = [] then Throw (new_error PlainError ''RELAYER_CHAINS must be a non-empty JSON array'')
           else parse_relayer_chains eth 0 es)
      | Some _ \<Rightarrow> Throw (new_error PlainError ''RELAYER_CHAINS must be a non-empty JSON array''))"

subsection \<open>The environment\<close>

definition loadRpcRetry :: "env \<Rightarrow> retry_options res" where
  "loadRpcRetry env =
     bind_res (parseIntInRange env ''RELAYER_RPC_MAX_ATTEMPTS'' ''3'' 1 20) (\<lambda>maxA.
     bind_res (parseIntInRange env ''RELAYER_RPC_INITIAL_DELAY_MS'' ''200'' 0 60000) (\<lambda>initD.
       (let maxD = js_Number (env_or env ''RELAYER_RPC_MAX_DELAY_MS'' ''2000'') in
        if \<not> js_isInteger maxD \<or> num_less maxD (of_nat initD)
        then Throw (new_error PlainError (''RELAYER_RPC_MAX_DELAY_MS must be an integer >= RELAYER_RPC_INITIAL_DELAY_MS, got '' @ show_num maxD))
        else Ok \<lparr>maxAttempts = maxA, initialDelayMs = initD, maxDelayMs = nat (num_int maxD)\<rparr>)))"

definition load_gas_ceiling :: "env \<Rightarrow> int res" where
  "load_gas_ceiling env =
     (case env ''RELAYER_MAX_GAS_PRICE_WEI'' of
        None \<Rightarrow> Ok 0
      | Some raw \<Rightarrow>
          (if raw = [] then Ok 0
           else (case js_BigInt raw of
                   None \<Rightarrow> Throw (new_error PlainError ''RELAYER_MAX_GAS_PRICE_WEI must be an integer (wei)'')
                 | Some v \<Rightarrow> (if v < 0 then Throw (new_error PlainError ''RELAYER_MAX_GAS_PRICE_WEI must be >= 0'') else Ok v))))"

definition loadDelivery :: "env \<Rightarrow> bool \<Rightarrow> delivery_config res" where
  "loadDelivery env requireGasCeiling =
     bind_res (load_gas_ceiling env) (\<lambda>ceiling.
     bind_res (guard_res (requireGasCeiling \<and> ceiling \<le> 0) (new_error PlainError
       (''RELAYER_MAX_GAS_PRICE_WEI must be set (> 0) for the worker role: without a fee ''
        @ ''ceiling a gas spike can drain the relayer wallets (set RELAYER_USE_DEV_SECRETS=true to opt out in dev)''))) (\<lambda>_.
     bind_res (parseIntInRange env ''RELAYER_GAS_LIMIT_BUFFER_BPS'' ''1000'' 0 100000) (\<lambda>buffer.
     bind_res (parseIntInRange env ''RELAYER_RETRY_ADDITIONAL_GAS_LIMIT'' ''10'' 0 1000) (\<lambda>pct.
     bind_res (parseIntInRange env ''RELAYER_GAS_PRICE_BUMP_BPS'' ''1500'' 0 100000) (\<lambda>bump.
       Ok \<lparr>gasLimitBufferBps = buffer, retryAdditionalGasPct = pct, gasPriceBumpBps = bump, maxGasPriceWei = ceiling\<rparr>)))))"

fun needs_chains :: "relayer_role \<Rightarrow> bool" where
  "needs_chains Migrate_role = False"
| "needs_chains _ = True"

fun needs_wallets :: "relayer_role \<Rightarrow> bool" where
  "needs_wallets Worker_role = True"
| "needs_wallets _ = False"

definition parseRole :: "string option \<Rightarrow> relayer_role res" where
  "parseRole raw =
     (case raw of
        None \<Rightarrow> Throw (new_error PlainError ''role is required (set --role or RELAYER_ROLE to one of listener, worker, cron, migrate)'')
      | Some s \<Rightarrow>
          (if s = [] then Throw (new_error PlainError ''role is required (set --role or RELAYER_ROLE to one of listener, worker, cron, migrate)'')
           else if s = ''listener'' then Ok Listener_role
           else if s = ''worker'' then Ok Worker_role
           else if s = ''cron'' then Ok Cron_role
           else if s = ''migrate'' then Ok Migrate_role
           else Throw (new_error PlainError (''invalid role '' @ [CHR 0x22] @ s @ [CHR 0x22] @ ''; must be one of listener, worker, cron, migrate''))))"

definition load_wallets :: "env \<Rightarrow> relayer_role \<Rightarrow> (string list \<times> bool) res" where
  "load_wallets env role =
     (let useDevSecrets = (toLowerCase (env_or env ''RELAYER_USE_DEV_SECRETS'' ''false'') = ''true'') in
      bind_res (if needs_wallets role then bind_res (required env ''WALLETS'') (\<lambda>w. Ok (parseCsv w))
                else Ok (parseCsv (env_or env ''WALLETS'' []))) (\<lambda>names.
      bind_res (guard_res (needs_wallets role \<and> names = []) (new_error PlainError ''WALLETS must list at least one secret name'')) (\<lambda>_.
      bind_res (guard_res (needs_wallets role \<and> \<not> useDevSecrets \<and> env_or env ''AZURE_KEY_VAULT_URL'' [] = [])
        (new_error PlainError ''AZURE_KEY_VAULT_URL is required for the worker role unless RELAYER_USE_DEV_SECRETS=true'')) (\<lambda>_.
        Ok (names, useDevSecrets)))))"

definition load_timings :: "env \<Rightarrow> (nat \<times> nat \<times> nat \<times> nat \<times> nat \<times> nat \<times> nat \<times> nat \<times> nat) res" where
  "load_timings env =
     bind_res (parseIntInRange env ''SCAN_BLOCK_RANGE'' ''200'' 1 1000000) (\<lambda>range.
     bind_res (parseIntInRange env ''RELAYER_SCAN_LOOP_DELAY_MS'' ''2000'' 0 600000) (\<lambda>scanDelay.
     bind_res (parseIntInRange env ''QUEUE_VISIBILITY_TIMEOUT_MS'' ''60000'' 1000 3600000) (\<lambda>visibility.
     bind_res (parseIntInRange env ''MAX_RETRIES'' ''2'' 0 100) (\<lambda>retries.
     bind_res (parseIntInRange env ''SUBMITTED_TIMEOUT_MIN'' ''5'' 1 1440) (\<lambda>submitted.
     bind_res (parseIntInRange env ''CRON_INTERVAL_MIN'' ''2'' 1 1440) (\<lambda>cron.
     bind_res (parseIntInRange env ''RELAYER_VAA_TIMEOUT_MS'' ''1800000'' 1000 86400000) (\<lambda>vaaTimeout.
     bind_res (parseIntInRange env ''RELAYER_VAA_POLL_INTERVAL_MS'' ''5000'' 100 600000) (\<lambda>vaaPoll.
     bind_res (parseIntInRange env ''DEAD_LETTER_ALERT_THRESHOLD'' ''1'' 1 1000000) (\<lambda>dead.
       Ok (range, scanDelay, visibility, retries, submitted, cron, vaaTimeout, vaaPoll, dead))))))))))"

definition relayer_loadConfig ::
  "ethers \<Rightarrow> (string \<Rightarrow> json option) \<Rightarrow> (string \<Rightarrow> int res) \<Rightarrow> env \<Rightarrow> relayer_role \<Rightarrow> bot_config res" where
  "relayer_loadConfig eth json_parse parseEther env role =
     bind_res (if needs_chains role then bind_res (required env ''RELAYER_CHAINS'') (parseChains eth json_parse) else Ok []) (\<lambda>cs.
     bind_res (load_wallets env role) (\<lambda>(names, useDevSecrets).
     bind_res (parseEther (env_or env ''WALLET_MIN_BALANCE'' ''0.05'')) (\<lambda>minBalance.
     bind_res (guard_res (minBalance \<le> 0) (new_error PlainError ''WALLET_MIN_BALANCE must be > 0'')) (\<lambda>_.
     bind_res (load_timings env) (\<lambda>(range, scanDelay, visibility, retries, submitted, cron, vaaTimeout, vaaPoll, dead).
     bind_res (required env ''DATABASE_URL'') (\<lambda>db.
     bind_res (if needs_chains role then required env ''REDIS_URL'' else Ok (env_or env ''REDIS_URL'' [])) (\<lambda>redis.
     bind_res (parseIntInRange env ''RELAYER_HEALTH_PORT'' ''8080'' 0 0xffff) (\<lambda>port.
     bind_res (loadRpcRetry env) (\<lambda>retry.
     bind_res (loadDelivery env (needs_wallets role \<and> \<not> useDevSecrets)) (\<lambda>delivery.
       Ok \<lparr>rc_chains = cs, scanBlockRange = range, scanLoopDelayMs = scanDelay, cronIntervalMin = cron, maxRetries_cfg = retries,
           submittedTimeoutMin = submitted, vaaTimeoutMs = int vaaTimeout, vaaPollIntervalMs = vaaPoll,
           deadLetterAlertThreshold = dead, rc_delivery = delivery, bc_role = role, bc_walletSecretNames = names,
           bc_useDevSecrets = useDevSecrets, bc_queueVisibilityTimeoutMs = visibility, bc_walletMinBalanceWei = minBalance,
           bc_databaseUrl = db, bc_redisUrl = redis, bc_keyVaultUrl = env ''AZURE_KEY_VAULT_URL'',
           bc_wormholescanUrl = env_or env ''WORMHOLESCAN_URL'' ''https://api.wormholescan.io'',
           bc_slackWebhookUrl = env ''SLACK_WEBHOOK_URL'', bc_healthHost = env_or env ''RELAYER_HEALTH_HOST'' ''127.0.0.1'',
           bc_healthPort = port, bc_rpcRetry = retry\<rparr>))))))))))"

subsection \<open>Well-typed configurations\<close>

definition relayer_chain_typed :: "chain_config \<Rightarrow> bool" where
  "relayer_chain_typed c \<longleftrightarrow> cc_chainId c < 2 ^ 16 \<and> cc_rpcUrl c \<noteq> [] \<and> 0 \<le> cc_genesisBlock c"

definition delivery_typed :: "delivery_config \<Rightarrow> bool" where
  "delivery_typed d \<longleftrightarrow>
     gasLimitBufferBps d \<le> 100000 \<and> retryAdditionalGasPct d \<le> 1000 \<and> gasPriceBumpBps d \<le> 100000 \<and> 0 \<le> maxGasPriceWei d"

definition retry_typed :: "retry_options \<Rightarrow> bool" where
  "retry_typed r \<longleftrightarrow> 1 \<le> maxAttempts r \<and> maxAttempts r \<le> 20 \<and> initialDelayMs r \<le> 60000 \<and> initialDelayMs r \<le> maxDelayMs r"

definition timings_typed :: "bot_config \<Rightarrow> bool" where
  "timings_typed cfg \<longleftrightarrow>
     scanBlockRange cfg \<in> {1..1000000} \<and> scanLoopDelayMs cfg \<le> 600000 \<and>
     bc_queueVisibilityTimeoutMs cfg \<in> {1000..3600000} \<and> maxRetries_cfg cfg \<le> 100 \<and>
     submittedTimeoutMin cfg \<in> {1..1440} \<and> cronIntervalMin cfg \<in> {1..1440} \<and>
     vaaTimeoutMs cfg \<in> {1000..86400000} \<and> vaaPollIntervalMs cfg \<in> {100..600000} \<and>
     deadLetterAlertThreshold cfg \<in> {1..1000000}"

definition role_typed :: "bot_config \<Rightarrow> bool" where
  "role_typed cfg \<longleftrightarrow>
     (if needs_chains (bc_role cfg) then rc_chains cfg \<noteq> [] \<and> bc_redisUrl cfg \<noteq> [] else rc_chains cfg = []) \<and>
     (needs_wallets (bc_role cfg) \<longrightarrow>
        bc_walletSecretNames cfg \<noteq> [] \<and>
        (bc_useDevSecrets cfg \<or> (bc_keyVaultUrl cfg \<notin> {None, Some []} \<and> 0 < maxGasPriceWei (rc_delivery cfg))))"

definition bot_config_typed :: "bot_config \<Rightarrow> bool" where
  "bot_config_typed cfg \<longleftrightarrow>
     list_all relayer_chain_typed (rc_chains cfg) \<and> role_typed cfg \<and> timings_typed cfg \<and>
     list_all (\<lambda>nm. nm \<noteq> []) (bc_walletSecretNames cfg) \<and>
     retry_typed (bc_rpcRetry cfg) \<and> delivery_typed (rc_delivery cfg) \<and>
     0 < bc_walletMinBalanceWei cfg \<and> bc_databaseUrl cfg \<noteq> [] \<and> bc_healthPort cfg < 2 ^ 16"

lemma parseIntInRange_Ok:
  assumes "parseIntInRange env nm fallback mn mx = Ok v" and "0 \<le> mn"
  shows "mn \<le> int v \<and> int v \<le> mx"
proof -
  obtain n where n: "js_isInteger n" "\<not> num_less n (of_int mn)" "\<not> num_greater n (of_int mx)" "v = nat (num_int n)"
    using assms(1) unfolding parseIntInRange_def Let_def by (auto split: if_splits)
  obtain i where i: "n = Num (of_int i)" using js_isInteger_num [OF n(1)] by blast
  have "mn \<le> i" "i \<le> mx" "num_int n = i" using n(2,3) unfolding i by (simp_all add: num_less_def num_greater_def)
  then show ?thesis using n(4) assms(2) by simp
qed

lemma loadRpcRetry_Ok:
  assumes "loadRpcRetry env = Ok r"
  shows "retry_typed r"
proof -
  obtain a d where a: "parseIntInRange env ''RELAYER_RPC_MAX_ATTEMPTS'' ''3'' 1 20 = Ok a"
      "parseIntInRange env ''RELAYER_RPC_INITIAL_DELAY_MS'' ''200'' 0 60000 = Ok d"
    and r: "(let maxD = js_Number (env_or env ''RELAYER_RPC_MAX_DELAY_MS'' ''2000'') in
        if \<not> js_isInteger maxD \<or> num_less maxD (of_nat d)
        then Throw (new_error PlainError (''RELAYER_RPC_MAX_DELAY_MS must be an integer >= RELAYER_RPC_INITIAL_DELAY_MS, got '' @ show_num maxD))
        else Ok \<lparr>maxAttempts = a, initialDelayMs = d, maxDelayMs = nat (num_int maxD)\<rparr>) = Ok r"
    using assms unfolding loadRpcRetry_def bind_res_Ok_iff by blast
  obtain n where n: "js_isInteger n" "\<not> num_less n (of_nat d)" and
      rd: "r = \<lparr>maxAttempts = a, initialDelayMs = d, maxDelayMs = nat (num_int n)\<rparr>"
    using r unfolding Let_def if_throw_Ok by blast
  obtain i where i: "n = Num (of_int i)" using js_isInteger_num [OF n(1)] by blast
  have "int d \<le> i" using n(2) unfolding i num_less_def by (simp add: not_less of_int_le_iff [symmetric, where 'a = rat])
  then show ?thesis
    using parseIntInRange_Ok [OF a(1)] parseIntInRange_Ok [OF a(2)] unfolding rd i retry_typed_def by simp
qed

lemma load_gas_ceiling_Ok: "load_gas_ceiling env = Ok v \<Longrightarrow> 0 \<le> v"
  unfolding load_gas_ceiling_def by (auto split: option.splits if_splits)

lemma loadDelivery_Ok:
  assumes "loadDelivery env g = Ok d"
  shows "delivery_typed d \<and> (g \<longrightarrow> 0 < maxGasPriceWei d)"
proof -
  obtain c b p m where l: "load_gas_ceiling env = Ok c" "\<not> (g \<and> c \<le> 0)"
      "parseIntInRange env ''RELAYER_GAS_LIMIT_BUFFER_BPS'' ''1000'' 0 100000 = Ok b"
      "parseIntInRange env ''RELAYER_RETRY_ADDITIONAL_GAS_LIMIT'' ''10'' 0 1000 = Ok p"
      "parseIntInRange env ''RELAYER_GAS_PRICE_BUMP_BPS'' ''1500'' 0 100000 = Ok m"
    and d: "d = \<lparr>gasLimitBufferBps = b, retryAdditionalGasPct = p, gasPriceBumpBps = m, maxGasPriceWei = c\<rparr>"
    using assms unfolding loadDelivery_def bind_res_Ok_iff guard_res_Ok by blast
  show ?thesis
    using l(2) load_gas_ceiling_Ok [OF l(1)] parseIntInRange_Ok [OF l(3)] parseIntInRange_Ok [OF l(4)] parseIntInRange_Ok [OF l(5)]
    unfolding d delivery_typed_def by auto
qed

lemma parse_relayer_chain_Ok:
  assumes "parse_relayer_chain eth i entry = Ok c"
  shows "relayer_chain_typed c"
proof -
  obtain cid url g where l: "raw_chain_id i entry = Ok cid" "raw_rpc_url i entry = Ok url" "raw_genesis i entry = Ok g"
    and c: "cc_chainId c = cid" "cc_rpcUrl c = url" "cc_genesisBlock c = g"
    using assms unfolding parse_relayer_chain_def bind_res_Ok_iff by (elim exE conjE) (rule that, auto)
  obtain n where n: "js_isInteger n" "\<not> num_less n 0" "\<not> num_greater n 0xffff" "cid = nat (num_int n)"
    using l(1) unfolding raw_chain_id_def by (auto split: option.splits json.splits if_splits)
  obtain k where k: "n = Num (of_int k)" using js_isInteger_num [OF n(1)] by blast
  have "cid < 2 ^ 16" using n(3,4) unfolding k by (simp add: num_greater_def nat_less_iff)
  moreover have "url \<noteq> []" using l(2) unfolding raw_rpc_url_def by (auto split: option.splits json.splits if_splits)
  moreover have "0 \<le> g" using l(3) unfolding raw_genesis_def bind_res_Ok_iff guard_res_Ok by auto
  ultimately show ?thesis unfolding relayer_chain_typed_def c by blast
qed

lemma parse_relayer_chains_Ok:
  "parse_relayer_chains eth i es = Ok cs \<Longrightarrow> length cs = length es \<and> list_all relayer_chain_typed cs"
  by (induction eth i es arbitrary: cs rule: parse_relayer_chains.induct) (auto simp: bind_res_Ok_iff parse_relayer_chain_Ok)

lemma parseChains_Ok:
  assumes "parseChains eth json_parse raw = Ok cs"
  shows "cs \<noteq> [] \<and> list_all relayer_chain_typed cs"
proof -
  obtain es where "es \<noteq> []" "parse_relayer_chains eth 0 es = Ok cs"
    using assms by (auto simp: parseChains_def split: option.splits json.splits if_splits)
  then show ?thesis using parse_relayer_chains_Ok by fastforce
qed

lemma parseCsv_nonempty: "list_all (\<lambda>nm. nm \<noteq> []) (parseCsv raw)"
  by (auto simp: parseCsv_def list_all_iff)

lemma load_wallets_Ok:
  assumes "load_wallets env role = Ok (names, dev)"
  shows "list_all (\<lambda>nm. nm \<noteq> []) names" and
    "needs_wallets role \<Longrightarrow> names \<noteq> [] \<and> (dev \<or> env ''AZURE_KEY_VAULT_URL'' \<notin> {None, Some []})"
  using assms parseCsv_nonempty unfolding load_wallets_def Let_def bind_res_Ok_iff guard_res_Ok env_or_def
  by (auto simp: bind_res_Ok_iff split: if_splits option.splits)

lemma load_timings_Ok:
  assumes "load_timings env = Ok (rng, scanDelay, visibility, retries, submitted, cron, vaaTimeout, vaaPoll, dead)"
  shows "rng \<in> {1..1000000} \<and> scanDelay \<le> 600000 \<and> visibility \<in> {1000..3600000} \<and> retries \<le> 100 \<and>
    submitted \<in> {1..1440} \<and> cron \<in> {1..1440} \<and> vaaTimeout \<in> {1000..86400000} \<and> vaaPoll \<in> {100..600000} \<and>
    dead \<in> {1..1000000}"
proof -
  have r: "\<And>nm d a b v. parseIntInRange env nm d a b = Ok v \<Longrightarrow> 0 \<le> a \<Longrightarrow> nat a \<le> v \<and> v \<le> nat b"
    using parseIntInRange_Ok by fastforce
  show ?thesis
    using assms unfolding load_timings_def bind_res_Ok_iff sum.inject prod.inject atLeastAtMost_iff
    by (elim exE conjE) (auto dest: r)
qed

lemma loaded_config_typed:
  assumes "relayer_loadConfig eth json_parse parseEther env role = Ok cfg"
  shows "bot_config_typed cfg \<and> bc_role cfg = role"
proof -
  obtain cs names dev bal rng scanDelay vis retries sub cron vt vp dead db redis port retry d where
    l: "(if needs_chains role then bind_res (required env ''RELAYER_CHAINS'') (parseChains eth json_parse) else Ok []) = Ok cs"
      "load_wallets env role = Ok (names, dev)" "\<not> bal \<le> 0"
      "load_timings env = Ok (rng, scanDelay, vis, retries, sub, cron, vt, vp, dead)" "required env ''DATABASE_URL'' = Ok db"
      "(if needs_chains role then required env ''REDIS_URL'' else Ok (env_or env ''REDIS_URL'' [])) = Ok redis"
      "parseIntInRange env ''RELAYER_HEALTH_PORT'' ''8080'' 0 0xffff = Ok port" "loadRpcRetry env = Ok retry"
      "loadDelivery env (needs_wallets role \<and> \<not> dev) = Ok d"
    and c: "cfg = \<lparr>rc_chains = cs, scanBlockRange = rng, scanLoopDelayMs = scanDelay, cronIntervalMin = cron, maxRetries_cfg = retries,
           submittedTimeoutMin = sub, vaaTimeoutMs = int vt, vaaPollIntervalMs = vp,
           deadLetterAlertThreshold = dead, rc_delivery = d, bc_role = role, bc_walletSecretNames = names,
           bc_useDevSecrets = dev, bc_queueVisibilityTimeoutMs = vis, bc_walletMinBalanceWei = bal,
           bc_databaseUrl = db, bc_redisUrl = redis, bc_keyVaultUrl = env ''AZURE_KEY_VAULT_URL'',
           bc_wormholescanUrl = env_or env ''WORMHOLESCAN_URL'' ''https://api.wormholescan.io'',
           bc_slackWebhookUrl = env ''SLACK_WEBHOOK_URL'', bc_healthHost = env_or env ''RELAYER_HEALTH_HOST'' ''127.0.0.1'',
           bc_healthPort = port, bc_rpcRetry = retry\<rparr>"
    using assms unfolding relayer_loadConfig_def bind_res_Ok_iff guard_res_Ok split_paired_Ex case_prod_conv
    by (elim exE conjE) (rule that, assumption+, drule Inr_inject, erule sym)
  have "timings_typed cfg" using load_timings_Ok [OF l(4)] unfolding timings_typed_def c by simp
  moreover have "list_all relayer_chain_typed cs \<and> (if needs_chains role then cs \<noteq> [] \<and> redis \<noteq> [] else cs = [])"
    using l(1,6) parseChains_Ok by (cases "needs_chains role") (auto simp: bind_res_Ok_iff required_Ok)
  moreover have "role_typed cfg"
    using calculation load_wallets_Ok(2) [OF l(2)] loadDelivery_Ok [OF l(9)] unfolding role_typed_def c by simp blast
  ultimately show ?thesis
    using load_wallets_Ok(1) [OF l(2)] l(3,5) loadRpcRetry_Ok [OF l(8)] loadDelivery_Ok [OF l(9)] parseIntInRange_Ok [OF l(7)]
    unfolding bot_config_typed_def c by (auto simp: required_Ok)
qed

subsection \<open>Properties\<close>

text \<open>C28: A relayer-bot configuration that loads, for any role, is well typed: chain ids are \<open>uint16\<close>s
  with an RPC url and a non-negative genesis block, every interval and count lies in its documented
  range, the RPC retry policy tries one to twenty times with ordered delays, and the balance
  threshold is positive. A role that works on chains has some and a queue; a worker has a wallet
  and, unless it runs on development secrets, a key vault and a positive gas price ceiling.\<close>

theorem relayer_loadConfig_typed:
  assumes "relayer_loadConfig eth json_parse parseEther env role = Ok cfg"
  shows "bot_config_typed cfg \<and> bc_role cfg = role"
  using loaded_config_typed [OF assms] .

text \<open>A worker's environment that loads, with \<open>JSON.parse\<close> and \<open>parseEther\<close> instantiated.\<close>

definition demo_bot_env :: env where
  "demo_bot_env = map_of
     [(''RELAYER_CHAINS'', ''[..]''), (''WALLETS'', '',w,,''), (''AZURE_KEY_VAULT_URL'', ''v''),
      (''RELAYER_MAX_GAS_PRICE_WEI'', ''9''), (''DATABASE_URL'', ''d''), (''REDIS_URL'', ''r'')]"

definition demo_bot_json :: "string \<Rightarrow> json option" where
  "demo_bot_json raw = Some (JArray [JObject [(''chainId'', JNumber (Num 2)), (''rpcUrl'', JString ''u'')]])"

definition demo_parseEther :: "string \<Rightarrow> int res" where
  "demo_parseEther s = Ok 50000000000000000"

lemma default_number:
  assumes "env nm = None" "fallback \<noteq> []" "list_all is_digit fallback" "dec_val fallback = k" "k < 2 ^ 1024"
  shows "js_Number (env_or env nm fallback) = Num (of_int (int k))"
  using assms js_Number_digits [of fallback] by (simp add: env_or_def list_all_iff)

lemma parseIntInRange_default:
  assumes "env nm = None" "fallback \<noteq> []" "list_all is_digit fallback" "dec_val fallback = k" "k < 2 ^ 1024"
    and "mn \<le> int k" "int k \<le> mx"
  shows "parseIntInRange env nm fallback mn mx = Ok k"
  unfolding parseIntInRange_def Let_def default_number [where env = env and nm = nm and fallback = fallback and k = k, OF assms(1-5)]
    js_isInteger_of_int
  using assms(6,7) js_isInteger_of_int [of "int k"] by (auto simp: num_less_def num_greater_def of_int_less_iff [symmetric, where 'a = rat])

lemma demo_bot_timings: "\<exists>t. load_timings demo_bot_env = Ok t"
  unfolding load_timings_def
  by (simp add: parseIntInRange_default demo_bot_env_def is_digit_def dec_val_def digit_val_def)

lemma demo_bot_retry: "\<exists>t. loadRpcRetry demo_bot_env = Ok t"
  unfolding loadRpcRetry_def
  using js_isInteger_of_int(1) [of 2000]
  by (simp add: parseIntInRange_default default_number [where k = 2000] Let_def num_less_def
      demo_bot_env_def is_digit_def dec_val_def digit_val_def)

lemma demo_bot_delivery: "\<exists>t. loadDelivery demo_bot_env b = Ok t"
proof -
  have "load_gas_ceiling demo_bot_env = Ok 9"
    using js_BigInt_digits [of "''9''"]
    by (simp add: load_gas_ceiling_def demo_bot_env_def is_digit_def dec_val_def digit_val_def)
  then show ?thesis unfolding loadDelivery_def
    by (simp add: parseIntInRange_default demo_bot_env_def is_digit_def dec_val_def digit_val_def)
qed

definition demo_bot_chain :: chain_config where
  "demo_bot_chain = \<lparr>cc_chainId = 2, cc_name = ''chain-'' @ show_nat 2, cc_rpcUrl = ''u'', cc_specialRelayerAddress = None,
     cc_coreBridgeAddress = None, cc_expectedTransceiver = None, cc_confirmations = 1, cc_genesisBlock = 0, cc_evmChainId = None\<rparr>"

lemma demo_bot_chains: "parseChains demo_eth demo_bot_json raw = Ok [demo_bot_chain]"
  using js_isInteger_of_int [of 2]
  by (simp add: parseChains_def demo_bot_json_def parse_relayer_chain_def raw_chain_id_def raw_rpc_url_def jfield_def
      raw_confirmations_def raw_genesis_def raw_address_def raw_name_def raw_evm_chain_id_def num_less_def num_greater_def
      demo_bot_chain_def)

lemma demo_bot_wallets: "load_wallets demo_bot_env Worker_role = Ok ([''w''], False)"
  by (simp add: load_wallets_def Let_def required_def demo_bot_env_def env_or_def parseCsv_def js_trim_def is_space_def toLowerCase_def lower_char_def)

lemma demo_bot_loads:
  "\<exists>cfg. relayer_loadConfig demo_eth demo_bot_json demo_parseEther demo_bot_env Worker_role = Ok cfg \<and> rc_chains cfg = [demo_bot_chain]"
proof -
  have r: "required demo_bot_env ''RELAYER_CHAINS'' = Ok ''[..]''" "required demo_bot_env ''DATABASE_URL'' = Ok ''d''"
    "required demo_bot_env ''REDIS_URL'' = Ok ''r''"
    by (simp_all add: required_def demo_bot_env_def)
  have p: "parseIntInRange demo_bot_env ''RELAYER_HEALTH_PORT'' ''8080'' 0 0xffff = Ok 8080"
    by (simp add: parseIntInRange_default demo_bot_env_def is_digit_def dec_val_def digit_val_def)
  show ?thesis
    using demo_bot_timings demo_bot_retry demo_bot_delivery [of True]
    unfolding relayer_loadConfig_def demo_parseEther_def demo_bot_wallets needs_chains.simps needs_wallets.simps if_True
    by (elim exE) (simp add: r p case_prod_beta Let_def demo_bot_chains)
qed

theorem relayer_loadConfig_typed_witness:
  "\<exists>cfg. relayer_loadConfig demo_eth demo_bot_json demo_parseEther demo_bot_env Worker_role = Ok cfg \<and> bot_config_typed cfg"
  using demo_bot_loads relayer_loadConfig_typed by blast

end
