(* ===== verification/Js_Objects.thy ===== *)
theory Js_Objects
  imports Js_Values
begin

section \<open>JavaScript objects\<close>

text \<open>
  A JavaScript object is an association list in insertion order with distinct keys (keys that are
  integer literals, which JavaScript would list first, do not occur in the sources). \<open>obj_set\<close> is
  assignment to a property, \<open>obj_del\<close> is \<open>delete\<close>, \<open>obj_spread\<close> is \<open>{...a, ...b}\<close>. \<open>json_get\<close> is property
  access on a parsed value, \<open>json_opt_get\<close> is \<open>?.\<close>, \<open>strict_eq\<close> is \<open>===\<close> on two values parsed separately
  (arrays and objects are then different references). \<open>json_ok\<close> holds of what \<open>JSON.parse\<close> returns: the
  keys of every object are distinct.
\<close>

type_synonym 'v js_object = "(string \<times> 'v) list"

fun obj_set :: "string \<Rightarrow> 'v \<Rightarrow> 'v js_object \<Rightarrow> 'v js_object" where
  "obj_set k v [] = [(k, v)]"
| "obj_set k v ((k', v') # kvs) = (if k = k' then (k, v) # kvs else (k', v') # obj_set k v kvs)"

fun obj_spread :: "'v js_object \<Rightarrow> 'v js_object \<Rightarrow> 'v js_object" where
  "obj_spread base [] = base"
| "obj_spread base ((k, v) # kvs) = obj_spread (obj_set k v base) kvs"

definition obj_del :: "string \<Rightarrow> 'v js_object \<Rightarrow> 'v js_object" where
  "obj_del k kvs = filter (\<lambda>(k', _). k' \<noteq> k) kvs"

text \<open>An object built from another by a loop over its properties that sets some of them.\<close>

definition obj_collect :: "(string \<Rightarrow> 'v \<Rightarrow> 'w option) \<Rightarrow> 'v js_object \<Rightarrow> 'w js_object" where
  "obj_collect h kvs = concat (map (\<lambda>(k, v). case h k v of None \<Rightarrow> [] | Some w \<Rightarrow> [(k, w)]) kvs)"

lemma obj_collect_cong [fundef_cong]:
  "kvs = kvs' \<Longrightarrow> (\<And>k v. (k, v) \<in> set kvs' \<Longrightarrow> h k v = h' k v) \<Longrightarrow> obj_collect h kvs = obj_collect h' kvs'"
  unfolding obj_collect_def by (intro arg_cong [where f = concat] map_cong) auto

subsection \<open>Properties of parsed values\<close>

definition json_truthy :: "json option \<Rightarrow> bool" where
  "json_truthy v =
     (case v of
        None \<Rightarrow> False
      | Some JNull \<Rightarrow> False
      | Some (JBool b) \<Rightarrow> b
      | Some (JNumber n) \<Rightarrow> n \<noteq> Num 0 \<and> n \<noteq> NaN
      | Some (JString s) \<Rightarrow> s \<noteq> []
      | Some (JBigInt i) \<Rightarrow> i \<noteq> 0
      | Some _ \<Rightarrow> True)"

text \<open>Property access, which throws on undefined and null, and its optional form.\<close>

definition json_get :: "string \<Rightarrow> json option \<Rightarrow> json option res" where
  "json_get nm v =
     (case v of
        None \<Rightarrow> Throw (new_error TypeError ''Cannot read properties of undefined'')
      | Some JNull \<Rightarrow> Throw (new_error TypeError ''Cannot read properties of null'')
      | Some j \<Rightarrow> Ok (jfield nm j))"

definition json_opt_get :: "string \<Rightarrow> json option \<Rightarrow> json option" where
  "json_opt_get nm v = (case v of None \<Rightarrow> None | Some j \<Rightarrow> jfield nm j)"

fun strict_eq :: "json \<Rightarrow> json \<Rightarrow> bool" where
  "strict_eq JNull JNull = True"
| "strict_eq (JBool a) (JBool b) = (a = b)"
| "strict_eq (JNumber a) (JNumber b) = (a = b \<and> a \<noteq> NaN)"
| "strict_eq (JString a) (JString b) = (a = b)"
| "strict_eq (JBigInt a) (JBigInt b) = (a = b)"
| "strict_eq _ _ = False"

fun json_ok :: "json \<Rightarrow> bool" where
  "json_ok (JArray xs) = list_all json_ok xs"
| "json_ok (JObject kvs) = (distinct (map fst kvs) \<and> list_all (\<lambda>(_, v). json_ok v) kvs)"
| "json_ok _ = True"

lemma strict_eq_imp_eq: "strict_eq a b \<Longrightarrow> a = b"
  by (cases a; cases b) simp_all

subsection \<open>Reading what was written\<close>

lemma map_of_obj_set: "map_of (obj_set k v kvs) = (map_of kvs)(k \<mapsto> v)"
  by (induction kvs) auto

lemma keys_obj_set: "set (map fst (obj_set k v kvs)) = insert k (set (map fst kvs))"
  by (induction k v kvs rule: obj_set.induct) (simp_all add: insert_commute)

lemma set_obj_set: "set (obj_set k v kvs) \<subseteq> insert (k, v) (set kvs)"
  by (induction kvs) (auto split: if_splits)

lemma distinct_obj_set: "distinct (map fst kvs) \<Longrightarrow> distinct (map fst (obj_set k v kvs))"
  by (induction kvs) (auto simp: keys_obj_set simp del: set_map)

lemma map_of_obj_spread: "distinct (map fst kvs) \<Longrightarrow> map_of (obj_spread base kvs) = map_of base ++ map_of kvs"
proof (induction base kvs rule: obj_spread.induct)
  case (2 base k v kvs)
  then have "map_of kvs k = None" by (simp add: map_of_eq_None_iff)
  then show ?case using 2 by (auto simp: map_of_obj_set map_add_def split: option.splits)
qed simp

lemma distinct_obj_spread: "distinct (map fst base) \<Longrightarrow> distinct (map fst (obj_spread base kvs))"
  by (induction base kvs rule: obj_spread.induct) (simp_all add: distinct_obj_set)

lemma map_of_obj_del: "map_of (obj_del k kvs) = (map_of kvs)(k := None)"
  by (rule ext, induction kvs) (auto simp: obj_del_def)

lemma distinct_obj_del: "distinct (map fst kvs) \<Longrightarrow> distinct (map fst (obj_del k kvs))"
  unfolding obj_del_def by (induction kvs) auto

lemma obj_collect_simps [simp]:
  "obj_collect h [] = []"
  "obj_collect h ((k, v) # kvs) = (case h k v of None \<Rightarrow> [] | Some w \<Rightarrow> [(k, w)]) @ obj_collect h kvs"
  by (simp_all add: obj_collect_def)

lemma set_obj_collect: "(k, w) \<in> set (obj_collect h kvs) \<longleftrightarrow> (\<exists>v. (k, v) \<in> set kvs \<and> h k v = Some w)"
  unfolding obj_collect_def by (force split: option.splits)

lemma keys_obj_collect: "set (map fst (obj_collect h kvs)) \<subseteq> set (map fst kvs)"
  by (force simp: set_obj_collect)

lemma distinct_obj_collect: "distinct (map fst kvs) \<Longrightarrow> distinct (map fst (obj_collect h kvs))"
proof (induction kvs)
  case (Cons kv kvs)
  then show ?case using keys_obj_collect [of h kvs] by (cases kv) (auto split: option.splits)
qed simp

lemma map_of_obj_collect:
  "distinct (map fst kvs) \<Longrightarrow> map_of (obj_collect h kvs) k = Option.bind (map_of kvs k) (h k)"
proof (induction kvs)
  case (Cons kv kvs)
  obtain k' v' where kv: "kv = (k', v')" by fastforce
  have "map_of (obj_collect h kvs) k' = None"
    using Cons.prems keys_obj_collect [of h kvs] by (auto simp: kv map_of_eq_None_iff)
  then show ?case using Cons by (auto simp: kv split: option.splits)
qed simp

lemma map_of_filter_vals:
  "distinct (map fst kvs) \<Longrightarrow>
   map_of (filter (\<lambda>(_, v). P v) kvs) k = (case map_of kvs k of Some v \<Rightarrow> (if P v then Some v else None) | None \<Rightarrow> None)"
proof (induction kvs)
  case (Cons kv kvs)
  obtain k' v' where kv: "kv = (k', v')" by fastforce
  have "map_of kvs k' = None" using Cons.prems by (auto simp: kv map_of_eq_None_iff)
  then show ?case using Cons by (auto simp: kv split: option.splits)
qed simp

lemma map_of_rev: "distinct (map fst kvs) \<Longrightarrow> map_of (rev kvs) = map_of kvs"
  by (rule map_of_eqI) (auto simp: rev_map [symmetric])

lemma json_ok_object:
  "json_ok (JObject kvs) \<longleftrightarrow> distinct (map fst kvs) \<and> (\<forall>k v. map_of kvs k = Some v \<longrightarrow> json_ok v)"
  by (auto simp: list_all_iff dest: map_of_SomeD)

lemma json_ok_member: "json_ok (JObject kvs) \<Longrightarrow> map_of kvs k = Some v \<Longrightarrow> json_ok v"
  unfolding json_ok_object by blast

lemma jfield_object: "json_ok (JObject kvs) \<Longrightarrow> jfield k (JObject kvs) = map_of kvs k"
  by (simp add: jfield_def map_of_rev)

lemma json_ok_jfield: "json_ok j \<Longrightarrow> jfield k j = Some v \<Longrightarrow> json_ok v"
  by (cases j) (auto simp: jfield_def list_all_iff dest!: map_of_SomeD)

lemma json_ok_obj_set: "json_ok (JObject kvs) \<Longrightarrow> json_ok v \<Longrightarrow> json_ok (JObject (obj_set k v kvs))"
  unfolding json_ok_object by (auto simp: distinct_obj_set map_of_obj_set split: if_splits)

lemma json_ok_obj_del: "json_ok (JObject kvs) \<Longrightarrow> json_ok (JObject (obj_del k kvs))"
  unfolding json_ok_object by (auto simp: distinct_obj_del map_of_obj_del split: if_splits)

end
