(* ===== verification/Relayer_Ops.thy ===== *)
theory Relayer_Ops
  imports Js_Objects "HOL-Library.List_Lexorder" "HOL-Library.Char_ord"
begin

section \<open>Logs, alerts, balances and health\<close>

text \<open>
  \<open>logger.ts\<close>, \<open>alerts/alerter.ts\<close>, \<open>wallet/balanceMonitor.ts\<close>, \<open>wallet/secretStore.ts\<close> and
  \<open>health.ts\<close>. The clock, the ISO date, the webhook, the balance reads and the key vault are parameters.
\<close>

subsection \<open>The logger\<close>

datatype log_value = LString string | LNumber js_num | LBool bool | LBigint int | LNull | LUndefined

type_synonym log_fields = "log_value js_object"

datatype log_level = Info_level | Warn_level | Error_level

fun level_name :: "log_level \<Rightarrow> string" where
  "level_name Info_level = ''info''"
| "level_name Warn_level = ''warn''"
| "level_name Error_level = ''error''"

definition REDACT_SUBSTRINGS :: "string list" where
  "REDACT_SUBSTRINGS = [''key'', ''secret'', ''privatekey'', ''mnemonic'', ''password'']"

definition shouldRedact :: "string \<Rightarrow> bool" where
  "shouldRedact key = list_ex (\<lambda>s. str_includes (toLowerCase key) s) REDACT_SUBSTRINGS"

fun serializeValue :: "log_value \<Rightarrow> log_value" where
  "serializeValue (LBigint i) = LString (show_int i)"
| "serializeValue LUndefined = LNull"
| "serializeValue v = v"

record logger =
  lg_base :: log_fields
  lg_iso :: "int \<Rightarrow> string"
  lg_stringify :: "log_fields \<Rightarrow> string"

definition masked :: "string \<Rightarrow> log_value \<Rightarrow> log_value" where
  "masked k v = (if shouldRedact k then LString ''[redacted]'' else serializeValue v)"

fun add_fields :: "log_fields \<Rightarrow> log_fields \<Rightarrow> log_fields" where
  "add_fields rec [] = rec"
| "add_fields rec ((k, v) # kvs) = add_fields (if v = LUndefined then rec else obj_set k (masked k v) rec) kvs"

definition log_header :: "logger \<Rightarrow> int \<Rightarrow> log_level \<Rightarrow> string \<Rightarrow> log_fields" where
  "log_header lg now level msg =
     [(''ts'', LString (lg_iso lg now)), (''level'', LString (level_name level)), (''msg'', LString msg)]"

definition log_record :: "logger \<Rightarrow> int \<Rightarrow> log_level \<Rightarrow> string \<Rightarrow> log_fields \<Rightarrow> log_fields" where
  "log_record lg now level msg fs =
     add_fields (log_header lg now level msg) (obj_spread (lg_base lg) fs)"

definition emit_line :: "logger \<Rightarrow> int \<Rightarrow> log_level \<Rightarrow> string \<Rightarrow> log_fields \<Rightarrow> string" where
  "emit_line lg now level msg fs = lg_stringify lg (log_record lg now level msg fs) @ [CHR 0x0A]"

definition child :: "logger \<Rightarrow> log_fields \<Rightarrow> logger" where
  "child lg bound = lg\<lparr>lg_base := obj_spread (lg_base lg) bound\<rparr>"

subsection \<open>Alerts\<close>

record post_response =
  pr_ok :: bool
  pr_status :: nat

record slack_alerter =
  al_webhookUrl :: string
  al_dedupWindowMs :: int
  al_now :: "nat \<Rightarrow> int"
  al_post :: "nat \<Rightarrow> string \<Rightarrow> string \<Rightarrow> post_response res"
  al_text_json :: "string \<Rightarrow> string"

text \<open>
  What an alerter leaves behind: its table of recent alerts, the requests it posted, the calls on
  its logger, and how often it was called (the index of its clock reading).
\<close>

record alert_state =
  as_lastSent :: "int js_object"
  as_posts :: "(string \<times> string) list"
  as_log :: "(log_level \<times> string \<times> log_fields) list"
  as_calls :: nat

datatype alerter = SlackAlerter slack_alerter | NoopAlerter

fun show_log_value :: "log_value \<Rightarrow> string" where
  "show_log_value (LString s) = s"
| "show_log_value (LNumber n) = show_num n"
| "show_log_value (LBool b) = (if b then ''true'' else ''false'')"
| "show_log_value (LBigint i) = show_int i"
| "show_log_value LNull = ''null''"
| "show_log_value LUndefined = ''undefined''"

definition stableStringify :: "log_fields \<Rightarrow> string" where
  "stableStringify fs =
     join_with '','' (map (\<lambda>k. k @ ''='' @ show_log_value (case map_of fs k of None \<Rightarrow> LUndefined | Some v \<Rightarrow> v))
       (sort (map fst fs)))"

definition formatSlackText :: "string \<Rightarrow> log_fields \<Rightarrow> string" where
  "formatSlackText event fs =
     (let parts = map (\<lambda>(k, v). k @ '': '' @ show_log_value v) (filter (\<lambda>(k, v). v \<noteq> LUndefined) fs) in
      if parts \<noteq> [] then '':rotating_light: *'' @ event @ ''*'' @ [CHR 0x0A] @ join_with [CHR 0x0A] parts
      else '':rotating_light: *'' @ event @ ''*'')"

definition log_call :: "log_level \<Rightarrow> string \<Rightarrow> log_fields \<Rightarrow> alert_state \<Rightarrow> alert_state" where
  "log_call level msg fs s = s\<lparr>as_log := as_log s @ [(level, msg, fs)]\<rparr>"

definition post_alert :: "slack_alerter \<Rightarrow> string \<Rightarrow> log_fields \<Rightarrow> alert_state \<Rightarrow> alert_state" where
  "post_alert al event fs s =
     (let body = al_text_json al (formatSlackText event fs);
          s1 = s\<lparr>as_posts := as_posts s @ [(al_webhookUrl al, body)]\<rparr> in
      case al_post al (length (as_posts s)) (al_webhookUrl al) body of
        Inr res \<Rightarrow>
          (if \<not> pr_ok res
           then log_call Error_level ''alert.post_failed''
                  [(''event'', LString event), (''status'', LNumber (Num (of_nat (pr_status res))))] s1
           else s1)
      | Inl err \<Rightarrow>
          log_call Error_level ''alert.post_error'' [(''event'', LString event), (''error'', LString (js_String err))] s1)"

definition alert_msg :: "string \<Rightarrow> string" where
  "alert_msg event = ''alert:'' @ event"

definition alert_key :: "string \<Rightarrow> log_fields \<Rightarrow> string" where
  "alert_key event fs = event @ '':'' @ stableStringify fs"

definition prune :: "int \<Rightarrow> int \<Rightarrow> int js_object \<Rightarrow> int js_object" where
  "prune window now sent = filter (\<lambda>(k, t). \<not> window \<le> now - t) sent"

definition slack_alert :: "slack_alerter \<Rightarrow> string \<Rightarrow> log_fields \<Rightarrow> alert_state \<Rightarrow> alert_state" where
  "slack_alert al event fs s0 =
     (let s = log_call Warn_level (alert_msg event) fs s0;
          key = alert_key event fs;
          now = al_now al (as_calls s);
          sent = prune (al_dedupWindowMs al) now (as_lastSent s);
          s = s\<lparr>as_lastSent := sent, as_calls := Suc (as_calls s)\<rparr> in
      case map_of sent key of
        Some t \<Rightarrow>
          (if now - t < al_dedupWindowMs al then s
           else post_alert al event fs (s\<lparr>as_lastSent := obj_set key now sent\<rparr>))
      | None \<Rightarrow> post_alert al event fs (s\<lparr>as_lastSent := obj_set key now sent\<rparr>))"

fun raise_alert :: "alerter \<Rightarrow> string \<Rightarrow> log_fields \<Rightarrow> alert_state \<Rightarrow> alert_state" where
  "raise_alert (SlackAlerter al) event fs s = slack_alert al event fs s"
| "raise_alert NoopAlerter event fs s = s"

definition createAlerter :: "(string \<Rightarrow> slack_alerter) \<Rightarrow> string option \<Rightarrow> alerter" where
  "createAlerter slack url =
     (case url of None \<Rightarrow> NoopAlerter | Some u \<Rightarrow> (if u = [] then NoopAlerter else SlackAlerter (slack u)))"

subsection \<open>Wallet balances\<close>

record balance_opts =
  bo_addresses :: "string list"
  bo_providers :: "(nat \<times> (string \<Rightarrow> int res)) list"
  bo_minBalanceWei :: int
  bo_alerter :: alerter
  bo_formatEther :: "int \<Rightarrow> string"

definition low_fields :: "balance_opts \<Rightarrow> string \<Rightarrow> nat \<Rightarrow> string \<Rightarrow> int \<Rightarrow> log_fields" where
  "low_fields bo label chainId address balance =
     [(label, LString address), (''chain_id'', LNumber (Num (of_nat chainId))),
      (''balance_eth'', LString (bo_formatEther bo balance)), (''min_eth'', LString (bo_formatEther bo (bo_minBalanceWei bo)))]"

definition checkBalance :: "balance_opts \<Rightarrow> nat \<Rightarrow> (string \<Rightarrow> int res) \<Rightarrow> string \<Rightarrow> alert_state \<Rightarrow> alert_state" where
  "checkBalance bo chainId getBalance address s =
     (case getBalance address of
        Inl err \<Rightarrow> log_call Warn_level ''wallet.balance_check_failed''
          [(''wallet_used'', LString address), (''chain_id'', LNumber (Num (of_nat chainId))), (''error'', LString (js_String err))] s
      | Inr balance \<Rightarrow>
          (if balance < bo_minBalanceWei bo then
             raise_alert (bo_alerter bo) ''wallet.low_balance'' (low_fields bo ''wallet'' chainId address balance)
               (log_call Warn_level ''wallet.low_balance'' (low_fields bo ''wallet_used'' chainId address balance) s)
           else s))"

definition checkBalances :: "balance_opts \<Rightarrow> alert_state \<Rightarrow> alert_state" where
  "checkBalances bo s =
     fold (\<lambda>(chainId, getBalance). fold (checkBalance bo chainId getBalance) (bo_addresses bo)) (bo_providers bo) s"

subsection \<open>Health and secrets\<close>

record health_opts =
  ho_role :: string
  ho_maxHeartbeatAgeMs :: "int option"

datatype health_body = Not_found | Health_status string string int

definition health_request :: "health_opts \<Rightarrow> int \<Rightarrow> int \<Rightarrow> string \<Rightarrow> string \<Rightarrow> nat \<times> health_body" where
  "health_request ho lastBeat now meth url =
     (if meth \<noteq> ''GET'' \<or> \<not> (url = ''/health'' \<or> url = ''/healthz'') then (404, Not_found)
      else
        (let ageMs = now - lastBeat;
             stale = (case ho_maxHeartbeatAgeMs ho of None \<Rightarrow> False | Some mx \<Rightarrow> mx < ageMs) in
         (if stale then 503 else 200, Health_status (if stale then ''stale'' else ''ok'') (ho_role ho) ageMs)))"

definition env_getSecret :: "env \<Rightarrow> string \<Rightarrow> string res" where
  "env_getSecret env nm =
     (case env (''RELAYER_WALLET_'' @ nm) of
        None \<Rightarrow> Throw (new_error PlainError (''env RELAYER_WALLET_'' @ nm @ '' is not set''))
      | Some v \<Rightarrow> (if v = [] then Throw (new_error PlainError (''env RELAYER_WALLET_'' @ nm @ '' is not set'')) else Ok v))"

definition vault_getSecret :: "(string \<Rightarrow> string option res) \<Rightarrow> string \<Rightarrow> string res" where
  "vault_getSecret client nm =
     bind_res (client nm) (\<lambda>secret.
       case secret of
         None \<Rightarrow> Throw (new_error PlainError (''Key Vault secret '' @ [CHR 0x22] @ nm @ [CHR 0x22] @ '' has no value''))
       | Some v \<Rightarrow>
           (if v = [] then Throw (new_error PlainError (''Key Vault secret '' @ [CHR 0x22] @ nm @ [CHR 0x22] @ '' has no value''))
            else Ok v))"

subsection \<open>Log records\<close>

lemma map_of_add_fields:
  "distinct (map fst kvs) \<Longrightarrow>
   map_of (add_fields rec kvs) k =
     (case map_of kvs k of
        Some v \<Rightarrow> (if v = LUndefined then map_of rec k else Some (masked k v))
      | None \<Rightarrow> map_of rec k)"
proof (induction rec kvs rule: add_fields.induct)
  case (2 rec k' v' kvs)
  then have "map_of kvs k' = None" by (simp add: map_of_eq_None_iff)
  then show ?case using 2 by (cases "map_of kvs k") (auto simp: map_of_obj_set)
qed simp

lemma add_fields_masked:
  "(k, v) \<in> set (add_fields rec kvs) \<Longrightarrow> (\<And>k v. (k, v) \<in> set rec \<Longrightarrow> shouldRedact k \<Longrightarrow> v = LString ''[redacted]'') \<Longrightarrow>
   shouldRedact k \<Longrightarrow> v = LString ''[redacted]''"
proof (induction rec kvs rule: add_fields.induct)
  case (2 rec k' v' kvs)
  show ?case
    by (rule "2.IH" [OF "2.prems"(1) [unfolded add_fields.simps] _ "2.prems"(3)])
      (use "2.prems"(2) set_obj_set [of k' "masked k' v'" rec] in \<open>auto simp: masked_def split: if_splits\<close>)
qed simp

lemma header_not_redacted: "\<not> shouldRedact ''ts''" "\<not> shouldRedact ''level''" "\<not> shouldRedact ''msg''"
  by (simp_all add: shouldRedact_def REDACT_SUBSTRINGS_def toLowerCase_def lower_char_def)

text \<open>A log record never carries the value of a field whose name looks like a secret, whether the
  field was bound to the logger or passed to the call: it reads \<open>[redacted]\<close>. Every other defined field is
  in the record as it was given (a \<open>bigint\<close> as its digits), call fields over bound ones over the header.\<close>

theorem log_redacts_secrets:
  assumes "distinct (map fst (lg_base lg))" and "distinct (map fst fs)"
  shows "(\<forall>k v. (k, v) \<in> set (log_record lg now level msg fs) \<and> shouldRedact k \<longrightarrow> v = LString ''[redacted]'') \<and>
    (\<forall>k. map_of (log_record lg now level msg fs) k =
      (case (map_of (lg_base lg) ++ map_of fs) k of
         Some v \<Rightarrow>
           (if v = LUndefined then map_of (log_header lg now level msg) k
            else Some (if shouldRedact k then LString ''[redacted]'' else serializeValue v))
       | None \<Rightarrow> map_of (log_header lg now level msg) k))"
proof (intro conjI allI impI, elim conjE)
  fix k v
  assume kv: "(k, v) \<in> set (log_record lg now level msg fs)" "shouldRedact k"
  show "v = LString ''[redacted]''"
    by (rule add_fields_masked [OF kv(1) [unfolded log_record_def] _ kv(2)])
      (use header_not_redacted in \<open>auto simp: log_header_def\<close>)
next
  fix k
  show "map_of (log_record lg now level msg fs) k =
      (case (map_of (lg_base lg) ++ map_of fs) k of
         Some v \<Rightarrow>
           (if v = LUndefined then map_of (log_header lg now level msg) k
            else Some (if shouldRedact k then LString ''[redacted]'' else serializeValue v))
       | None \<Rightarrow> map_of (log_header lg now level msg) k)"
    unfolding log_record_def
    by (simp only: map_of_add_fields [OF distinct_obj_spread [OF assms(1)]] map_of_obj_spread [OF assms(2)] masked_def)
qed

definition demo_logger :: logger where
  "demo_logger = \<lparr>lg_base = [(''role'', LString ''worker'')], lg_iso = show_int, lg_stringify = (\<lambda>rec. concat (map fst rec))\<rparr>"

definition demo_log_fields :: log_fields where
  "demo_log_fields = [(''api_key'', LString ''x''), (''nonce'', LBigint 5)]"

theorem log_redacts_secrets_witness:
  "map_of (log_record demo_logger 0 Info_level ''m'' demo_log_fields) ''api_key'' = Some (LString ''[redacted]'') \<and>
   map_of (log_record demo_logger 0 Info_level ''m'' demo_log_fields) ''nonce'' = Some (LString (show_int 5))"
proof -
  have "distinct (map fst (lg_base demo_logger))" "distinct (map fst demo_log_fields)"
    by (simp_all add: demo_logger_def demo_log_fields_def)
  from log_redacts_secrets [OF this, THEN conjunct2, THEN spec, of 0 Info_level "''m''"] show ?thesis
    by (simp add: demo_logger_def demo_log_fields_def shouldRedact_def REDACT_SUBSTRINGS_def toLowerCase_def lower_char_def)
qed

subsection \<open>Alerts\<close>

definition recent :: "int \<Rightarrow> int js_object \<Rightarrow> int \<Rightarrow> string \<Rightarrow> bool" where
  "recent w sent t k \<longleftrightarrow> (\<exists>t'. map_of sent k = Some t' \<and> t - t' < w)"

lemma map_of_prune:
  "distinct (map fst sent) \<Longrightarrow>
   map_of (prune w now sent) k = (case map_of sent k of None \<Rightarrow> None | Some t \<Rightarrow> if w \<le> now - t then None else Some t)"
proof (induction sent)
  case (Cons kt sent)
  then show ?case by (cases kt) (auto simp: prune_def map_of_eq_None_iff split: option.splits)
qed (simp add: prune_def)

lemma distinct_prune: "distinct (map fst sent) \<Longrightarrow> distinct (map fst (prune w now sent))"
  unfolding prune_def by (induction sent) auto

lemma log_call_sel [simp]:
  "as_lastSent (log_call l m f s) = as_lastSent s" "as_posts (log_call l m f s) = as_posts s" "as_calls (log_call l m f s) = as_calls s"
  "as_log (log_call l m f s) = as_log s @ [(l, m, f)]"
  by (simp_all add: log_call_def)

lemma post_alert_sel:
  "as_lastSent (post_alert al e f s) = as_lastSent s" "as_calls (post_alert al e f s) = as_calls s"
  "as_posts (post_alert al e f s) = as_posts s @ [(al_webhookUrl al, al_text_json al (formatSlackText e f))]"
  "set (as_log s) \<subseteq> set (as_log (post_alert al e f s))"
  by (auto simp: post_alert_def Let_def split: sum.splits)

lemma slack_alert_step:
  fixes al e f
  assumes "distinct (map fst (as_lastSent s))"
  defines "now \<equiv> al_now al (as_calls s)" and "w \<equiv> al_dedupWindowMs al" and "key \<equiv> alert_key e f"
  shows "recent w (as_lastSent s) now key \<Longrightarrow>
      as_posts (slack_alert al e f s) = as_posts s \<and> as_lastSent (slack_alert al e f s) = prune w now (as_lastSent s)"
    and "\<not> recent w (as_lastSent s) now key \<Longrightarrow>
      as_posts (slack_alert al e f s) = as_posts s @ [(al_webhookUrl al, al_text_json al (formatSlackText e f))] \<and>
      as_lastSent (slack_alert al e f s) = obj_set key now (prune w now (as_lastSent s))"
  unfolding slack_alert_def Let_def recent_def now_def w_def key_def
  by (auto simp: map_of_prune [OF assms(1)] post_alert_sel split: option.splits)

lemma post_alert_log: "r \<in> set (as_log s) \<Longrightarrow> r \<in> set (as_log (post_alert al e f s))"
  using post_alert_sel(4) by blast

lemma slack_alert_calls: "as_calls (slack_alert al e f s) = Suc (as_calls s)"
  by (simp add: slack_alert_def Let_def post_alert_sel(2) split: option.splits)

lemma slack_alert_log:
  "r \<in> set (as_log s) \<or> r = (Warn_level, alert_msg e, f) \<Longrightarrow> r \<in> set (as_log (slack_alert al e f s))"
  unfolding slack_alert_def Let_def by (auto split: option.splits intro!: post_alert_log)

text \<open>
  The reference: an alert is let through unless an alert with the same key was let through less
  than the window before it.
\<close>

definition slot_free :: "int \<Rightarrow> (int \<times> string) list \<Rightarrow> int \<Rightarrow> string \<Rightarrow> bool" where
  "slot_free w hist t k \<longleftrightarrow> (\<forall>(t', k') \<in> set hist. k' = k \<longrightarrow> w \<le> t - t')"

fun let_through :: "int \<Rightarrow> (int \<times> string) list \<Rightarrow> (int \<times> string) list \<Rightarrow> bool list" where
  "let_through w hist [] = []"
| "let_through w hist ((t, k) # rest) =
     (let ok = slot_free w hist t k in
      ok # let_through w (if ok then (t, k) # hist else hist) rest)"

fun posted :: "slack_alerter \<Rightarrow> (string \<times> log_fields) list \<Rightarrow> alert_state \<Rightarrow> bool list" where
  "posted al [] s = []"
| "posted al ((e, f) # rest) s =
     (let s' = slack_alert al e f s in (length (as_posts s) < length (as_posts s')) # posted al rest s')"

fun timed_keys :: "slack_alerter \<Rightarrow> nat \<Rightarrow> (string \<times> log_fields) list \<Rightarrow> (int \<times> string) list" where
  "timed_keys al n [] = []"
| "timed_keys al n ((e, f) # rest) = (al_now al n, alert_key e f) # timed_keys al (Suc n) rest"

definition table_matches :: "int \<Rightarrow> int \<Rightarrow> int js_object \<Rightarrow> (int \<times> string) list \<Rightarrow> bool" where
  "table_matches w now sent hist \<longleftrightarrow>
     distinct (map fst sent) \<and> (\<forall>t k. now \<le> t \<longrightarrow> (recent w sent t k \<longleftrightarrow> (\<exists>t'. (t', k) \<in> set hist \<and> t - t' < w)))"

lemma table_matches_prune:
  assumes "table_matches w now sent hist"
  shows "table_matches w now (prune w now sent) hist"
proof -
  have d: "distinct (map fst sent)" using assms by (simp add: table_matches_def)
  have "recent w (prune w now sent) t k \<longleftrightarrow> recent w sent t k" if "now \<le> t" for t k
    using that by (auto simp: recent_def map_of_prune [OF d] split: option.splits)
  then show ?thesis using assms distinct_prune by (auto simp: table_matches_def)
qed

lemma table_matches_set:
  assumes "table_matches w now sent hist" and "\<not> recent w sent now k"
  shows "table_matches w now (obj_set k now sent) ((now, k) # hist)"
  unfolding table_matches_def
proof (intro conjI allI impI)
  show "distinct (map fst (obj_set k now sent))" using assms(1) by (simp add: table_matches_def distinct_obj_set)
  fix t k'
  assume t: "now \<le> t"
  have old: "recent w sent t k' \<longleftrightarrow> (\<exists>t'. (t', k') \<in> set hist \<and> t - t' < w)"
    using assms(1) t by (simp add: table_matches_def)
  have "\<not> recent w sent t k" using assms(2) t by (auto simp: recent_def)
  then show "recent w (obj_set k now sent) t k' \<longleftrightarrow> (\<exists>t'. (t', k') \<in> set ((now, k) # hist) \<and> t - t' < w)"
    using old by (auto simp: recent_def map_of_obj_set)
qed

lemma table_matches_later: "table_matches w now sent hist \<Longrightarrow> now \<le> now' \<Longrightarrow> table_matches w now' sent hist"
  unfolding table_matches_def by (meson order_trans)

lemma posted_let_through:
  assumes "table_matches (al_dedupWindowMs al) now (as_lastSent s) hist" and "now \<le> al_now al (as_calls s)"
    and "\<And>i j. i \<le> j \<Longrightarrow> al_now al i \<le> al_now al j"
  shows "posted al alerts s = let_through (al_dedupWindowMs al) hist (timed_keys al (as_calls s) alerts)"
  using assms(1,2)
proof (induction alerts arbitrary: s hist now)
  case (Cons a alerts)
  obtain e f where a: "a = (e, f)" by fastforce
  let ?w = "al_dedupWindowMs al" and ?now = "al_now al (as_calls s)" and ?k = "alert_key e f" and ?s = "slack_alert al e f s"
  have m: "table_matches ?w ?now (as_lastSent s) hist" using table_matches_later [OF Cons.prems] .
  then have d: "distinct (map fst (as_lastSent s))" by (simp add: table_matches_def)
  have ok: "recent ?w (as_lastSent s) ?now ?k \<longleftrightarrow> \<not> slot_free ?w hist ?now ?k"
    using m unfolding table_matches_def slot_free_def case_prod_beta by (metis fst_conv snd_conv not_le order_refl prod.collapse)
  have next_time: "?now \<le> al_now al (as_calls ?s)" using assms(3) by (simp add: slack_alert_calls)
  show ?case
  proof (cases "recent ?w (as_lastSent s) ?now ?k")
    case True
    have "table_matches ?w ?now (as_lastSent ?s) hist"
      using slack_alert_step(1) [OF d True] table_matches_prune [OF m] by simp
    from Cons.IH [OF this next_time] show ?thesis
      using True ok slack_alert_step(1) [OF d True] by (simp add: a Let_def slack_alert_calls)
  next
    case False
    have "\<not> recent ?w (prune ?w ?now (as_lastSent s)) ?now ?k"
      using False by (auto simp: recent_def map_of_prune [OF d] split: option.splits if_splits)
    then have "table_matches ?w ?now (as_lastSent ?s) ((?now, ?k) # hist)"
      using slack_alert_step(2) [OF d False] table_matches_set [OF table_matches_prune [OF m]] by simp
    from Cons.IH [OF this next_time] show ?thesis
      using False ok slack_alert_step(2) [OF d False] by (simp add: a Let_def slack_alert_calls)
  qed
qed simp

lemma alerts_logged:
  "(e, f) \<in> set alerts \<or> (Warn_level, alert_msg e, f) \<in> set (as_log s) \<Longrightarrow>
   (Warn_level, alert_msg e, f) \<in> set (as_log (fold (\<lambda>(e, f). slack_alert al e f) alerts s))"
proof (induction alerts arbitrary: s)
  case (Cons a alerts)
  obtain e' f' where a: "a = (e', f')" by fastforce
  have "(e, f) \<in> set alerts \<or> (Warn_level, alert_msg e, f) \<in> set (as_log (slack_alert al e' f' s))"
    using Cons.prems slack_alert_log unfolding a by auto
  then show ?case using Cons.IH unfolding a by simp
qed simp

text \<open>From a fresh alerter whose clock does not run backwards, an alert is posted exactly when no
  alert with the same event and fields was posted less than the window before it, although the table
  is pruned on every call; and every alert is logged, posted or not.\<close>

theorem alerts_deduplicated:
  assumes "as_lastSent s = []" and "\<And>i j. i \<le> j \<Longrightarrow> al_now al i \<le> al_now al j"
  shows "posted al alerts s = let_through (al_dedupWindowMs al) [] (timed_keys al (as_calls s) alerts) \<and>
    (\<forall>(e, f) \<in> set alerts. (Warn_level, alert_msg e, f) \<in> set (as_log (fold (\<lambda>(e, f). slack_alert al e f) alerts s)))"
proof -
  have "table_matches (al_dedupWindowMs al) (al_now al (as_calls s)) (as_lastSent s) []"
    by (simp add: assms(1) table_matches_def recent_def)
  from posted_let_through [OF this order_refl assms(2)] show ?thesis by (auto simp: alerts_logged)
qed

definition demo_alerter :: slack_alerter where
  "demo_alerter = \<lparr>al_webhookUrl = ''u'', al_dedupWindowMs = 300000, al_now = (\<lambda>n. 100000 * int n),
     al_post = (\<lambda>n u b. Ok \<lparr>pr_ok = True, pr_status = 200\<rparr>), al_text_json = (\<lambda>t. t)\<rparr>"

definition demo_alert_state :: alert_state where
  "demo_alert_state = \<lparr>as_lastSent = [], as_posts = [], as_log = [], as_calls = 0\<rparr>"

theorem alerts_deduplicated_witness:
  "posted demo_alerter (replicate 4 (''low'', [])) demo_alert_state = [True, False, False, True]"
proof -
  have "as_lastSent demo_alert_state = []" "\<And>i j. i \<le> j \<Longrightarrow> al_now demo_alerter i \<le> al_now demo_alerter j"
    by (simp_all add: demo_alert_state_def demo_alerter_def)
  from alerts_deduplicated [OF this, of "replicate 4 (''low'', [])"] show ?thesis
    by (simp add: demo_alerter_def demo_alert_state_def slot_free_def eval_nat_numeral)
qed

subsection \<open>Balances\<close>

lemma raise_alert_log: "set (as_log s) \<subseteq> set (as_log (raise_alert al e f s))"
  by (cases al) (auto intro: slack_alert_log)

lemma checkBalance_log: "set (as_log s) \<subseteq> set (as_log (checkBalance bo c p a s))"
  using raise_alert_log by (fastforce simp: checkBalance_def split: sum.splits)

lemma fold_log:
  fixes g :: "'a \<Rightarrow> alert_state \<Rightarrow> alert_state"
  assumes "\<And>x s. set (as_log s) \<subseteq> set (as_log (g x s))"
  shows "set (as_log s) \<subseteq> set (as_log (fold g xs s))"
  by (induction xs arbitrary: s) (use assms in fastforce)+

lemma fold_reaches:
  fixes g :: "'a \<Rightarrow> alert_state \<Rightarrow> alert_state"
  assumes "x \<in> set xs" and "\<And>s. r \<in> set (as_log (g x s))" and "\<And>x s. set (as_log s) \<subseteq> set (as_log (g x s))"
  shows "r \<in> set (as_log (fold g xs s))"
  using assms(1)
proof (induction xs arbitrary: s)
  case (Cons y ys)
  have "r \<in> set (as_log (fold g ys t))" if "r \<in> set (as_log t)" for t
    using fold_log [of g, OF assms(3)] that by blast
  then show ?case using Cons assms(2) by (cases "x = y") simp_all
qed simp

text \<open>A low wallet is reported whatever the reads of the other wallets and chains do.\<close>

lemma low_wallet_reported:
  assumes "(c, p) \<in> set (bo_providers bo)" "a \<in> set (bo_addresses bo)" "p a = Ok b" "b < bo_minBalanceWei bo"
  shows "(Warn_level, ''wallet.low_balance'', low_fields bo ''wallet_used'' c a b) \<in> set (as_log (checkBalances bo s))"
proof -
  have one: "(Warn_level, ''wallet.low_balance'', low_fields bo ''wallet_used'' c a b) \<in> set (as_log (checkBalance bo c p a s))" for s
    using assms(3,4) raise_alert_log by (fastforce simp: checkBalance_def)
  show ?thesis unfolding checkBalances_def
    by (rule fold_reaches [OF assms(1)])
      (auto simp: case_prod_beta intro: fold_reaches [of a, OF assms(2), where g = "checkBalance bo c p"] one
        subsetD [OF checkBalance_log] subsetD [OF fold_log [of "checkBalance bo _ _", OF checkBalance_log]])
qed

end
