(* ===== verification/Db_Migrate.thy ===== *)
theory Db_Migrate
  imports Effects "HOL-Library.List_Lexorder" "HOL-Library.Char_ord"
begin

section \<open>Schema migrations\<close>

text \<open>
  \<open>db/migrate.ts\<close>, and the transaction wrapper of \<open>db/pool.ts\<close>. The database is what the statements
  of the runner touch: the scripts executed so far, in order, and the recorded versions; an open
  transaction is a copy that \<open>COMMIT\<close> installs and \<open>ROLLBACK\<close> drops. Any statement may fail
  (\<open>faults\<close>, by its number), before it is carried out or after (a lost reply). Other processes run
  until the advisory lock is granted (\<open>others\<close>) and not while it is held. The migration directory is a
  parameter. Scripts have no transaction control of their own.
\<close>

record pg_store =
  ps_versions :: "string list"
  ps_scripts :: "string list"

record pg_session =
  pg_committed :: pg_store
  pg_tx :: "pg_store option"
  pg_locked :: bool
  pg_count :: nat

datatype pg_fault = Rejected js_error | Lost_reply js_error

definition pg_query :: "(nat \<Rightarrow> pg_fault option) \<Rightarrow> (pg_session, 'a) eff \<Rightarrow> (pg_session, 'a) eff" where
  "pg_query faults stmt s =
     (let s1 = s\<lparr>pg_count := Suc (pg_count s)\<rparr> in
      case faults (pg_count s) of
        None \<Rightarrow> stmt s1
      | Some (Rejected e) \<Rightarrow> (Throw e, s1)
      | Some (Lost_reply e) \<Rightarrow> (Throw e, snd (stmt s1)))"

subsection \<open>The statements\<close>

definition pg_begin :: "(pg_session, unit) eff" where
  "pg_begin s = (Ok (), if pg_tx s = None then s\<lparr>pg_tx := Some (pg_committed s)\<rparr> else s)"

definition pg_commit :: "(pg_session, unit) eff" where
  "pg_commit s = (Ok (), case pg_tx s of None \<Rightarrow> s | Some t \<Rightarrow> s\<lparr>pg_committed := t, pg_tx := None\<rparr>)"

definition pg_rollback :: "(pg_session, unit) eff" where
  "pg_rollback s = (Ok (), s\<lparr>pg_tx := None\<rparr>)"

definition pg_write :: "(pg_store \<Rightarrow> pg_store) \<Rightarrow> pg_session \<Rightarrow> pg_session" where
  "pg_write f s = (case pg_tx s of None \<Rightarrow> s\<lparr>pg_committed := f (pg_committed s)\<rparr> | Some t \<Rightarrow> s\<lparr>pg_tx := Some (f t)\<rparr>)"

definition pg_read :: "pg_session \<Rightarrow> pg_store" where
  "pg_read s = (case pg_tx s of None \<Rightarrow> pg_committed s | Some t \<Rightarrow> t)"

definition pg_script :: "(string \<Rightarrow> js_error option) \<Rightarrow> string \<Rightarrow> (pg_session, unit) eff" where
  "pg_script rejects script s =
     (case rejects script of
        Some e \<Rightarrow> (Throw e, s)
      | None \<Rightarrow> (Ok (), pg_write (\<lambda>st. st\<lparr>ps_scripts := ps_scripts st @ [script]\<rparr>) s))"

definition pg_insert_version :: "string \<Rightarrow> (pg_session, unit) eff" where
  "pg_insert_version v s =
     (if v \<in> set (ps_versions (pg_read s))
      then (Throw (new_error ForeignError ''duplicate key value violates unique constraint''), s)
      else (Ok (), pg_write (\<lambda>st. st\<lparr>ps_versions := ps_versions st @ [v]\<rparr>) s))"

definition pg_select_versions :: "(pg_session, string list) eff" where
  "pg_select_versions s = (Ok (ps_versions (pg_read s)), s)"

definition pg_advisory_lock :: "(pg_store \<Rightarrow> pg_store) \<Rightarrow> (pg_session, unit) eff" where
  "pg_advisory_lock others s = (Ok (), s\<lparr>pg_committed := others (pg_committed s), pg_locked := True\<rparr>)"

definition pg_advisory_unlock :: "(pg_session, unit) eff" where
  "pg_advisory_unlock s = (Ok (), s\<lparr>pg_locked := False\<rparr>)"

definition finallyM :: "('s, 'a) eff \<Rightarrow> ('s, unit) eff \<Rightarrow> ('s, 'a) eff" where
  "finallyM body cleanup s =
     (case body s of (r, s1) \<Rightarrow> (case cleanup s1 of (Inl e, s2) \<Rightarrow> (Throw e, s2) | (Inr _, s2) \<Rightarrow> (r, s2)))"

subsection \<open>The transaction wrapper\<close>

definition pg_transaction ::
  "(nat \<Rightarrow> pg_fault option) \<Rightarrow> (pg_session, 'a) eff \<Rightarrow> (pg_session, 'a) eff" where
  "pg_transaction faults fn =
     attemptM (bindM (pg_query faults pg_begin) (\<lambda>_. bindM fn (\<lambda>x. bindM (pg_query faults pg_commit) (\<lambda>_. returnM x))))
       returnM
       (\<lambda>err. attemptM (pg_query faults pg_rollback) (\<lambda>_. throwM err) (\<lambda>_. throwM err))"

subsection \<open>The runner\<close>

record migration_dir =
  md_readdir :: "string list res"
  md_readFile :: "string \<Rightarrow> string res"
  md_rejects :: "string \<Rightarrow> js_error option"

definition ends_with :: "string \<Rightarrow> string \<Rightarrow> bool" where
  "ends_with s suf = (length suf \<le> length s \<and> drop (length s - length suf) s = suf)"

definition migration_files :: "string list \<Rightarrow> string list" where
  "migration_files entries = sort (filter (\<lambda>f. ends_with f ''.sql'') entries)"

definition apply_migration :: "(nat \<Rightarrow> pg_fault option) \<Rightarrow> migration_dir \<Rightarrow> string \<Rightarrow> (pg_session, unit) eff" where
  "apply_migration faults md fname =
     bindM (liftM (md_readFile md fname)) (\<lambda>script.
     bindM (pg_query faults pg_begin) (\<lambda>_.
       attemptM
         (bindM (pg_query faults (pg_script (md_rejects md) script)) (\<lambda>_.
          bindM (pg_query faults (pg_insert_version fname)) (\<lambda>_.
            pg_query faults pg_commit)))
         returnM
         (\<lambda>err. bindM (pg_query faults pg_rollback) (\<lambda>_.
            throwM (new_error PlainError (''migration '' @ fname @ '' failed: '' @ emessage err))))))"

fun migrate_loop ::
  "(nat \<Rightarrow> pg_fault option) \<Rightarrow> migration_dir \<Rightarrow> string set \<Rightarrow> string list \<Rightarrow> string list \<Rightarrow> (pg_session, string list) eff" where
  "migrate_loop faults md applied [] acc = returnM acc"
| "migrate_loop faults md applied (fname # files) acc =
     (if fname \<in> applied then migrate_loop faults md applied files acc
      else bindM (apply_migration faults md fname) (\<lambda>_. migrate_loop faults md applied files (acc @ [fname])))"

definition runMigrations ::
  "(nat \<Rightarrow> pg_fault option) \<Rightarrow> (pg_store \<Rightarrow> pg_store) \<Rightarrow> migration_dir \<Rightarrow> (pg_session, string list) eff" where
  "runMigrations faults others md =
     bindM (pg_query faults (returnM ())) (\<lambda>_.
     bindM (pg_query faults (pg_advisory_lock others)) (\<lambda>_.
       finallyM
         (bindM (pg_query faults pg_select_versions) (\<lambda>versions.
          bindM (liftM (md_readdir md)) (\<lambda>entries.
            migrate_loop faults md (set versions) (migration_files entries) [])))
         (pg_query faults pg_advisory_unlock)))"

subsection \<open>Statements as triples\<close>

definition at_store :: "pg_store \<Rightarrow> pg_store option \<Rightarrow> pg_session \<Rightarrow> bool" where
  "at_store c t s \<longleftrightarrow> pg_committed s = c \<and> pg_tx s = t"

definition committed_in :: "pg_store set \<Rightarrow> pg_session \<Rightarrow> bool" where
  "committed_in cs s \<longleftrightarrow> pg_committed s \<in> cs"

lemma at_store_count [simp]: "at_store c t (s\<lparr>pg_count := n\<rparr>) = at_store c t s"
  by (simp add: at_store_def)

lemma committed_in_count [simp]: "committed_in cs (s\<lparr>pg_count := n\<rparr>) = committed_in cs s"
  by (simp add: committed_in_def)

lemma valid_query:
  assumes "valid P stmt Q (\<lambda>_. E)" and "\<And>s n. P s \<Longrightarrow> P (s\<lparr>pg_count := n\<rparr>)"
    and "\<And>s. P s \<Longrightarrow> E s" and "\<And>s. P s \<Longrightarrow> E (snd (stmt s))"
  shows "valid P (pg_query faults stmt) Q (\<lambda>_. E)"
  unfolding valid_def
proof (intro allI impI)
  fix s
  assume p: "P s"
  show "case pg_query faults stmt s of (Inl e, s') \<Rightarrow> E s' | (Inr x, s') \<Rightarrow> Q x s'"
    using assms(1,3,4) assms(2) [OF p]
    by (auto simp: pg_query_def Let_def valid_def split: option.splits pg_fault.splits sum.splits prod.splits)
qed

definition migrated :: "(string \<Rightarrow> string) \<Rightarrow> pg_store \<Rightarrow> string list \<Rightarrow> pg_store" where
  "migrated contents st files = st\<lparr>ps_versions := ps_versions st @ files, ps_scripts := ps_scripts st @ map contents files\<rparr>"

lemma migrated_Nil [simp]: "migrated contents st [] = st"
  by (simp add: migrated_def)

lemma migrated_migrated [simp]: "migrated contents (migrated contents st xs) ys = migrated contents st (xs @ ys)"
  by (simp add: migrated_def)

lemma begin_valid:
  "c \<in> cs \<Longrightarrow> valid (at_store c None) (pg_query faults pg_begin) (\<lambda>_. at_store c (Some c)) (\<lambda>_. committed_in cs)"
  by (rule valid_query) (auto simp: valid_def pg_begin_def at_store_def committed_in_def)

lemma script_valid:
  "c \<in> cs \<Longrightarrow> valid (at_store c (Some t)) (pg_query faults (pg_script rejects script))
     (\<lambda>_. at_store c (Some (t\<lparr>ps_scripts := ps_scripts t @ [script]\<rparr>))) (\<lambda>_. committed_in cs)"
  by (rule valid_query) (auto simp: valid_def pg_script_def pg_write_def at_store_def committed_in_def split: option.splits)

lemma insert_valid:
  "c \<in> cs \<Longrightarrow> valid (at_store c (Some t)) (pg_query faults (pg_insert_version v))
     (\<lambda>_. at_store c (Some (t\<lparr>ps_versions := ps_versions t @ [v]\<rparr>))) (\<lambda>_. committed_in cs)"
  by (rule valid_query) (auto simp: valid_def pg_insert_version_def pg_write_def at_store_def committed_in_def)

lemma commit_valid:
  "c \<in> cs \<Longrightarrow> t \<in> cs \<Longrightarrow> valid (at_store c (Some t)) (pg_query faults pg_commit) (\<lambda>_. at_store t None) (\<lambda>_. committed_in cs)"
  by (rule valid_query) (auto simp: valid_def pg_commit_def at_store_def committed_in_def)

lemma rollback_valid:
  "valid (committed_in cs) (pg_query faults pg_rollback) (\<lambda>_. committed_in cs) (\<lambda>_. committed_in cs)"
  by (rule valid_query) (auto simp: valid_def pg_rollback_def committed_in_def)

lemma apply_migration_valid:
  assumes "md_readFile md fname = Ok (contents fname)"
  shows "valid (at_store st None) (apply_migration faults md fname)
    (\<lambda>_. at_store (migrated contents st [fname]) None) (\<lambda>_. committed_in {st, migrated contents st [fname]})"
proof -
  have e: "migrated contents st [fname] = (let t = st\<lparr>ps_scripts := ps_scripts st @ [contents fname]\<rparr> in t\<lparr>ps_versions := ps_versions t @ [fname]\<rparr>)"
    by (simp add: migrated_def)
  have body: "valid (at_store st (Some st))
     (bindM (pg_query faults (pg_script (md_rejects md) (contents fname))) (\<lambda>_.
      bindM (pg_query faults (pg_insert_version fname)) (\<lambda>_. pg_query faults pg_commit)))
     (\<lambda>_. at_store (migrated contents st [fname]) None) (\<lambda>_. committed_in {st, migrated contents st [fname]})"
    unfolding e Let_def by (rule valid_bind [OF script_valid valid_bind [OF insert_valid commit_valid]]) simp_all
  have undo: "valid (committed_in cs)
      (bindM (pg_query faults pg_rollback) (\<lambda>_. throwM err)) Q (\<lambda>_. committed_in cs)" for cs err and Q :: "unit \<Rightarrow> pg_session \<Rightarrow> bool"
    by (rule valid_bind [OF rollback_valid valid_throw])
  have lift: "bindM (liftM (Ok x)) f = f x" for x and f :: "string \<Rightarrow> (pg_session, unit) eff"
    by (rule ext) (simp add: bindM_def liftM_def)
  show ?thesis unfolding apply_migration_def assms lift
    by (rule valid_bind [OF begin_valid valid_attempt [OF body valid_return undo]]) simp_all
qed

text \<open>
  The repository's transactions are atomic: the work is committed when the wrapper returns, and when
  it throws the database is as before or (a lost reply to \<open>COMMIT\<close>) as after.
\<close>

lemma transaction_atomic:
  assumes "valid (at_store c (Some c)) fn (\<lambda>_. at_store c (Some t)) (\<lambda>_. committed_in {c})"
  shows "valid (at_store c None) (pg_transaction faults fn) (\<lambda>_. at_store t None) (\<lambda>_. committed_in {c, t})"
proof -
  have undo: "valid (committed_in {c, t}) (attemptM (pg_query faults pg_rollback) (\<lambda>_. throwM err) (\<lambda>_. throwM err)) Q
      (\<lambda>_. committed_in {c, t})" for err and Q :: "'a \<Rightarrow> pg_session \<Rightarrow> bool"
    by (rule valid_attempt [OF rollback_valid valid_throw valid_throw])
  have fn: "valid (at_store c (Some c)) fn (\<lambda>_. at_store c (Some t)) (\<lambda>_. committed_in {c, t})"
    by (rule valid_weaken [OF assms]) (auto simp: committed_in_def)
  show ?thesis unfolding pg_transaction_def
    by (rule valid_attempt [OF valid_bind [OF begin_valid valid_bind [OF fn valid_bind [OF commit_valid valid_return]]] valid_return undo])
      simp_all
qed

definition pending_files :: "pg_store \<Rightarrow> string list \<Rightarrow> string list" where
  "pending_files st files = filter (\<lambda>f. f \<notin> set (ps_versions st)) files"

definition progressed :: "(string \<Rightarrow> string) \<Rightarrow> pg_store \<Rightarrow> string list \<Rightarrow> pg_store set" where
  "progressed contents st files = {migrated contents st (take k files) | k. True}"

lemma migrate_loop_valid:
  assumes "\<And>f. f \<in> set files \<Longrightarrow> md_readFile md f = Ok (contents f)"
  shows "valid (at_store st None) (migrate_loop faults md applied files acc)
    (\<lambda>r s. r = acc @ filter (\<lambda>f. f \<notin> applied) files \<and> at_store (migrated contents st (filter (\<lambda>f. f \<notin> applied) files)) None s)
    (\<lambda>_. committed_in (progressed contents st (filter (\<lambda>f. f \<notin> applied) files)))"
  using assms
proof (induction files arbitrary: st acc)
  case Nil
  then show ?case by (auto intro!: valid_return)
next
  case (Cons fname files)
  let ?p = "filter (\<lambda>f. f \<notin> applied) files"
  have sub: "progressed contents (migrated contents st [fname]) ?p \<subseteq> progressed contents st (fname # ?p)"
    unfolding progressed_def by (auto intro: exI [of _ "Suc _"])
  have here: "{st, migrated contents st [fname]} \<subseteq> progressed contents st (fname # ?p)"
    unfolding progressed_def by (auto intro: exI [of _ 0] exI [of _ 1])
  have one: "valid (at_store st None) (apply_migration faults md fname) (\<lambda>_. at_store (migrated contents st [fname]) None)
      (\<lambda>_. committed_in (progressed contents st (fname # ?p)))"
    by (rule valid_weaken [OF apply_migration_valid]) (use Cons.prems here in \<open>auto simp: committed_in_def\<close>)
  have rest: "valid (at_store (migrated contents st [fname]) None) (migrate_loop faults md applied files (acc @ [fname]))
      (\<lambda>r s. r = acc @ fname # ?p \<and> at_store (migrated contents st (fname # ?p)) None s)
      (\<lambda>_. committed_in (progressed contents st (fname # ?p)))"
    by (rule valid_weaken [OF Cons.IH]) (use Cons.prems sub in \<open>auto simp: committed_in_def\<close>)
  show ?case using valid_bind [OF one rest] Cons.IH [of st acc] Cons.prems by simp
qed

subsection \<open>The runner as a whole\<close>

definition migration_inv :: "(string \<Rightarrow> string) \<Rightarrow> pg_store \<Rightarrow> bool" where
  "migration_inv contents st \<longleftrightarrow> ps_scripts st = map contents (ps_versions st) \<and> distinct (ps_versions st)"

lemma migrated_inv:
  assumes "migration_inv contents st" and "distinct files"
  shows "migration_inv contents (migrated contents st (take k (pending_files st files)))"
  using assms set_take_subset [of k "pending_files st files"]
  by (auto simp: migration_inv_def migrated_def pending_files_def)

lemma valid_finally:
  assumes "valid P body Q (\<lambda>_. E)" and "\<And>x. valid (Q x) cleanup (\<lambda>_. Q x) (\<lambda>_. E)" and "valid E cleanup (\<lambda>_. E) (\<lambda>_. E)"
  shows "valid P (finallyM body cleanup) Q (\<lambda>_. E)"
proof (rule validI)
  fix s x s'
  assume p: "P s" "finallyM body cleanup s = (Ok x, s')"
  then obtain s1 u where b: "body s = (Ok x, s1)" and c: "cleanup s1 = (Ok u, s')"
    by (auto simp: finallyM_def split: prod.splits sum.splits)
  show "Q x s'" by (rule validD(1) [OF assms(2) validD(1) [OF assms(1) p(1) b] c])
next
  fix s e s'
  assume p: "P s" "finallyM body cleanup s = (Throw e, s')"
  obtain r s1 c s2 where b: "body s = (r, s1)" and c: "cleanup s1 = (c, s2)" by fastforce
  have s': "s' = s2" using p(2) b c by (auto simp: finallyM_def split: sum.splits)
  show "E s'"
  proof (cases r)
    case (Inl err)
    have "E s1" using validD(2) [OF assms(1) p(1)] b Inl by blast
    then show ?thesis using validD [OF assms(3) \<open>E s1\<close>] c s' by (cases c) blast+
  next
    case (Inr x)
    have "Q x s1" using validD(1) [OF assms(1) p(1)] b Inr by blast
    moreover obtain err where "c = Inl err" using p(2) b c Inr by (auto simp: finallyM_def split: sum.splits)
    ultimately show ?thesis using validD(2) [OF assms(2)] c s' by blast
  qed
qed

lemma select_valid:
  "c \<in> cs \<Longrightarrow> valid (at_store c None) (pg_query faults pg_select_versions)
     (\<lambda>vs s. vs = ps_versions c \<and> at_store c None s) (\<lambda>_. committed_in cs)"
  by (rule valid_query) (auto simp: valid_def pg_select_versions_def pg_read_def at_store_def committed_in_def)

lemma unlock_valid:
  "valid (at_store c None) (pg_query faults pg_advisory_unlock) (\<lambda>_. at_store c None) (\<lambda>_. committed_in {c})"
  "valid (committed_in cs) (pg_query faults pg_advisory_unlock) (\<lambda>_. committed_in cs) (\<lambda>_. committed_in cs)"
  by (rule valid_query; auto simp: valid_def pg_advisory_unlock_def at_store_def committed_in_def)+

lemma lock_valid:
  "valid (at_store c None) (pg_query faults (pg_advisory_lock others))
     (\<lambda>_. at_store (others c) None) (\<lambda>_. committed_in {c, others c})"
  by (rule valid_query) (auto simp: valid_def pg_advisory_lock_def at_store_def committed_in_def)

lemma create_valid: "valid (at_store c None) (pg_query faults (returnM ())) (\<lambda>_. at_store c None) (\<lambda>_. committed_in {c})"
  by (rule valid_query) (auto simp: valid_def returnM_def at_store_def committed_in_def)

lemma runMigrations_valid:
  fixes st others entries contents
  assumes "md_readdir md = Ok entries" and "\<And>f. f \<in> set entries \<Longrightarrow> md_readFile md f = Ok (contents f)"
  defines "todo \<equiv> pending_files (others st) (migration_files entries)"
  shows "valid (at_store st None) (runMigrations faults others md)
    (\<lambda>r s. r = todo \<and> at_store (migrated contents (others st) todo) None s)
    (\<lambda>_. committed_in (insert st (progressed contents (others st) todo)))"
proof -
  let ?E = "\<lambda>_. committed_in (insert st (progressed contents (others st) todo))"
  have base: "others st \<in> progressed contents (others st) todo" "migrated contents (others st) todo \<in> progressed contents (others st) todo"
    unfolding progressed_def by (auto intro: exI [of _ 0] exI [of _ "length todo"])
  have files: "\<And>f. f \<in> set (migration_files entries) \<Longrightarrow> md_readFile md f = Ok (contents f)"
    using assms(2) by (auto simp: migration_files_def)
  have lift: "bindM (liftM (Ok x)) f = f x" for x and f :: "string list \<Rightarrow> (pg_session, string list) eff"
    by (rule ext) (simp add: bindM_def liftM_def)
  have loop: "valid (\<lambda>s. vs = ps_versions (others st) \<and> at_store (others st) None s)
      (migrate_loop faults md (set vs) (migration_files entries) [])
      (\<lambda>r s. r = todo \<and> at_store (migrated contents (others st) todo) None s) ?E" for vs
  proof (cases "vs = ps_versions (others st)")
    case True
    show ?thesis unfolding True
      by (rule valid_weaken [OF migrate_loop_valid [where contents = contents and st = "others st"]])
        (auto simp: files todo_def pending_files_def committed_in_def)
  qed (simp add: valid_def)
  have locked: "valid (at_store (others st) None)
      (bindM (pg_query faults pg_select_versions) (\<lambda>versions.
         migrate_loop faults md (set versions) (migration_files entries) []))
      (\<lambda>r s. r = todo \<and> at_store (migrated contents (others st) todo) None s) ?E"
    by (rule valid_bind [OF select_valid loop]) (simp add: base)
  have unlock: "valid (\<lambda>s. r = todo \<and> at_store (migrated contents (others st) todo) None s) (pg_query faults pg_advisory_unlock)
      (\<lambda>_ s. r = todo \<and> at_store (migrated contents (others st) todo) None s) ?E" for r
    using unlock_valid(1) [of "migrated contents (others st) todo" faults] base(2)
    by (fastforce simp: valid_def committed_in_def split: prod.splits sum.splits)
  show ?thesis unfolding runMigrations_def assms(1) lift
    by (rule valid_bind [OF valid_weaken [OF create_valid] valid_bind [OF valid_weaken [OF lock_valid]
          valid_finally [OF locked unlock unlock_valid(2)]]]) (use base in \<open>auto simp: committed_in_def\<close>)
qed

text \<open>C29: A migration run keeps the database at what its recorded versions say: the scripts executed are
  those of the recorded versions, each once, whatever statement fails and whether or not its effect
  took place. A run that returns has applied exactly the scripts that were missing when it got the lock,
  in lexical order; one that fails has applied a prefix of them.\<close>

theorem migrations_apply_once:
  assumes "runMigrations faults others md s = (r, s')"
    and "md_readdir md = Ok entries" "distinct entries" "\<forall>f \<in> set entries. md_readFile md f = Ok (contents f)"
    and "pg_tx s = None" "migration_inv contents (pg_committed s)" "migration_inv contents (others (pg_committed s))"
  shows "migration_inv contents (pg_committed s') \<and>
    (\<exists>k. let st = others (pg_committed s); todo = pending_files st (migration_files entries) in
       case r of
         Inr applied \<Rightarrow> applied = todo \<and> pg_committed s' = migrated contents st todo
       | Inl _ \<Rightarrow> pg_committed s' = pg_committed s \<or> pg_committed s' = migrated contents st (take k todo))"
proof -
  let ?st = "others (pg_committed s)"
  let ?todo = "pending_files ?st (migration_files entries)"
  have d: "distinct (migration_files entries)" using assms(3) by (simp add: migration_files_def)
  have v: "valid (at_store (pg_committed s) None) (runMigrations faults others md)
      (\<lambda>r s. r = ?todo \<and> at_store (migrated contents ?st ?todo) None s)
      (\<lambda>_. committed_in (insert (pg_committed s) (progressed contents ?st ?todo)))"
    using runMigrations_valid [OF assms(2)] assms(4) by blast
  have at: "at_store (pg_committed s) None s" using assms(5) by (simp add: at_store_def)
  show ?thesis
  proof (cases r)
    case (Inl e)
    then have "committed_in (insert (pg_committed s) (progressed contents ?st ?todo)) s'"
      using validD(2) [OF v at] assms(1) by simp
    then obtain k where "pg_committed s' = pg_committed s \<or> pg_committed s' = migrated contents ?st (take k ?todo)"
      by (auto simp: committed_in_def progressed_def)
    then show ?thesis using Inl assms(6) migrated_inv [OF assms(7) d, of k] by (auto simp: Let_def)
  next
    case (Inr applied)
    then have "applied = ?todo \<and> at_store (migrated contents ?st ?todo) None s'"
      using validD(1) [OF v at] assms(1) by simp
    then show ?thesis using Inr migrated_inv [OF assms(7) d, of "length ?todo"] by (simp add: at_store_def Let_def)
  qed
qed

definition demo_migrations :: migration_dir where
  "demo_migrations = \<lparr>md_readdir = Ok [''b.sql'', ''x'', ''a.sql''], md_readFile = (\<lambda>f. Ok f), md_rejects = (\<lambda>_. None)\<rparr>"

definition demo_session :: pg_session where
  "demo_session = \<lparr>pg_committed = \<lparr>ps_versions = [], ps_scripts = []\<rparr>, pg_tx = None, pg_locked = False, pg_count = 0\<rparr>"

theorem migrations_apply_once_witness:
  "migration_inv (\<lambda>f. f) (pg_committed (snd (runMigrations (\<lambda>n. if n = 9 then Some (Lost_reply (new_error ForeignError ''Connection terminated unexpectedly'')) else None) (\<lambda>st. st)
     demo_migrations demo_session)))"
proof -
  have "md_readdir demo_migrations = Ok [''b.sql'', ''x'', ''a.sql'']" "distinct [''b.sql'', ''x'', ''a.sql'']"
    "\<forall>f \<in> set [''b.sql'', ''x'', ''a.sql'']. md_readFile demo_migrations f = Ok f" "pg_tx demo_session = None"
    "migration_inv (\<lambda>f. f) (pg_committed demo_session)"
    by (simp_all add: demo_migrations_def demo_session_def migration_inv_def)
  from migrations_apply_once [OF prod.collapse [symmetric] this(1,2,3,4,5), where others = "\<lambda>st. st", OF this(5)]
  show ?thesis by blast
qed

end
