(* ===== verification/Relayer_Main.thy ===== *)
theory Relayer_Main
  imports Relayer_Config Relayer_Ops Db_Migrate Wallet_Pool Demo_Relay
begin

section \<open>Starting the relayer bot\<close>

text \<open>
  \<open>relayer-bot/src/bin.ts\<close>: the role, the checks that gate a role's start and what a role is started
  with. The file system, the provider constructor, the outcome of the database check, of the
  migrations (\<open>runMigrations\<close>, proved in \<open>Db_Migrate\<close>) and of each node's first answer are parameters.
  A startup that throws ends in \<open>main().catch\<close>, which exits with status 1.
\<close>

definition parseRoleArg :: "string list \<Rightarrow> env \<Rightarrow> relayer_role res" where
  "parseRoleArg argv env =
     (case find (starts_with ''--role='') argv of
        Some flag \<Rightarrow> parseRole (Some (drop (length ''--role='') flag))
      | None \<Rightarrow> parseRole (env ''RELAYER_ROLE''))"

record filesystem =
  fs_exists :: "string \<Rightarrow> bool"
  fs_dirname :: "string \<Rightarrow> string"
  fs_join :: "string \<Rightarrow> string \<Rightarrow> string"

fun walk_up :: "filesystem \<Rightarrow> nat \<Rightarrow> string \<Rightarrow> string res" where
  "walk_up fs 0 dir = Throw (new_error PlainError ''could not locate the migrations directory'')"
| "walk_up fs (Suc n) dir =
     (if fs_exists fs (fs_join fs dir ''migrations'') \<and> fs_exists fs (fs_join fs dir ''package.json'')
      then Ok (fs_join fs dir ''migrations'')
      else if fs_dirname fs dir = dir then Throw (new_error PlainError ''could not locate the migrations directory'')
      else walk_up fs n (fs_dirname fs dir))"

definition resolveMigrationsDir :: "filesystem \<Rightarrow> string \<Rightarrow> string res" where
  "resolveMigrationsDir fs entry = walk_up fs 6 (fs_dirname fs entry)"

text \<open>A \<open>Map\<close>: setting a key that is there replaces its value in place.\<close>

fun map_put :: "'k \<Rightarrow> 'v \<Rightarrow> ('k \<times> 'v) list \<Rightarrow> ('k \<times> 'v) list" where
  "map_put k v [] = [(k, v)]"
| "map_put k v ((k', v') # kvs) = (if k = k' then (k, v) # kvs else (k', v') # map_put k v kvs)"

definition makeProviders :: "(string \<Rightarrow> nat option \<Rightarrow> provider) \<Rightarrow> chain_config list \<Rightarrow> (chainId \<times> provider) list" where
  "makeProviders newProvider cs =
     fold (\<lambda>c m. map_put (cc_chainId c)
        (newProvider (cc_rpcUrl c) (case cc_evmChainId c of Some n \<Rightarrow> (if n = 0 then None else Some n) | None \<Rightarrow> None)) m) cs []"

definition maxHeartbeatAgeMs :: "relayer_role \<Rightarrow> bot_config \<Rightarrow> nat" where
  "maxHeartbeatAgeMs role cfg =
     (case role of
        Listener_role \<Rightarrow> max (10 * scanLoopDelayMs cfg) 60000
      | Worker_role \<Rightarrow> max (3 * bc_queueVisibilityTimeoutMs cfg) 60000
      | _ \<Rightarrow> cronIntervalMin cfg * 60000 * 3)"

definition is_source_chain :: "chain_config \<Rightarrow> bool" where
  "is_source_chain c \<longleftrightarrow> cc_specialRelayerAddress c \<notin> {None, Some []}"

definition pool_max :: "bot_config \<Rightarrow> nat" where
  "pool_max cfg = max 10 (3 * length (filter is_source_chain (rc_chains cfg)) + 4)"

definition worker_partitions :: "bot_config \<Rightarrow> chainId list" where
  "worker_partitions cfg = map cc_chainId (filter is_source_chain (rc_chains cfg))"

subsection \<open>The VAA source of a worker\<close>

datatype vaa_source = Dev_source dev_guardian | Scan_source wormholescan

definition dev_provider_for :: "(chainId \<times> provider) list \<Rightarrow> chainId \<Rightarrow> provider res" where
  "dev_provider_for providers c =
     (case map_of providers c of
        None \<Rightarrow> Throw (new_error PlainError (''no provider for chain '' @ show_nat c))
      | Some p \<Rightarrow> Ok p)"

definition dev_core_for :: "(chainId \<times> chain_config) list \<Rightarrow> chainId \<Rightarrow> string res" where
  "dev_core_for registry c =
     bind_res (registry_require registry c) (\<lambda>chain.
       case cc_coreBridgeAddress chain of
         None \<Rightarrow> Throw (new_error PlainError (''chain '' @ show_nat c @ '' has no coreBridgeAddress''))
       | Some core \<Rightarrow>
           (if core = [] then Throw (new_error PlainError (''chain '' @ show_nat c @ '' has no coreBridgeAddress'')) else Ok core))"

definition whole_retry :: "retry_options \<Rightarrow> partial_retry" where
  "whole_retry r = \<lparr>pr_maxAttempts = Some (maxAttempts r), pr_initialDelayMs = Some (initialDelayMs r), pr_maxDelayMs = Some (maxDelayMs r)\<rparr>"

definition makeVaaFetcher ::
  "(string \<Rightarrow> string \<Rightarrow> (string \<times> string \<times> int) res) \<Rightarrow> (string \<Rightarrow> nat \<Rightarrow> fetch_response res)
   \<Rightarrow> bot_config \<Rightarrow> (chainId \<times> chain_config) list \<Rightarrow> (chainId \<times> provider) list \<Rightarrow> env \<Rightarrow> vaa_source res" where
  "makeVaaFetcher signingKey fetchImpl cfg registry providers env =
     (case env ''RELAYER_DEV_GUARDIAN_KEY'' of
        Some devKey \<Rightarrow>
          (if devKey = [] then Ok (Scan_source (new_wormholescan (bc_wormholescanUrl cfg) (Some (whole_retry (bc_rpcRetry cfg))) fetchImpl))
           else if \<not> bc_useDevSecrets cfg then Throw (new_error PlainError
             (''RELAYER_DEV_GUARDIAN_KEY is set but RELAYER_USE_DEV_SECRETS is not true - ''
              @ ''refusing to self-sign VAAs outside an explicit dev environment''))
           else Ok (Dev_source \<lparr>dg_sourceProviderFor = dev_provider_for providers, dg_coreAddressFor = dev_core_for registry,
             dg_signingKey = signingKey devKey, dg_guardianSetIndexOverride = None, dg_retry = bc_rpcRetry cfg\<rparr>))
      | None \<Rightarrow> Ok (Scan_source (new_wormholescan (bc_wormholescanUrl cfg) (Some (whole_retry (bc_rpcRetry cfg))) fetchImpl)))"

subsection \<open>Startup\<close>

record startup_env =
  su_argv :: "string list"
  su_env :: env
  su_eth :: ethers
  su_json :: "string \<Rightarrow> json option"
  su_parseEther :: "string \<Rightarrow> int res"
  su_fs :: filesystem
  su_entry :: string
  su_dbCheck :: "unit res"
  su_migrate :: "string \<Rightarrow> string list res"
  su_newProvider :: "string \<Rightarrow> nat option \<Rightarrow> provider"

definition migrate_schema :: "startup_env \<Rightarrow> string list res" where
  "migrate_schema su = bind_res (resolveMigrationsDir (su_fs su) (su_entry su)) (su_migrate su)"

definition checkRpc :: "(chainId \<times> provider) list \<Rightarrow> int list res" where
  "checkRpc providers = map_res (\<lambda>(_, p). rpc_getBlockNumber p 1) providers"

record started =
  st_role :: relayer_role
  st_config :: bot_config
  st_registry :: "(chainId \<times> chain_config) list"
  st_providers :: "(chainId \<times> provider) list"

datatype startup = Exit nat | Run started

definition start_role :: "startup_env \<Rightarrow> relayer_role \<Rightarrow> bot_config \<Rightarrow> started res" where
  "start_role su role cfg =
     bind_res (migrate_schema su) (\<lambda>_.
       let providers = makeProviders (su_newProvider su) (rc_chains cfg) in
       bind_res (checkRpc providers) (\<lambda>_.
       bind_res (makeChainRegistry (su_eth su) (rc_chains cfg)) (\<lambda>registry.
         Ok \<lparr>st_role = role, st_config = cfg, st_registry = registry, st_providers = providers\<rparr>)))"

definition main_startup :: "startup_env \<Rightarrow> startup" where
  "main_startup su =
     (case bind_res (parseRoleArg (su_argv su) (su_env su)) (\<lambda>role.
             bind_res (relayer_loadConfig (su_eth su) (su_json su) (su_parseEther su) (su_env su) role) (\<lambda>cfg. Ok (role, cfg))) of
        Inl _ \<Rightarrow> Exit 1
      | Inr (role, cfg) \<Rightarrow>
          (case su_dbCheck su of
             Inl _ \<Rightarrow> Exit 1
           | Inr _ \<Rightarrow>
               (if role = Migrate_role then (case migrate_schema su of Inl _ \<Rightarrow> Exit 1 | Inr _ \<Rightarrow> Exit 0)
                else (case start_role su role cfg of Inl _ \<Rightarrow> Exit 1 | Inr st \<Rightarrow> Run st))))"

text \<open>What \<open>runRole\<close> builds for a worker before its loop: the wallets, then the VAA source.\<close>

definition worker_parts ::
  "(string \<Rightarrow> string option res) \<Rightarrow> (string \<Rightarrow> string res) \<Rightarrow> (string \<Rightarrow> string \<Rightarrow> (string \<times> string \<times> int) res)
   \<Rightarrow> (string \<Rightarrow> nat \<Rightarrow> fetch_response res) \<Rightarrow> env \<Rightarrow> started \<Rightarrow> (string list \<times> vaa_source) res" where
  "worker_parts vault walletAddress signingKey fetchImpl env st =
     bind_res (createPgLockWalletPool
       (if bc_useDevSecrets (st_config st) then env_getSecret env else vault_getSecret vault)
       walletAddress (bc_walletSecretNames (st_config st))) (\<lambda>wallets.
     bind_res (makeVaaFetcher signingKey fetchImpl (st_config st) (st_registry st) (st_providers st) env) (\<lambda>fetcher.
       Ok (wallets, fetcher)))"

subsection \<open>What a started role can rely on\<close>

lemma map_put_keys: "set (map fst (map_put k v kvs)) = insert k (set (map fst kvs))"
  by (induction k v kvs rule: map_put.induct) (simp_all add: insert_commute)

lemma makeProviders_keys: "set (map fst (makeProviders np cs)) = cc_chainId ` set cs"
proof -
  have "set (map fst (fold (\<lambda>c m. map_put (cc_chainId c) (h c) m) cs m)) = set (map fst m) \<union> cc_chainId ` set cs"
    for h :: "chain_config \<Rightarrow> provider" and m
    by (induction cs arbitrary: m) (simp_all add: map_put_keys del: set_map)
  from this [of _ "[]"] show ?thesis unfolding makeProviders_def by simp
qed

lemma map_res_all_Ok: "map_res f xs = Ok ys \<Longrightarrow> x \<in> set xs \<Longrightarrow> \<exists>y. f x = Ok y"
  by (induction xs arbitrary: ys) (auto simp: bind_res_Ok_iff)

lemma main_startup_Run:
  assumes "main_startup su = Run st"
  shows "parseRoleArg (su_argv su) (su_env su) = Ok (st_role st)" "st_role st \<noteq> Migrate_role" "su_dbCheck su = Ok ()"
    "relayer_loadConfig (su_eth su) (su_json su) (su_parseEther su) (su_env su) (st_role st) = Ok (st_config st)"
    "start_role su (st_role st) (st_config st) = Ok st"
proof -
  obtain role cfg where l: "parseRoleArg (su_argv su) (su_env su) = Ok role"
      "relayer_loadConfig (su_eth su) (su_json su) (su_parseEther su) (su_env su) role = Ok cfg"
      "su_dbCheck su = Ok ()" "role \<noteq> Migrate_role" "start_role su role cfg = Ok st"
    using assms unfolding main_startup_def by (auto simp: bind_res_Ok_iff split: sum.splits if_splits)
  have "st_role st = role" "st_config st = cfg"
    using l(5) by (auto simp: start_role_def Let_def bind_res_Ok_iff)
  with l show "parseRoleArg (su_argv su) (su_env su) = Ok (st_role st)" "st_role st \<noteq> Migrate_role" "su_dbCheck su = Ok ()"
    "relayer_loadConfig (su_eth su) (su_json su) (su_parseEther su) (su_env su) (st_role st) = Ok (st_config st)"
    "start_role su (st_role st) (st_config st) = Ok st" by simp_all
qed

lemma start_role_Ok:
  assumes "start_role su role cfg = Ok st"
  shows "\<exists>vs. migrate_schema su = Ok vs" "st_providers st = makeProviders (su_newProvider su) (rc_chains cfg)"
    "\<And>c p. (c, p) \<in> set (st_providers st) \<Longrightarrow> \<exists>n. rpc_getBlockNumber p 1 = Ok n"
    "makeChainRegistry (su_eth su) (rc_chains cfg) = Ok (st_registry st)"
proof -
  obtain vs hs where l: "migrate_schema su = Ok vs" "checkRpc (makeProviders (su_newProvider su) (rc_chains cfg)) = Ok hs"
      "makeChainRegistry (su_eth su) (rc_chains cfg) = Ok (st_registry st)"
      "st_providers st = makeProviders (su_newProvider su) (rc_chains cfg)"
    using assms by (auto simp: start_role_def Let_def bind_res_Ok_iff)
  show "\<exists>n. rpc_getBlockNumber p 1 = Ok n" if "(c, p) \<in> set (st_providers st)" for c p
    using map_res_all_Ok [OF l(2) [unfolded checkRpc_def], of "(c, p)"] that l(4) by simp
  show "\<exists>vs. migrate_schema su = Ok vs" "st_providers st = makeProviders (su_newProvider su) (rc_chains cfg)"
    "makeChainRegistry (su_eth su) (rc_chains cfg) = Ok (st_registry st)" using l by simp_all
qed

lemma makeVaaFetcher_source:
  assumes "makeVaaFetcher sk fi cfg registry providers env = Ok (Dev_source dg)"
  shows "bc_useDevSecrets cfg \<and> env ''RELAYER_DEV_GUARDIAN_KEY'' \<notin> {None, Some []}"
  using assms unfolding makeVaaFetcher_def by (auto split: option.splits if_splits)

lemma createPgLockWalletPool_length: "createPgLockWalletPool gs wa names = Ok ws \<Longrightarrow> length ws = length names"
proof -
  have "map_res f xs = Ok ys \<Longrightarrow> length ys = length xs" for f :: "string \<Rightarrow> string res" and xs ys
    by (induction xs arbitrary: ys) (auto simp: bind_res_Ok_iff)
  then show "createPgLockWalletPool gs wa names = Ok ws \<Longrightarrow> length ws = length names"
    by (auto simp: createPgLockWalletPool_def split: if_splits)
qed

definition role_gated :: "startup_env \<Rightarrow> started \<Rightarrow> bool" where
  "role_gated su st \<longleftrightarrow>
     st_role st \<noteq> Migrate_role \<and> bc_role (st_config st) = st_role st \<and> bot_config_typed (st_config st) \<and>
     su_dbCheck su = Ok () \<and> (\<exists>vs. migrate_schema su = Ok vs) \<and>
     distinct (map cc_chainId (rc_chains (st_config st))) \<and> map fst (st_registry st) = map cc_chainId (rc_chains (st_config st)) \<and>
     (\<forall>c \<in> set (rc_chains (st_config st)). \<exists>p. (cc_chainId c, p) \<in> set (st_providers st)) \<and>
     (\<forall>c p. (c, p) \<in> set (st_providers st) \<longrightarrow> (\<exists>n. rpc_getBlockNumber p 1 = Ok n))"

text \<open>C30: A role runs only behind its gates: the configuration is well typed for the role, the database
  answered, the migrations ran, every configured chain has a provider that answered, and the chain ids
  are distinct. A worker that gets its parts has a wallet per secret name; outside an explicit
  development setup its VAAs come from Wormholescan, never from a self-signing guardian, its keys from
  the vault, and its gas price has a ceiling.\<close>

theorem roles_start_gated:
  assumes "main_startup su = Run st"
  shows "role_gated su st \<and>
    (\<forall>wallets source. st_role st = Worker_role \<and> worker_parts vault wa sk fi (su_env su) st = Ok (wallets, source) \<longrightarrow>
       wallets \<noteq> [] \<and> length wallets = length (bc_walletSecretNames (st_config st)) \<and>
       (bc_useDevSecrets (st_config st) \<or>
        (\<exists>ws. source = Scan_source ws) \<and> 0 < maxGasPriceWei (rc_delivery (st_config st)) \<and>
        createPgLockWalletPool (vault_getSecret vault) wa (bc_walletSecretNames (st_config st)) = Ok wallets))"
proof (intro conjI allI impI)
  note run = main_startup_Run [OF assms]
  note start = start_role_Ok [OF run(5)]
  have typed: "bot_config_typed (st_config st)" "bc_role (st_config st) = st_role st" using loaded_config_typed [OF run(4)] by simp_all
  have "\<exists>p. (cc_chainId c, p) \<in> set (st_providers st)" if "c \<in> set (rc_chains (st_config st))" for c
    using makeProviders_keys [of "su_newProvider su" "rc_chains (st_config st)"] that unfolding start(2) by force
  then show "role_gated su st"
    unfolding role_gated_def using typed run(2,3) start makeChainRegistry_entries [OF start(4)] by blast
  fix wallets source
  assume w: "st_role st = Worker_role \<and> worker_parts vault wa sk fi (su_env su) st = Ok (wallets, source)"
  have role: "bc_walletSecretNames (st_config st) \<noteq> []"
      "bc_useDevSecrets (st_config st) \<or> 0 < maxGasPriceWei (rc_delivery (st_config st))"
    using typed w unfolding bot_config_typed_def role_typed_def by auto
  obtain p: "createPgLockWalletPool (if bc_useDevSecrets (st_config st) then env_getSecret (su_env su) else vault_getSecret vault) wa
      (bc_walletSecretNames (st_config st)) = Ok wallets"
    and v: "makeVaaFetcher sk fi (st_config st) (st_registry st) (st_providers st) (su_env su) = Ok source"
    using w unfolding worker_parts_def by (auto simp: bind_res_Ok_iff)
  show "length wallets = length (bc_walletSecretNames (st_config st))" "wallets \<noteq> []"
    using createPgLockWalletPool_length [OF p] role(1) by auto
  show "bc_useDevSecrets (st_config st) \<or>
        (\<exists>ws. source = Scan_source ws) \<and> 0 < maxGasPriceWei (rc_delivery (st_config st)) \<and>
        createPgLockWalletPool (vault_getSecret vault) wa (bc_walletSecretNames (st_config st)) = Ok wallets"
    using role(2) p makeVaaFetcher_source v by (cases source) auto
qed

text \<open>The health probe of a role allows at least three of its beats to be missed.\<close>

lemma heartbeat_slack:
  assumes "bot_config_typed cfg"
  shows "3 * scanLoopDelayMs cfg \<le> maxHeartbeatAgeMs Listener_role cfg" "3 * bc_queueVisibilityTimeoutMs cfg \<le> maxHeartbeatAgeMs Worker_role cfg"
    "3 * (cronIntervalMin cfg * 60000) \<le> maxHeartbeatAgeMs Cron_role cfg" "60000 \<le> maxHeartbeatAgeMs role cfg"
proof -
  have "1 \<le> cronIntervalMin cfg" using assms by (simp add: bot_config_typed_def timings_typed_def)
  then show "60000 \<le> maxHeartbeatAgeMs role cfg" by (cases role) (simp_all add: maxHeartbeatAgeMs_def)
qed (simp_all add: maxHeartbeatAgeMs_def)

text \<open>
  The pool holds, for every partition, its lock, the lock of the message in flight and the wallet
  transaction, with connections to spare.
\<close>

lemma pool_suffices: "3 * length (worker_partitions cfg) + 4 \<le> pool_max cfg"
  by (simp add: pool_max_def worker_partitions_def)

subsection \<open>A startup that runs\<close>

definition demo_startup :: startup_env where
  "demo_startup = \<lparr>su_argv = [''--role=worker''], su_env = demo_bot_env, su_eth = demo_eth, su_json = demo_bot_json,
     su_parseEther = demo_parseEther, su_fs = \<lparr>fs_exists = (\<lambda>_. True), fs_dirname = (\<lambda>d. d), fs_join = (\<lambda>a b. a @ b)\<rparr>,
     su_entry = ''e'', su_dbCheck = Ok (), su_migrate = (\<lambda>_. Ok []), su_newProvider = (\<lambda>_ _. demo_provider)\<rparr>"

lemma demo_startup_runs: "\<exists>st. main_startup demo_startup = Run st"
proof -
  obtain cfg where c: "relayer_loadConfig demo_eth demo_bot_json demo_parseEther demo_bot_env Worker_role = Ok cfg" "rc_chains cfg = [demo_bot_chain]"
    using demo_bot_loads by blast
  have "parseRoleArg [''--role=worker''] demo_bot_env = Ok Worker_role"
    by (simp add: parseRoleArg_def starts_with_def parseRole_def)
  moreover have "migrate_schema demo_startup = Ok []"
    by (simp add: migrate_schema_def demo_startup_def resolveMigrationsDir_def eval_nat_numeral)
  moreover have "\<exists>h. rpc_getBlockNumber demo_provider 1 = Ok h" by (simp add: demo_provider_def)
  ultimately show ?thesis using c
    by (auto simp: main_startup_def start_role_def demo_startup_def makeProviders_def checkRpc_def makeChainRegistry_def
        normalize_address_def demo_bot_chain_def)
qed

theorem roles_start_gated_witness: "\<exists>st. main_startup demo_startup = Run st \<and> role_gated demo_startup st"
  using demo_startup_runs roles_start_gated by blast

end
