(* ===== verification/Ntt_Amounts.thy ===== *)
theory Ntt_Amounts
  imports Prelude
begin

unbundle bit_operations_syntax

section \<open>Amounts of the NTT SDK\<close>

text \<open>
  \<open>sdk/definitions/src/trimmedAmount.ts\<close>, the number and payload conversions of
  \<open>layouts/transfer.ts\<close>, \<open>abiVersionMatches\<close> and the instruction encoding of \<open>ntt.ts\<close>, and the amount
  functions of the routes (\<open>route/src/types.ts\<close>, \<open>executor/utils.ts\<close>). The Wormhole SDK's \<open>amount\<close>
  module is a parameter (\<open>sdk_amount\<close>) whose documented behaviour is \<open>sdk_amount_laws\<close>.
\<close>

subsection \<open>Trimmed amounts\<close>

record trimmed_amount =
  ta_amount :: int
  ta_decimals :: int

definition decodeTrimmedAmount :: "int \<Rightarrow> trimmed_amount" where
  "decodeTrimmedAmount encoded = \<lparr>ta_amount = drop_bit 8 encoded, ta_decimals = encoded AND 0xff\<rparr>"

definition encodeTrimmedAmount :: "trimmed_amount \<Rightarrow> int res" where
  "encodeTrimmedAmount t =
     (if ta_decimals t < 0 \<or> 255 < ta_decimals t then Throw (new_error PlainError ''decimals out of range'')
      else if ta_amount t < 0 \<or> push_bit 64 1 \<le> ta_amount t then Throw (new_error PlainError ''amount out of range'')
      else Ok (push_bit 8 (ta_amount t) OR ta_decimals t))"

definition scale :: "int \<Rightarrow> nat \<Rightarrow> nat \<Rightarrow> int" where
  "scale amount fromDecimals toDecimals =
     (if fromDecimals = toDecimals then amount
      else if toDecimals < fromDecimals then bigint_div amount (10 ^ (fromDecimals - toDecimals))
      else amount * 10 ^ (toDecimals - fromDecimals))"

definition untrim :: "trimmed_amount \<Rightarrow> nat \<Rightarrow> int" where
  "untrim t toDecimals = scale (ta_amount t) (nat (ta_decimals t)) toDecimals"

subsection \<open>Payload conversions\<close>

definition deserializeNum :: "bytes \<Rightarrow> nat \<Rightarrow> nat res" where
  "deserializeNum encoded sz =
     (if length encoded < sz then Throw (new_error TypeError ''Cannot convert undefined to a BigInt'')
      else Ok (foldl (\<lambda>val i. val OR push_bit (8 * (sz - i - 1)) (unat (encoded ! i))) 0 [0..<sz]))"

definition serializeNum :: "int \<Rightarrow> nat \<Rightarrow> bytes res" where
  "serializeNum val sz =
     (if 2 ^ (sz * 8) \<le> val
      then Throw (new_error PlainError (''Value '' @ show_int val @ '' is too large for '' @ show_nat sz @ '' bytes''))
      else Ok (map (\<lambda>i. word_of_int (drop_bit (8 * (sz - i - 1)) val AND 0xff)) [0..<sz]))"

definition additional_payload_to :: "bytes \<Rightarrow> bytes res" where
  "additional_payload_to val =
     (if 2 \<le> length val then bind_res (deserializeNum val 2) (\<lambda>len. Ok (take len (drop 2 val))) else Ok [])"

definition additional_payload_from :: "bytes \<Rightarrow> bytes res" where
  "additional_payload_from val =
     (if 0 < length val then bind_res (serializeNum (int (length val)) 2) (\<lambda>len. Ok (len @ val)) else Ok [])"

record transceiver_instruction =
  ti_index :: nat
  ti_payload :: bytes

text \<open>\<open>serializeLayout(transceiverInstructionLayout(), _)\<close> is the parameter \<open>ser\<close>.\<close>

definition encodeTransceiverInstructions ::
  "(transceiver_instruction \<Rightarrow> bytes res) \<Rightarrow> transceiver_instruction list \<Rightarrow> bytes res" where
  "encodeTransceiverInstructions ser ixs =
     (if 255 < length ixs then Throw (new_error PlainError (''Too many instructions ('' @ show_nat (length ixs) @ '')''))
      else bind_res (map_res ser ixs) (\<lambda>parts. Ok (word_of_nat (length ixs) # concat parts)))"

subsection \<open>ABI versions\<close>

definition parseVersion :: "string \<Rightarrow> (nat \<times> nat) res" where
  "parseVersion version =
     (let major = takeWhile is_digit version; rest = dropWhile is_digit version;
          minor = takeWhile is_digit (tl rest); rest2 = dropWhile is_digit (tl rest) in
      if major = [] \<or> rest = [] \<or> hd rest \<noteq> CHR ''.'' \<or> minor = [] \<or> rest2 = [] \<or> hd rest2 \<noteq> CHR ''.'' \<or>
         CHR 0x0A \<in> set rest2 \<or> CHR 0x0D \<in> set rest2
      then Throw (new_error PlainError (''Invalid version format: '' @ version))
      else Ok (dec_val major, dec_val minor))"

definition abiVersionMatches :: "string \<Rightarrow> string \<Rightarrow> bool res" where
  "abiVersionMatches targetVersion abiVersion =
     bind_res (parseVersion targetVersion) (\<lambda>(majorTarget, minorTarget).
     bind_res (parseVersion abiVersion) (\<lambda>(majorAbi, minorAbi).
       Ok (majorTarget = majorAbi \<and> minorAbi \<le> minorTarget)))"

subsection \<open>Route amounts\<close>

record 'a sdk_amount =
  sa_units :: "'a \<Rightarrow> int"
  sa_decimals :: "'a \<Rightarrow> nat"
  sa_truncate :: "'a \<Rightarrow> nat \<Rightarrow> 'a"
  sa_fromBaseUnits :: "int \<Rightarrow> nat \<Rightarrow> 'a"

definition TRIMMED_DECIMALS :: nat where
  "TRIMMED_DECIMALS = 8"

definition trimAmount :: "'a sdk_amount \<Rightarrow> 'a \<Rightarrow> nat \<Rightarrow> 'a" where
  "trimAmount sa amt dstTokenDecimals =
     sa_truncate sa amt (min (min (sa_decimals sa amt) dstTokenDecimals) TRIMMED_DECIMALS)"

definition isCapacityThresholdExceeded :: "int \<Rightarrow> int \<Rightarrow> bool" where
  "isCapacityThresholdExceeded amount capacity = (amount > bigint_div (capacity * 95) 100)"

record referrer_fee =
  rf_referrerFee :: int
  rf_remainingAmount :: int
  rf_referrerFeeDbps :: int

definition MAX_U16 :: int where
  "MAX_U16 = 65535"

definition calculateReferrerFee :: "'a sdk_amount \<Rightarrow> 'a \<Rightarrow> int \<Rightarrow> nat \<Rightarrow> referrer_fee res" where
  "calculateReferrerFee sa amt dBps destinationTokenDecimals =
     (if MAX_U16 < dBps then Throw (new_error PlainError ''dBps exceeds max u16'')
      else
        (let amount = sa_units sa amt in
         if 0 < dBps then
           (let fee = bigint_div (amount * dBps) 100000;
                trimmedFee = trimAmount sa (sa_fromBaseUnits sa fee (sa_decimals sa amt)) destinationTokenDecimals in
            Ok \<lparr>rf_referrerFee = fee, rf_remainingAmount = amount - sa_units sa trimmedFee, rf_referrerFeeDbps = dBps\<rparr>)
         else Ok \<lparr>rf_referrerFee = 0, rf_remainingAmount = amount, rf_referrerFeeDbps = dBps\<rparr>))"

text \<open>
  What the routes rely on of the SDK: base units survive, truncating to fewer decimals drops the low
  digits of a non-negative amount and keeps its decimals.
\<close>

definition sdk_amount_laws :: "'a sdk_amount \<Rightarrow> bool" where
  "sdk_amount_laws sa \<longleftrightarrow>
     (\<forall>u d. sa_units sa (sa_fromBaseUnits sa u d) = u \<and> sa_decimals sa (sa_fromBaseUnits sa u d) = d) \<and>
     (\<forall>a k. sa_decimals sa (sa_truncate sa a k) = sa_decimals sa a) \<and>
     (\<forall>a k. 0 \<le> sa_units sa a \<longrightarrow>
        sa_units sa (sa_truncate sa a k) = sa_units sa a - sa_units sa a mod 10 ^ (sa_decimals sa a - k))"

subsection \<open>Trimmed amounts are 72-bit words\<close>

lemma or_low_byte_nat:
  assumes "d < 256"
  shows "push_bit 8 a OR d = a * 256 + (d :: nat)"
proof -
  have "take_bit 8 d = d" using assms by (simp add: take_bit_nat_eq_self)
  then have "bit d n \<Longrightarrow> n < 8" for n by (metis bit_take_bit_iff)
  then have "push_bit 8 a AND d = 0" by (force simp: bit_eq_iff bit_simps)
  then show ?thesis by (simp add: disjunctive_add_eq_or [symmetric] push_bit_eq_mult)
qed

lemma or_low_byte:
  assumes "0 \<le> d" "d < 256" "0 \<le> a"
  shows "push_bit 8 a OR d = a * 256 + (d :: int)"
proof -
  have "push_bit 8 (int (nat a)) OR int (nat d) = int (nat a) * 256 + int (nat d)"
    using or_low_byte_nat [of "nat d" "nat a"] assms by (metis (no_types, lifting) of_nat_add of_nat_mult of_nat_numeral of_nat_or_eq of_nat_push_bit nat_less_iff)
  then show ?thesis using assms by simp
qed

lemma or_low_mult: "0 \<le> d \<Longrightarrow> d < 256 \<Longrightarrow> 0 \<le> a \<Longrightarrow> a * 256 OR d = a * 256 + (d :: int)"
  using or_low_byte by (simp add: push_bit_eq_mult)

lemma low_byte: "(v :: int) AND 0xff = v mod 256"
  using take_bit_eq_mask [of 8 v] by (simp add: take_bit_eq_mod mask_eq_exp_minus_1)

lemma encodeTrimmedAmount_Ok_iff:
  "encodeTrimmedAmount t = Ok e \<longleftrightarrow>
     0 \<le> ta_decimals t \<and> ta_decimals t < 256 \<and> 0 \<le> ta_amount t \<and> ta_amount t < 2 ^ 64 \<and> e = ta_amount t * 256 + ta_decimals t"
  by (auto simp: encodeTrimmedAmount_def or_low_mult push_bit_eq_mult)

text \<open>C32: Trimmed amounts and their 72-bit encoding are in one-to-one correspondence: an encoding fits
  \<open>uint72\<close> and decodes to the amount it was made from, every \<open>uint72\<close> decodes to an amount that encodes
  back to it, and encoding fails exactly outside \<open>uint8\<close> decimals and \<open>uint64\<close> amounts.\<close>

theorem trimmed_amount_round_trip:
  "(\<forall>t e. encodeTrimmedAmount t = Ok e \<longrightarrow> decodeTrimmedAmount e = t \<and> 0 \<le> e \<and> e < 2 ^ 72) \<and>
   (\<forall>e. 0 \<le> e \<and> e < 2 ^ 72 \<longrightarrow> encodeTrimmedAmount (decodeTrimmedAmount e) = Ok e) \<and>
   (\<forall>t. (\<exists>e. encodeTrimmedAmount t = Ok e) \<longleftrightarrow> ta_decimals t \<in> {0..<2 ^ 8} \<and> ta_amount t \<in> {0..<2 ^ 64})"
proof (intro conjI allI impI)
  fix t e
  assume "encodeTrimmedAmount t = Ok e"
  then have t: "0 \<le> ta_decimals t" "ta_decimals t < 256" "0 \<le> ta_amount t" "ta_amount t < 2 ^ 64" "e = ta_amount t * 256 + ta_decimals t"
    by (simp_all add: encodeTrimmedAmount_Ok_iff)
  then show "decodeTrimmedAmount e = t" by (simp add: decodeTrimmedAmount_def low_byte drop_bit_eq_div)
  show "0 \<le> e" "e < 2 ^ 72" using t by simp_all
next
  fix e :: int
  assume e: "0 \<le> e \<and> e < 2 ^ 72"
  have "0 \<le> e mod 256" "e < 4722366482869645213696" using e by simp_all
  then have "e div 256 < 2 ^ 64" using div_mult_mod_eq [of e 256] by simp
  then show "encodeTrimmedAmount (decodeTrimmedAmount e) = Ok e"
    using e by (simp add: encodeTrimmedAmount_Ok_iff decodeTrimmedAmount_def low_byte drop_bit_eq_div pos_imp_zdiv_nonneg_iff)
qed (auto simp: encodeTrimmedAmount_Ok_iff)

theorem trimmed_amount_round_trip_witness:
  "encodeTrimmedAmount \<lparr>ta_amount = 5, ta_decimals = 8\<rparr> = Ok 1288 \<and> decodeTrimmedAmount 1288 = \<lparr>ta_amount = 5, ta_decimals = 8\<rparr>"
proof -
  have "encodeTrimmedAmount \<lparr>ta_amount = 5, ta_decimals = 8\<rparr> = Ok 1288" by (simp add: encodeTrimmedAmount_Ok_iff)
  then show ?thesis using trimmed_amount_round_trip by blast
qed

subsection \<open>Length prefixes\<close>

lemma deserialize_prefix:
  assumes "i \<le> sz" "sz \<le> length bs"
  shows "foldl (\<lambda>val i. val OR push_bit (8 * (sz - i - 1)) (unat (bs ! i))) 0 [0..<i] = push_bit (8 * (sz - i)) (be_decode (take i bs))"
  using assms(1)
proof (induction i)
  case (Suc i)
  let ?b = "unat (bs ! i)" and ?d = "be_decode (take i bs)"
  have b: "?b < 256" using unsigned_less [of "bs ! i", where 'a = nat] by simp
  have sz: "8 * (sz - i) = 8 * (sz - i - 1) + 8" using Suc.prems by (simp add: algebra_simps)
  have "push_bit (8 * (sz - i)) ?d OR push_bit (8 * (sz - i - 1)) ?b = push_bit (8 * (sz - i - 1)) (push_bit 8 ?d OR ?b)"
    unfolding sz by (simp add: push_bit_or push_bit_push_bit)
  also have "\<dots> = push_bit (8 * (sz - Suc i)) (be_decode (take (Suc i) bs))"
    using Suc.prems assms(2) by (simp add: or_low_byte_nat [OF b] take_Suc_conv_app_nth be_decode_def)
  finally show ?case using Suc by simp
qed simp

lemma deserializeNum_be: "sz \<le> length bs \<Longrightarrow> deserializeNum bs sz = Ok (be_decode (take sz bs))"
  using deserialize_prefix [of sz sz bs] by (simp add: deserializeNum_def)

lemma serializeNum_be:
  assumes "v < 256 ^ sz"
  shows "serializeNum (int v) sz = Ok (be_encode sz v)"
proof -
  have "(2 :: int) ^ (sz * 8) = 256 ^ sz" unfolding mult.commute [of sz] power_mult by simp
  moreover have "int v < 256 ^ sz" using assms by (metis of_nat_less_iff of_nat_numeral of_nat_power)
  ultimately have "int v < 2 ^ (sz * 8)" by simp
  moreover have "map (\<lambda>i. word_of_int (drop_bit (8 * (k - i - 1)) (int w) AND 0xff)) [0..<k] = be_encode k w" for k w
  proof (induction k)
    case (Suc k)
    have "word_of_int (drop_bit (8 * k) (int w) AND 0xff) = (word_of_nat (w div 256 ^ k) :: 8 word)"
    proof -
      have "drop_bit (8 * k) (int w) = int (w div 256 ^ k)"
        by (simp add: drop_bit_eq_div power_mult of_nat_div)
      moreover have "word_of_int (x mod 256) = (word_of_int x :: 8 word)" for x
        by (simp add: word_of_int_eq_iff take_bit_eq_mod)
      ultimately show ?thesis unfolding low_byte by simp
    qed
    then show ?case using Suc by (simp add: upt_conv_Cons map_Suc_upt [symmetric] comp_def del: upt_Suc)
  qed simp
  ultimately show ?thesis by (simp add: serializeNum_def)
qed

lemma additional_payload_from_Ok:
  assumes "0 < length v" "length v < 2 ^ 16"
  shows "additional_payload_from v = Ok (be_encode 2 (length v) @ v)"
  using assms serializeNum_be [of "length v" 2] by (simp add: additional_payload_from_def)

text \<open>A transfer's additional payload survives its length-prefixed encoding, whatever bytes follow
  it, as long as it fits the two-byte prefix; a longer one is refused when it is encoded.\<close>

theorem additional_payload_round_trip:
  "(\<forall>v. length v < 2 ^ 16 \<longrightarrow>
      (\<exists>bs. additional_payload_from v = Ok bs \<and> additional_payload_to bs = Ok v \<and>
         (v \<noteq> [] \<longrightarrow> length bs = length v + 2 \<and> (\<forall>rest. additional_payload_to (bs @ rest) = Ok v)))) \<and>
   (\<forall>v. 2 ^ 16 \<le> length v \<longrightarrow> (\<exists>e. additional_payload_from v = Throw e))"
proof (intro conjI allI impI)
  fix v :: bytes
  assume v: "length v < 2 ^ 16"
  show "\<exists>bs. additional_payload_from v = Ok bs \<and> additional_payload_to bs = Ok v \<and>
      (v \<noteq> [] \<longrightarrow> length bs = length v + 2 \<and> (\<forall>rest. additional_payload_to (bs @ rest) = Ok v))"
  proof (cases "v = []")
    case False
    have "additional_payload_to ((be_encode 2 (length v) @ v) @ rest) = Ok v" for rest
      using v by (simp add: additional_payload_to_def deserializeNum_be)
    from this [of "[]"] this show ?thesis using additional_payload_from_Ok [of v] v False by auto
  qed (simp add: additional_payload_from_def additional_payload_to_def)
next
  fix v :: bytes
  assume "2 ^ 16 \<le> length v"
  then show "\<exists>e. additional_payload_from v = Throw e"
    by (auto simp: additional_payload_from_def serializeNum_def)
qed

theorem additional_payload_round_trip_witness:
  "\<exists>bs. additional_payload_from [1, 2, 3] = Ok bs \<and> additional_payload_to (bs @ [9]) = Ok [1, 2, 3]"
  using additional_payload_round_trip [THEN conjunct1, THEN spec, of "[1, 2, 3]"] by auto

text \<open>
  Decoding is lenient: a prefix that promises more bytes than there are, and the explicit empty
  payload \<open>0x0000\<close>, are accepted; neither is what encoding produces.
\<close>

lemma additional_payload_lenient:
  "additional_payload_to [0, 5, 7] = Ok [7]" "additional_payload_to [0, 0] = Ok []" "additional_payload_from [] = Ok []"
  by (simp_all add: additional_payload_to_def deserializeNum_be be_decode_def additional_payload_from_def)

subsection \<open>Scaling and dust\<close>

lemma bigint_div_mult: "0 < b \<Longrightarrow> bigint_div (a * b) b = a"
  by (simp add: bigint_div_def abs_mult sgn_mult sgn_mult_abs)

lemma scale_up_down: "f \<le> t \<Longrightarrow> scale (scale a f t) t f = a"
  by (auto simp: scale_def bigint_div_mult)

lemma scale_down: "t \<le> f \<Longrightarrow> 0 \<le> a \<Longrightarrow> scale a f t = a div 10 ^ (f - t)"
  by (auto simp: scale_def bigint_div_nonneg)

lemma scale_down_up:
  "t \<le> f \<Longrightarrow> 0 \<le> a \<Longrightarrow> scale (scale a f t) t f = a - a mod 10 ^ (f - t)"
  by (cases "t = f") (simp_all add: scale_down minus_mod_eq_div_mult, simp add: scale_def)

lemma trimAmount_units:
  assumes "sdk_amount_laws sa" "0 \<le> sa_units sa amt"
  shows "sa_units sa (trimAmount sa amt dst) =
    sa_units sa amt - sa_units sa amt mod 10 ^ (sa_decimals sa amt - min (min (sa_decimals sa amt) dst) TRIMMED_DECIMALS)"
  using assms by (simp add: trimAmount_def sdk_amount_laws_def)

text \<open>The amount a route transfers carries no dust: truncated to the decimals both chains and the
  eight-decimal wire format can hold, it is at most what was asked for, by less than one transferable
  unit, and trimming it to the wire's decimals and back (what the manager contract checks) returns it
  unchanged.\<close>

theorem route_amount_has_no_dust:
  assumes "sdk_amount_laws sa" and "0 \<le> sa_units sa amt"
  shows "let dec = sa_decimals sa amt; wire = min (min dec dst) TRIMMED_DECIMALS; u = sa_units sa (trimAmount sa amt dst) in
    sa_decimals sa (trimAmount sa amt dst) = dec \<and> 0 \<le> u \<and> u \<le> sa_units sa amt \<and> sa_units sa amt - u < 10 ^ (dec - wire) \<and>
    untrim \<lparr>ta_amount = scale u dec wire, ta_decimals = int wire\<rparr> dec = u"
proof -
  let ?a = "sa_units sa amt" and ?dec = "sa_decimals sa amt"
  let ?wire = "min (min ?dec dst) TRIMMED_DECIMALS"
  let ?u = "sa_units sa (trimAmount sa amt dst)" and ?m = "10 ^ (?dec - ?wire) :: int"
  have u: "?u = ?a - ?a mod ?m" using trimAmount_units [OF assms] .
  have r: "0 \<le> ?a mod ?m" "?a mod ?m < ?m" "?a mod ?m \<le> ?a" using assms(2) by (simp_all add: zmod_le_nonneg_dividend)
  have "?u mod ?m = 0" unfolding u by (simp add: minus_mod_eq_div_mult)
  moreover have "0 \<le> ?u" using u r by simp
  ultimately have "scale (scale ?u ?dec ?wire) ?wire ?dec = ?u" by (simp add: scale_down_up)
  moreover have "sa_decimals sa (trimAmount sa amt dst) = ?dec" using assms(1) by (simp add: trimAmount_def sdk_amount_laws_def)
  moreover have "0 \<le> ?u" "?u \<le> ?a" "?a - ?u < ?m" unfolding u using r by linarith+
  ultimately show ?thesis unfolding Let_def untrim_def trimmed_amount.simps nat_int by blast
qed

definition demo_amounts :: "(int \<times> nat) sdk_amount" where
  "demo_amounts = \<lparr>sa_units = fst, sa_decimals = snd, sa_truncate = (\<lambda>(u, d) k. (u - u mod 10 ^ (d - k), d)), sa_fromBaseUnits = Pair\<rparr>"

lemma demo_amount_laws: "sdk_amount_laws demo_amounts"
  by (simp add: sdk_amount_laws_def demo_amounts_def)

theorem route_amount_has_no_dust_witness:
  "sa_units demo_amounts (trimAmount demo_amounts (123456, 4) 2) = 123400 \<and>
   untrim \<lparr>ta_amount = scale 123400 4 2, ta_decimals = 2\<rparr> 4 = 123400"
proof -
  have v: "sa_units demo_amounts (trimAmount demo_amounts (123456, 4) 2) = 123400"
    by (simp add: trimAmount_def demo_amounts_def TRIMMED_DECIMALS_def)
  have "0 \<le> sa_units demo_amounts (123456, 4)" by (simp add: demo_amounts_def)
  from route_amount_has_no_dust [OF demo_amount_laws this, of 2] v show ?thesis
    by (simp add: Let_def demo_amounts_def TRIMMED_DECIMALS_def)
qed

text \<open>A referrer fee never exceeds two thirds of the amount, and what is taken off is the fee less its dust.\<close>

lemma referrer_fee_bounded:
  assumes "sdk_amount_laws sa" "0 \<le> sa_units sa amt" "calculateReferrerFee sa amt dBps dst = Ok r"
  shows "0 \<le> rf_referrerFee r \<and> 3 * rf_referrerFee r \<le> 2 * sa_units sa amt \<and>
    rf_remainingAmount r \<le> sa_units sa amt \<and> sa_units sa amt - rf_referrerFee r \<le> rf_remainingAmount r"
proof (cases "0 < dBps")
  case True
  let ?a = "sa_units sa amt"
  define fee where "fee = ?a * dBps div 100000"
  have b: "dBps \<le> 65535" using assms(3) by (auto simp: calculateReferrerFee_def MAX_U16_def split: if_splits)
  have nn: "0 \<le> fee" using True assms(2) by (simp add: fee_def pos_imp_zdiv_nonneg_iff)
  have "?a * dBps \<le> ?a * 65535" using assms(2) b by (simp add: mult_left_mono)
  moreover have "100000 * fee \<le> ?a * dBps" unfolding fee_def by (simp add: mult.commute)
  ultimately have two: "3 * fee \<le> 2 * ?a" using assms(2) by linarith
  have r: "rf_referrerFee r = fee" "rf_remainingAmount r =
      ?a - sa_units sa (trimAmount sa (sa_fromBaseUnits sa fee (sa_decimals sa amt)) dst)"
    using assms(2,3) True b by (auto simp: calculateReferrerFee_def Let_def fee_def bigint_div_nonneg MAX_U16_def)
  have f: "sa_units sa (sa_fromBaseUnits sa fee (sa_decimals sa amt)) = fee" using assms(1) by (simp add: sdk_amount_laws_def)
  show ?thesis unfolding r using nn two trimAmount_units [OF assms(1), of "sa_fromBaseUnits sa fee (sa_decimals sa amt)" dst]
    by (simp add: f zmod_le_nonneg_dividend)
next
  case False
  then show ?thesis using assms(2,3) by (auto simp: calculateReferrerFee_def Let_def split: if_splits)
qed

end
