(* ===== verification/Route_Config.thy ===== *)
theory Route_Config
  imports Prelude
begin

section \<open>Route configuration of the NTT SDK\<close>

text \<open>
  The resolution functions of \<open>sdk/route/src/types.ts\<close>: which tokens a route offers and which
  contracts a pair of tokens uses. \<open>config.tokens\<close> is the list of its entries in order. The Wormhole
  SDK's token functions are a parameter (\<open>wh_tokens\<close>) with their documented behaviour in
  \<open>wh_token_laws\<close>; \<open>'a\<close> is its type of addresses.
\<close>

record transceiver_config =
  tv_type :: string
  tv_address :: string

record token_config =
  tk_chain :: string
  tk_token :: string
  tk_manager :: string
  tk_transceiver :: "transceiver_config list"
  tk_quoter :: "string option"
  tk_isWrappedGasToken :: bool
  tk_unwrapsOnRedeem :: bool
  tk_svmShims :: "(string option \<times> string option) option"

type_synonym route_config = "(string \<times> token_config list) list"

record 'a token_id =
  tid_chain :: string
  tid_address :: 'a

record 'a wh_tokens =
  wt_tokenId :: "string \<Rightarrow> string \<Rightarrow> 'a token_id"
  wt_nativeTokenId :: "string \<Rightarrow> 'a token_id"
  wt_canonicalAddress :: "'a token_id \<Rightarrow> string"
  wt_isNative :: "'a \<Rightarrow> bool"

record ntt_contracts =
  ct_token :: string
  ct_manager :: string
  ct_wormhole :: string
  ct_quoter :: "string option"
  ct_svmShims :: "(string option \<times> string option) option"

definition resolveSupportedChains :: "route_config \<Rightarrow> string list" where
  "resolveSupportedChains cfg = concat (map (\<lambda>(_, tcs). map tk_chain tcs) cfg)"

fun resolveSourceTokens :: "'a wh_tokens \<Rightarrow> route_config \<Rightarrow> string \<Rightarrow> 'a token_id list" where
  "resolveSourceTokens wt [] fromChain = []"
| "resolveSourceTokens wt ((_, tcs) # cfg) fromChain =
     (case find (\<lambda>tc. tk_chain tc = fromChain) tcs of
        None \<Rightarrow> []
      | Some tc \<Rightarrow> wt_tokenId wt fromChain (tk_token tc) # (if tk_isWrappedGasToken tc then [wt_nativeTokenId wt fromChain] else []))
     @ resolveSourceTokens wt cfg fromChain"

definition token_matches :: "'a wh_tokens \<Rightarrow> 'a token_id \<Rightarrow> string \<Rightarrow> token_config \<Rightarrow> bool" where
  "token_matches wt tok chain tc \<longleftrightarrow>
     tk_chain tc = chain \<and>
     (toLowerCase (tk_token tc) = toLowerCase (wt_canonicalAddress wt tok) \<or> (wt_isNative wt (tid_address tok) \<and> tk_isWrappedGasToken tc))"

definition group_destination :: "'a wh_tokens \<Rightarrow> 'a token_id \<Rightarrow> string \<Rightarrow> string \<Rightarrow> token_config list \<Rightarrow> 'a token_id option" where
  "group_destination wt src fromChain toChain tcs =
     (case find (token_matches wt src fromChain) tcs of
        None \<Rightarrow> None
      | Some _ \<Rightarrow>
          (case find (\<lambda>tc. tk_chain tc = toChain) tcs of
             None \<Rightarrow> None
           | Some remote \<Rightarrow>
               Some (if tk_unwrapsOnRedeem remote then wt_nativeTokenId wt toChain else wt_tokenId wt toChain (tk_token remote))))"

definition resolveDestinationTokens ::
  "'a wh_tokens \<Rightarrow> route_config \<Rightarrow> 'a token_id \<Rightarrow> string \<Rightarrow> string \<Rightarrow> 'a token_id list" where
  "resolveDestinationTokens wt cfg src fromChain toChain =
     map the (filter (\<lambda>x. x \<noteq> None) (map (\<lambda>(_, tcs). group_destination wt src fromChain toChain tcs) cfg))"

definition wormhole_address :: "token_config \<Rightarrow> string res" where
  "wormhole_address tc =
     (case find (\<lambda>v. tv_type v = ''wormhole'') (tk_transceiver tc) of
        None \<Rightarrow> Throw (new_error TypeError ''Cannot read properties of undefined'')
      | Some v \<Rightarrow> Ok (tv_address v))"

definition found_contracts :: "token_config \<Rightarrow> string \<Rightarrow> string option \<Rightarrow> ntt_contracts res" where
  "found_contracts tc token quoter =
     bind_res (wormhole_address tc) (\<lambda>w.
       Ok \<lparr>ct_token = token, ct_manager = tk_manager tc, ct_wormhole = w, ct_quoter = quoter, ct_svmShims = tk_svmShims tc\<rparr>)"

fun resolveNttContracts ::
  "'a wh_tokens \<Rightarrow> route_config \<Rightarrow> 'a token_id \<Rightarrow> 'a token_id \<Rightarrow> (ntt_contracts \<times> ntt_contracts) res" where
  "resolveNttContracts wt [] src dst =
     Throw (new_error PlainError (''Cannot find Ntt contracts in config for: '' @ wt_canonicalAddress wt src))"
| "resolveNttContracts wt ((_, tcs) # cfg) src dst =
     (case find (token_matches wt src (tid_chain src)) tcs of
        None \<Rightarrow> resolveNttContracts wt cfg src dst
      | Some srcFound \<Rightarrow>
          (case find (token_matches wt dst (tid_chain dst)) tcs of
             None \<Rightarrow> resolveNttContracts wt cfg src dst
           | Some dstFound \<Rightarrow>
               bind_res (found_contracts srcFound (tk_token srcFound) (tk_quoter srcFound)) (\<lambda>s.
               bind_res (found_contracts dstFound (tk_token dstFound) None) (\<lambda>d. Ok (s, d)))))"

fun resolveDestinationNttContracts :: "route_config \<Rightarrow> string \<Rightarrow> string \<Rightarrow> string \<Rightarrow> ntt_contracts res" where
  "resolveDestinationNttContracts [] srcChain address dstChain =
     Throw (new_error PlainError (''Cannot find Ntt contracts in config for: '' @ address))"
| "resolveDestinationNttContracts ((_, tcs) # cfg) srcChain address dstChain =
     (case find (\<lambda>tc. toLowerCase (tk_manager tc) = toLowerCase address \<and> tk_chain tc = srcChain) tcs of
        None \<Rightarrow> resolveDestinationNttContracts cfg srcChain address dstChain
      | Some _ \<Rightarrow>
          (case find (\<lambda>tc. tk_chain tc = dstChain) tcs of
             None \<Rightarrow> Throw (new_error PlainError (''Cannot find destination Ntt contracts in config for: '' @ address))
           | Some remote \<Rightarrow>
               found_contracts remote (if tk_unwrapsOnRedeem remote then ''native'' else tk_token remote) (tk_quoter remote)))"

subsection \<open>What a route offers it can resolve\<close>

definition wh_token_laws :: "'a wh_tokens \<Rightarrow> bool" where
  "wh_token_laws wt \<longleftrightarrow>
     (\<forall>c a. tid_chain (wt_tokenId wt c a) = c \<and> toLowerCase (wt_canonicalAddress wt (wt_tokenId wt c a)) = toLowerCase a) \<and>
     (\<forall>c. tid_chain (wt_nativeTokenId wt c) = c \<and> wt_isNative wt (tid_address (wt_nativeTokenId wt c)))"

definition config_complete :: "route_config \<Rightarrow> bool" where
  "config_complete cfg \<longleftrightarrow>
     (\<forall>(nm, tcs) \<in> set cfg. \<forall>tc \<in> set tcs.
        (\<exists>v \<in> set (tk_transceiver tc). tv_type v = ''wormhole'') \<and> (tk_unwrapsOnRedeem tc \<longrightarrow> tk_isWrappedGasToken tc))"

definition contracts_of :: "token_config \<Rightarrow> ntt_contracts \<Rightarrow> bool" where
  "contracts_of tc ct \<longleftrightarrow> ct_token ct = tk_token tc \<and> ct_manager ct = tk_manager tc \<and> Ok (ct_wormhole ct) = wormhole_address tc"

lemma find_Some_in: "find P xs = Some x \<Longrightarrow> x \<in> set xs \<and> P x"
  by (auto simp: find_Some_iff)

lemma find_exists: "x \<in> set xs \<Longrightarrow> P x \<Longrightarrow> \<exists>y. find P xs = Some y"
  by (cases "find P xs") (auto simp: find_None_iff)

lemma found_contracts_ok:
  assumes "\<exists>v \<in> set (tk_transceiver tc). tv_type v = ''wormhole''"
  shows "\<exists>ct. found_contracts tc (tk_token tc) q = Ok ct \<and> contracts_of tc ct"
proof -
  obtain w where "w \<in> set (tk_transceiver tc)" "tv_type w = ''wormhole''" using assms by blast
  then obtain v where "find (\<lambda>v. tv_type v = ''wormhole'') (tk_transceiver tc) = Some v"
    using find_exists [of w _ "\<lambda>v. tv_type v = ''wormhole''"] by blast
  then show ?thesis by (simp add: found_contracts_def wormhole_address_def contracts_of_def)
qed

definition pair_resolved :: "'a wh_tokens \<Rightarrow> route_config \<Rightarrow> 'a token_id \<Rightarrow> 'a token_id \<Rightarrow> ntt_contracts \<Rightarrow> ntt_contracts \<Rightarrow> bool" where
  "pair_resolved wt cfg src dst s d \<longleftrightarrow>
     (\<exists>nm tcs sc dc. (nm, tcs) \<in> set cfg \<and> sc \<in> set tcs \<and> dc \<in> set tcs \<and>
        token_matches wt src (tid_chain src) sc \<and> token_matches wt dst (tid_chain dst) dc \<and> contracts_of sc s \<and> contracts_of dc d)"

lemma resolveNttContracts_finds:
  assumes "config_complete cfg" "(nm, tcs) \<in> set cfg" "sc \<in> set tcs" "dc \<in> set tcs"
    "token_matches wt src (tid_chain src) sc" "token_matches wt dst (tid_chain dst) dc"
  shows "\<exists>s d. resolveNttContracts wt cfg src dst = Ok (s, d) \<and> pair_resolved wt cfg src dst s d"
  using assms(1,2)
proof (induction cfg)
  case (Cons g cfg)
  obtain nm' tcs' where g: "g = (nm', tcs')" by fastforce
  have cc: "config_complete cfg" using Cons.prems(1) by (auto simp: config_complete_def)
  have up: "pair_resolved wt cfg src dst s d \<Longrightarrow> pair_resolved wt (g # cfg) src dst s d" for s d
    unfolding pair_resolved_def by (metis list.set_intros(2))
  show ?case
  proof (cases "find (token_matches wt src (tid_chain src)) tcs' = None \<or> find (token_matches wt dst (tid_chain dst)) tcs' = None")
    case True
    then have "(nm, tcs) \<noteq> g" using assms(3-6) by (auto simp: g find_None_iff)
    then have "(nm, tcs) \<in> set cfg" using Cons.prems(2) by simp
    from Cons.IH [OF cc this] show ?thesis using True up by (auto simp: g split: option.splits)
  next
    case False
    then obtain s' d' where f: "find (token_matches wt src (tid_chain src)) tcs' = Some s'" "find (token_matches wt dst (tid_chain dst)) tcs' = Some d'"
      by auto
    have "(\<exists>v \<in> set (tk_transceiver s'). tv_type v = ''wormhole'') \<and> (\<exists>v \<in> set (tk_transceiver d'). tv_type v = ''wormhole'')"
      using Cons.prems(1) find_Some_in [OF f(1)] find_Some_in [OF f(2)] by (auto simp: g config_complete_def)
    then obtain s d where "found_contracts s' (tk_token s') (tk_quoter s') = Ok s" "contracts_of s' s"
      "found_contracts d' (tk_token d') None = Ok d" "contracts_of d' d"
      using found_contracts_ok by metis
    moreover have "pair_resolved wt (g # cfg) src dst s d"
      unfolding pair_resolved_def using find_Some_in [OF f(1)] find_Some_in [OF f(2)] calculation(2,4) g by auto
    ultimately show ?thesis using f by (simp add: g)
  qed
qed simp

text \<open>Every destination token the route offers for a source token resolves to contracts: with a
  Wormhole transceiver on every entry and native redemption only where the entry is the wrapped gas
  token, \<open>resolveNttContracts\<close> returns, for one token of the configuration, the contracts of an entry
  that matches the source token on its chain and of one that matches the destination token on its.\<close>

theorem offered_destination_resolves:
  assumes "wh_token_laws wt" and "config_complete cfg"
    and "dst \<in> set (resolveDestinationTokens wt cfg src (tid_chain src) toChain)"
  shows "tid_chain dst = toChain \<and>
    (\<exists>s d. resolveNttContracts wt cfg src dst = Ok (s, d) \<and> pair_resolved wt cfg src dst s d)"
proof -
  obtain nm tcs where g: "(nm, tcs) \<in> set cfg" "group_destination wt src (tid_chain src) toChain tcs = Some dst"
    using assms(3) by (auto simp: resolveDestinationTokens_def)
  then obtain sc remote where f: "find (token_matches wt src (tid_chain src)) tcs = Some sc" "find (\<lambda>tc. tk_chain tc = toChain) tcs = Some remote"
    and d: "dst = (if tk_unwrapsOnRedeem remote then wt_nativeTokenId wt toChain else wt_tokenId wt toChain (tk_token remote))"
    by (auto simp: group_destination_def split: option.splits)
  have r: "remote \<in> set tcs" "tk_chain remote = toChain" using find_Some_in [OF f(2)] by auto
  have "tk_unwrapsOnRedeem remote \<longrightarrow> tk_isWrappedGasToken remote" using assms(2) g(1) r(1) by (auto simp: config_complete_def)
  then have "tid_chain dst = toChain" "token_matches wt dst toChain remote"
    using assms(1) r(2) by (auto simp: d wh_token_laws_def token_matches_def)
  then show ?thesis using resolveNttContracts_finds [OF assms(2) g(1)] find_Some_in [OF f(1)] r(1) by metis
qed

definition demo_tokens :: "string wh_tokens" where
  "demo_tokens = \<lparr>wt_tokenId = (\<lambda>c a. \<lparr>tid_chain = c, tid_address = a\<rparr>), wt_nativeTokenId = (\<lambda>c. \<lparr>tid_chain = c, tid_address = ''native''\<rparr>),
     wt_canonicalAddress = tid_address, wt_isNative = (\<lambda>a. a = ''native'')\<rparr>"

definition demo_entry :: "string \<Rightarrow> string \<Rightarrow> bool \<Rightarrow> token_config" where
  "demo_entry c t gas = \<lparr>tk_chain = c, tk_token = t, tk_manager = ''m'' @ c, tk_transceiver = [\<lparr>tv_type = ''wormhole'', tv_address = ''w'' @ c\<rparr>],
     tk_quoter = None, tk_isWrappedGasToken = gas, tk_unwrapsOnRedeem = gas, tk_svmShims = None\<rparr>"

definition demo_route_config :: route_config where
  "demo_route_config = [(''t'', [demo_entry ''a'' ''x'' False, demo_entry ''b'' ''y'' True])]"

theorem offered_destination_resolves_witness:
  "\<exists>s d. resolveNttContracts demo_tokens demo_route_config (wt_tokenId demo_tokens ''a'' ''x'') (wt_nativeTokenId demo_tokens ''b'') = Ok (s, d)"
proof -
  have "wh_token_laws demo_tokens" by (simp add: wh_token_laws_def demo_tokens_def)
  moreover have "config_complete demo_route_config" by (simp add: config_complete_def demo_route_config_def demo_entry_def)
  moreover have "wt_nativeTokenId demo_tokens ''b'' \<in> set (resolveDestinationTokens demo_tokens demo_route_config
      (wt_tokenId demo_tokens ''a'' ''x'') (tid_chain (wt_tokenId demo_tokens ''a'' ''x'')) ''b'')"
    by (simp add: resolveDestinationTokens_def group_destination_def token_matches_def demo_tokens_def demo_route_config_def demo_entry_def)
  ultimately show ?thesis using offered_destination_resolves by blast
qed

end
