(* ===== verification/Axelar.thy ===== *)
theory Axelar
  imports Js_Objects
begin

section \<open>The Axelar client of the SDK\<close>

text \<open>
  \<open>sdk/definitions/src/axelar.ts\<close>: fee estimate and transaction status over HTTP. \<open>fetch\<close> is a
  parameter, given the url and the fields of the request body; an aborted request (the timeout) is one
  that throws. A value read from the response is a \<open>json option\<close>, \<open>None\<close> for undefined.
\<close>

datatype network = Mainnet | Testnet | Devnet

record axelar_reply =
  xr_ok :: bool
  xr_status :: nat
  xr_text :: "string res"
  xr_json :: "json res"

type_synonym http_fetch = "string \<Rightarrow> (string \<times> json) list \<Rightarrow> axelar_reply res"

record gmp_error =
  ge_txHash :: "json option"
  ge_chain :: "json option"
  ge_message :: string

definition axelarChains :: "string \<Rightarrow> string option" where
  "axelarChains = map_of [(''Ethereum'', ''ethereum''), (''Monad'', ''monad''), (''Sepolia'', ''ethereum-sepolia'')]"

fun getAxelarApiUrl :: "network \<Rightarrow> string" where
  "getAxelarApiUrl Mainnet = ''https://api.axelarscan.io''"
| "getAxelarApiUrl _ = ''https://testnet.api.axelarscan.io''"

definition getAxelarChain :: "string \<Rightarrow> string res" where
  "getAxelarChain chain =
     (case axelarChains chain of
        None \<Rightarrow> Throw (new_error PlainError (''Unsupported axelar chain: '' @ chain))
      | Some c \<Rightarrow> Ok c)"

definition getAxelarExplorerUrl :: "network \<Rightarrow> string \<Rightarrow> string" where
  "getAxelarExplorerUrl net txHash =
     (if net = Mainnet then ''https://axelarscan.io/gmp/'' else ''https://testnet.axelarscan.io/gmp/'') @ txHash"

definition http_json :: "string \<Rightarrow> axelar_reply \<Rightarrow> json res" where
  "http_json what reply =
     (if \<not> xr_ok reply then
        bind_res (xr_text reply) (\<lambda>errorText.
          Throw (new_error PlainError (what @ show_nat (xr_status reply) @ '' '' @ errorText)))
      else xr_json reply)"

definition gas_fee_of :: "json \<Rightarrow> int option" where
  "gas_fee_of j =
     (case j of
        JNumber n \<Rightarrow> (if js_isInteger n then Some (num_int n) else None)
      | JBool b \<Rightarrow> Some (if b then 1 else 0)
      | JNull \<Rightarrow> None
      | JBigInt i \<Rightarrow> Some i
      | _ \<Rightarrow> js_BigInt (json_String j))"

definition getAxelarGasFee ::
  "http_fetch \<Rightarrow> network \<Rightarrow> string \<Rightarrow> string \<Rightarrow> int \<Rightarrow> json \<Rightarrow> int res" where
  "getAxelarGasFee fetch net sourceChain destinationChain gasLimit gasMultiplier =
     bind_res (getAxelarChain sourceChain) (\<lambda>src.
     bind_res (getAxelarChain destinationChain) (\<lambda>dst.
     bind_res (fetch (getAxelarApiUrl net @ ''/gmp/estimateGasFee'')
       [(''sourceChain'', JString src), (''destinationChain'', JString dst), (''gasMultiplier'', gasMultiplier),
        (''gasLimit'', JString (show_int gasLimit))]) (\<lambda>reply.
     bind_res (http_json ''Failed to estimate gas fee: '' reply) (\<lambda>result.
       case gas_fee_of result of
         None \<Rightarrow> Throw (new_error ForeignError ''Cannot convert to a BigInt'')
       | Some fee \<Rightarrow>
           (if fee \<le> 0 then Throw (new_error PlainError
              (''Invalid gas fee estimate: '' @ show_int fee @ ''. Received zero or negative fee.''))
            else Ok fee)))))"

definition parseGMPStatus :: "json option \<Rightarrow> json option res" where
  "parseGMPStatus response =
     bind_res (json_get ''error'' response) (\<lambda>err.
     bind_res (json_get ''status'' response) (\<lambda>status.
       Ok (if status = Some (JString ''error'') then (if json_truthy err then Some (JString ''error'') else status)
           else if status = Some (JString ''executed'') then Some (JString ''destination_executed'')
           else if status = Some (JString ''approved'') then Some (JString ''destination_gateway_approved'')
           else if status = Some (JString ''called'') then Some (JString ''source_gateway_called'')
           else if status = Some (JString ''executing'') then Some (JString ''executing'')
           else status)))"

definition parseGMPError :: "json option \<Rightarrow> gmp_error option res" where
  "parseGMPError response =
     bind_res (json_get ''error'' response) (\<lambda>err.
       if json_truthy err then
         bind_res (json_get ''sourceTransactionHash'' err) (\<lambda>h.
         bind_res (json_get ''chain'' err) (\<lambda>c.
           Ok (Some \<lparr>ge_txHash = h, ge_chain = c, ge_message = ''Transfer failed''\<rparr>)))
       else
         bind_res (json_get ''is_insufficient_fee'' response) (\<lambda>low.
           if json_truthy low then
             bind_res (json_get ''call'' response) (\<lambda>call.
             bind_res (json_get ''transaction'' call) (\<lambda>tx.
             bind_res (json_get ''hash'' tx) (\<lambda>h.
             bind_res (json_get ''chain'' call) (\<lambda>c.
               Ok (Some \<lparr>ge_txHash = h, ge_chain = c, ge_message = ''Insufficient gas''\<rparr>)))))
           else Ok None))"

definition first_details :: "json option \<Rightarrow> json option res" where
  "first_details data =
     (if \<not> json_truthy data \<or> data = Some (JArray []) then Throw (new_error PlainError ''No transaction details found'')
      else (case data of Some (JArray (x # _)) \<Rightarrow> Ok (Some x) | Some (JString (c # _)) \<Rightarrow> Ok (Some (JString [c])) | _ \<Rightarrow> Ok None))"

definition getAxelarTransactionStatus ::
  "http_fetch \<Rightarrow> network \<Rightarrow> string \<Rightarrow> string \<Rightarrow> (json option \<times> gmp_error option) res" where
  "getAxelarTransactionStatus fetch net sourceChain txHash =
     bind_res (getAxelarChain sourceChain) (\<lambda>src.
     bind_res (fetch (getAxelarApiUrl net @ ''/gmp/searchGMP'') [(''sourceChain'', JString src), (''txHash'', JString txHash)]) (\<lambda>reply.
     bind_res (http_json ''Failed to get transaction status: '' reply) (\<lambda>result.
     bind_res (json_get ''data'' (Some result)) (\<lambda>data.
     bind_res (first_details data) (\<lambda>details.
     bind_res (parseGMPStatus details) (\<lambda>status.
     bind_res (parseGMPError details) (\<lambda>err. Ok (status, err))))))))"

subsection \<open>What the client guarantees\<close>

lemma getAxelarGasFee_positive:
  assumes "getAxelarGasFee fetch net src dst limit mult = Ok fee"
  shows "0 < fee \<and> axelarChains src \<noteq> None \<and> axelarChains dst \<noteq> None"
  using assms unfolding getAxelarGasFee_def getAxelarChain_def bind_res_Ok_iff
  by (auto split: option.splits if_splits)

text \<open>A transfer Axelar reports as executed, without an error object or the fee flag, has no error.\<close>

lemma parseGMP_executed:
  assumes "jfield ''error'' j = None" "jfield ''is_insufficient_fee'' j = None" "jfield ''status'' j = Some (JString ''executed'')"
  shows "parseGMPStatus (Some j) = Ok (Some (JString ''destination_executed''))" and "parseGMPError (Some j) = Ok None"
  using assms by (auto simp: parseGMPStatus_def parseGMPError_def json_get_def json_truthy_def jfield_def split: json.splits)

end
