(* ===== verification/Route_Track.thy ===== *)
theory Route_Track
  imports Axelar
begin

section \<open>Transfers of the NTT routes\<close>

text \<open>
  A transfer's receipt as the routes move it along: \<open>track\<close>, \<open>complete\<close> and \<open>finalize\<close> of
  \<open>sdk/route/src/manual.ts\<close>, \<open>automatic.ts\<close> and (multi-token) \<open>types.ts\<close>, with \<open>tracking.ts\<close>, the executor
  status of \<open>executor/utils.ts\<close> and the Axelar client of \<open>definitions/src/axelar.ts\<close>. An async
  generator is the list of the receipts it yields and how it ends (\<open>gen\<close>). The receipt predicates of
  the Wormhole SDK are a parameter (\<open>guards\<close>, with the documented meaning \<open>guard_laws\<close>), as are the
  chain clients, the VAA service and HTTP. The tracking flags of a receipt are a value here; the code
  updates them in place, also in receipts it has already yielded.
\<close>

datatype transfer_state =
  SourceInitiated | SourceFinalized | Attested | DestinationInitiated | DestinationQueued | DestinationFinalized | Failed_transfer

record 'p route_vaa =
  vw_emitterChain :: string
  vw_emitterAddress :: string
  vw_sequence :: int
  vw_payload :: 'p

record transceiver_meta =
  tm_index :: nat
  tm_type :: string

record 'p receipt =
  rt_from :: string
  rt_to :: string
  rt_state :: transfer_state
  rt_originTxs :: "string list"
  rt_attestation :: "((string \<times> string \<times> int) \<times> 'p route_vaa) option"
  rt_destinationTxs :: "string list option"
  rt_queueReleaseTime :: "int option"
  rt_error :: "js_error option"
  rt_sendTransceivers :: "transceiver_meta list"
  rt_transceiverAttested :: "string list"

record 'p guards =
  g_isSourceInitiated :: "'p receipt \<Rightarrow> bool"
  g_isSourceFinalized :: "'p receipt \<Rightarrow> bool"
  g_isAttested :: "'p receipt \<Rightarrow> bool"
  g_isRedeemed :: "'p receipt \<Rightarrow> bool"
  g_isDestinationQueued :: "'p receipt \<Rightarrow> bool"
  g_isCompleted :: "'p receipt \<Rightarrow> bool"
  g_isFailed :: "'p receipt \<Rightarrow> bool"

definition guard_laws :: "'p guards \<Rightarrow> bool" where
  "guard_laws g \<longleftrightarrow>
     (\<forall>r. g_isSourceInitiated g r = (rt_state r = SourceInitiated)) \<and>
     (\<forall>r. g_isSourceFinalized g r = (rt_state r = SourceFinalized)) \<and>
     (\<forall>r. g_isAttested g r = (rt_state r = Attested)) \<and>
     (\<forall>r. g_isRedeemed g r = (rt_state r = DestinationInitiated)) \<and>
     (\<forall>r. g_isDestinationQueued g r = (rt_state r = DestinationQueued)) \<and>
     (\<forall>r. g_isCompleted g r = (rt_state r = DestinationFinalized)) \<and>
     (\<forall>r. g_isFailed g r = (rt_state r = Failed_transfer))"

text \<open>The destination chain's client.\<close>

record 'p ntt_protocol =
  np_getIsApproved :: "'p route_vaa \<Rightarrow> bool res"
  np_getIsExecuted :: "'p route_vaa \<Rightarrow> bool res"
  np_getInboundQueuedTransfer :: "string \<Rightarrow> 'p route_vaa \<Rightarrow> int option res"
  np_transceiverAttestedToMessage :: "string \<Rightarrow> 'p route_vaa \<Rightarrow> nat \<Rightarrow> bool res"

subsection \<open>Generators\<close>

type_synonym ('y, 'a) gen = "'y list \<times> 'a res"

definition returnG :: "'a \<Rightarrow> ('y, 'a) gen" where
  "returnG x = ([], Ok x)"

definition liftG :: "'a res \<Rightarrow> ('y, 'a) gen" where
  "liftG r = ([], r)"

definition bindG :: "('y, 'a) gen \<Rightarrow> ('a \<Rightarrow> ('y, 'b) gen) \<Rightarrow> ('y, 'b) gen" where
  "bindG m f = (case m of (ys, Inl e) \<Rightarrow> (ys, Throw e) | (ys, Inr x) \<Rightarrow> (case f x of (zs, r) \<Rightarrow> (ys @ zs, r)))"

definition yieldG :: "'y \<Rightarrow> ('y, 'y) gen" where
  "yieldG y = ([y], Ok y)"

subsection \<open>Single-token routes\<close>

definition attested_receipt :: "'p receipt \<Rightarrow> 'p route_vaa \<Rightarrow> 'p receipt" where
  "attested_receipt r vaa =
     r\<lparr>rt_state := Attested, rt_attestation := Some ((vw_emitterChain vaa, vw_emitterAddress vaa, vw_sequence vaa), vaa)\<rparr>"

definition attest_step ::
  "'p guards \<Rightarrow> (string \<Rightarrow> 'p route_vaa option res) \<Rightarrow> 'p receipt \<Rightarrow> ('p receipt, 'p receipt) gen" where
  "attest_step g getVaa r =
     (if g_isSourceInitiated g r \<or> g_isSourceFinalized g r then
        (if rt_originTxs r = [] then liftG (Throw (new_error TypeError ''Cannot destructure property txid of undefined''))
         else
           bindG (liftG (getVaa (last (rt_originTxs r)))) (\<lambda>v.
             case v of
               None \<Rightarrow> liftG (Throw (new_error PlainError (''No VAA found for transaction: '' @ last (rt_originTxs r))))
             | Some vaa \<Rightarrow> yieldG (attested_receipt r vaa)))
      else returnG r)"

definition approve_step :: "'p guards \<Rightarrow> 'p ntt_protocol \<Rightarrow> 'p receipt \<Rightarrow> ('p receipt, 'p receipt) gen" where
  "approve_step g np r =
     (if g_isAttested g r then
        (case rt_attestation r of
           None \<Rightarrow> liftG (Throw (new_error TypeError ''Cannot destructure property attestation of undefined''))
         | Some (_, vaa) \<Rightarrow>
             bindG (liftG (np_getIsApproved np vaa)) (\<lambda>approved.
               if approved then yieldG (r\<lparr>rt_state := DestinationInitiated\<rparr>) else returnG r))
      else returnG r)"

text \<open>The receipt after the inbound queue was asked; \<open>None\<close> when nothing changed.\<close>

definition settled_receipt :: "'p guards \<Rightarrow> 'p ntt_protocol \<Rightarrow> 'p receipt \<Rightarrow> 'p receipt option res" where
  "settled_receipt g np r =
     (if g_isRedeemed g r \<or> g_isDestinationQueued g r then
        (case rt_attestation r of
           None \<Rightarrow> Throw (new_error TypeError ''Cannot destructure property attestation of undefined'')
         | Some (_, vaa) \<Rightarrow>
             bind_res (np_getInboundQueuedTransfer np (vw_emitterChain vaa) vaa) (\<lambda>queued.
               case queued of
                 Some expiry \<Rightarrow> Ok (Some (r\<lparr>rt_state := DestinationQueued, rt_queueReleaseTime := Some (expiry * 1000)\<rparr>))
               | None \<Rightarrow>
                   bind_res (np_getIsExecuted np vaa) (\<lambda>executed.
                     Ok (if executed then Some (r\<lparr>rt_state := DestinationFinalized\<rparr>) else None))))
      else Ok None)"

definition settle_step :: "'p guards \<Rightarrow> 'p ntt_protocol \<Rightarrow> 'p receipt \<Rightarrow> ('p receipt, 'p receipt) gen" where
  "settle_step g np r =
     bindG (liftG (settled_receipt g np r)) (\<lambda>changed. case changed of Some r' \<Rightarrow> yieldG r' | None \<Rightarrow> returnG r)"

definition manual_track ::
  "'p guards \<Rightarrow> (string \<Rightarrow> string \<Rightarrow> 'p route_vaa option res) \<Rightarrow> 'p ntt_protocol res \<Rightarrow> 'p receipt \<Rightarrow> ('p receipt, 'p receipt) gen" where
  "manual_track g getVaa protocol r =
     bindG (attest_step g (getVaa ''Ntt:WormholeTransfer'') r) (\<lambda>r.
     bindG (liftG protocol) (\<lambda>np.
     bindG (approve_step g np r) (\<lambda>r.
     bindG (settle_step g np r) yieldG)))"

definition automatic_track ::
  "'p guards \<Rightarrow> (string \<Rightarrow> bool) \<Rightarrow> (string \<Rightarrow> string \<Rightarrow> 'p route_vaa option res) \<Rightarrow> 'p ntt_protocol res \<Rightarrow> 'p receipt
   \<Rightarrow> ('p receipt, 'p receipt) gen" where
  "automatic_track g isEvmPlatform getVaa protocol r =
     bindG (attest_step g
       (getVaa (if isEvmPlatform (rt_from r) \<and> isEvmPlatform (rt_to r) then ''Ntt:WormholeTransferStandardRelayer''
                else ''Ntt:WormholeTransfer'')) r) (\<lambda>r.
     bindG (liftG protocol) (\<lambda>np.
     bindG (approve_step g np r) (\<lambda>r.
     bindG (settle_step g np r) yieldG)))"

text \<open>\<open>redeem\<close> and \<open>completeQueued\<close> are the signed and mined transactions of the destination chain.\<close>

definition manual_complete :: "'p guards \<Rightarrow> ('p route_vaa \<Rightarrow> string list res) \<Rightarrow> 'p receipt \<Rightarrow> 'p receipt res" where
  "manual_complete g redeem r =
     (if \<not> g_isAttested g r then
        (if g_isRedeemed g r then Ok r
         else Throw (new_error PlainError ''The source must be finalized in order to complete the transfer''))
      else
        (case rt_attestation r of
           None \<Rightarrow> Throw (new_error TypeError ''Cannot read properties of undefined'')
         | Some (_, vaa) \<Rightarrow>
             bind_res (redeem vaa) (\<lambda>txids.
               Ok (r\<lparr>rt_state := DestinationInitiated, rt_destinationTxs := Some txids\<rparr>))))"

definition route_finalize :: "'p guards \<Rightarrow> (string \<Rightarrow> 'p route_vaa \<Rightarrow> string list res) \<Rightarrow> 'p receipt \<Rightarrow> 'p receipt res" where
  "route_finalize g completeQueued r =
     (if \<not> g_isDestinationQueued g r
      then Throw (new_error PlainError ''The transfer must be destination queued in order to finalize'')
      else
        (case rt_attestation r of
           None \<Rightarrow> Throw (new_error TypeError ''Cannot destructure property attestation of undefined'')
         | Some (_, vaa) \<Rightarrow>
             bind_res (completeQueued (rt_from r) vaa) (\<lambda>txids.
               Ok (r\<lparr>rt_state := DestinationFinalized,
                     rt_destinationTxs := Some ((case rt_destinationTxs r of None \<Rightarrow> [] | Some ts \<Rightarrow> ts) @ txids)\<rparr>))))"

subsection \<open>Relay status\<close>

definition isRelayStatusFailed :: "string \<Rightarrow> bool" where
  "isRelayStatusFailed status \<longleftrightarrow> status \<in> {''failed'', ''underpaid'', ''unsupported'', ''aborted''}"

text \<open>\<open>fetchStatus\<close> gives the statuses of the relays of a source transaction.\<close>

definition relayed_receipt :: "'p guards \<Rightarrow> string \<Rightarrow> 'p receipt \<Rightarrow> 'p receipt" where
  "relayed_receipt g relayStatus r =
     (if isRelayStatusFailed relayStatus
      then r\<lparr>rt_state := Failed_transfer, rt_error := Some (new_error ForeignError (''Relay failed with status: '' @ relayStatus))\<rparr>
      else if g_isFailed g r then r\<lparr>rt_state := Attested, rt_error := None\<rparr>
      else r)"

definition trackExecutor :: "'p guards \<Rightarrow> (string \<Rightarrow> string \<Rightarrow> string list res) \<Rightarrow> 'p receipt \<Rightarrow> 'p receipt res" where
  "trackExecutor g fetchStatus r =
     (if \<not> g_isAttested g r \<and> \<not> g_isFailed g r then Ok r
      else if rt_originTxs r = [] then Throw (new_error PlainError ''No origin transactions found in receipt'')
      else
        bind_res (fetchStatus (last (rt_originTxs r)) (rt_from r)) (\<lambda>statuses.
          case statuses of
            [] \<Rightarrow> Throw (new_error PlainError ''No transaction status found'')
          | relayStatus # _ \<Rightarrow> Ok (relayed_receipt g relayStatus r)))"

definition axelar_receipt :: "'p guards \<Rightarrow> gmp_error option \<Rightarrow> 'p receipt \<Rightarrow> 'p receipt" where
  "axelar_receipt g err r =
     (case err of
        Some e \<Rightarrow> r\<lparr>rt_state := Failed_transfer, rt_error := Some (new_error ForeignError (''Axelar error: '' @ ge_message e))\<rparr>
      | None \<Rightarrow> (if g_isFailed g r then r\<lparr>rt_state := Attested, rt_error := None\<rparr> else r))"

definition trackAxelar :: "'p guards \<Rightarrow> http_fetch \<Rightarrow> network \<Rightarrow> 'p receipt \<Rightarrow> 'p receipt res" where
  "trackAxelar g fetch net r =
     (if \<not> g_isAttested g r \<and> \<not> g_isFailed g r then Ok r
      else if rt_originTxs r = [] then Throw (new_error PlainError ''No origin transactions found in receipt'')
      else
        bind_res (getAxelarTransactionStatus fetch net (rt_from r) (last (rt_originTxs r))) (\<lambda>(_, err).
          Ok (axelar_receipt g err r)))"

subsection \<open>Multi-token routes\<close>

text \<open>
  What one round of \<open>track\<close> asks the outside world: the messages of a source transaction, the VAA of a
  message, the destination client, the executor's status service and Axelar, and how long the round
  took, its sleep included.
\<close>

record 'p round_env =
  re_parseTransaction :: "string \<Rightarrow> string list res"
  re_getVaa :: "string \<Rightarrow> 'p route_vaa option res"
  re_protocol :: "'p ntt_protocol res"
  re_fetchStatus :: "string \<Rightarrow> string \<Rightarrow> string list res"
  re_fetch :: http_fetch
  re_elapsed :: int

definition mt_attest :: "'p guards \<Rightarrow> 'p round_env \<Rightarrow> 'p receipt \<Rightarrow> ('p receipt, 'p receipt) gen" where
  "mt_attest g re r =
     (if g_isSourceInitiated g r \<or> g_isSourceFinalized g r then
        (if rt_originTxs r = [] then liftG (Throw (new_error TypeError ''Cannot read properties of undefined''))
         else
           (let txid = last (rt_originTxs r) in
            bindG (liftG (re_parseTransaction re txid)) (\<lambda>msgs.
              case msgs of
                [] \<Rightarrow> liftG (Throw (new_error PlainError ''No Wormhole messages found''))
              | msg # _ \<Rightarrow>
                  bindG (liftG (re_getVaa re msg)) (\<lambda>v.
                    case v of
                      None \<Rightarrow> liftG (Throw (new_error PlainError (''No VAA found for transaction: '' @ txid)))
                    | Some vaa \<Rightarrow> yieldG (attested_receipt r vaa)))))
      else returnG r)"

definition sortedTransceivers :: "transceiver_meta list \<Rightarrow> transceiver_meta list" where
  "sortedTransceivers ts = sort_key (\<lambda>t. if toLowerCase (tm_type t) = ''wormhole'' then 1 else (0 :: nat)) ts"

definition track_pending ::
  "'p guards \<Rightarrow> network \<Rightarrow> bool \<Rightarrow> 'p round_env \<Rightarrow> transceiver_meta \<Rightarrow> 'p receipt \<Rightarrow> ('p receipt, 'p receipt) gen" where
  "track_pending g net isManual re t r =
     bindG (liftG
       (if toLowerCase (tm_type t) = ''wormhole'' then (if isManual then Ok r else trackExecutor g (re_fetchStatus re) r)
        else if toLowerCase (tm_type t) = ''axelar'' then trackAxelar g (re_fetch re) net r
        else Throw (new_error PlainError (''Unsupported transceiver type: '' @ tm_type t))))
       yieldG"

fun track_transceivers ::
  "'p guards \<Rightarrow> network \<Rightarrow> bool \<Rightarrow> 'p round_env \<Rightarrow> 'p ntt_protocol \<Rightarrow> 'p route_vaa \<Rightarrow> transceiver_meta list \<Rightarrow> 'p receipt
   \<Rightarrow> ('p receipt, 'p receipt) gen" where
  "track_transceivers g net isManual re np vaa [] r = returnG r"
| "track_transceivers g net isManual re np vaa (t # ts) r =
     (if toLowerCase (tm_type t) \<in> set (rt_transceiverAttested r) then track_transceivers g net isManual re np vaa ts r
      else
        bindG (liftG (np_transceiverAttestedToMessage np (rt_from r) vaa (tm_index t))) (\<lambda>attested.
          if attested then
            (let r1 = r\<lparr>rt_transceiverAttested := toLowerCase (tm_type t) # rt_transceiverAttested r\<rparr> in
             bindG (if g_isFailed g r1 then yieldG (r1\<lparr>rt_state := Attested\<rparr>) else returnG r1)
               (track_transceivers g net isManual re np vaa ts))
          else track_pending g net isManual re t r))"

definition mt_approve ::
  "'p guards \<Rightarrow> network \<Rightarrow> bool \<Rightarrow> 'p round_env \<Rightarrow> 'p ntt_protocol \<Rightarrow> 'p receipt \<Rightarrow> ('p receipt, 'p receipt) gen" where
  "mt_approve g net isManual re np r =
     (if g_isAttested g r \<or> g_isFailed g r then
        (case rt_attestation r of
           None \<Rightarrow> liftG (Throw (new_error PlainError ''No attestation found''))
         | Some (_, vaa) \<Rightarrow>
             bindG (liftG (np_getIsApproved np vaa)) (\<lambda>approved.
               if approved then yieldG (r\<lparr>rt_state := DestinationInitiated\<rparr>)
               else track_transceivers g net isManual re np vaa (sortedTransceivers (rt_sendTransceivers r)) r))
      else returnG r)"

definition mt_settle :: "'p guards \<Rightarrow> 'p ntt_protocol \<Rightarrow> 'p receipt \<Rightarrow> ('p receipt, 'p receipt) gen" where
  "mt_settle g np r = bindG (liftG (settled_receipt g np r)) (\<lambda>changed. returnG (case changed of Some r' \<Rightarrow> r' | None \<Rightarrow> r))"

definition mt_round :: "'p guards \<Rightarrow> network \<Rightarrow> bool \<Rightarrow> 'p round_env \<Rightarrow> 'p receipt \<Rightarrow> ('p receipt, 'p receipt) gen" where
  "mt_round g net isManual re r =
     bindG (mt_attest g re r) (\<lambda>r.
     bindG (liftG (re_protocol re)) (\<lambda>np.
     bindG (mt_approve g net isManual re np r) (\<lambda>r.
     bindG (mt_settle g np r) yieldG)))"

partial_function (option) mt_track_loop ::
  "'p guards \<Rightarrow> network \<Rightarrow> bool \<Rightarrow> (nat \<Rightarrow> 'p round_env) \<Rightarrow> int \<Rightarrow> nat \<Rightarrow> 'p receipt list \<Rightarrow> 'p receipt \<Rightarrow> ('p receipt, 'p receipt) gen option" where
  "mt_track_loop g net isManual rounds leftover n ys r =
     (if 0 < leftover \<and> \<not> g_isCompleted g r then
        (case mt_round g net isManual (rounds n) r of
           (zs, Inl e) \<Rightarrow> Some (ys @ zs, Throw e)
         | (zs, Inr r') \<Rightarrow> mt_track_loop g net isManual rounds (leftover - re_elapsed (rounds n)) (Suc n) (ys @ zs) r')
      else Some (ys, Ok r))"

definition mt_track ::
  "'p guards \<Rightarrow> network \<Rightarrow> (nat \<Rightarrow> 'p round_env) \<Rightarrow> bool \<Rightarrow> int option \<Rightarrow> 'p receipt \<Rightarrow> ('p receipt, 'p receipt) gen option" where
  "mt_track g net rounds isManual timeout r =
     mt_track_loop g net isManual rounds (case timeout of Some t \<Rightarrow> (if t = 0 then 3600000 else t) | None \<Rightarrow> 3600000) 0 [] r"

definition mt_complete ::
  "'p guards \<Rightarrow> 'p ntt_protocol res \<Rightarrow> ('p route_vaa \<Rightarrow> string list res) \<Rightarrow> 'p receipt \<Rightarrow> 'p receipt res" where
  "mt_complete g protocol redeem r =
     (if \<not> g_isAttested g r \<and> \<not> g_isFailed g r then
        (if g_isRedeemed g r then Ok r
         else Throw (new_error PlainError ''The source must be finalized in order to complete the transfer''))
      else
        (case rt_attestation r of
           None \<Rightarrow> Throw (new_error PlainError ''No attestation found on the transfer receipt'')
         | Some (_, vaa) \<Rightarrow>
             bind_res protocol (\<lambda>np.
               case find (\<lambda>t. toLowerCase (tm_type t) = ''wormhole'') (rt_sendTransceivers r) of
                 None \<Rightarrow> Throw (new_error PlainError ''No Wormhole transceiver found, cannot complete manual transfer'')
               | Some wormhole \<Rightarrow>
                   bind_res (np_transceiverAttestedToMessage np (rt_from r) vaa (tm_index wormhole)) (\<lambda>attested.
                     if attested then Ok r else bind_res (redeem vaa) (\<lambda>_. Ok r)))))"

end
