(* ===== verification/Route_Correct.thy ===== *)
theory Route_Correct
  imports Route_Track
begin

section \<open>Receipts only advance\<close>

text \<open>
  A transfer goes through phases: sent, attested (or failed, from which it can recover), redeemed,
  queued, final. No operation of a route moves a receipt back, changes what it is about, or replaces
  its attestation (\<open>advances\<close>), and \<open>track\<close> reports a transfer final only when the destination chain said
  so of the attested message (\<open>truthful\<close>).
\<close>

fun phase :: "transfer_state \<Rightarrow> nat" where
  "phase SourceInitiated = 0"
| "phase SourceFinalized = 0"
| "phase Attested = 1"
| "phase Failed_transfer = 1"
| "phase DestinationInitiated = 2"
| "phase DestinationQueued = 3"
| "phase DestinationFinalized = 4"

definition advances :: "'p receipt \<Rightarrow> 'p receipt \<Rightarrow> bool" where
  "advances r r' \<longleftrightarrow>
     phase (rt_state r) \<le> phase (rt_state r') \<and>
     rt_from r' = rt_from r \<and> rt_to r' = rt_to r \<and> rt_originTxs r' = rt_originTxs r \<and> rt_sendTransceivers r' = rt_sendTransceivers r \<and>
     (1 \<le> phase (rt_state r) \<longrightarrow> rt_attestation r' = rt_attestation r)"

type_synonym 'p attested = "((string \<times> string \<times> int) \<times> 'p route_vaa) option"

definition executed_at :: "'p ntt_protocol res \<Rightarrow> 'p attested \<Rightarrow> bool" where
  "executed_at protocol a \<longleftrightarrow>
     (\<exists>np i vaa. protocol = Ok np \<and> a = Some (i, vaa) \<and> np_getIsExecuted np vaa = Ok True \<and>
        np_getInboundQueuedTransfer np (vw_emitterChain vaa) vaa = Ok None)"

definition truthful :: "('p attested \<Rightarrow> bool) \<Rightarrow> 'p receipt \<Rightarrow> 'p receipt \<Rightarrow> bool" where
  "truthful ex r r' \<longleftrightarrow>
     advances r r' \<and> (rt_state r' = DestinationFinalized \<longrightarrow> rt_state r = DestinationFinalized \<or> ex (rt_attestation r'))"

lemma advances_refl: "advances r r"
  by (simp add: advances_def)

lemma advances_trans: "advances r s \<Longrightarrow> advances s t \<Longrightarrow> advances r t"
  unfolding advances_def by (metis order_trans)

lemma truthful_trans: "truthful ex r s \<Longrightarrow> truthful ex s t \<Longrightarrow> truthful ex r t"
  unfolding truthful_def using advances_trans [of r s t] advances_def [of s t] by (metis one_le_numeral phase.simps(7))

subsection \<open>Traces of generators\<close>

locale receipt_order =
  fixes R :: "'r \<Rightarrow> 'r \<Rightarrow> bool"
  assumes reflR: "R r r" and transR: "R r s \<Longrightarrow> R s t \<Longrightarrow> R r t"
begin

definition traced :: "'r \<Rightarrow> ('r, 'r) gen \<Rightarrow> bool" where
  "traced r m \<longleftrightarrow> sorted_wrt R (r # fst m) \<and> (\<forall>x. snd m = Ok x \<longrightarrow> (\<forall>y \<in> set (r # fst m). R y x))"

lemma tracedD: "traced r m \<Longrightarrow> y \<in> set (fst m) \<Longrightarrow> R r y" "traced r m \<Longrightarrow> sorted_wrt R (fst m)" "traced r m \<Longrightarrow> snd m = Ok x \<Longrightarrow> R r x"
  unfolding traced_def by auto

lemma traced_return: "traced r (returnG r)"
  by (simp add: traced_def returnG_def reflR)

lemma traced_yield: "R r y \<Longrightarrow> traced r (yieldG y)"
  by (simp add: traced_def yieldG_def reflR)

lemma traced_lift: "(\<And>v. x = Ok v \<Longrightarrow> traced r (f v)) \<Longrightarrow> traced r (bindG (liftG x) f)"
  by (cases x) (auto simp: traced_def bindG_def liftG_def)

lemma traced_throw: "traced r (liftG (Throw e))"
  by (simp add: traced_def liftG_def)

lemma traced_bind:
  assumes "traced r m" and "\<And>x. snd m = Ok x \<Longrightarrow> traced x (f x)"
  shows "traced r (bindG m f)"
proof (cases m)
  case (Pair ys res)
  show ?thesis
  proof (cases res)
    case (Inl e)
    then show ?thesis using assms(1) Pair by (simp add: traced_def bindG_def)
  next
    case (Inr x)
    have x: "\<And>y. y \<in> set (r # ys) \<Longrightarrow> R y x" "sorted_wrt R (r # ys)" using assms(1) Pair Inr by (auto simp: traced_def)
    obtain zs res' where f: "f x = (zs, res')" by fastforce
    have t: "traced x (zs, res')" using assms(2) [of x] Pair Inr f by simp
    then have z: "\<And>y z. y \<in> set (r # ys) \<Longrightarrow> z \<in> set zs \<Longrightarrow> R y z" using x(1) transR unfolding traced_def by fastforce
    have "sorted_wrt R (r # ys @ zs)" using x(2) z t unfolding traced_def by (auto simp: sorted_wrt_append)
    moreover have "\<forall>y \<in> set (r # ys @ zs). R y v" if "res' = Ok v" for v
      using that t x(1) transR unfolding traced_def by fastforce
    ultimately show ?thesis using Pair Inr f by (simp add: traced_def bindG_def)
  qed
qed

end

interpretation adv: receipt_order "truthful ex :: 'p receipt \<Rightarrow> 'p receipt \<Rightarrow> bool" for ex
  by unfold_locales (simp add: truthful_def advances_refl, rule truthful_trans)

subsection \<open>The steps of \<open>track\<close>\<close>

lemma guardsD:
  assumes "guard_laws g"
  shows "g_isSourceInitiated g r = (rt_state r = SourceInitiated)" "g_isSourceFinalized g r = (rt_state r = SourceFinalized)"
    "g_isAttested g r = (rt_state r = Attested)" "g_isRedeemed g r = (rt_state r = DestinationInitiated)"
    "g_isDestinationQueued g r = (rt_state r = DestinationQueued)" "g_isCompleted g r = (rt_state r = DestinationFinalized)"
    "g_isFailed g r = (rt_state r = Failed_transfer)"
  using assms by (simp_all add: guard_laws_def)

lemma attested_receipt_truthful: "phase (rt_state r) = 0 \<Longrightarrow> truthful ex r (attested_receipt r vaa)"
  by (simp add: truthful_def advances_def attested_receipt_def)

lemma state_truthful:
  "phase (rt_state r) \<le> phase st \<Longrightarrow> st \<noteq> DestinationFinalized \<Longrightarrow> truthful ex r (r\<lparr>rt_state := st\<rparr>)"
  by (simp add: truthful_def advances_def)

lemma attest_step_traced:
  assumes "guard_laws g"
  shows "adv.traced ex r (attest_step g getVaa r)"
  unfolding attest_step_def guardsD [OF assms]
  by (auto intro!: adv.traced_return adv.traced_throw adv.traced_lift adv.traced_yield attested_receipt_truthful split: option.splits)

lemma approve_step_traced:
  assumes "guard_laws g"
  shows "adv.traced ex r (approve_step g np r)"
  unfolding approve_step_def guardsD [OF assms]
  by (auto intro!: adv.traced_return adv.traced_throw adv.traced_lift adv.traced_yield state_truthful split: option.splits)

lemma settled_receipt_truthful:
  assumes "guard_laws g" "settled_receipt g np r = Ok (Some r')" "\<And>a. executed_at (Ok np) a \<Longrightarrow> ex a"
  shows "truthful ex r r'"
proof -
  obtain i vaa where a: "rt_attestation r = Some (i, vaa)" and st: "rt_state r \<in> {DestinationInitiated, DestinationQueued}"
    using assms(2) unfolding settled_receipt_def guardsD [OF assms(1)] by (auto split: option.splits if_splits)
  obtain q where q: "np_getInboundQueuedTransfer np (vw_emitterChain vaa) vaa = Ok q"
    using assms(2) st a unfolding settled_receipt_def guardsD [OF assms(1)] by (auto simp: bind_res_Ok_iff)
  show ?thesis
  proof (cases q)
    case None
    then have "np_getIsExecuted np vaa = Ok True" "r' = r\<lparr>rt_state := DestinationFinalized\<rparr>"
      using assms(2) st a q unfolding settled_receipt_def guardsD [OF assms(1)] by (auto simp: bind_res_Ok_iff split: if_splits)
    moreover have "ex (rt_attestation r)"
      by (rule assms(3)) (use a q None calculation(1) in \<open>unfold executed_at_def, blast\<close>)
    ultimately show ?thesis using st by (auto simp: truthful_def advances_def)
  next
    case (Some e)
    then show ?thesis using assms(2) st a q unfolding settled_receipt_def guardsD [OF assms(1)]
      by (auto simp: truthful_def advances_def)
  qed
qed

lemma settle_step_traced:
  assumes "guard_laws g" and "\<And>a. executed_at (Ok np) a \<Longrightarrow> ex a"
  shows "adv.traced ex r (settle_step g np r)"
  unfolding settle_step_def using settled_receipt_truthful [OF assms(1) _ assms(2)]
  by (auto intro!: adv.traced_return adv.traced_lift adv.traced_yield split: option.splits)

lemma track_tail_traced:
  assumes "guard_laws g" and "\<And>a. executed_at protocol a \<Longrightarrow> ex a"
  shows "adv.traced ex r (bindG (liftG protocol) (\<lambda>np. bindG (approve_step g np r) (\<lambda>r. bindG (settle_step g np r) yieldG)))"
  by (intro adv.traced_lift adv.traced_bind approve_step_traced settle_step_traced adv.traced_yield)
    (use assms adv.reflR in auto)

lemma manual_track_traced:
  "guard_laws g \<Longrightarrow> adv.traced (executed_at protocol) r (manual_track g getVaa protocol r)"
  unfolding manual_track_def by (intro adv.traced_bind attest_step_traced track_tail_traced)

lemma automatic_track_traced:
  "guard_laws g \<Longrightarrow> adv.traced (executed_at protocol) r (automatic_track g isEvm getVaa protocol r)"
  unfolding automatic_track_def by (intro adv.traced_bind attest_step_traced track_tail_traced)

subsection \<open>Multi-token routes\<close>

lemma mt_attest_traced:
  assumes "guard_laws g"
  shows "adv.traced ex r (mt_attest g re r)"
  unfolding mt_attest_def guardsD [OF assms] Let_def
  by (auto intro!: adv.traced_return adv.traced_throw adv.traced_lift adv.traced_yield attested_receipt_truthful
      split: option.splits list.splits)

lemma relayed_receipt_truthful: "rt_state r \<in> {Attested, Failed_transfer} \<Longrightarrow> truthful ex r (relayed_receipt g st r)"
  by (auto simp: relayed_receipt_def truthful_def advances_def)

lemma axelar_receipt_truthful: "rt_state r \<in> {Attested, Failed_transfer} \<Longrightarrow> truthful ex r (axelar_receipt g err r)"
  by (auto simp: axelar_receipt_def truthful_def advances_def split: option.splits)

lemma trackExecutor_truthful:
  assumes "guard_laws g" "trackExecutor g fs r = Ok r'"
  shows "truthful ex r r'"
proof -
  have "r' = r \<or> (rt_state r \<in> {Attested, Failed_transfer} \<and> (\<exists>st. r' = relayed_receipt g st r))"
    using assms(2) unfolding trackExecutor_def guardsD [OF assms(1)]
    by (auto simp: bind_res_Ok_iff neq_Nil_conv split: if_splits list.splits)
  then show ?thesis using relayed_receipt_truthful adv.reflR by blast
qed

lemma trackAxelar_truthful:
  assumes "guard_laws g" "trackAxelar g fetch net r = Ok r'"
  shows "truthful ex r r'"
proof -
  have "r' = r \<or> (rt_state r \<in> {Attested, Failed_transfer} \<and> (\<exists>err. r' = axelar_receipt g err r))"
    using assms(2) unfolding trackAxelar_def guardsD [OF assms(1)] by (auto simp: bind_res_Ok_iff split: if_splits)
  then show ?thesis using axelar_receipt_truthful adv.reflR by blast
qed

lemma track_pending_traced:
  assumes "guard_laws g"
  shows "adv.traced ex r (track_pending g net isManual re t r)"
  unfolding track_pending_def
  by (intro adv.traced_lift adv.traced_yield)
    (auto intro: trackExecutor_truthful [OF assms] trackAxelar_truthful [OF assms] adv.reflR split: if_splits)

lemma traced_from:
  assumes "truthful ex r r1" "adv.traced ex r1 m"
  shows "adv.traced ex r m"
  using assms adv.transR unfolding adv.traced_def by fastforce

lemma track_transceivers_traced:
  assumes "guard_laws g"
  shows "adv.traced ex r (track_transceivers g net isManual re np vaa ts r)"
proof (induction ts arbitrary: r)
  case (Cons t ts)
  let ?r1 = "r\<lparr>rt_transceiverAttested := toLowerCase (tm_type t) # rt_transceiverAttested r\<rparr>"
  have r1: "truthful ex r ?r1" by (simp add: truthful_def advances_def)
  have "adv.traced ex ?r1 (if g_isFailed g ?r1 then yieldG (?r1\<lparr>rt_state := Attested\<rparr>) else returnG ?r1)"
    unfolding guardsD [OF assms] by (auto intro!: adv.traced_return adv.traced_yield state_truthful)
  then have "adv.traced ex r (bindG (if g_isFailed g ?r1 then yieldG (?r1\<lparr>rt_state := Attested\<rparr>) else returnG ?r1)
      (track_transceivers g net isManual re np vaa ts))"
    by (intro traced_from [OF r1] adv.traced_bind Cons.IH)
  then show ?case
    by (auto simp: Let_def intro!: adv.traced_lift Cons.IH track_pending_traced [OF assms])
qed (simp add: adv.traced_return)

lemma mt_approve_traced:
  assumes "guard_laws g"
  shows "adv.traced ex r (mt_approve g net isManual re np r)"
  unfolding mt_approve_def guardsD [OF assms]
  by (auto intro!: adv.traced_return adv.traced_throw adv.traced_lift adv.traced_yield state_truthful
      track_transceivers_traced [OF assms] split: option.splits)

lemma mt_settle_traced:
  assumes "guard_laws g" and "\<And>a. executed_at (Ok np) a \<Longrightarrow> ex a"
  shows "adv.traced ex r (mt_settle g np r)"
  unfolding mt_settle_def using settled_receipt_truthful [OF assms(1) _ assms(2)]
  by (intro adv.traced_lift) (auto intro: traced_from [OF _ adv.traced_return] adv.traced_return split: option.splits)

lemma mt_round_traced:
  assumes "guard_laws g" and "\<And>a. executed_at (re_protocol re) a \<Longrightarrow> ex a"
  shows "adv.traced ex r (mt_round g net isManual re r)"
  unfolding mt_round_def
  by (intro adv.traced_bind adv.traced_lift mt_attest_traced mt_approve_traced mt_settle_traced adv.traced_yield)
    (use assms adv.reflR in auto)

lemma traced_append:
  assumes "adv.traced ex r (ys, Ok x)" "adv.traced ex x (zs, res)"
  shows "adv.traced ex r (ys @ zs, res)"
  using adv.traced_bind [OF assms(1), of "\<lambda>_. (zs, res)"] assms(2) by (simp add: bindG_def)

lemma mt_track_loop_traced:
  assumes "guard_laws g" and "\<And>n a. executed_at (re_protocol (rounds n)) a \<Longrightarrow> ex a"
    and "mt_track_loop g net isManual rounds leftover n ys r = Some m" and "adv.traced ex r0 (ys, Ok r)"
  shows "adv.traced ex r0 m"
proof -
  have "g' = g \<and> rounds' = rounds \<longrightarrow> (\<forall>r0. adv.traced ex r0 (ys, Ok r) \<longrightarrow> adv.traced ex r0 m)"
    if "mt_track_loop g' net im rounds' leftover n ys r = Some m" for g' net im rounds' leftover n ys r m
    using that
  proof (induction rule: mt_track_loop.raw_induct [rotated 1, consumes 1, case_names step])
    case (step loop g' net im rounds' leftover n ys r m)
    show ?case
    proof (intro impI allI, elim conjE)
      fix r0
      assume eq: "g' = g" "rounds' = rounds" and t: "adv.traced ex r0 (ys, Ok r)"
      obtain zs res where rd: "mt_round g net im (rounds n) r = (zs, res)" by fastforce
      then have "adv.traced ex r (zs, res)" using mt_round_traced [OF assms(1), of "rounds n" ex r net im] assms(2) by simp
      then have t': "adv.traced ex r0 (ys @ zs, res)" using traced_append [OF t] by blast
      show "adv.traced ex r0 m"
      proof (cases "0 < leftover \<and> \<not> g_isCompleted g r")
        case False
        then show ?thesis using step(2) t eq by (auto split: if_splits)
      next
        case True
        show ?thesis
        proof (cases res)
          case (Inl e)
          then show ?thesis using step(2) True rd eq t' by simp
        next
          case (Inr r')
          then have "loop g net im rounds (leftover - re_elapsed (rounds n)) (Suc n) (ys @ zs) r' = Some m"
            using step(2) True rd eq by simp
          from step(1) [OF this] show ?thesis using t' Inr by blast
        qed
      qed
    qed
  qed
  then show ?thesis using assms(3,4) by blast
qed

subsection \<open>All operations of the routes\<close>

inductive route_step :: "'p guards \<Rightarrow> 'p receipt \<Rightarrow> 'p receipt \<Rightarrow> bool" for g where
  manual: "r' \<in> set (fst (manual_track g getVaa protocol r)) \<Longrightarrow> route_step g r r'"
| automatic: "r' \<in> set (fst (automatic_track g isEvm getVaa protocol r)) \<Longrightarrow> route_step g r r'"
| multi: "mt_track g net rounds isManual timeout r = Some m \<Longrightarrow> r' \<in> set (fst m) \<Longrightarrow> route_step g r r'"
| complete: "manual_complete g redeem r = Ok r' \<Longrightarrow> route_step g r r'"
| multi_complete: "mt_complete g protocol redeem r = Ok r' \<Longrightarrow> route_step g r r'"
| finalize: "route_finalize g completeQueued r = Ok r' \<Longrightarrow> route_step g r r'"

lemma manual_complete_advances: "guard_laws g \<Longrightarrow> manual_complete g redeem r = Ok r' \<Longrightarrow> advances r r'"
  by (auto simp: manual_complete_def guardsD bind_res_Ok_iff advances_def split: if_splits option.splits)

lemma mt_complete_same: "mt_complete g protocol redeem r = Ok r' \<Longrightarrow> r' = r"
  by (auto simp: mt_complete_def bind_res_Ok_iff split: if_splits option.splits)

lemma route_finalize_advances: "guard_laws g \<Longrightarrow> route_finalize g completeQueued r = Ok r' \<Longrightarrow> advances r r'"
  by (auto simp: route_finalize_def guardsD bind_res_Ok_iff advances_def split: if_splits option.splits)

lemma mt_track_traced:
  assumes "guard_laws g" "mt_track g net rounds isManual timeout r = Some m"
  shows "adv.traced (\<lambda>a. \<exists>n. executed_at (re_protocol (rounds n)) a) r m"
  by (rule mt_track_loop_traced [OF assms(1) _ assms(2) [unfolded mt_track_def]])
    (use adv.traced_return [unfolded returnG_def] in auto)

text \<open>Whatever sequence of operations a route runs on a receipt, it only advances.\<close>

lemma route_steps_advance:
  assumes "guard_laws g" "(route_step g)\<^sup>*\<^sup>* r r'"
  shows "advances r r'"
  using assms(2)
proof (induction rule: rtranclp_induct)
  case (step s t)
  have "advances s t"
    using step.hyps(2)
  proof cases
    case manual
    then show ?thesis using adv.tracedD(1) [OF manual_track_traced [OF assms(1)]] by (auto simp: truthful_def)
  next
    case automatic
    then show ?thesis using adv.tracedD(1) [OF automatic_track_traced [OF assms(1)]] by (auto simp: truthful_def)
  next
    case multi
    then show ?thesis using adv.tracedD(1) [OF mt_track_traced [OF assms(1)]] by (auto simp: truthful_def)
  qed (use assms(1) in \<open>auto intro: manual_complete_advances route_finalize_advances advances_refl dest: mt_complete_same\<close>)
  then show ?case using step.IH advances_trans by blast
qed (rule advances_refl)

subsection \<open>Properties\<close>

text \<open>C31: Whatever the chains and services answer, the receipts that \<open>track\<close> yields, on the manual, the
  automatic and the multi-token route, go forward only: each is in the phase of the one before or a
  later one, about the same transfer and with the same attestation. One that says the transfer is final
  says so because the destination chain reported that very message executed and not queued.\<close>

theorem track_reports_progress:
  assumes "guard_laws g"
  shows "sorted_wrt (truthful (executed_at protocol)) (r # fst (manual_track g getVaa protocol r)) \<and>
    sorted_wrt (truthful (executed_at protocol)) (r # fst (automatic_track g isEvm getVaa protocol r)) \<and>
    (\<forall>m. mt_track g net rounds isManual timeout r = Some m \<longrightarrow>
       sorted_wrt (truthful (\<lambda>a. \<exists>n. executed_at (re_protocol (rounds n)) a)) (r # fst m))"
proof (intro conjI allI impI)
  show "sorted_wrt (truthful (executed_at protocol)) (r # fst (manual_track g getVaa protocol r))"
    using manual_track_traced [OF assms] unfolding adv.traced_def by blast
  show "sorted_wrt (truthful (executed_at protocol)) (r # fst (automatic_track g isEvm getVaa protocol r))"
    using automatic_track_traced [OF assms] unfolding adv.traced_def by blast
  fix m
  assume "mt_track g net rounds isManual timeout r = Some m"
  from mt_track_traced [OF assms this]
  show "sorted_wrt (truthful (\<lambda>a. \<exists>n. executed_at (re_protocol (rounds n)) a)) (r # fst m)"
    unfolding adv.traced_def by blast
qed

definition demo_guards :: "unit guards" where
  "demo_guards = \<lparr>g_isSourceInitiated = (\<lambda>r. rt_state r = SourceInitiated), g_isSourceFinalized = (\<lambda>r. rt_state r = SourceFinalized),
     g_isAttested = (\<lambda>r. rt_state r = Attested), g_isRedeemed = (\<lambda>r. rt_state r = DestinationInitiated),
     g_isDestinationQueued = (\<lambda>r. rt_state r = DestinationQueued), g_isCompleted = (\<lambda>r. rt_state r = DestinationFinalized),
     g_isFailed = (\<lambda>r. rt_state r = Failed_transfer)\<rparr>"

lemma demo_guard_laws: "guard_laws demo_guards"
  by (simp add: guard_laws_def demo_guards_def)

definition demo_route_vaa :: "unit route_vaa" where
  "demo_route_vaa = \<lparr>vw_emitterChain = ''a'', vw_emitterAddress = ''e'', vw_sequence = 7, vw_payload = ()\<rparr>"

definition demo_protocol :: "unit ntt_protocol" where
  "demo_protocol = \<lparr>np_getIsApproved = (\<lambda>_. Ok True), np_getIsExecuted = (\<lambda>_. Ok True),
     np_getInboundQueuedTransfer = (\<lambda>_ _. Ok None), np_transceiverAttestedToMessage = (\<lambda>_ _ _. Ok True)\<rparr>"

definition demo_transfer :: "unit receipt" where
  "demo_transfer = \<lparr>rt_from = ''a'', rt_to = ''b'', rt_state = SourceInitiated, rt_originTxs = [''t''], rt_attestation = None,
     rt_destinationTxs = None, rt_queueReleaseTime = None, rt_error = None, rt_sendTransceivers = [], rt_transceiverAttested = []\<rparr>"

lemmas demo_route_defs = demo_guards_def demo_route_vaa_def demo_protocol_def demo_transfer_def

lemma demo_tracked:
  "map rt_state (fst (manual_track demo_guards (\<lambda>_ _. Ok (Some demo_route_vaa)) (Ok demo_protocol) demo_transfer)) =
     [Attested, DestinationInitiated, DestinationFinalized, DestinationFinalized]"
  by (simp add: manual_track_def attest_step_def approve_step_def settle_step_def settled_receipt_def attested_receipt_def
      bindG_def liftG_def yieldG_def returnG_def demo_route_defs)

theorem track_reports_progress_witness:
  "sorted_wrt (truthful (executed_at (Ok demo_protocol)))
     (demo_transfer # fst (manual_track demo_guards (\<lambda>_ _. Ok (Some demo_route_vaa)) (Ok demo_protocol) demo_transfer)) \<and>
   map rt_state (fst (manual_track demo_guards (\<lambda>_ _. Ok (Some demo_route_vaa)) (Ok demo_protocol) demo_transfer)) =
     [Attested, DestinationInitiated, DestinationFinalized, DestinationFinalized]"
  using track_reports_progress [OF demo_guard_laws] demo_tracked by blast

text \<open>Tracking a multi-token transfer ends: every round sleeps, so as long as the clock advances in
  each, \<open>track\<close> returns or throws once its time budget is spent, completed or not.\<close>

theorem mt_track_ends:
  assumes "\<And>n. 0 < re_elapsed (rounds n)"
  shows "\<exists>ys res. mt_track g net rounds isManual timeout r = Some (ys, res)"
proof -
  have "\<exists>m. mt_track_loop g net isManual rounds leftover n ys r = Some m" for leftover n ys r
  proof (induction "nat leftover" arbitrary: leftover n ys r rule: less_induct)
    case less
    show ?case
    proof (cases "0 < leftover \<and> \<not> g_isCompleted g r")
      case True
      obtain zs res where rd: "mt_round g net isManual (rounds n) r = (zs, res)" by fastforce
      have "\<exists>m. mt_track_loop g net isManual rounds (leftover - re_elapsed (rounds n)) (Suc n) (ys @ zs) r' = Some m" for r'
        using less [of "leftover - re_elapsed (rounds n)"] True assms [of n] by simp
      then show ?thesis using True rd by (subst mt_track_loop.simps) (auto split: sum.splits)
    next
      case False
      then show ?thesis by (subst mt_track_loop.simps) auto
    qed
  qed
  then obtain m where "mt_track g net rounds isManual timeout r = Some m" unfolding mt_track_def by blast
  then show ?thesis by (cases m) auto
qed

definition demo_round :: "unit round_env" where
  "demo_round = \<lparr>re_parseTransaction = (\<lambda>_. Ok []), re_getVaa = (\<lambda>_. Ok None), re_protocol = Ok demo_protocol, re_fetchStatus = (\<lambda>_ _. Ok []),
     re_fetch = (\<lambda>_ _. Throw (new_error PlainError ''offline'')), re_elapsed = 5000\<rparr>"

theorem mt_track_ends_witness:
  "\<exists>ys res. mt_track demo_guards Mainnet (\<lambda>_. demo_round) False (Some 60000) demo_transfer = Some (ys, res)"
  by (rule mt_track_ends) (simp add: demo_round_def)

end
