(* ===== verification/Cli_Diff.thy ===== *)
theory Cli_Diff
  imports Js_Objects
begin

section \<open>Comparing deployment files\<close>

text \<open>
  \<open>cli/src/diff.ts\<close> (\<open>diffObjects\<close>; \<open>colorizeDiff\<close> only prints) and the helpers of \<open>cli/src/index.ts\<close> that read
  and write a nested property. A diff is itself an object: a difference at a key is an object with a
  \<open>push\<close> property (the first argument's value), a \<open>pull\<close> property (the second's) or both; where both
  arguments have an object the entry is the nested diff, and an empty one is pruned.
\<close>

definition keyPath :: "string \<Rightarrow> string \<Rightarrow> string" where
  "keyPath currentPath key = (if currentPath \<noteq> [] then currentPath @ ''.'' @ key else key)"

definition isPathExcluded :: "string \<Rightarrow> string list \<Rightarrow> bool" where
  "isPathExcluded path excludedPaths = (path \<in> set excludedPaths)"

text \<open>The entry of a key of the first object; \<open>nested\<close> is the recursive call.\<close>

definition diff_entry ::
  "(json js_object \<Rightarrow> json js_object \<Rightarrow> json js_object) \<Rightarrow> json \<Rightarrow> json option \<Rightarrow> json option" where
  "diff_entry nested v1 other =
     (case other of
        None \<Rightarrow> Some (JObject [(''push'', v1)])
      | Some v2 \<Rightarrow>
          (case (v1, v2) of
             (JObject a, JObject b) \<Rightarrow> Some (JObject (nested a b))
           | _ \<Rightarrow> (if strict_eq v1 v2 then None else Some (JObject [(''pull'', v2), (''push'', v1)]))))"

lemma diff_entry_cong [fundef_cong]:
  "v1 = v1' \<Longrightarrow> other = other' \<Longrightarrow> (\<And>a b. v1' = JObject a \<Longrightarrow> other' = Some (JObject b) \<Longrightarrow> f a b = g a b) \<Longrightarrow>
   diff_entry f v1 other = diff_entry g v1' other'"
  by (auto simp: diff_entry_def split: option.splits json.splits)

definition prune_empty :: "json js_object \<Rightarrow> json js_object" where
  "prune_empty res = filter (\<lambda>(_, v). v \<noteq> JObject []) res"

function diffObjects :: "string list \<Rightarrow> string \<Rightarrow> json js_object \<Rightarrow> json js_object \<Rightarrow> json js_object" where
  "diffObjects excluded path obj1 obj2 =
     prune_empty
       (obj_collect (\<lambda>key v1.
          if isPathExcluded (keyPath path key) excluded then None
          else diff_entry (diffObjects excluded (keyPath path key)) v1 (map_of obj2 key)) obj1
        @ obj_collect (\<lambda>key v2.
          if map_of obj1 key \<noteq> None \<or> isPathExcluded (keyPath path key) excluded then None
          else Some (JObject [(''pull'', v2)])) obj2)"
  by pat_completeness auto
termination
  by (relation "measure (\<lambda>(ex, p, a, b). size_list (size_prod (\<lambda>_. 0) size) a)")
    (auto intro!: less_le_trans [OF _ size_list_estimation'])

declare diffObjects.simps [simp del]

definition EXCLUDED_DIFF_PATHS :: "string list" where
  "EXCLUDED_DIFF_PATHS = [''transceivers.wormhole.executor'', ''managerVariant'']"

subsection \<open>Nested properties\<close>

fun getNestedValue :: "string list \<Rightarrow> json option \<Rightarrow> json option" where
  "getNestedValue [] cur = cur"
| "getNestedValue (k # ks) cur = getNestedValue ks (json_opt_get k cur)"

text \<open>
  Assignment to a property, in strict mode: primitives reject it. A property of an array is not written
  by \<open>JSON.stringify\<close>, so the array stays as it is.
\<close>

definition assign_prop :: "string \<Rightarrow> json \<Rightarrow> json \<Rightarrow> json res" where
  "assign_prop k v target =
     (case target of
        JObject kvs \<Rightarrow> Ok (JObject (obj_set k v kvs))
      | JArray xs \<Rightarrow> Ok (JArray xs)
      | _ \<Rightarrow> Throw (new_error TypeError ''Attempted to assign to readonly property.''))"

fun setNestedValue :: "string list \<Rightarrow> json \<Rightarrow> json \<Rightarrow> json res" where
  "setNestedValue [] v cur = assign_prop ''undefined'' v cur"
| "setNestedValue [k] v cur = assign_prop k v cur"
| "setNestedValue (k # ks) v cur =
     bind_res (json_get k (Some cur)) (\<lambda>child.
     bind_res (setNestedValue ks v (if json_truthy child then the child else JObject [])) (\<lambda>child'.
       assign_prop k child' cur))"

text \<open>The pulled configuration of a chain, with the excluded fields of the local one.\<close>

fun preserve_excluded :: "string list \<Rightarrow> json \<Rightarrow> json \<Rightarrow> json res" where
  "preserve_excluded [] local cfg = Ok cfg"
| "preserve_excluded (excludedPath # ps) local cfg =
     (let pathParts = str_split (CHR ''.'') excludedPath in
      case getNestedValue pathParts (Some local) of
        None \<Rightarrow> preserve_excluded ps local cfg
      | Some v \<Rightarrow> bind_res (setNestedValue pathParts v cfg) (preserve_excluded ps local))"

subsection \<open>The entry of a key\<close>

lemma distinct_append_keys:
  assumes "distinct (map fst xs)" "distinct (map fst ys)" "set (map fst xs) \<inter> set (map fst ys) = {}"
  shows "distinct (map fst (xs @ ys))"
  using assms by simp

text \<open>What \<open>diffObjects\<close> says of one key, by whether the two objects have it.\<close>

definition key_diff ::
  "(json js_object \<Rightarrow> json js_object \<Rightarrow> json js_object) \<Rightarrow> json option \<Rightarrow> json option \<Rightarrow> json option" where
  "key_diff nested a b =
     (case (a, b) of
        (None, None) \<Rightarrow> None
      | (None, Some v2) \<Rightarrow> Some (JObject [(''pull'', v2)])
      | (Some v1, other) \<Rightarrow>
          (let d = diff_entry nested v1 other in if d = Some (JObject []) then None else d))"

lemma map_of_diffObjects:
  assumes "distinct (map fst o1)" and "distinct (map fst o2)"
  shows "map_of (diffObjects ex path o1 o2) k =
    (if isPathExcluded (keyPath path k) ex then None
     else key_diff (diffObjects ex (keyPath path k)) (map_of o1 k) (map_of o2 k))"
proof -
  let ?h1 = "\<lambda>key v1. if isPathExcluded (keyPath path key) ex then None
          else diff_entry (diffObjects ex (keyPath path key)) v1 (map_of o2 key)"
  let ?h2 = "\<lambda>key v2. if map_of o1 key \<noteq> None \<or> isPathExcluded (keyPath path key) ex then None
          else Some (JObject [(''pull'', v2)])"
  have d: "distinct (map fst (obj_collect ?h1 o1 @ obj_collect ?h2 o2))"
    using assms by (intro distinct_append_keys distinct_obj_collect)
      (auto simp: set_obj_collect map_of_eq_None_iff split: if_splits, force)
  show ?thesis
    unfolding diffObjects.simps [of ex path o1 o2] prune_empty_def map_of_filter_vals [OF d]
    by (auto simp: map_add_def map_of_obj_collect [OF assms(1)] map_of_obj_collect [OF assms(2)] key_diff_def Let_def
        split: option.splits)
qed

lemma diff_empty_iff_keys:
  assumes "distinct (map fst o1)" and "distinct (map fst o2)"
  shows "diffObjects ex path o1 o2 = [] \<longleftrightarrow>
    (\<forall>k. \<not> isPathExcluded (keyPath path k) ex \<longrightarrow>
      key_diff (diffObjects ex (keyPath path k)) (map_of o1 k) (map_of o2 k) = None)"
  unfolding map_of_eq_empty_iff [symmetric] fun_eq_iff map_of_diffObjects [OF assms] by auto

lemma key_diff_None:
  "key_diff nested a b = None \<longleftrightarrow>
     (case (a, b) of
        (None, None) \<Rightarrow> True
      | (Some (JObject x), Some (JObject y)) \<Rightarrow> nested x y = []
      | (Some u, Some v) \<Rightarrow> strict_eq u v
      | _ \<Rightarrow> False)"
  by (auto simp: key_diff_def diff_entry_def Let_def split: option.splits json.splits)

subsection \<open>Agreement by paths\<close>

text \<open>
  The reference: two documents agree at a path when both have nothing there, both an object, or the
  same scalar. A path is compared unless it or a path above it is excluded.
\<close>

fun json_at :: "string list \<Rightarrow> json \<Rightarrow> json option" where
  "json_at [] j = Some j"
| "json_at (k # ks) j = (case jfield k j of None \<Rightarrow> None | Some v \<Rightarrow> json_at ks v)"

definition same_at :: "json \<Rightarrow> json \<Rightarrow> string list \<Rightarrow> bool" where
  "same_at x y p =
     (case (json_at p x, json_at p y) of
        (None, None) \<Rightarrow> True
      | (Some (JObject _), Some (JObject _)) \<Rightarrow> True
      | (Some u, Some v) \<Rightarrow> strict_eq u v
      | _ \<Rightarrow> False)"

fun compared :: "string list \<Rightarrow> string \<Rightarrow> string list \<Rightarrow> bool" where
  "compared ex path [] = True"
| "compared ex path (k # ks) = (\<not> isPathExcluded (keyPath path k) ex \<and> compared ex (keyPath path k) ks)"

lemma scalar_same_at:
  assumes "\<nexists>a b. u = JObject a \<and> v = JObject b"
  shows "(\<forall>p. compared ex path p \<longrightarrow> same_at u v p) \<longleftrightarrow> strict_eq u v"
proof
  assume "\<forall>p. compared ex path p \<longrightarrow> same_at u v p"
  then have "same_at u v []" by simp
  then show "strict_eq u v" using assms by (auto simp: same_at_def split: json.splits)
next
  assume eq: "strict_eq u v"
  have "same_at u v p" for p
    using eq by (cases u; cases v; cases p) (simp_all add: same_at_def jfield_def)
  then show "\<forall>p. compared ex path p \<longrightarrow> same_at u v p" by simp
qed

lemma same_at_object_Cons:
  assumes "json_ok (JObject a)" and "json_ok (JObject b)"
  shows "same_at (JObject a) (JObject b) (k # ks) \<longleftrightarrow>
    (case (map_of a k, map_of b k) of
       (None, None) \<Rightarrow> True
     | (Some u, Some v) \<Rightarrow> same_at u v ks
     | (Some u, None) \<Rightarrow> json_at ks u = None
     | (None, Some v) \<Rightarrow> json_at ks v = None)"
  by (auto simp: same_at_def jfield_object [OF assms(1)] jfield_object [OF assms(2)] split: option.splits json.splits)

lemma json_at_everywhere_None: "(\<forall>p. compared ex path p \<longrightarrow> json_at p u = None) \<longleftrightarrow> False"
  by (auto intro: exI [of _ "[]"])

lemma same_at_objects:
  assumes "json_ok (JObject a)" and "json_ok (JObject b)"
  shows "(\<forall>p. compared ex path p \<longrightarrow> same_at (JObject a) (JObject b) p) \<longleftrightarrow>
    (\<forall>k. \<not> isPathExcluded (keyPath path k) ex \<longrightarrow>
      (\<forall>p. compared ex (keyPath path k) p \<longrightarrow> same_at (JObject a) (JObject b) (k # p)))" (is "?l \<longleftrightarrow> ?r")
proof
  assume ?l
  then show ?r by (metis compared.simps(2))
next
  assume r: ?r
  have "same_at (JObject a) (JObject b) []" by (simp add: same_at_def)
  with r show ?l by (metis compared.simps(2) neq_Nil_conv)
qed

text \<open>C38: \<open>diffObjects\<close> reports nothing exactly when the two documents agree at every path that is
  not excluded: so \<open>ntt status\<close>, \<open>pull\<close> and \<open>push\<close> overlook no difference and report none that is not there.
  (A value that is an array differs from every other value, as \<open>===\<close> compares references.)\<close>

theorem diff_empty_iff_same:
  assumes "json_ok (JObject a)" and "json_ok (JObject b)"
  shows "diffObjects ex path a b = [] \<longleftrightarrow> (\<forall>p. compared ex path p \<longrightarrow> same_at (JObject a) (JObject b) p)"
  using assms
proof (induction ex path a b rule: diffObjects.induct)
  case (1 ex path a b)
  have dist: "distinct (map fst a)" "distinct (map fst b)" using "1.prems" by simp_all
  have "key_diff (diffObjects ex (keyPath path k)) (map_of a k) (map_of b k) = None \<longleftrightarrow>
      (\<forall>p. compared ex (keyPath path k) p \<longrightarrow> same_at (JObject a) (JObject b) (k # p))"
    if k: "\<not> isPathExcluded (keyPath path k) ex" for k
  proof (cases "\<exists>x y. map_of a k = Some (JObject x) \<and> map_of b k = Some (JObject y)")
    case True
    then obtain x y where xy: "map_of a k = Some (JObject x)" "map_of b k = Some (JObject y)" by blast
    have "json_ok (JObject x)" "json_ok (JObject y)" using "1.prems" xy json_ok_member by blast+
    from "1.IH" [OF map_of_SomeD [OF xy(1)] k refl xy(2) this] show ?thesis
      by (simp add: key_diff_None xy same_at_object_Cons [OF "1.prems"])
  next
    case False
    then show ?thesis
      unfolding key_diff_None same_at_object_Cons [OF "1.prems"]
      by (cases "map_of a k"; cases "map_of b k")
        (auto simp: json_at_everywhere_None scalar_same_at split: json.splits)
  qed
  then show ?case unfolding diff_empty_iff_keys [OF dist] same_at_objects [OF "1.prems"] by blast
qed

theorem diff_empty_iff_same_witness:
  "same_at (JObject [(''paused'', JBool True), (''managerVariant'', JString ''x'')]) (JObject [(''paused'', JBool True)]) [''paused''] \<and>
   diffObjects EXCLUDED_DIFF_PATHS [] [(''paused'', JBool True)] [(''paused'', JBool False)] \<noteq> []"
proof -
  let ?a = "[(''paused'', JBool True), (''managerVariant'', JString ''x'')]" and ?b = "[(''paused'', JBool True)]"
  have "diffObjects EXCLUDED_DIFF_PATHS [] ?a ?b = []"
    by (simp add: diffObjects.simps prune_empty_def diff_entry_def isPathExcluded_def keyPath_def EXCLUDED_DIFF_PATHS_def)
  then have "same_at (JObject ?a) (JObject ?b) [''paused'']"
    using diff_empty_iff_same [of ?a ?b EXCLUDED_DIFF_PATHS "[]"]
    by (simp add: isPathExcluded_def keyPath_def EXCLUDED_DIFF_PATHS_def)
  moreover have "\<not> same_at (JObject [(''paused'', JBool True)]) (JObject [(''paused'', JBool False)]) [''paused'']"
    by (simp add: same_at_def jfield_def)
  then have "diffObjects EXCLUDED_DIFF_PATHS [] [(''paused'', JBool True)] [(''paused'', JBool False)] \<noteq> []"
    using diff_empty_iff_same [of "[(''paused'', JBool True)]" "[(''paused'', JBool False)]" EXCLUDED_DIFF_PATHS "[]"]
    by (auto simp: isPathExcluded_def keyPath_def EXCLUDED_DIFF_PATHS_def intro: exI [of _ "[''paused'']"])
  ultimately show ?thesis by blast
qed

subsection \<open>Pulling\<close>

text \<open>Scalars and objects only: what a chain's configuration as read from the chain consists of.\<close>

fun json_plain :: "json \<Rightarrow> bool" where
  "json_plain (JArray _) = False"
| "json_plain (JNumber n) = (n \<noteq> NaN)"
| "json_plain (JObject kvs) = (distinct (map fst kvs) \<and> list_all (\<lambda>(_, v). json_plain v) kvs)"
| "json_plain _ = True"

lemma json_plain_ok: "json_plain j \<Longrightarrow> json_ok j"
  by (induction j rule: json_plain.induct) (auto simp: list_all_iff)

lemma json_plain_member: "json_plain (JObject kvs) \<Longrightarrow> map_of kvs k = Some v \<Longrightarrow> json_plain v"
  by (auto simp: list_all_iff dest: map_of_SomeD)

lemma strict_eq_plain: "json_plain v \<Longrightarrow> \<nexists>a. v = JObject a \<Longrightarrow> strict_eq v v"
  by (cases v) simp_all

lemma diff_self: "json_plain (JObject a) \<Longrightarrow> b = a \<Longrightarrow> diffObjects ex path a b = []"
proof (induction ex path a b rule: diffObjects.induct)
  case (1 ex path a b)
  have d: "distinct (map fst a)" "distinct (map fst b)" using "1.prems" by simp_all
  show ?case unfolding diff_empty_iff_keys [OF d]
  proof (intro allI impI)
    fix k
    assume k: "\<not> isPathExcluded (keyPath path k) ex"
    show "key_diff (diffObjects ex (keyPath path k)) (map_of a k) (map_of b k) = None"
    proof (cases "\<exists>x. map_of a k = Some (JObject x)")
      case True
      then obtain x where x: "map_of a k = Some (JObject x)" by blast
      then have "diffObjects ex (keyPath path k) x x = []"
        using "1.IH" [OF map_of_SomeD [OF x] k refl, of x] "1.prems" json_plain_member [OF _ x] by simp
      then show ?thesis using x "1.prems"(2) by (simp add: key_diff_None)
    next
      case False
      show ?thesis
      proof (cases "map_of a k")
        case (Some v)
        then have "strict_eq v v" using False strict_eq_plain json_plain_member [OF "1.prems"(1)] by simp
        then show ?thesis using Some False "1.prems"(2) by (cases v) (simp_all add: key_diff_None)
      qed (use "1.prems"(2) in \<open>simp add: key_diff_None\<close>)
    qed
  qed
qed

lemma diff_obj_set:
  assumes "distinct (map fst o1)" "distinct (map fst o2)" and "diffObjects ex path o1 o2 = []"
    and "isPathExcluded (keyPath path k) ex \<or>
      (\<exists>a b. v = JObject a \<and> map_of o2 k = Some (JObject b) \<and> diffObjects ex (keyPath path k) a b = [])"
  shows "diffObjects ex path (obj_set k v o1) o2 = []"
  using assms(3,4) unfolding diff_empty_iff_keys [OF assms(1,2)] diff_empty_iff_keys [OF distinct_obj_set [OF assms(1)] assms(2)]
  by (auto simp: map_of_obj_set key_diff_None)

lemma getNestedValue_at: "getNestedValue p (Some j) = json_at p j"
proof -
  have none: "getNestedValue p None = None" for p by (induction p) (simp_all add: json_opt_get_def)
  show ?thesis by (induction p arbitrary: j) (simp_all add: json_opt_get_def none split: option.splits)
qed

lemma excluded_parts:
  "str_split (CHR ''.'') ''transceivers.wormhole.executor'' = [''transceivers'', ''wormhole'', ''executor'']"
  "str_split (CHR ''.'') ''managerVariant'' = [''managerVariant'']"
  by simp_all

lemma excluded_paths:
  "isPathExcluded (keyPath [] ''managerVariant'') EXCLUDED_DIFF_PATHS"
  "isPathExcluded (keyPath (keyPath (keyPath [] ''transceivers'') ''wormhole'') ''executor'') EXCLUDED_DIFF_PATHS"
  by (simp_all add: isPathExcluded_def keyPath_def EXCLUDED_DIFF_PATHS_def)

definition has_transceiver :: "json js_object \<Rightarrow> bool" where
  "has_transceiver r \<longleftrightarrow> (\<exists>t w. map_of r ''transceivers'' = Some (JObject t) \<and> map_of t ''wormhole'' = Some (JObject w))"

lemma set_executor:
  assumes r: "json_plain (JObject r)" and "has_transceiver r"
  obtains c where "setNestedValue [''transceivers'', ''wormhole'', ''executor''] v (JObject r) = Ok (JObject c)"
    "distinct (map fst c)" "diffObjects EXCLUDED_DIFF_PATHS [] c r = []"
    "map_of c ''managerVariant'' = map_of r ''managerVariant''"
    "json_ok v \<Longrightarrow> json_ok (JObject c)" "json_at [''transceivers'', ''wormhole'', ''executor''] (JObject c) = Some v"
proof -
  obtain t w where t: "map_of r ''transceivers'' = Some (JObject t)" and w: "map_of t ''wormhole'' = Some (JObject w)"
    using assms(2) by (auto simp: has_transceiver_def)
  have pt: "json_plain (JObject t)" using json_plain_member [OF r t] .
  have pw: "json_plain (JObject w)" using json_plain_member [OF pt w] .
  let ?w = "obj_set ''executor'' v w"
  let ?t = "obj_set ''wormhole'' (JObject ?w) t"
  let ?c = "obj_set ''transceivers'' (JObject ?t) r"
  note ok = json_plain_ok [OF r] json_plain_ok [OF pt] json_plain_ok [OF pw]
  have d: "distinct (map fst r)" "distinct (map fst t)" "distinct (map fst w)" using ok by simp_all
  have "diffObjects EXCLUDED_DIFF_PATHS (keyPath (keyPath [] ''transceivers'') ''wormhole'') ?w w = []"
    using diff_obj_set [OF d(3) d(3) diff_self [OF pw refl]] excluded_paths(2) by blast
  then have "diffObjects EXCLUDED_DIFF_PATHS (keyPath [] ''transceivers'') ?t t = []"
    using diff_obj_set [OF d(2) d(2) diff_self [OF pt refl]] w by blast
  then have df: "diffObjects EXCLUDED_DIFF_PATHS [] ?c r = []"
    using diff_obj_set [OF d(1) d(1) diff_self [OF r refl]] t by blast
  show ?thesis
  proof (rule that [OF _ distinct_obj_set [OF d(1)] df])
    show "setNestedValue [''transceivers'', ''wormhole'', ''executor''] v (JObject r) = Ok (JObject ?c)"
      using t w by (simp add: assign_prop_def json_get_def jfield_def map_of_rev d json_truthy_def)
    show "map_of ?c ''managerVariant'' = map_of r ''managerVariant''" by (simp add: map_of_obj_set)
    show "json_ok (JObject ?c)" if "json_ok v" using that ok by (intro json_ok_obj_set)
    show "json_at [''transceivers'', ''wormhole'', ''executor''] (JObject ?c) = Some v"
      by (simp add: jfield_def map_of_rev distinct_obj_set d map_of_obj_set)
  qed
qed

text \<open>
  What pulling a chain writes: nothing is left to pull, and the fields that exist only locally are
  those of the local file.
\<close>

lemma preserved_config:
  assumes r: "json_plain (JObject r)" and t: "has_transceiver r" and l: "json_ok local"
  obtains c where "preserve_excluded EXCLUDED_DIFF_PATHS local (JObject r) = Ok (JObject c)"
    "json_ok (JObject c)" "diffObjects EXCLUDED_DIFF_PATHS [] c r = []"
    "\<And>p v. p \<in> {[''transceivers'', ''wormhole'', ''executor''], [''managerVariant'']} \<Longrightarrow>
       json_at p local = Some v \<Longrightarrow> json_at p (JObject c) = Some v"
proof -
  let ?e = "[''transceivers'', ''wormhole'', ''executor'']" and ?m = "[''managerVariant'']"
  have ok_at: "json_at p j = Some v \<Longrightarrow> json_ok j \<Longrightarrow> json_ok v" for p j v
    by (induction p arbitrary: j) (auto split: option.splits dest: json_ok_jfield)
  obtain c where c: "(case json_at ?e local of None \<Rightarrow> Ok (JObject r) | Some v \<Rightarrow> setNestedValue ?e v (JObject r)) = Ok (JObject c)"
    "json_ok (JObject c)" "diffObjects EXCLUDED_DIFF_PATHS [] c r = []"
    "\<And>v. json_at ?e local = Some v \<Longrightarrow> json_at ?e (JObject c) = Some v"
  proof (cases "json_at ?e local")
    case None
    then show ?thesis using that [of r] json_plain_ok [OF r] diff_self [OF r refl] by simp
  next
    case (Some v)
    then show ?thesis using ok_at [OF Some l] that by (auto intro: set_executor [OF r t, of v])
  qed
  have dc: "distinct (map fst c)" "distinct (map fst r)" using c(2) json_plain_ok [OF r] by simp_all
  have preserved_rest: "preserve_excluded [] local = Ok" by (rule ext) simp
  have pe: "preserve_excluded EXCLUDED_DIFF_PATHS local (JObject r) =
      bind_res (case json_at ?e local of None \<Rightarrow> Ok (JObject r) | Some v \<Rightarrow> setNestedValue ?e v (JObject r)) (\<lambda>j.
        case json_at ?m local of None \<Rightarrow> Ok j | Some v \<Rightarrow> assign_prop ''managerVariant'' v j)"
    unfolding EXCLUDED_DIFF_PATHS_def preserve_excluded.simps Let_def excluded_parts getNestedValue_at setNestedValue.simps(2)
    by (cases "json_at ?e local"; cases "json_at ?m local") (simp_all add: preserved_rest del: setNestedValue.simps)
  show ?thesis
  proof (cases "json_at ?m local")
    case None
    then show ?thesis using c by (intro that [of c]) (auto simp: pe simp del: json_at.simps json_ok.simps setNestedValue.simps)
  next
    case (Some v)
    let ?c = "obj_set ''managerVariant'' v c"
    have "json_ok (JObject ?c)" using c(2) ok_at [OF Some l] by (intro json_ok_obj_set)
    moreover have "diffObjects EXCLUDED_DIFF_PATHS [] ?c r = []"
      using diff_obj_set [OF dc c(3)] excluded_paths(1) by blast
    moreover have "json_at ?m (JObject ?c) = Some v" "json_at ?e (JObject ?c) = json_at ?e (JObject c)"
      by (simp_all add: jfield_def map_of_rev distinct_obj_set dc map_of_obj_set)
    ultimately show ?thesis using c(1,4) Some by (intro that [of ?c]) (auto simp: pe assign_prop_def simp del: json_at.simps json_ok.simps setNestedValue.simps)
  qed
qed

end
