(* ===== verification/Cli_Config.thy ===== *)
theory Cli_Config
  imports Cli_Diff Effects
begin

section \<open>Command-line configuration\<close>

text \<open>
  \<open>cli/src/configuration.ts\<close>: settings per chain in a global and a project-local JSON file, overridden by
  environment variables, and \<open>buildVerifierArgs\<close> of \<open>cli/src/index.ts\<close>, which uses them. The file system
  is a map from paths to entries; a JSON file is represented by the value \<open>JSON.parse\<close> gives on it, so the
  text layout is not modelled. Paths are compared as text: a home directory that is the project root,
  where both files are one, is not covered. What is printed is left out.
\<close>

subsection \<open>Files\<close>

datatype fs_entry = Dir | Json_file json | Other_file

type_synonym file_system = "string \<Rightarrow> fs_entry option"

definition parent_dir :: "string \<Rightarrow> string" where
  "parent_dir p = (if CHR ''/'' \<in> set p then rev (tl (dropWhile (\<lambda>c. c \<noteq> CHR ''/'') (rev p))) else ''.'')"

definition fs_error :: "string \<Rightarrow> string \<Rightarrow> js_error" where
  "fs_error code p = coded_error ForeignError code (code @ '': '' @ p)"

definition existsSync :: "string \<Rightarrow> (file_system, bool) eff" where
  "existsSync p fs = (Ok (fs p \<noteq> None), fs)"

definition mkdirSync :: "string \<Rightarrow> (file_system, unit) eff" where
  "mkdirSync p fs =
     (if fs p \<noteq> None then (Throw (fs_error ''EEXIST'' p), fs)
      else if fs (parent_dir p) \<noteq> Some Dir then (Throw (fs_error ''ENOENT'' p), fs)
      else (Ok (), fs(p \<mapsto> Dir)))"

definition writeJson :: "string \<Rightarrow> json \<Rightarrow> (file_system, unit) eff" where
  "writeJson p j fs =
     (if fs p = Some Dir then (Throw (fs_error ''EISDIR'' p), fs)
      else if fs (parent_dir p) \<noteq> Some Dir then (Throw (fs_error ''ENOENT'' p), fs)
      else (Ok (), fs(p \<mapsto> Json_file j)))"

definition readJson :: "string \<Rightarrow> (file_system, json) eff" where
  "readJson p fs =
     ((case fs p of
         None \<Rightarrow> Throw (fs_error ''ENOENT'' p)
       | Some Dir \<Rightarrow> Throw (fs_error ''EISDIR'' p)
       | Some Other_file \<Rightarrow> Throw (new_error ForeignError ''JSON Parse error'')
       | Some (Json_file j) \<Rightarrow> Ok j), fs)"

definition ensureNttRoot :: "string \<Rightarrow> (file_system, unit) eff" where
  "ensureNttRoot pwd =
     bindM (existsSync (pwd @ ''/evm/foundry.toml'')) (\<lambda>evm.
     bindM (existsSync (pwd @ ''/solana/Anchor.toml'')) (\<lambda>solana.
       if \<not> evm \<or> \<not> solana then throwM (process_exit 1) else returnM ()))"

subsection \<open>The configuration files\<close>

datatype scope = Global | Local

definition configTemplate :: "string list" where
  "configTemplate = [''scan_api_key'', ''verifier'', ''verifier_url'']"

definition assertChainConfigKey :: "string \<Rightarrow> unit res" where
  "assertChainConfigKey key = guard_res (key \<notin> set configTemplate) (new_error PlainError (''Invalid key: '' @ key))"

definition resolveScope :: "bool \<Rightarrow> bool \<Rightarrow> scope res" where
  "resolveScope local global =
     (if local \<and> global then Throw (new_error PlainError ''Cannot specify both --local and --global'')
      else if local then Ok Local
      else if global then Ok Global
      else Throw (new_error PlainError ''Must specify either --local or --global''))"

definition config_dir :: "env \<Rightarrow> scope \<Rightarrow> (file_system, string) eff" where
  "config_dir env scope =
     (case scope of
        Global \<Rightarrow>
          (case env ''HOME'' of
             None \<Rightarrow> throwM (new_error PlainError ''Could not determine home directory'')
           | Some home \<Rightarrow>
               (if home = [] then throwM (new_error PlainError ''Could not determine home directory'')
                else returnM (home @ ''/.ntt-cli'')))
      | Local \<Rightarrow> bindM (ensureNttRoot ''.'') (\<lambda>_. returnM ''.ntt-cli''))"

definition findOrCreateConfigFile :: "env \<Rightarrow> scope \<Rightarrow> (file_system, string) eff" where
  "findOrCreateConfigFile env scope =
     bindM (config_dir env scope) (\<lambda>configDir.
     bindM (existsSync configDir) (\<lambda>there.
     bindM (if there then returnM () else mkdirSync configDir) (\<lambda>_.
     let configFile = configDir @ ''/config.json'' in
     bindM (existsSync configFile) (\<lambda>exists.
     bindM (if exists then returnM () else writeJson configFile (JObject [(''chains'', JObject [])])) (\<lambda>_.
       returnM configFile)))))"

text \<open>Assignment of a value that may be undefined, which \<open>JSON.stringify\<close> leaves out.\<close>

definition assign_optional :: "string \<Rightarrow> json option \<Rightarrow> json \<Rightarrow> json res" where
  "assign_optional k value target =
     (case value of
        Some v \<Rightarrow> assign_prop k v target
      | None \<Rightarrow> bind_res (assign_prop k JNull target) (\<lambda>t.
          Ok (case t of JObject kvs \<Rightarrow> JObject (obj_del k kvs) | _ \<Rightarrow> t)))"

definition set_chain_value :: "string \<Rightarrow> string \<Rightarrow> json option \<Rightarrow> json \<Rightarrow> json res" where
  "set_chain_value chain key value config =
     bind_res (json_get ''chains'' (Some config)) (\<lambda>cs.
     bind_res (json_get chain cs) (\<lambda>cur.
     bind_res (assign_optional key value (if json_truthy cur then the cur else JObject [])) (\<lambda>cur'.
     bind_res (assign_prop chain cur' (the cs)) (\<lambda>cs'.
       assign_prop ''chains'' cs' config))))"

definition setChainConfig :: "env \<Rightarrow> scope \<Rightarrow> string \<Rightarrow> string \<Rightarrow> json option \<Rightarrow> (file_system, unit) eff" where
  "setChainConfig env scope chain key value =
     bindM (findOrCreateConfigFile env scope) (\<lambda>configFile.
     bindM (readJson configFile) (\<lambda>config.
     bindM (liftM (set_chain_value chain key value config)) (\<lambda>config'.
       writeJson configFile config')))"

definition getChainConfig :: "env \<Rightarrow> scope \<Rightarrow> string \<Rightarrow> string \<Rightarrow> (file_system, json option) eff" where
  "getChainConfig env scope chain key =
     bindM (findOrCreateConfigFile env scope) (\<lambda>configFile.
     bindM (readJson configFile) (\<lambda>config.
       liftM (bind_res (json_get ''chains'' (Some config)) (\<lambda>cs.
              bind_res (json_get chain cs) (\<lambda>cc. Ok (json_opt_get key cc))))))"

definition envVarName :: "string \<Rightarrow> string \<Rightarrow> string" where
  "envVarName chain key = toUpperCase chain @ ''_'' @ toUpperCase key"

definition config_get :: "env \<Rightarrow> string \<Rightarrow> string \<Rightarrow> (file_system, json option) eff" where
  "config_get env chain key =
     (case env (envVarName chain key) of
        Some (c # cs) \<Rightarrow> returnM (Some (JString (c # cs)))
      | _ \<Rightarrow>
          bindM (getChainConfig env Local chain key) (\<lambda>local.
            if json_truthy local then returnM local
            else bindM (getChainConfig env Global chain key) (\<lambda>global.
              returnM (if json_truthy global then global else None))))"

subsection \<open>The commands\<close>

text \<open>\<open>assertChain\<close> of the Wormhole SDK, over its list of chain names.\<close>

definition assertChain :: "string list \<Rightarrow> string \<Rightarrow> unit res" where
  "assertChain chain_names c = guard_res (c \<notin> set chain_names) (new_error ForeignError (''Unknown chain: '' @ c))"

definition set_chain_command ::
  "string list \<Rightarrow> env \<Rightarrow> bool \<Rightarrow> bool \<Rightarrow> string \<Rightarrow> string \<Rightarrow> string \<Rightarrow> (file_system, unit) eff" where
  "set_chain_command chain_names env local global chain key value =
     bindM (liftM (resolveScope local global)) (\<lambda>scope.
     bindM (liftM (assertChain chain_names chain)) (\<lambda>_.
     bindM (liftM (assertChainConfigKey key)) (\<lambda>_.
       setChainConfig env scope chain key (Some (JString value)))))"

definition unset_chain_command ::
  "string list \<Rightarrow> env \<Rightarrow> bool \<Rightarrow> bool \<Rightarrow> string \<Rightarrow> string \<Rightarrow> (file_system, unit) eff" where
  "unset_chain_command chain_names env local global chain key =
     bindM (liftM (resolveScope local global)) (\<lambda>scope.
     bindM (liftM (assertChainConfigKey key)) (\<lambda>_.
     bindM (liftM (assertChain chain_names chain)) (\<lambda>_.
       setChainConfig env scope chain key None)))"

definition get_chain_command ::
  "string list \<Rightarrow> env \<Rightarrow> bool \<Rightarrow> bool \<Rightarrow> string \<Rightarrow> string \<Rightarrow> (file_system, json option) eff" where
  "get_chain_command chain_names env local global chain key =
     bindM (liftM (resolveScope local global)) (\<lambda>scope.
     bindM (liftM (assertChainConfigKey key)) (\<lambda>_.
     bindM (liftM (assertChain chain_names chain)) (\<lambda>_.
       getChainConfig env scope chain key)))"

text \<open>The defaults \<open>yargs\<close> fills in for the two flags.\<close>

definition default_local :: bool where "default_local = False"

definition default_global :: bool where "default_global = True"

text \<open>The arguments for contract verification.\<close>

definition needed :: "json option \<Rightarrow> (json \<Rightarrow> (file_system, 'a) eff) \<Rightarrow> (file_system, 'a) eff" where
  "needed v k = (if json_truthy v then k (the v) else throwM (process_exit 1))"

definition buildVerifierArgs :: "env \<Rightarrow> string \<Rightarrow> (file_system, json list) eff" where
  "buildVerifierArgs env chain =
     bindM (config_get env chain ''verifier'') (\<lambda>verifier.
       let verifierType = (if json_truthy verifier then the verifier else JString ''etherscan'') in
       if verifierType = JString ''blockscout'' then
         bindM (config_get env chain ''verifier_url'') (\<lambda>url. needed url (\<lambda>u.
           returnM [JString ''--verify'', JString ''--verifier'', JString ''blockscout'', JString ''--verifier-url'', u]))
       else if verifierType = JString ''sourcify'' then
         bindM (config_get env chain ''verifier_url'') (\<lambda>url. needed url (\<lambda>u.
           returnM [JString ''--verify'', JString ''--verifier'', JString ''sourcify'', JString ''--verifier-url'', u]))
       else
         bindM (config_get env chain ''scan_api_key'') (\<lambda>apiKey. needed apiKey (\<lambda>a.
           returnM [JString ''--verify'', JString ''--etherscan-api-key'', a])))"

subsection \<open>The abstract store\<close>

text \<open>
  What the files promise: a store of settings by scope, chain and key. \<open>put\<close> changes one setting or, when
  it throws, none; \<open>fetch\<close> returns what is stored. Creating a missing file changes no setting.
\<close>

locale scoped_store =
  fixes invar :: "'s \<Rightarrow> bool" and look :: "'s \<Rightarrow> 'i \<Rightarrow> 'v option"
    and put :: "'i \<Rightarrow> 'v option \<Rightarrow> ('s, unit) eff" and fetch :: "'i \<Rightarrow> ('s, 'v option) eff"
    and good :: "'v \<Rightarrow> bool"
  assumes put_law: "invar s \<Longrightarrow> (\<And>x. v = Some x \<Longrightarrow> good x) \<Longrightarrow> put i v s = (r, s') \<Longrightarrow>
      invar s' \<and> look s' = (if r = Ok () then (look s)(i := v) else look s)"
    and fetch_law: "invar s \<Longrightarrow> fetch i s = (answer, s') \<Longrightarrow>
      invar s' \<and> look s' = look s \<and> (\<forall>x. answer = Ok x \<longrightarrow> x = look s i)"
begin

lemma fetch_after_put:
  assumes "invar s" "\<And>x. v = Some x \<Longrightarrow> good x" "put i v s = (Ok (), s1)" "fetch j s1 = (Ok x, s2)"
  shows "x = (if j = i then v else look s j)"
  using put_law [OF assms(1-3)] fetch_law [OF _ assms(4)] by auto

lemma forM_puts:
  assumes "invar s" "\<And>i x. (i, Some x) \<in> set ops \<Longrightarrow> good x"
    and "forM ops (\<lambda>(i, v). put i v) s = (Ok (), s')"
  shows "invar s' \<and> look s' = foldl (\<lambda>m (i, v). m(i := v)) (look s) ops"
  using assms
proof (induction ops arbitrary: s)
  case (Cons op ops)
  obtain i v where op: "op = (i, v)" by fastforce
  obtain s1 where s1: "put i v s = (Ok (), s1)" "forM ops (\<lambda>(i, v). put i v) s1 = (Ok (), s')"
    using Cons.prems(3) by (auto simp: op bindM_Ok_iff)
  have "invar s1 \<and> look s1 = (look s)(i := v)" using put_law [OF Cons.prems(1) _ s1(1)] Cons.prems(2) op by auto
  moreover have "\<And>i x. (i, Some x) \<in> set ops \<Longrightarrow> good x" using Cons.prems(2) by auto
  ultimately show ?case using Cons.IH [OF _ _ s1(2)] by (simp add: op)
qed (simp add: returnM_def)

end

definition config_file :: "env \<Rightarrow> scope \<Rightarrow> string" where
  "config_file env scope =
     (case scope of Global \<Rightarrow> (case env ''HOME'' of None \<Rightarrow> [] | Some home \<Rightarrow> home) @ ''/.ntt-cli'' | Local \<Rightarrow> ''.ntt-cli'')
     @ ''/config.json''"

definition wf_config :: "json \<Rightarrow> bool" where
  "wf_config j \<longleftrightarrow> json_ok j \<and> (\<exists>kvs cs. j = JObject kvs \<and> map_of kvs ''chains'' = Some (JObject cs) \<and>
     (\<forall>c v. map_of cs c = Some v \<longrightarrow> (\<exists>os. v = JObject os)))"

definition store_ok :: "env \<Rightarrow> file_system \<Rightarrow> bool" where
  "store_ok env fs \<longleftrightarrow> (\<forall>scope j. fs (config_file env scope) = Some (Json_file j) \<longrightarrow> wf_config j)"

definition stored :: "env \<Rightarrow> file_system \<Rightarrow> scope \<times> string \<times> string \<Rightarrow> json option" where
  "stored env fs i = (case i of (scope, chain, key) \<Rightarrow>
     (case fs (config_file env scope) of Some (Json_file j) \<Rightarrow> json_at [''chains'', chain, key] j | _ \<Rightarrow> None))"

lemma config_file_inject: "config_file env a = config_file env b \<longleftrightarrow> a = b"
  by (cases a; cases b) (auto simp: config_file_def append_eq_Cons_conv split: option.splits)

lemma wf_empty_config: "wf_config (JObject [(''chains'', JObject [])])"
  by (simp add: wf_config_def)

lemma store_new_entry:
  assumes "fs p = None" and "e = Dir \<or> e = Json_file (JObject [(''chains'', JObject [])])"
  shows "stored env (fs(p \<mapsto> e)) = stored env fs" and "store_ok env fs \<Longrightarrow> store_ok env (fs(p \<mapsto> e))"
  using assms wf_empty_config by (auto simp: stored_def store_ok_def jfield_def fun_eq_iff)

definition keeps_store :: "env \<Rightarrow> (scope \<times> string \<times> string \<Rightarrow> json option) \<Rightarrow> file_system \<Rightarrow> bool" where
  "keeps_store env S fs \<longleftrightarrow> store_ok env fs \<and> stored env fs = S"

lemma findOrCreate_keeps:
  assumes "findOrCreateConfigFile env scope fs = (r, fs')" and "store_ok env fs"
  shows "store_ok env fs' \<and> stored env fs' = stored env fs \<and> (\<forall>p. r = Ok p \<longrightarrow> p = config_file env scope)"
proof -
  have dir: "valid (keeps_store env S) (config_dir env scope)
      (\<lambda>d s. d @ ''/config.json'' = config_file env scope \<and> keeps_store env S s) (\<lambda>_. keeps_store env S)" for S
    by (auto simp: valid_def config_dir_def config_file_def ensureNttRoot_def existsSync_def bindM_def returnM_def throwM_def
        split: scope.splits option.splits)
  have mk: "valid (\<lambda>s. Q \<and> keeps_store env S s) (bindM (existsSync p) (\<lambda>b. if b then returnM () else mkdirSync p))
      (\<lambda>_ s. Q \<and> keeps_store env S s) (\<lambda>_. keeps_store env S)" for S Q p
    by (auto simp: valid_def existsSync_def bindM_def mkdirSync_def returnM_def keeps_store_def store_new_entry)
  have wr: "valid (\<lambda>s. Q \<and> keeps_store env S s)
      (bindM (existsSync p) (\<lambda>b. if b then returnM () else writeJson p (JObject [(''chains'', JObject [])])))
      (\<lambda>_ s. Q \<and> keeps_store env S s) (\<lambda>_. keeps_store env S)" for S Q p
    by (auto simp: valid_def existsSync_def bindM_def writeJson_def returnM_def keeps_store_def store_new_entry)
  have assoc: "bindM m (\<lambda>x. bindM (f x) g) = bindM (bindM m f) g" for m :: "(file_system, bool) eff" and f and g :: "unit \<Rightarrow> (file_system, 'b) eff"
    by (rule ext) (simp add: bindM_def split: prod.splits sum.splits)
  have "valid (keeps_store env S) (findOrCreateConfigFile env scope)
      (\<lambda>p s. p = config_file env scope \<and> keeps_store env S s) (\<lambda>_. keeps_store env S)" for S
    unfolding findOrCreateConfigFile_def Let_def assoc
    by (rule valid_bind [OF dir], rule valid_bind [OF mk], rule valid_bind [OF wr], rule valid_return) simp
  note run = validD [OF this, of "stored env fs" fs]
  have "keeps_store env (stored env fs) fs" using assms(2) by (simp add: keeps_store_def)
  then show ?thesis using run assms(1) by (cases r) (auto simp: keeps_store_def)
qed

lemma assign_optional_object:
  "assign_optional k value (JObject kvs) =
     Ok (JObject (case value of Some v \<Rightarrow> obj_set k v kvs | None \<Rightarrow> obj_del k (obj_set k JNull kvs)))"
  by (simp add: assign_optional_def assign_prop_def split: option.splits)

lemma json_at_chain:
  assumes "json_ok (JObject kvs)" and "map_of kvs ''chains'' = Some (JObject cs)"
  shows "json_at [''chains'', c, k] (JObject kvs) = Option.bind (map_of cs c) (jfield k)"
  using jfield_object [OF assms(1)] jfield_object [OF json_ok_member [OF assms]] assms(2)
  by (auto split: option.splits)

lemma set_chain_value_wf:
  assumes "wf_config j" and "\<And>v. value = Some v \<Longrightarrow> json_ok v"
  obtains j' where "set_chain_value chain key value j = Ok j'" "wf_config j'"
    "\<And>c k. json_at [''chains'', c, k] j' = (if c = chain \<and> k = key then value else json_at [''chains'', c, k] j)"
proof -
  obtain kvs cs where j: "j = JObject kvs" "json_ok (JObject kvs)" "map_of kvs ''chains'' = Some (JObject cs)"
    and cs: "\<And>c v. map_of cs c = Some v \<Longrightarrow> \<exists>os. v = JObject os" using assms(1) by (auto simp: wf_config_def)
  have okc: "json_ok (JObject cs)" using json_ok_member [OF j(2,3)] .
  define cur where "cur = (case map_of cs chain of Some (JObject os) \<Rightarrow> os | _ \<Rightarrow> [])"
  have cur: "(if json_truthy (map_of cs chain) then the (map_of cs chain) else JObject []) = JObject cur"
    using cs [of chain] by (cases "map_of cs chain") (auto simp: cur_def json_truthy_def)
  have okcur: "json_ok (JObject cur)"
    using json_ok_member [OF okc, of chain] by (auto simp: cur_def split: option.splits json.splits)
  let ?cur = "case value of Some v \<Rightarrow> obj_set key v cur | None \<Rightarrow> obj_del key (obj_set key JNull cur)"
  let ?cs = "obj_set chain (JObject ?cur) cs"
  let ?kvs = "obj_set ''chains'' (JObject ?cs) kvs"
  have okcur': "json_ok (JObject ?cur)"
    using okcur assms(2) by (auto split: option.splits intro!: json_ok_obj_set json_ok_obj_del simp del: json_ok.simps(2))
  have okcs': "json_ok (JObject ?cs)" using okc okcur' by (rule json_ok_obj_set)
  have okk: "json_ok (JObject ?kvs)" using j(2) okcs' by (rule json_ok_obj_set)
  have mk: "map_of ?kvs ''chains'' = Some (JObject ?cs)" by (simp add: map_of_obj_set)
  have lk: "jfield k (JObject ?cur) = (if k = key then value else jfield k (JObject cur))" for k
    using jfield_object [OF okcur'] jfield_object [OF okcur] by (auto simp: map_of_obj_set map_of_obj_del split: option.splits)
  show ?thesis
  proof (rule that [of "JObject ?kvs"])
    show "set_chain_value chain key value j = Ok (JObject ?kvs)"
      by (simp add: set_chain_value_def json_get_def jfield_object [OF j(2)] j jfield_object [OF okc] cur
          assign_optional_object assign_prop_def del: json_ok.simps(2))
    show "wf_config (JObject ?kvs)" unfolding wf_config_def
      using okk mk cs by (auto simp: map_of_obj_set simp del: json_ok.simps(2) split: if_splits)
    show "json_at [''chains'', c, k] (JObject ?kvs) =
        (if c = chain \<and> k = key then value else json_at [''chains'', c, k] j)" for c k
      unfolding j(1) json_at_chain [OF okk mk] json_at_chain [OF j(2,3)]
      using lk cs [of chain] by (auto simp: map_of_obj_set cur_def jfield_def split: option.splits)
  qed
qed

lemma bindM_cases:
  assumes "bindM m f s = (r, s')"
  obtains e where "m s = (Throw e, s')" "r = Throw e" | x s1 where "m s = (Ok x, s1)" "f x s1 = (r, s')"
  using assms by (auto simp: bindM_def split: prod.splits sum.splits)

lemma setChainConfig_refines:
  assumes "store_ok env fs" and "\<And>x. v = Some x \<Longrightarrow> json_ok x" and "setChainConfig env scope chain key v fs = (r, fs')"
  shows "store_ok env fs' \<and>
    stored env fs' = (if r = Ok () then (stored env fs)((scope, chain, key) := v) else stored env fs)"
  using assms(3) unfolding setChainConfig_def
proof (cases rule: bindM_cases)
  case (1 e)
  then show ?thesis using findOrCreate_keeps [OF 1(1) assms(1)] by simp
next
  case (2 p fs1)
  note k = findOrCreate_keeps [OF 2(1) assms(1)]
  then have p: "p = config_file env scope" by simp
  show ?thesis
  proof (cases "\<exists>j. fs1 p = Some (Json_file j)")
    case False
    then have "\<exists>e. r = Throw e" "fs' = fs1"
      using 2(2) by (auto simp: bindM_def readJson_def split: option.splits fs_entry.splits)
    then show ?thesis using k by auto
  next
    case True
    then obtain j where j: "fs1 p = Some (Json_file j)" by blast
    then have "wf_config j" using k [THEN conjunct1] unfolding store_ok_def p by blast
    then obtain j' where j': "set_chain_value chain key v j = Ok j'" "wf_config j'"
      "\<And>c k. json_at [''chains'', c, k] j' = (if c = chain \<and> k = key then v else json_at [''chains'', c, k] j)"
      using set_chain_value_wf assms(2) by metis
    have w: "writeJson p j' fs1 = (r, fs')" using 2(2) j j'(1) by (simp add: bindM_def readJson_def liftM_def)
    show ?thesis
    proof (cases "r = Ok ()")
      case False
      then have "fs' = fs1" using w by (auto simp: writeJson_def split: if_splits)
      then show ?thesis using k False by simp
    next
      case True
      then have fs': "fs' = fs1(p \<mapsto> Json_file j')" using w by (auto simp: writeJson_def split: if_splits)
      have "stored env fs' = (stored env fs1)((scope, chain, key) := v)"
        using j j'(3) by (auto simp: fs' stored_def p config_file_inject fun_eq_iff simp del: json_at.simps)
      moreover have "store_ok env fs'" using k j'(2) by (auto simp: fs' store_ok_def p config_file_inject)
      ultimately show ?thesis using k True by simp
    qed
  qed
qed

lemma json_get_opt: "json_get k v = Ok u \<Longrightarrow> u = json_opt_get k v"
  by (auto simp: json_get_def json_opt_get_def split: option.splits json.splits)

lemma getChainConfig_refines:
  assumes "store_ok env fs" and "getChainConfig env scope chain key fs = (r, fs')"
  shows "store_ok env fs' \<and> stored env fs' = stored env fs \<and> (\<forall>x. r = Ok x \<longrightarrow> x = stored env fs (scope, chain, key))"
  using assms(2) unfolding getChainConfig_def
proof (cases rule: bindM_cases)
  case (1 e)
  then show ?thesis using findOrCreate_keeps [OF 1(1) assms(1)] by simp
next
  case (2 p fs1)
  note k = findOrCreate_keeps [OF 2(1) assms(1)]
  have "fs' = fs1" using 2(2) by (auto simp: bindM_def readJson_def liftM_def split: option.splits fs_entry.splits)
  moreover have "x = stored env fs1 (scope, chain, key)" if ok: "r = Ok x" for x
  proof -
    obtain j where j: "fs1 p = Some (Json_file j)"
      using 2(2) ok by (auto simp: bindM_def readJson_def split: option.splits fs_entry.splits)
    then have "bind_res (json_get ''chains'' (Some j)) (\<lambda>cs. bind_res (json_get chain cs) (\<lambda>cc. Ok (json_opt_get key cc))) = Ok x"
      using 2(2) ok by (simp add: bindM_def readJson_def liftM_def)
    then have "x = getNestedValue [''chains'', chain, key] (Some j)"
      by (auto simp: bind_res_Ok_iff dest!: json_get_opt)
    then show ?thesis using j k [THEN conjunct2, THEN conjunct2] by (simp add: stored_def getNestedValue_at del: json_at.simps getNestedValue.simps)
  qed
  ultimately show ?thesis using k by simp
qed

interpretation files: scoped_store "store_ok env" "stored env"
  "\<lambda>(scope, chain, key). setChainConfig env scope chain key"
  "\<lambda>(scope, chain, key). getChainConfig env scope chain key" json_ok for env
proof unfold_locales
  fix s v i r s'
  assume "store_ok env s" "\<And>x. v = Some x \<Longrightarrow> json_ok x" "(case i of (scope, chain, key) \<Rightarrow> setChainConfig env scope chain key) v s = (r, s')"
  then show "store_ok env s' \<and> stored env s' = (if r = Ok () then (stored env s)(i := v) else stored env s)"
    using setChainConfig_refines by (cases i) (metis (no_types, lifting) case_prod_conv)
next
  fix s i answer s'
  assume "store_ok env s" "(case i of (scope, chain, key) \<Rightarrow> getChainConfig env scope chain key) s = (answer, s')"
  then show "store_ok env s' \<and> stored env s' = stored env s \<and> (\<forall>x. answer = Ok x \<longrightarrow> x = stored env s i)"
    using getChainConfig_refines by (cases i) (metis (no_types, lifting) case_prod_conv)
qed

subsection \<open>Properties\<close>

text \<open>The setting that applies: the environment, then the project's, then the user's; empty ones count as absent.\<close>

definition applies :: "env \<Rightarrow> (scope \<times> string \<times> string \<Rightarrow> json option) \<Rightarrow> string \<Rightarrow> string \<Rightarrow> json option" where
  "applies env m chain key =
     (case filter json_truthy [map_option JString (env (envVarName chain key)), m (Local, chain, key), m (Global, chain, key)] of
        [] \<Rightarrow> None
      | v # _ \<Rightarrow> v)"

lemma truthy_string: "json_truthy (map_option JString s) \<longleftrightarrow> (\<exists>c cs. s = Some (c # cs))"
  by (cases s) (auto simp: json_truthy_def neq_Nil_conv)

lemma config_get_applies:
  assumes "store_ok env fs" and "config_get env chain key fs = (Ok x, fs')"
  shows "x = applies env (stored env fs) chain key \<and> stored env fs' = stored env fs"
proof (cases "\<exists>c cs. env (envVarName chain key) = Some (c # cs)")
  case True
  then show ?thesis using assms(2) by (auto simp: config_get_def returnM_def applies_def truthy_string)
next
  case False
  then have "bindM (getChainConfig env Local chain key) (\<lambda>local. if json_truthy local then returnM local
      else bindM (getChainConfig env Global chain key) (\<lambda>global. returnM (if json_truthy global then global else None))) fs = (Ok x, fs')"
    using assms(2) by (auto simp: config_get_def split: option.splits list.splits)
  then obtain local fs1 where l: "getChainConfig env Local chain key fs = (Ok local, fs1)"
    and rest: "(if json_truthy local then returnM local
      else bindM (getChainConfig env Global chain key) (\<lambda>global. returnM (if json_truthy global then global else None))) fs1 = (Ok x, fs')"
    by (auto simp: bindM_Ok_iff)
  note k = getChainConfig_refines [OF assms(1) l]
  have e: "\<not> json_truthy (map_option JString (env (envVarName chain key)))" using False by (simp add: truthy_string)
  show ?thesis
  proof (cases "json_truthy local")
    case True
    then show ?thesis using rest k e by (simp add: returnM_def applies_def)
  next
    case False
    then obtain global where g: "getChainConfig env Global chain key fs1 = (Ok global, fs')"
      and x: "x = (if json_truthy global then global else None)"
      using rest by (auto simp: bindM_Ok_iff returnM_def)
    have "global = stored env fs (Global, chain, key)" "stored env fs' = stored env fs"
      using getChainConfig_refines [OF _ g] k by auto
    moreover have "local = stored env fs (Local, chain, key)" using k by simp
    ultimately show ?thesis using False x e by (simp add: applies_def)
  qed
qed

definition write_setting :: "env \<Rightarrow> (scope \<times> string \<times> string) \<times> string option \<Rightarrow> (file_system, unit) eff" where
  "write_setting env op = (case op of ((scope, chain, key), v) \<Rightarrow> setChainConfig env scope chain key (map_option JString v))"

text \<open>C39: The configuration files implement a map of settings. After any sequence of \<open>set-chain\<close> and
  \<open>unset-chain\<close>, in either scope, the settings are those of the map with the same updates, and
  \<open>get\<close> returns the environment variable, else the project's setting, else the user's.\<close>

theorem config_store_refines:
  assumes "store_ok env fs" and "forM ops (write_setting env) fs = (Ok (), fs1)"
  shows "stored env fs1 = foldl (\<lambda>m (i, v). m(i := map_option JString v)) (stored env fs) ops \<and>
    (\<forall>chain key x fs2. config_get env chain key fs1 = (Ok x, fs2) \<longrightarrow>
       x = applies env (foldl (\<lambda>m (i, v). m(i := map_option JString v)) (stored env fs) ops) chain key \<and>
       stored env fs2 = stored env fs1)"
proof -
  let ?ops = "map (\<lambda>(i, v). (i, map_option JString v)) ops"
  have "forM ?ops (\<lambda>(i, v). (case i of (scope, chain, key) \<Rightarrow> setChainConfig env scope chain key) v) = forM ops (write_setting env)"
    by (induction ops) (auto simp: write_setting_def)
  then have run: "forM ?ops (\<lambda>(i, v). (case i of (scope, chain, key) \<Rightarrow> setChainConfig env scope chain key) v) fs = (Ok (), fs1)"
    using assms(2) by simp
  have "json_ok x" if "(i, Some x) \<in> set ?ops" for i x using that by (auto simp: map_option_case split: option.splits)
  from files.forM_puts [OF assms(1) this run]
  have "store_ok env fs1 \<and> stored env fs1 = foldl (\<lambda>m (i, v). m(i := map_option JString v)) (stored env fs) ops"
    by (simp add: foldl_map case_prod_unfold)
  then show ?thesis using config_get_applies by metis
qed

definition demo_home :: env where
  "demo_home nm = (if nm = ''HOME'' then Some ''/h'' else None)"

definition demo_fs :: file_system where
  "demo_fs p =
     (if p \<in> {''/h'', ''.''} then Some Dir
      else if p \<in> {''./evm/foundry.toml'', ''./solana/Anchor.toml''} then Some Other_file else None)"

definition demo_settings :: "((scope \<times> string \<times> string) \<times> string option) list" where
  "demo_settings =
     [((Global, ''Sui'', ''verifier''), Some ''a''), ((Local, ''Sui'', ''verifier''), Some ''b''), ((Local, ''Sui'', ''verifier''), None)]"

theorem config_store_refines_witness:
  "fst (config_get demo_home ''Sui'' ''verifier'' (snd (forM demo_settings (write_setting demo_home) demo_fs))) =
     Ok (Some (JString ''a''))"
proof -
  let ?fs1 = "snd (forM demo_settings (write_setting demo_home) demo_fs)"
  have "fst (forM demo_settings (write_setting demo_home) demo_fs) = Ok ()" by code_simp
  then have run: "forM demo_settings (write_setting demo_home) demo_fs = (Ok (), ?fs1)" by (simp add: prod_eq_iff)
  have ok: "store_ok demo_home demo_fs" by (simp add: store_ok_def demo_fs_def)
  have "stored demo_home demo_fs = (\<lambda>_. None)"
    by (rule ext) (auto simp: stored_def demo_fs_def config_file_def demo_home_def split: prod.splits scope.splits)
  then have m: "applies demo_home (foldl (\<lambda>m (i, v). m(i := map_option JString v)) (stored demo_home demo_fs) demo_settings)
      ''Sui'' ''verifier'' = Some (JString ''a'')"
    by (simp add: applies_def demo_settings_def demo_home_def envVarName_def toUpperCase_def upper_char_def json_truthy_def)
  have "\<exists>x. fst (config_get demo_home ''Sui'' ''verifier'' ?fs1) = Ok x" by (rule exI [of _ "Some (JString ''a'')"]) code_simp
  then obtain x fs2 where "config_get demo_home ''Sui'' ''verifier'' ?fs1 = (Ok x, fs2)" by (metis prod.collapse)
  then show ?thesis using config_store_refines [OF ok run] m by (metis fst_conv)
qed

text \<open>
  The flag \<open>--local\<close> alone never works: \<open>--global\<close> is on by default, so both are set and the command
  throws before it reads or writes a file.
\<close>

lemma local_flag_refused:
  "\<exists>e. set_chain_command names env True default_global chain key value fs = (Throw e, fs) \<and>
       unset_chain_command names env True default_global chain key fs = (Throw e, fs) \<and>
       get_chain_command names env True default_global chain key fs = (Throw e, fs)"
  by (simp add: set_chain_command_def unset_chain_command_def get_chain_command_def resolveScope_def default_global_def
      bindM_def liftM_def)

end
