(* ===== verification/Cli_World.thy ===== *)
theory Cli_World
  imports Cli_Config "HOL-Library.List_Lexorder" "HOL-Library.Char_ord"
begin

section \<open>The command line and the chains it manages\<close>

text \<open>
  What the deployment commands of \<open>cli/src/index.ts\<close> work on. The chain clients, the Wormhole SDK, the signers,
  git and the user's answers are the fields of \<open>ntt_net\<close>, a parameter: a read is given the number of
  the interaction, so its answers may change between any two of them, and may throw. A transaction (or
  a run of a deployment tool) is a value of \<open>chain_op\<close>; submitting it enters it in \<open>cw_sent\<close> with the
  chain and the owner contract it goes through, whatever its outcome. A client is a chain with the
  address of its manager. Also here: the number format of limits, version tags, the retried read
  (the waits between attempts are not modelled) and \<open>signSendWait.ts\<close>.
\<close>

subsection \<open>Numbers in deployment files\<close>

definition slice_upto_last :: "nat \<Rightarrow> string \<Rightarrow> string" where
  "slice_upto_last n s = (if n = 0 then [] else take (length s - n) s)"

definition slice_from_last :: "nat \<Rightarrow> string \<Rightarrow> string" where
  "slice_from_last n s = (if n = 0 then s else drop (length s - n) s)"

definition formatNumber :: "int \<Rightarrow> nat \<Rightarrow> string" where
  "formatNumber num decimals =
     (if num = 0 then ''0.'' @ replicate decimals (CHR ''0'')
      else
        (let str = show_int num;
             formatted = slice_upto_last decimals str @ ''.'' @ slice_from_last decimals str
         in if starts_with ''.'' formatted then ''0'' @ formatted else formatted))"

definition checkNumberFormatting :: "string \<Rightarrow> nat \<Rightarrow> bool" where
  "checkNumberFormatting formatted decimals =
     (let parts = str_split (CHR ''.'') formatted in length parts = 2 \<and> length (parts ! 1) = decimals)"

text \<open>\<open>BigInt(limit.replace(".", ""))\<close>, as \<open>push\<close> reads a limit.\<close>

definition read_limit :: "string \<Rightarrow> int res" where
  "read_limit s =
     (case js_BigInt (drop_first (CHR ''.'') s) of
        None \<Rightarrow> Throw (new_error ForeignError ''Failed to parse String to BigInt'')
      | Some i \<Rightarrow> Ok i)"

subsection \<open>Operations and answers\<close>

record peer_info =
  pi_address :: string
  pi_decimals :: nat
  pi_limit :: int

datatype chain_op =
    SetPeer string string nat int
  | SetTransceiverPeer string string
  | SetIsEvmChain string bool
  | SetWormholeRelaying string bool
  | SetSpecialRelaying string bool
  | RegisterTransceiver
  | UpdateLUT
  | SetPauser string
  | PauseOp
  | UnpauseOp
  | SetOutboundLimit int
  | SetInboundLimit string int
  | SetThreshold json
  | SetTransceiverPauser string
  | SetOwner string
  | TransferOwnership string bool
  | UpgradeEvm string "string option" "json option"
  | UpgradeSolana string "string option" string "json option"
  | UpgradeSui string "string option"
  | Deploy "string option" string string

type_synonym client = "string \<times> string"

record contract_addresses =
  ca_token :: string
  ca_wormhole :: string

record ntt_net =
  nn_chains :: "string list"
  nn_platform :: "string \<Rightarrow> string"
  nn_toUniversal :: "string \<Rightarrow> string \<Rightarrow> string res"
  nn_canonical :: "string \<Rightarrow> string \<Rightarrow> string"
  nn_collate :: "string \<Rightarrow> nat"
  nn_tags :: "string \<Rightarrow> string"
  nn_tag :: "string \<Rightarrow> string \<Rightarrow> string"
  nn_exec :: "string \<Rightarrow> nat \<Rightarrow> unit res"
  nn_confirm :: "nat \<Rightarrow> bool"
  nn_signer :: "string \<Rightarrow> nat \<Rightarrow> string res"
  nn_code :: "string \<Rightarrow> string \<Rightarrow> nat \<Rightarrow> string res"
  nn_supportsOwner :: "string \<Rightarrow> string \<Rightarrow> nat \<Rightarrow> bool res"
  nn_verify :: "client \<Rightarrow> nat \<Rightarrow> contract_addresses res"
  nn_mode :: "client \<Rightarrow> nat \<Rightarrow> string res"
  nn_outboundLimit :: "client \<Rightarrow> nat \<Rightarrow> int res"
  nn_threshold :: "client \<Rightarrow> nat \<Rightarrow> nat res"
  nn_decimals :: "client \<Rightarrow> nat \<Rightarrow> nat res"
  nn_paused :: "client \<Rightarrow> nat \<Rightarrow> bool res"
  nn_owner :: "client \<Rightarrow> nat \<Rightarrow> string res"
  nn_pauser :: "client \<Rightarrow> nat \<Rightarrow> string option res"
  nn_version :: "client \<Rightarrow> string"
  nn_transceiver :: "client \<Rightarrow> nat \<Rightarrow> bool res"
  nn_transceiverPauser :: "client \<Rightarrow> nat \<Rightarrow> string option res"
  nn_transceiverAddress :: "client \<Rightarrow> nat \<Rightarrow> string res"
  nn_peer :: "client \<Rightarrow> string \<Rightarrow> nat \<Rightarrow> peer_info option res"
  nn_transceiverPeer :: "client \<Rightarrow> string \<Rightarrow> nat \<Rightarrow> string option res"
  nn_isEvmChain :: "client \<Rightarrow> string \<Rightarrow> nat \<Rightarrow> bool res"
  nn_wormholeRelaying :: "client \<Rightarrow> string \<Rightarrow> nat \<Rightarrow> bool res"
  nn_specialRelaying :: "client \<Rightarrow> string \<Rightarrow> nat \<Rightarrow> bool res"
  nn_registeredSelf :: "client \<Rightarrow> nat \<Rightarrow> bool res"
  nn_lutOutdated :: "client \<Rightarrow> nat \<Rightarrow> bool res"
  nn_send :: "string \<Rightarrow> string option \<Rightarrow> chain_op \<Rightarrow> nat \<Rightarrow> unit res"
  nn_deploy :: "string \<Rightarrow> string option \<Rightarrow> string \<Rightarrow> string \<Rightarrow> nat \<Rightarrow> string res"

record cli_world =
  cw_fs :: file_system
  cw_clock :: nat
  cw_sent :: "(string \<times> string option \<times> chain_op) list"

type_synonym 'a cli = "(cli_world, 'a) eff"

definition rd :: "(nat \<Rightarrow> 'a res) \<Rightarrow> 'a cli" where
  "rd f w = (f (cw_clock w), w\<lparr>cw_clock := Suc (cw_clock w)\<rparr>)"

definition on_fs :: "(file_system, 'a) eff \<Rightarrow> 'a cli" where
  "on_fs m w = (case m (cw_fs w) of (r, fs) \<Rightarrow> (r, w\<lparr>cw_fs := fs\<rparr>))"

text \<open>At most \<open>maxRetries\<close> further attempts; the last failure is the result.\<close>

fun retryWithExponentialBackoff :: "nat \<Rightarrow> (nat \<Rightarrow> 'a res) \<Rightarrow> 'a cli" where
  "retryWithExponentialBackoff 0 f = rd f"
| "retryWithExponentialBackoff (Suc maxRetries) f =
     attemptM (rd f) returnM (\<lambda>_. retryWithExponentialBackoff maxRetries f)"

definition submit :: "ntt_net \<Rightarrow> string \<Rightarrow> string option \<Rightarrow> chain_op \<Rightarrow> unit cli" where
  "submit net chain via op w =
     (nn_send net chain via op (cw_clock w),
      w\<lparr>cw_clock := Suc (cw_clock w), cw_sent := cw_sent w @ [(chain, via, op)]\<rparr>)"

definition signSendWaitWithOverride :: "ntt_net \<Rightarrow> string option \<Rightarrow> string \<Rightarrow> chain_op \<Rightarrow> unit cli" where
  "signSendWaitWithOverride net nttOwner chain op =
     submit net chain
       (case nttOwner of
          Some own \<Rightarrow> (if own \<noteq> [] \<and> nn_platform net chain = ''Evm'' then Some own else None)
        | None \<Rightarrow> None) op"

subsection \<open>Versions\<close>

text \<open>The lines of \<open>git tag --list\<close>: a tag is \<open>v<version>+<platform>\<close>.\<close>

definition getAvailableVersions :: "ntt_net \<Rightarrow> string \<Rightarrow> string list" where
  "getAvailableVersions net platform =
     map (\<lambda>tag. drop 1 (hd (str_split (CHR ''+'') tag))) (str_split (CHR 0x0A) (js_trim (nn_tags net platform)))"

definition resolveVersion :: "ntt_net \<Rightarrow> bool \<Rightarrow> string option \<Rightarrow> bool \<Rightarrow> string \<Rightarrow> string option res" where
  "resolveVersion net latest ver local platform =
     (let given = (ver \<noteq> None \<and> ver \<noteq> Some []) in
      if of_bool latest + of_bool given + of_bool local \<noteq> (1 :: nat) then Throw (process_exit 1)
      else if latest then Ok (Some (hd (rev (sort (getAvailableVersions net platform)))))
      else if given then Ok ver
      else Ok None)"

text \<open>\<open>createWorkTree\<close>: the commands it runs are answered by \<open>nn_exec\<close>; the files they write are not in the model.\<close>

definition createWorkTree :: "ntt_net \<Rightarrow> string \<Rightarrow> string \<Rightarrow> string cli" where
  "createWorkTree net platform version =
     (let tag = nn_tag net platform version; worktreeName = ''.deployments/'' @ platform @ ''-'' @ version in
      if tag = [] then throwM (process_exit 1)
      else
        bindM (on_fs (existsSync worktreeName)) (\<lambda>there.
        bindM (rd (nn_exec net
            (if there then ''git -C '' @ worktreeName @ '' reset --hard '' @ tag
             else ''git worktree add '' @ worktreeName @ '' '' @ tag))) (\<lambda>_.
        bindM (rd (nn_exec net (''ln -fs $(pwd)/overrides.json $(pwd)/'' @ worktreeName @ ''/overrides.json''))) (\<lambda>_.
          returnM worktreeName))))"

definition validateChain :: "ntt_net \<Rightarrow> string \<Rightarrow> string \<Rightarrow> unit res" where
  "validateChain net network chain =
     (if network = ''Testnet'' then
        (if chain = ''Ethereum'' then Throw (process_exit 1)
         else if list_ex (\<lambda>c. c = c @ ''Sepolia'') (nn_chains net) then Throw (process_exit 1)
         else Ok ())
      else Ok ())"

text \<open>\<open>upgrade\<close>; the tools it runs are operations.\<close>

definition upgrade ::
  "ntt_net \<Rightarrow> string \<Rightarrow> string option \<Rightarrow> string option \<Rightarrow> string option \<Rightarrow> json option \<Rightarrow> json option \<Rightarrow> unit cli" where
  "upgrade net chain toVersion managerVariant solanaPayer solanaBinaryPath gasEstimateMultiplier =
     (let platform = nn_platform net chain in
      bindM (case toVersion of
               Some (c # cs) \<Rightarrow> createWorkTree net platform (c # cs)
             | _ \<Rightarrow> returnM ''.'') (\<lambda>worktree.
      if platform = ''Evm'' then submit net chain None (UpgradeEvm worktree managerVariant gasEstimateMultiplier)
      else if platform = ''Solana'' then
        (case solanaPayer of
           None \<Rightarrow> throwM (process_exit 1)
         | Some payer \<Rightarrow>
             bindM (on_fs (existsSync payer)) (\<lambda>there.
               if \<not> there then throwM (process_exit 1)
               else submit net chain None (UpgradeSolana worktree toVersion payer solanaBinaryPath)))
      else if platform = ''Sui'' then submit net chain None (UpgradeSui worktree toVersion)
      else throwM (new_error PlainError ''Unsupported platform'')))"

subsection \<open>Limits and versions\<close>

lemma length_show_nat: "length (show_nat n) \<le> k \<longleftrightarrow> n < 10 ^ k \<and> 0 < k"
proof (induction n arbitrary: k rule: show_nat.induct)
  case (1 n)
  show ?case
  proof (cases "n < 10")
    case True
    have "(10 :: nat) \<le> 10 ^ k" if "0 < k" using that by (cases k) simp_all
    with True show ?thesis by (auto simp: show_nat.simps [of n])
  next
    case False
    show ?thesis
    proof (cases k)
      case 0
      then show ?thesis by simp
    next
      case (Suc j)
      have "n < 10 ^ k \<longleftrightarrow> n div 10 < 10 ^ j" using Suc by (simp add: div_less_iff_less_mult mult.commute)
      moreover have "n div 10 < 10 ^ j \<longrightarrow> 0 < j" using False by (cases j) auto
      ultimately show ?thesis using False Suc "1.IH" [of j] by (subst show_nat.simps) auto
    qed
  qed
qed

lemma slices_append: "slice_upto_last d s @ slice_from_last d s = s"
  by (simp add: slice_upto_last_def slice_from_last_def)

lemma digits_no_dot: "\<forall>c \<in> set s. is_digit c \<Longrightarrow> CHR ''.'' \<notin> set s"
  by (auto simp: is_digit_def)

lemma set_slices: "set (slice_upto_last d s) \<subseteq> set s" "set (slice_from_last d s) \<subseteq> set s"
  by (auto simp: slice_upto_last_def slice_from_last_def dest: in_set_takeD in_set_dropD)

text \<open>The two halves of a formatted number: its digits, with a leading zero when there are none before the point.\<close>

lemma formatNumber_split:
  assumes "0 \<le> n"
  obtains a b where "formatNumber n d = a @ CHR ''.'' # b" "\<forall>c \<in> set a. is_digit c" "\<forall>c \<in> set b. is_digit c"
    "a @ b \<noteq> []" "dec_val (a @ b) = nat n"
    "length b = d \<longleftrightarrow> n = 0 \<or> (0 < d \<and> 10 ^ (d - 1) \<le> n)"
proof (cases "n = 0")
  case True
  have "foldl (\<lambda>a c. a * 10 + digit_val c) 0 (replicate d (CHR ''0'')) = 0"
    by (induction d) (simp_all add: digit_val_def)
  then have "dec_val (''0'' @ replicate d (CHR ''0'')) = 0" by (simp add: dec_val_def digit_val_def)
  then show ?thesis using True
    by (intro that [of "''0''" "replicate d (CHR ''0'')"]) (simp_all add: formatNumber_def is_digit_def)
next
  case False
  let ?s = "show_int n"
  have s: "?s = show_nat (nat n)" "\<forall>c \<in> set ?s. is_digit c" "?s \<noteq> []"
    using assms show_nat_digits by (simp_all add: show_int_def)
  let ?a = "slice_upto_last d ?s" and ?b = "slice_from_last d ?s"
  have ab: "?a @ ?b = ?s" by (rule slices_append)
  have d: "\<forall>c \<in> set ?a. is_digit c" "\<forall>c \<in> set ?b. is_digit c" using s(2) set_slices by blast+
  have len: "length ?b = d \<longleftrightarrow> n = 0 \<or> (0 < d \<and> 10 ^ (d - 1) \<le> n)"
  proof (cases "d = 0")
    case True
    then show ?thesis using False s(3) by (simp add: slice_from_last_def)
  next
    case False
    have "length ?b = d \<longleftrightarrow> \<not> length (show_nat (nat n)) \<le> d - 1"
      using False s by (auto simp: slice_from_last_def)
    also have "\<dots> \<longleftrightarrow> 10 ^ (d - 1) \<le> nat n \<or> d = 1" using False unfolding length_show_nat by auto
    also have "\<dots> \<longleftrightarrow> 10 ^ (d - 1) \<le> n"
      using \<open>n \<noteq> 0\<close> assms by (cases "d = 1") (simp_all add: le_nat_iff [symmetric] nat_le_iff le_nat_iff)
    finally show ?thesis using False \<open>n \<noteq> 0\<close> by simp
  qed
  have f: "formatNumber n d = (if ?a = [] then ''0'' else ?a) @ CHR ''.'' # ?b"
    using False digits_no_dot [OF d(1)] by (cases ?a) (auto simp: formatNumber_def Let_def starts_with_def)
  have v: "dec_val ((if ?a = [] then ''0'' else ?a) @ ?b) = nat n"
  proof (cases "?a = []")
    case True
    have "dec_val (''0'' @ ?b) = dec_val ?b" by (simp add: dec_val_def digit_val_def)
    then show ?thesis using True ab s(1) by simp
  next
    case False
    then show ?thesis using ab s(1) by simp
  qed
  show ?thesis
    by (rule that [OF f _ d(2) _ v len]) (use d(1) in \<open>auto simp: is_digit_def\<close>)
qed

text \<open>C40: What \<open>pull\<close> writes as a limit is what \<open>push\<close> reads back, for every amount and number of decimals.
  The format check accepts the written limit exactly when it is zero or has at least as many digits
  as the token has decimals: a smaller limit (or any limit of a token without decimals) that the tool
  itself wrote makes the next \<open>status\<close> and \<open>push\<close> refuse the file.\<close>

theorem limit_round_trip:
  assumes "0 \<le> n"
  shows "read_limit (formatNumber n d) = Ok n \<and>
    (checkNumberFormatting (formatNumber n d) d \<longleftrightarrow> n = 0 \<or> (0 < d \<and> 10 ^ (d - 1) \<le> n))"
proof -
  obtain a b where f: "formatNumber n d = a @ CHR ''.'' # b" "\<forall>c \<in> set a. is_digit c" "\<forall>c \<in> set b. is_digit c"
    "a @ b \<noteq> []" "dec_val (a @ b) = nat n"
    "length b = d \<longleftrightarrow> n = 0 \<or> (0 < d \<and> 10 ^ (d - 1) \<le> n)" using formatNumber_split [OF assms] by metis
  have "js_BigInt (a @ b) = Some (int (dec_val (a @ b)))" using f(2-4) by (intro js_BigInt_digits) auto
  then have "read_limit (formatNumber n d) = Ok n"
    using f(1,5) assms digits_no_dot [OF f(2)] by (simp add: read_limit_def drop_first_append)
  moreover have "str_split (CHR ''.'') (formatNumber n d) = [a, b]"
    using f(1) digits_no_dot [OF f(2)] digits_no_dot [OF f(3)] by (simp add: str_split_append str_split_no_sep)
  ultimately show ?thesis using f(6) by (simp add: checkNumberFormatting_def)
qed

theorem limit_round_trip_witness:
  "read_limit (formatNumber 5 2) = Ok 5 \<and> \<not> checkNumberFormatting (formatNumber 5 2) 2 \<and> formatNumber 5 2 = ''0.5''"
proof -
  have "formatNumber 5 2 = ''0.5''" by code_simp
  then show ?thesis using limit_round_trip [of 5 2] by simp
qed

text \<open>The newest version is chosen by the order of strings, in which 1.9.0 comes after 1.10.0.\<close>

lemma latest_is_not_newest:
  assumes "nn_tags net ''Evm'' = ''v1.9.0+evm'' @ [CHR 0x0A] @ ''v1.10.0+evm''"
  shows "resolveVersion net True None False ''Evm'' = Ok (Some ''1.9.0'')"
proof -
  have "map (\<lambda>tag. drop 1 (hd (str_split (CHR ''+'') tag))) (str_split (CHR 0x0A) (js_trim (''v1.9.0+evm'' @ [CHR 0x0A] @ ''v1.10.0+evm'')))
      = [''1.9.0'', ''1.10.0'']" by code_simp
  moreover have "hd (rev (sort [''1.9.0'', ''1.10.0''])) = ''1.9.0''" by code_simp
  ultimately show ?thesis using assms by (simp add: resolveVersion_def getAvailableVersions_def)
qed

text \<open>The check for a Sepolia counterpart compares a name with itself and never fires.\<close>

lemma validateChain_Ok: "validateChain net network chain = Ok () \<longleftrightarrow> \<not> (network = ''Testnet'' \<and> chain = ''Ethereum'')"
  by (auto simp: validateChain_def list_ex_iff)

end
