(* ===== verification/Cli_Deploy.thy ===== *)
theory Cli_Deploy
  imports Cli_World
begin

section \<open>Deployment commands\<close>

text \<open>
  \<open>cli/src/index.ts\<close>: \<open>pull\<close>, \<open>push\<close>, \<open>status\<close>, \<open>init\<close>, \<open>clone\<close> and \<open>add-chain\<close> with the functions they call. A chain's
  configuration is the JSON object of the deployment file. An object mutated in place is returned
  updated. \<open>status --verbose\<close> reads and prints further contract values, which is left out.
\<close>

definition as_text :: "json option \<Rightarrow> string res" where
  "as_text v = (case v of Some (JString s) \<Rightarrow> Ok s | _ \<Rightarrow> Throw (new_error TypeError ''not a string''))"

definition obj_entries :: "json option \<Rightarrow> json js_object res" where
  "obj_entries v =
     (case v of
        None \<Rightarrow> Throw (new_error TypeError ''Object.entries requires an object'')
      | Some JNull \<Rightarrow> Throw (new_error TypeError ''Object.entries requires an object'')
      | Some (JObject kvs) \<Rightarrow> Ok kvs
      | Some _ \<Rightarrow> Ok [])"

definition entries_of :: "json \<Rightarrow> json js_object" where
  "entries_of j = (case j of JObject kvs \<Rightarrow> kvs | _ \<Rightarrow> [])"

fun collectM :: "('a \<Rightarrow> ('s, 'b option) eff) \<Rightarrow> 'a list \<Rightarrow> ('s, 'b list) eff" where
  "collectM f [] = returnM []"
| "collectM f (x # xs) =
     bindM (f x) (\<lambda>y. bindM (collectM f xs) (\<lambda>ys. returnM (case y of None \<Rightarrow> ys | Some b \<Rightarrow> b # ys)))"

subsection \<open>Reading the chains\<close>

record deployment =
  dp_chain :: string
  dp_manager :: string
  dp_decimals :: nat
  dp_remote :: json
  dp_local :: json

definition dp_client :: "deployment \<Rightarrow> client" where
  "dp_client d = (dp_chain d, dp_manager d)"

definition getVersion :: "ntt_net \<Rightarrow> client \<Rightarrow> string res" where
  "getVersion net cl =
     (let platform = nn_platform net (fst cl) in
      if platform = ''Evm'' \<or> platform = ''Solana'' then Ok (nn_version net cl)
      else if platform = ''Sui'' then Ok ''dev''
      else Throw (new_error PlainError ''Unsupported platform''))"

definition optional_field :: "string \<Rightarrow> string option \<Rightarrow> json js_object" where
  "optional_field k v = (case v of Some (c # cs) \<Rightarrow> [(k, JString (c # cs))] | _ \<Rightarrow> [])"

definition remote_config ::
  "ntt_net \<Rightarrow> client \<Rightarrow> contract_addresses \<Rightarrow> string \<Rightarrow> string \<Rightarrow> bool \<Rightarrow> string \<Rightarrow> nat \<Rightarrow> string \<Rightarrow> string option \<Rightarrow> string option \<Rightarrow> json" where
  "remote_config net cl addresses version mode paused own threshold outboundLimit transceiverPauser pauser =
     JObject ([(''version'', JString version), (''mode'', JString mode), (''paused'', JBool paused), (''owner'', JString own),
       (''manager'', JString (nn_canonical net (fst cl) (snd cl))), (''token'', JString (ca_token addresses)),
       (''transceivers'', JObject [(''threshold'', JNumber (Num (of_nat threshold))),
          (''wormhole'', JObject ((''address'', JString (ca_wormhole addresses)) # optional_field ''pauser'' transceiverPauser))]),
       (''limits'', JObject [(''outbound'', JString outboundLimit), (''inbound'', JObject [])])]
       @ optional_field ''pauser'' pauser)"

definition pullChainConfig :: "ntt_net \<Rightarrow> client \<Rightarrow> (json \<times> nat) cli" where
  "pullChainConfig net cl =
     bindM (rd (nn_verify net cl)) (\<lambda>addresses.
     bindM (rd (nn_mode net cl)) (\<lambda>mode.
     bindM (rd (nn_outboundLimit net cl)) (\<lambda>outboundLimit.
     bindM (rd (nn_threshold net cl)) (\<lambda>threshold.
     bindM (rd (nn_decimals net cl)) (\<lambda>decimals.
     bindM (rd (nn_paused net cl)) (\<lambda>paused.
     bindM (rd (nn_owner net cl)) (\<lambda>own.
     bindM (rd (nn_pauser net cl)) (\<lambda>pauser.
     bindM (liftM (getVersion net cl)) (\<lambda>version.
     bindM (rd (nn_transceiverPauser net cl)) (\<lambda>transceiverPauser.
       returnM (remote_config net cl addresses version mode paused own threshold
         (formatNumber outboundLimit decimals) transceiverPauser pauser, decimals)))))))))))"

definition pull_chain :: "ntt_net \<Rightarrow> string \<times> json \<Rightarrow> deployment option cli" where
  "pull_chain net entry = (case entry of (chain, local) \<Rightarrow>
     bindM (liftM (assertChain (nn_chains net) chain)) (\<lambda>_.
     bindM (liftM (json_get ''manager'' (Some local))) (\<lambda>managerAddress.
     if managerAddress = None then returnM None
     else
       bindM (liftM (bind_res (as_text managerAddress) (nn_toUniversal net chain))) (\<lambda>manager.
       bindM (pullChainConfig net (chain, manager)) (\<lambda>(remote, decimals).
       bindM (rd (nn_transceiver net (chain, manager))) (\<lambda>whTransceiver.
         if \<not> whTransceiver then throwM (process_exit 1)
         else returnM (Some \<lparr>dp_chain = chain, dp_manager = manager, dp_decimals = decimals,
                              dp_remote = remote, dp_local = local\<rparr>)))))))"

fun inbound_limits :: "ntt_net \<Rightarrow> client \<Rightarrow> nat \<Rightarrow> string list \<Rightarrow> json \<Rightarrow> json cli" where
  "inbound_limits net cl decimals [] conf = returnM conf"
| "inbound_limits net cl decimals (c2 # cs) conf =
     (if fst cl = c2 then inbound_limits net cl decimals cs conf
      else
        bindM (retryWithExponentialBackoff 5 (nn_peer net cl c2)) (\<lambda>peer.
          let limit = (case peer of None \<Rightarrow> 0 | Some p \<Rightarrow> pi_limit p) in
          bindM (liftM (setNestedValue [''limits'', ''inbound'', c2] (JString (formatNumber limit decimals)) conf))
            (inbound_limits net cl decimals cs)))"

fun pullInboundLimits :: "ntt_net \<Rightarrow> string list \<Rightarrow> (client \<times> json) list \<Rightarrow> json list cli" where
  "pullInboundLimits net names [] = returnM []"
| "pullInboundLimits net names ((cl, conf) # rest) =
     bindM (liftM (assertChain (nn_chains net) (fst cl))) (\<lambda>_.
     bindM (rd (nn_decimals net cl)) (\<lambda>decimals.
     bindM (inbound_limits net cl decimals names conf) (\<lambda>conf'.
     bindM (pullInboundLimits net names rest) (\<lambda>confs. returnM (conf' # confs)))))"

definition pullDeployments :: "ntt_net \<Rightarrow> json \<Rightarrow> deployment list cli" where
  "pullDeployments net deployments =
     bindM (liftM (bind_res (json_get ''chains'' (Some deployments)) obj_entries)) (\<lambda>entries.
     bindM (collectM (pull_chain net) entries) (\<lambda>deps.
     bindM (pullInboundLimits net (map dp_chain deps) (map (\<lambda>d. (dp_client d, dp_remote d)) deps)) (\<lambda>remotes.
       returnM (map2 (\<lambda>d r. d\<lparr>dp_remote := r\<rparr>) deps remotes))))"

subsection \<open>Checking\<close>

definition format_errors :: "nat \<Rightarrow> json option \<Rightarrow> nat res" where
  "format_errors decimals limit =
     bind_res (as_text limit) (\<lambda>s. Ok (if checkNumberFormatting s decimals then 0 else 1))"

definition chain_errors :: "deployment \<Rightarrow> nat res" where
  "chain_errors d =
     bind_res (json_get ''limits'' (Some (dp_local d))) (\<lambda>limits.
     bind_res (json_get ''outbound'' limits) (\<lambda>outbound.
     bind_res (format_errors (dp_decimals d) outbound) (\<lambda>n.
     bind_res (bind_res (json_get ''inbound'' limits) obj_entries) (\<lambda>inbound.
     bind_res (map_res (\<lambda>(_, limit). format_errors (dp_decimals d) (Some limit)) inbound) (\<lambda>ns.
       Ok (n + sum_list ns))))))"

definition checkConfigErrors :: "ntt_net \<Rightarrow> deployment list \<Rightarrow> nat res" where
  "checkConfigErrors net deps =
     bind_res (map_res (\<lambda>d. bind_res (assertChain (nn_chains net) (dp_chain d)) (\<lambda>_. chain_errors d)) deps) (\<lambda>ns.
       Ok (sum_list ns))"

record missing_config =
  mc_managerPeers :: "((string \<times> string) \<times> nat \<times> int) list"
  mc_transceiverPeers :: "(string \<times> string) list"
  mc_evmChains :: "string list"
  mc_standardRelaying :: "(string \<times> bool) list"
  mc_specialRelaying :: "(string \<times> bool) list"
  mc_solanaWormholeTransceiver :: bool
  mc_solanaUpdateLUT :: bool

definition nothing_missing :: missing_config where
  "nothing_missing = \<lparr>mc_managerPeers = [], mc_transceiverPeers = [], mc_evmChains = [], mc_standardRelaying = [],
     mc_specialRelaying = [], mc_solanaWormholeTransceiver = False, mc_solanaUpdateLUT = False\<rparr>"

definition missing_solana :: "ntt_net \<Rightarrow> deployment \<Rightarrow> missing_config cli" where
  "missing_solana net from =
     (if nn_platform net (dp_chain from) = ''Solana'' then
        bindM (retryWithExponentialBackoff 5 (nn_registeredSelf net (dp_client from))) (\<lambda>registered.
        bindM (rd (nn_lutOutdated net (dp_client from))) (\<lambda>outdated.
          returnM (nothing_missing\<lparr>mc_solanaWormholeTransceiver := \<not> registered, mc_solanaUpdateLUT := outdated\<rparr>)))
      else returnM nothing_missing)"

definition config_limit :: "json \<Rightarrow> string \<Rightarrow> int res" where
  "config_limit local toChain =
     (case getNestedValue [''limits'', ''inbound'', toChain] (Some local) of
        None \<Rightarrow> Ok 0
      | Some JNull \<Rightarrow> Ok 0
      | v \<Rightarrow> bind_res (as_text v) read_limit)"

definition missing_manager :: "ntt_net \<Rightarrow> deployment \<Rightarrow> deployment \<Rightarrow> missing_config \<Rightarrow> missing_config cli" where
  "missing_manager net from to m =
     bindM (retryWithExponentialBackoff 5 (nn_peer net (dp_client from) (dp_chain to))) (\<lambda>peer.
       case peer of
         None \<Rightarrow>
           bindM (liftM (config_limit (dp_local from) (dp_chain to))) (\<lambda>limit.
             returnM (m\<lparr>mc_managerPeers := mc_managerPeers m @ [((dp_chain to, dp_manager to), dp_decimals to, limit)]\<rparr>))
       | Some _ \<Rightarrow> returnM m)"

definition desired_relaying :: "json \<Rightarrow> bool res" where
  "desired_relaying local =
     bind_res (json_get ''transceivers'' (Some local)) (\<lambda>ts.
     bind_res (json_get ''wormhole'' ts) (\<lambda>wh.
     bind_res (json_get ''executor'' wh) (\<lambda>ex. Ok (\<not> json_truthy ex))))"

definition missing_evm :: "ntt_net \<Rightarrow> deployment \<Rightarrow> deployment \<Rightarrow> missing_config \<Rightarrow> missing_config cli" where
  "missing_evm net from to m =
     (let cl = dp_client from; toChain = dp_chain to in
      if nn_platform net (dp_chain from) \<noteq> ''Evm'' then returnM m
      else
        bindM (rd (nn_transceiver net cl)) (\<lambda>_.
        if nn_platform net toChain = ''Evm'' then
          bindM (rd (nn_isEvmChain net cl toChain)) (\<lambda>remoteToEvm.
          bindM (rd (nn_wormholeRelaying net cl toChain)) (\<lambda>standardRelaying.
          bindM (liftM (desired_relaying (dp_local from))) (\<lambda>desired.
            returnM (m\<lparr>mc_evmChains := mc_evmChains m @ (if remoteToEvm then [] else [toChain]),
                       mc_standardRelaying := mc_standardRelaying m @ (if standardRelaying \<noteq> desired then [(toChain, desired)] else [])\<rparr>))))
        else if nn_platform net toChain = ''Solana'' then
          bindM (rd (nn_specialRelaying net cl toChain)) (\<lambda>specialRelaying.
          bindM (liftM (desired_relaying (dp_local from))) (\<lambda>desired.
            returnM (m\<lparr>mc_specialRelaying := mc_specialRelaying m @ (if specialRelaying \<noteq> desired then [(toChain, desired)] else [])\<rparr>)))
        else returnM m))"

definition missing_transceiver :: "ntt_net \<Rightarrow> deployment \<Rightarrow> deployment \<Rightarrow> missing_config \<Rightarrow> missing_config cli" where
  "missing_transceiver net from to m =
     bindM (retryWithExponentialBackoff 5 (nn_transceiverPeer net (dp_client from) (dp_chain to))) (\<lambda>peer.
     bindM (rd (nn_transceiverAddress net (dp_client to))) (\<lambda>address.
       returnM (case peer of
          None \<Rightarrow> m\<lparr>mc_transceiverPeers := mc_transceiverPeers m @ [(dp_chain to, address)]\<rparr>
        | Some _ \<Rightarrow> m)))"

definition missing_pair :: "ntt_net \<Rightarrow> deployment \<Rightarrow> deployment \<Rightarrow> missing_config \<Rightarrow> missing_config cli" where
  "missing_pair net from to m =
     bindM (liftM (assertChain (nn_chains net) (dp_chain to))) (\<lambda>_.
     if dp_chain from = dp_chain to then returnM m
     else
       bindM (missing_manager net from to m) (\<lambda>m1.
       bindM (missing_evm net from to m1) (\<lambda>m2.
         missing_transceiver net from to m2)))"

fun missing_pairs :: "ntt_net \<Rightarrow> deployment \<Rightarrow> deployment list \<Rightarrow> missing_config \<Rightarrow> missing_config cli" where
  "missing_pairs net from [] m = returnM m"
| "missing_pairs net from (to # tos) m = bindM (missing_pair net from to m) (missing_pairs net from tos)"

definition missing_from :: "ntt_net \<Rightarrow> deployment list \<Rightarrow> deployment \<Rightarrow> (string \<times> missing_config) option cli" where
  "missing_from net deps from =
     bindM (liftM (assertChain (nn_chains net) (dp_chain from))) (\<lambda>_.
     bindM (missing_solana net from) (\<lambda>m.
     bindM (missing_pairs net from deps m) (\<lambda>m'.
       returnM (if m' \<noteq> nothing_missing then Some (dp_chain from, m') else None))))"

definition missingConfigs :: "ntt_net \<Rightarrow> deployment list \<Rightarrow> (string \<times> missing_config) list cli" where
  "missingConfigs net deps = collectM (missing_from net deps) deps"

end
