(* ===== verification/Cli_Push.thy ===== *)
theory Cli_Push
  imports Cli_Deploy
begin

section \<open>Pushing a deployment\<close>

text \<open>
  \<open>pushDeployment\<close> and the \<open>push\<close>, \<open>status\<close>, \<open>pull\<close>, \<open>init\<close>, \<open>clone\<close> and \<open>add-chain\<close> commands of
  \<open>cli/src/index.ts\<close>. Generators of transactions do nothing until they are sent, so the operations of a
  push are first collected (\<open>push_plan\<close>) and then submitted.
\<close>

subsection \<open>The plan of a chain\<close>

record push_plan =
  pp_txs :: "chain_op list"
  pp_updateOwner :: "chain_op option"
  pp_managerUpgrade :: "(json option \<times> json option) option"

definition no_plan :: push_plan where
  "no_plan = \<lparr>pp_txs = [], pp_updateOwner = None, pp_managerUpgrade = None\<rparr>"

definition add_tx :: "chain_op \<Rightarrow> push_plan \<Rightarrow> push_plan" where
  "add_tx op p = p\<lparr>pp_txs := pp_txs p @ [op]\<rparr>"

definition universal_push :: "ntt_net \<Rightarrow> string \<Rightarrow> json option \<Rightarrow> string res" where
  "universal_push net chain entry = bind_res (as_text (json_opt_get ''push'' entry)) (nn_toUniversal net chain)"

definition plan_owner :: "ntt_net \<Rightarrow> string \<Rightarrow> bool \<Rightarrow> json \<Rightarrow> push_plan \<Rightarrow> push_plan res" where
  "plan_owner net chain oneStep entry p =
     bind_res (universal_push net chain (Some entry)) (\<lambda>address.
       Ok (p\<lparr>pp_updateOwner :=
         Some (if nn_platform net chain = ''Solana'' then TransferOwnership address oneStep else SetOwner address)\<rparr>))"

fun plan_inbound :: "ntt_net \<Rightarrow> json js_object \<Rightarrow> push_plan \<Rightarrow> push_plan res" where
  "plan_inbound net [] p = Ok p"
| "plan_inbound net ((c, entry) # rest) p =
     bind_res (assertChain (nn_chains net) c) (\<lambda>_.
       let newInbound = json_opt_get ''push'' (Some entry) in
       if json_truthy newInbound then
         bind_res (bind_res (as_text newInbound) read_limit) (\<lambda>limit. plan_inbound net rest (add_tx (SetInboundLimit c limit) p))
       else plan_inbound net rest p)"

definition plan_limits :: "ntt_net \<Rightarrow> json \<Rightarrow> push_plan \<Rightarrow> push_plan res" where
  "plan_limits net entry p =
     (let newOutbound = json_opt_get ''push'' (json_opt_get ''outbound'' (Some entry));
          inbound = json_opt_get ''inbound'' (Some entry) in
      bind_res
        (if json_truthy newOutbound then
           bind_res (bind_res (as_text newOutbound) read_limit) (\<lambda>limit. Ok (add_tx (SetOutboundLimit limit) p))
         else Ok p) (\<lambda>p1.
      if json_truthy inbound then plan_inbound net (entries_of (the inbound)) p1 else Ok p1))"

fun plan_wormhole :: "ntt_net \<Rightarrow> string \<Rightarrow> json js_object \<Rightarrow> push_plan \<Rightarrow> push_plan res" where
  "plan_wormhole net chain [] p = Ok p"
| "plan_wormhole net chain ((l, entry) # rest) p =
     (if l = ''pauser'' then
        bind_res (universal_push net chain (Some entry)) (\<lambda>address.
          plan_wormhole net chain rest (add_tx (SetTransceiverPauser address) p))
      else Throw (process_exit 1))"

fun plan_transceivers :: "ntt_net \<Rightarrow> string \<Rightarrow> json js_object \<Rightarrow> push_plan \<Rightarrow> push_plan res" where
  "plan_transceivers net chain [] p = Ok p"
| "plan_transceivers net chain ((j, entry) # rest) p =
     (if j = ''threshold'' then
        plan_transceivers net chain rest
          (case json_opt_get ''push'' (Some entry) of None \<Rightarrow> p | Some t \<Rightarrow> add_tx (SetThreshold t) p)
      else if j = ''wormhole'' then
        bind_res (plan_wormhole net chain (entries_of entry) p) (plan_transceivers net chain rest)
      else Throw (process_exit 1))"

definition plan_field :: "ntt_net \<Rightarrow> string \<Rightarrow> bool \<Rightarrow> string \<Rightarrow> json \<Rightarrow> push_plan \<Rightarrow> push_plan res" where
  "plan_field net chain oneStep k entry p =
     (if k = ''version'' then
        Ok (p\<lparr>pp_managerUpgrade := Some (json_opt_get ''pull'' (Some entry), json_opt_get ''push'' (Some entry))\<rparr>)
      else if k = ''owner'' then plan_owner net chain oneStep entry p
      else if k = ''pauser'' then
        bind_res (universal_push net chain (Some entry)) (\<lambda>address. Ok (add_tx (SetPauser address) p))
      else if k = ''paused'' then
        Ok (add_tx (if json_opt_get ''push'' (Some entry) = Some (JBool True) then PauseOp else UnpauseOp) p)
      else if k = ''limits'' then plan_limits net entry p
      else if k = ''transceivers'' then plan_transceivers net chain (entries_of entry) p
      else Throw (process_exit 1))"

fun plan_fields :: "ntt_net \<Rightarrow> string \<Rightarrow> bool \<Rightarrow> json js_object \<Rightarrow> push_plan \<Rightarrow> push_plan res" where
  "plan_fields net chain oneStep [] p = Ok p"
| "plan_fields net chain oneStep ((k, entry) # rest) p =
     bind_res (plan_field net chain oneStep k entry p) (plan_fields net chain oneStep rest)"

definition askForConfirmation :: "ntt_net \<Rightarrow> unit cli" where
  "askForConfirmation net =
     bindM (rd (\<lambda>k. Ok (nn_confirm net k))) (\<lambda>yes. if yes then returnM () else throwM (process_exit 0))"

definition deployment_diff :: "deployment \<Rightarrow> json js_object" where
  "deployment_diff d = diffObjects EXCLUDED_DIFF_PATHS [] (entries_of (dp_local d)) (entries_of (dp_remote d))"

text \<open>
  The call of \<open>upgrade\<close> passes the gas multiplier one position too early, as the path of the Solana
  binary, and no payer.
\<close>

definition upgrade_manager :: "ntt_net \<Rightarrow> string \<Rightarrow> json option \<Rightarrow> (json option \<times> json option) option \<Rightarrow> unit cli" where
  "upgrade_manager net chain gasEstimateMultiplier u =
     (case u of
        None \<Rightarrow> returnM ()
      | Some (_, to) \<Rightarrow>
          bindM (liftM (case to of None \<Rightarrow> Ok None | Some v \<Rightarrow> bind_res (as_text to) (\<lambda>s. Ok (Some s)))) (\<lambda>toVersion.
            upgrade net chain toVersion None None gasEstimateMultiplier None))"

definition run_plan :: "ntt_net \<Rightarrow> string option \<Rightarrow> string \<Rightarrow> json option \<Rightarrow> push_plan \<Rightarrow> unit cli" where
  "run_plan net nttOwner chain gasEstimateMultiplier p =
     bindM (upgrade_manager net chain gasEstimateMultiplier (pp_managerUpgrade p)) (\<lambda>_.
     bindM (forM (pp_txs p) (signSendWaitWithOverride net nttOwner chain)) (\<lambda>_.
       case pp_updateOwner p of
         None \<Rightarrow> returnM ()
       | Some op \<Rightarrow> signSendWaitWithOverride net nttOwner chain op))"

definition pushDeployment :: "ntt_net \<Rightarrow> string option \<Rightarrow> bool \<Rightarrow> json option \<Rightarrow> bool \<Rightarrow> deployment \<Rightarrow> unit cli" where
  "pushDeployment net nttOwner yes gasEstimateMultiplier oneStep d =
     (let diff = deployment_diff d in
      if diff = [] then returnM ()
      else
        bindM (if yes then returnM () else askForConfirmation net) (\<lambda>_.
        bindM (rd (nn_signer net (dp_chain d))) (\<lambda>_.
        bindM (liftM (plan_fields net (dp_chain d) oneStep diff no_plan)) (\<lambda>p.
          run_plan net nttOwner (dp_chain d) gasEstimateMultiplier p))))"

subsection \<open>The push command\<close>

record push_args =
  pa_path :: string
  pa_yes :: bool
  pa_skipChains :: "string list"
  pa_onlyChains :: "string list"
  pa_gasEstimateMultiplier :: "json option"
  pa_oneStep :: bool

definition loadConfig :: "string \<Rightarrow> json cli" where
  "loadConfig path =
     bindM (on_fs (existsSync path)) (\<lambda>there. if \<not> there then throwM (process_exit 1) else on_fs (readJson path))"

definition shouldSkipChain :: "push_args \<Rightarrow> string \<Rightarrow> bool" where
  "shouldSkipChain args chain \<longleftrightarrow>
     (pa_onlyChains args \<noteq> [] \<and> chain \<notin> set (pa_onlyChains args)) \<or> chain \<in> set (pa_skipChains args)"

definition chain_owner :: "ntt_net \<Rightarrow> push_args \<Rightarrow> deployment \<Rightarrow> (string \<times> string) option cli" where
  "chain_owner net args d =
     (let chain = dp_chain d in
      if shouldSkipChain args chain then returnM None
      else
        bindM (liftM (assertChain (nn_chains net) chain)) (\<lambda>_.
        if nn_platform net chain \<noteq> ''Evm'' then returnM None
        else
          bindM (rd (nn_signer net chain)) (\<lambda>signer.
          bindM (rd (nn_owner net (dp_client d))) (\<lambda>contractOwner.
          if signer = contractOwner then returnM None
          else
            bindM (rd (nn_code net chain contractOwner)) (\<lambda>contractCode.
            if length contractCode \<le> 2 then returnM None
            else
              bindM (rd (nn_supportsOwner net chain contractOwner)) (\<lambda>supports.
                if \<not> supports then throwM (process_exit 1)
                else returnM (Some (chain, contractOwner))))))))"

text \<open>A failed Solana registration is reported and the push goes on.\<close>

definition submit_logged :: "ntt_net \<Rightarrow> string \<Rightarrow> chain_op \<Rightarrow> unit cli" where
  "submit_logged net chain op = attemptM (submit net chain None op) returnM (\<lambda>_. returnM ())"

definition registrations :: "missing_config \<Rightarrow> chain_op list" where
  "registrations m =
     map (\<lambda>((c, a), decimals, limit). SetPeer c a decimals limit) (mc_managerPeers m)
     @ map (\<lambda>(c, a). SetTransceiverPeer c a) (mc_transceiverPeers m)
     @ map (\<lambda>c. SetIsEvmChain c True) (mc_evmChains m)
     @ map (\<lambda>(c, v). SetWormholeRelaying c v) (mc_standardRelaying m)
     @ map (\<lambda>(c, v). SetSpecialRelaying c v) (mc_specialRelaying m)"

definition register_solana :: "ntt_net \<Rightarrow> string \<Rightarrow> missing_config \<Rightarrow> unit cli" where
  "register_solana net chain m =
     (if mc_solanaWormholeTransceiver m \<and> nn_platform net chain \<noteq> ''Solana'' then returnM ()
      else
        bindM (if mc_solanaWormholeTransceiver m then submit_logged net chain RegisterTransceiver else returnM ()) (\<lambda>_.
        if mc_solanaUpdateLUT m \<and> nn_platform net chain = ''Solana'' then submit_logged net chain UpdateLUT
        else returnM ()))"

definition register_chain :: "ntt_net \<Rightarrow> push_args \<Rightarrow> (string \<rightharpoonup> string) \<Rightarrow> string \<times> missing_config \<Rightarrow> unit cli" where
  "register_chain net args owners entry = (case entry of (chain, m) \<Rightarrow>
     if shouldSkipChain args chain then returnM ()
     else
       bindM (liftM (assertChain (nn_chains net) chain)) (\<lambda>_.
       bindM (rd (nn_signer net chain)) (\<lambda>_.
       bindM (forM (registrations m) (signSendWaitWithOverride net (owners chain) chain)) (\<lambda>_.
         register_solana net chain m))))"

definition push_chain :: "ntt_net \<Rightarrow> push_args \<Rightarrow> (string \<rightharpoonup> string) \<Rightarrow> deployment \<Rightarrow> unit cli" where
  "push_chain net args owners d =
     (if shouldSkipChain args (dp_chain d) then returnM ()
      else
        bindM (liftM (assertChain (nn_chains net) (dp_chain d))) (\<lambda>_.
          pushDeployment net (owners (dp_chain d)) (pa_yes args) (pa_gasEstimateMultiplier args) (pa_oneStep args) d))"

definition push_command :: "ntt_net \<Rightarrow> push_args \<Rightarrow> unit cli" where
  "push_command net args =
     bindM (loadConfig (pa_path args)) (\<lambda>deployments.
     bindM (pullDeployments net deployments) (\<lambda>deps.
     bindM (missingConfigs net deps) (\<lambda>missing.
     bindM (liftM (checkConfigErrors net deps)) (\<lambda>errors.
     if errors \<noteq> 0 then throwM (process_exit 1)
     else
       bindM (collectM (chain_owner net args) deps) (\<lambda>owners.
       bindM (forM missing (register_chain net args (map_of owners))) (\<lambda>_.
       bindM (pullDeployments net deployments) (\<lambda>depsAfter.
         forM depsAfter (push_chain net args (map_of owners)))))))))"

subsection \<open>Status, pull and init\<close>

text \<open>The result of \<open>status\<close> is the status it exits with when it gets to its end.\<close>

definition status_command :: "ntt_net \<Rightarrow> string \<Rightarrow> nat cli" where
  "status_command net path =
     bindM (loadConfig path) (\<lambda>deployments.
     bindM (pullDeployments net deployments) (\<lambda>deps.
     bindM (liftM (checkConfigErrors net deps)) (\<lambda>errors.
     if errors \<noteq> 0 then throwM (process_exit 1)
     else
       bindM (liftM (map_res (\<lambda>d. assertChain (nn_chains net) (dp_chain d)) deps)) (\<lambda>_.
       bindM (missingConfigs net deps) (\<lambda>missing.
         let fixable = length (filter (\<lambda>d. deployment_diff d \<noteq> []) deps) + (if missing \<noteq> [] then 1 else 0) in
         returnM (if 0 < fixable then 1 else 0))))))"

text \<open>The file's object with the pulled chains replaced, and whether any was.\<close>

fun apply_pull :: "deployment list \<Rightarrow> json \<Rightarrow> (json \<times> bool) res" where
  "apply_pull [] file = Ok (file, False)"
| "apply_pull (d # ds) file =
     (if deployment_diff d = [] then apply_pull ds file
      else
        bind_res (preserve_excluded EXCLUDED_DIFF_PATHS (dp_local d) (dp_remote d)) (\<lambda>conf.
        bind_res (setNestedValue [''chains'', dp_chain d] conf file) (\<lambda>file'.
        bind_res (apply_pull ds file') (\<lambda>(file'', _). Ok (file'', True)))))"

definition pull_command :: "ntt_net \<Rightarrow> string \<Rightarrow> bool \<Rightarrow> unit cli" where
  "pull_command net path yes =
     bindM (loadConfig path) (\<lambda>deployments.
     bindM (pullDeployments net deployments) (\<lambda>deps.
     bindM (liftM (apply_pull deps deployments)) (\<lambda>(updated, changed).
     if \<not> changed then throwM (process_exit 0)
     else
       bindM (if yes then returnM () else askForConfirmation net) (\<lambda>_.
         on_fs (writeJson path updated)))))"

definition init_command :: "string list \<Rightarrow> string \<Rightarrow> string \<Rightarrow> unit cli" where
  "init_command networks network path =
     (if network \<notin> set networks then throwM (process_exit 1)
      else
        bindM (on_fs (existsSync path)) (\<lambda>there.
          if there then throwM (process_exit 1)
          else on_fs (writeJson path (JObject [(''network'', JString network), (''chains'', JObject [])]))))"

subsection \<open>Clone and add-chain\<close>

text \<open>A peer whose configuration cannot be pulled is left out.\<close>

definition clone_peer :: "ntt_net \<Rightarrow> client \<Rightarrow> string \<Rightarrow> (client \<times> json) option cli" where
  "clone_peer net cl c =
     bindM (retryWithExponentialBackoff 5 (nn_peer net cl c)) (\<lambda>peer.
       case peer of
         None \<Rightarrow> returnM None
       | Some p \<Rightarrow>
           attemptM (pullChainConfig net (c, pi_address p))
             (\<lambda>(conf, _). returnM (Some ((c, pi_address p), conf)))
             (\<lambda>_. returnM None))"

definition clone_command :: "string list \<Rightarrow> ntt_net \<Rightarrow> string \<Rightarrow> string \<Rightarrow> string \<Rightarrow> string \<Rightarrow> unit cli" where
  "clone_command networks net network chain address path =
     (if network \<notin> set networks then throwM (process_exit 1)
      else
        bindM (on_fs (existsSync path)) (\<lambda>there.
        if there then throwM (process_exit 1)
        else
          bindM (liftM (assertChain (nn_chains net) chain)) (\<lambda>_.
          bindM (liftM (nn_toUniversal net chain address)) (\<lambda>manager.
          bindM (pullChainConfig net (chain, manager)) (\<lambda>(conf, _).
          bindM (collectM (clone_peer net (chain, manager)) (nn_chains net)) (\<lambda>peers.
            let found = foldl (\<lambda>m (cl, cf). obj_set (fst cl) (cl, cf) m) [(chain, ((chain, manager), conf))] peers;
                names = map fst found in
            bindM (pullInboundLimits net names (map snd found)) (\<lambda>confs.
              on_fs (writeJson path (JObject [(''network'', JString network),
                (''chains'', JObject (sort_key (\<lambda>(c, _). nn_collate net c) (zip names confs)))])))))))))"

record add_chain_args =
  aa_path :: string
  aa_chain :: string
  aa_latest :: bool
  aa_ver :: "string option"
  aa_local :: bool
  aa_mode :: "string option"
  aa_token :: "string option"
  aa_yes :: bool
  aa_executor :: "bool option"
  aa_managerVariant :: "string option"

definition add_mode :: "json js_object \<Rightarrow> string option \<Rightarrow> string res" where
  "add_mode existing mode =
     (let existsLocking = list_ex (\<lambda>(_, c). jfield ''mode'' c = Some (JString ''locking'')) existing in
      if existsLocking \<and> mode = Some ''locking'' then Throw (process_exit 1)
      else
        (case (if existsLocking then Some ''burning'' else mode) of
           Some (c # cs) \<Rightarrow> Ok (c # cs)
         | _ \<Rightarrow> Throw (process_exit 1)))"

definition deploy :: "ntt_net \<Rightarrow> string \<Rightarrow> string option \<Rightarrow> string \<Rightarrow> string \<Rightarrow> string cli" where
  "deploy net chain version mode token w =
     (nn_deploy net chain version mode token (cw_clock w),
      w\<lparr>cw_clock := Suc (cw_clock w), cw_sent := cw_sent w @ [(chain, None, Deploy version mode token)]\<rparr>)"

definition added_config :: "ntt_net \<Rightarrow> add_chain_args \<Rightarrow> json \<Rightarrow> json res" where
  "added_config net args conf =
     bind_res (case aa_executor args of
         None \<Rightarrow> Ok conf
       | Some b \<Rightarrow> setNestedValue [''transceivers'', ''wormhole'', ''executor''] (JBool b) conf) (\<lambda>conf1.
       case aa_managerVariant args of
         Some (c # cs) \<Rightarrow>
           (if nn_platform net (aa_chain args) = ''Evm'' then assign_prop ''managerVariant'' (JString (c # cs)) conf1
            else Ok conf1)
       | _ \<Rightarrow> Ok conf1)"

text \<open>What is checked and resolved before anything is deployed: version, mode and token.\<close>

definition add_chain_checks :: "ntt_net \<Rightarrow> add_chain_args \<Rightarrow> json \<Rightarrow> (string option \<times> string \<times> string) cli" where
  "add_chain_checks net args deployments =
     (let chain = aa_chain args in
      bindM (liftM (resolveVersion net (aa_latest args) (aa_ver args) (aa_local args) (nn_platform net chain))) (\<lambda>version.
      bindM (liftM (bind_res (json_get ''network'' (Some deployments)) as_text)) (\<lambda>network.
      bindM (liftM (bind_res (json_get ''chains'' (Some deployments)) obj_entries)) (\<lambda>existing.
      if map_of existing chain \<noteq> None then throwM (process_exit 1)
      else
        bindM (liftM (validateChain net network chain)) (\<lambda>_.
        bindM (liftM (add_mode existing (aa_mode args))) (\<lambda>mode.
        bindM (liftM (case aa_token args of Some (c # cs) \<Rightarrow> Ok (c # cs) | _ \<Rightarrow> Throw (process_exit 1))) (\<lambda>token.
        bindM (if chain = ''HyperEVM'' \<and> \<not> aa_yes args then askForConfirmation net else returnM ()) (\<lambda>_.
          returnM (version, mode, token)))))))))"

definition add_chain_record :: "ntt_net \<Rightarrow> add_chain_args \<Rightarrow> json \<Rightarrow> string \<Rightarrow> unit cli" where
  "add_chain_record net args deployments manager =
     bindM (pullChainConfig net (aa_chain args, manager)) (\<lambda>(conf, _).
     bindM (liftM (bind_res (added_config net args conf) (\<lambda>c. setNestedValue [''chains'', aa_chain args] c deployments))) (\<lambda>updated.
       on_fs (writeJson (aa_path args) updated)))"

definition add_chain_command :: "ntt_net \<Rightarrow> add_chain_args \<Rightarrow> unit cli" where
  "add_chain_command net args =
     bindM (loadConfig (aa_path args)) (\<lambda>deployments.
     bindM (add_chain_checks net args deployments) (\<lambda>(version, mode, token).
     bindM (deploy net (aa_chain args) version mode token) (\<lambda>manager.
       add_chain_record net args deployments manager)))"

end
