(* ===== verification/Cli_Correct.thy ===== *)
theory Cli_Correct
  imports Cli_Push
begin

section \<open>What the deployment commands do\<close>

text \<open>
  The locale \<open>cli_moves\<close> collects how the reading half of a command moves the world, \<open>cli_sends\<close> adds the
  submissions to the chains it may touch. Interpreted for \<open>quiet\<close> (nothing sent, no file changed) and for
  \<open>touches\<close> (operations only on given chains), they give the frame of every command.
\<close>

subsection \<open>Frames\<close>

locale cli_moves = preorder_effects R for R :: "cli_world \<Rightarrow> cli_world \<Rightarrow> bool" +
  assumes tick_R: "R w (w\<lparr>cw_clock := k\<rparr>)"
begin

lemma rd_moves: "moves R (rd f)"
  by (simp add: moves_def rd_def tick_R)

lemma retry_moves: "moves R (retryWithExponentialBackoff n f)"
  by (induction n) (simp_all add: rd_moves moves_attempt moves_pure)

lemma collect_moves: "(\<And>x. moves R (f x)) \<Longrightarrow> moves R (collectM f xs)"
  by (induction xs) (simp_all add: moves_pure moves_bind)

lemma fs_read_moves: "moves R (on_fs (existsSync p))" "moves R (on_fs (readJson p))"
  by (simp_all add: moves_def on_fs_def existsSync_def readJson_def refl_R)

lemma loadConfig_moves: "moves R (loadConfig p)"
  unfolding loadConfig_def by (intro moves_intros fs_read_moves)

lemma confirm_moves: "moves R (askForConfirmation net)"
  unfolding askForConfirmation_def by (intro moves_intros rd_moves)

lemma pullChainConfig_moves: "moves R (pullChainConfig net cl)"
  unfolding pullChainConfig_def by (intro moves_intros rd_moves)

lemma pull_chain_moves: "moves R (pull_chain net entry)"
  unfolding pull_chain_def by (intro moves_intros rd_moves pullChainConfig_moves)

lemma inbound_moves: "moves R (inbound_limits net cl decimals cs conf)"
  by (induction cs arbitrary: conf) (auto simp: Let_def intro!: moves_pure moves_bind retry_moves)

lemma pullInbound_moves: "moves R (pullInboundLimits net names confs)"
  by (induction confs) (auto intro!: moves_pure moves_bind rd_moves inbound_moves)

lemma pullDeployments_moves: "moves R (pullDeployments net j)"
  unfolding pullDeployments_def by (intro moves_intros collect_moves pull_chain_moves pullInbound_moves)

lemma missing_pair_moves: "moves R (missing_pair net a b m)"
  unfolding missing_pair_def missing_manager_def missing_evm_def missing_transceiver_def Let_def
  by (intro moves_intros rd_moves retry_moves)

lemma missing_pairs_moves: "moves R (missing_pairs net a bs m)"
  by (induction bs arbitrary: m) (simp_all add: moves_pure moves_bind missing_pair_moves)

lemma missingConfigs_moves: "moves R (missingConfigs net deps)"
  unfolding missingConfigs_def missing_from_def missing_solana_def
  by (intro collect_moves moves_intros rd_moves retry_moves missing_pairs_moves)

lemma chain_owner_moves: "moves R (chain_owner net args d)"
  unfolding chain_owner_def Let_def by (intro moves_intros rd_moves)

lemma worktree_moves:
  "moves R (createWorkTree net platform v)"
  "moves R (case tv of Some (c # cs) \<Rightarrow> createWorkTree net platform (c # cs) | _ \<Rightarrow> returnM dir)"
proof -
  show *: "moves R (createWorkTree net platform v)" for v
    unfolding createWorkTree_def Let_def by (intro moves_intros rd_moves fs_read_moves)
  show "moves R (case tv of Some (c # cs) \<Rightarrow> createWorkTree net platform (c # cs) | _ \<Rightarrow> returnM dir)"
    by (simp add: * moves_pure split: option.splits list.splits)
qed

lemmas reading_moves = moves_intros rd_moves retry_moves collect_moves fs_read_moves loadConfig_moves confirm_moves
  pullChainConfig_moves pull_chain_moves pullInbound_moves pullDeployments_moves missingConfigs_moves chain_owner_moves

end

locale cli_sends = cli_moves R for R :: "cli_world \<Rightarrow> cli_world \<Rightarrow> bool" +
  fixes may :: "string \<Rightarrow> bool"
  assumes send_R: "may chain \<Longrightarrow> R w (w\<lparr>cw_clock := k, cw_sent := cw_sent w @ [(chain, via, op)]\<rparr>)"
begin

lemma submit_moves: "may chain \<Longrightarrow> moves R (submit net chain via op)"
  by (simp add: moves_def submit_def send_R)

lemma override_moves: "may chain \<Longrightarrow> moves R (signSendWaitWithOverride net own chain op)"
  unfolding signSendWaitWithOverride_def by (rule submit_moves)

lemma upgrade_moves: "may chain \<Longrightarrow> moves R (upgrade net chain v mv payer binary gas)"
  unfolding upgrade_def Let_def by (intro worktree_moves moves_intros fs_read_moves submit_moves)

lemma run_plan_moves: "may chain \<Longrightarrow> moves R (run_plan net own chain gas p)"
  unfolding run_plan_def upgrade_manager_def by (intro moves_intros upgrade_moves override_moves)

lemma pushDeployment_moves: "may (dp_chain d) \<Longrightarrow> moves R (pushDeployment net own yes gas one d)"
  unfolding pushDeployment_def Let_def by (intro reading_moves run_plan_moves)

lemma register_moves:
  "(\<not> shouldSkipChain args (fst entry) \<Longrightarrow> may (fst entry)) \<Longrightarrow> moves R (register_chain net args owners entry)"
  unfolding register_chain_def register_solana_def submit_logged_def
  by (cases entry) (auto intro!: reading_moves override_moves submit_moves)

lemma push_chain_moves:
  "(\<not> shouldSkipChain args (dp_chain d) \<Longrightarrow> may (dp_chain d)) \<Longrightarrow> moves R (push_chain net args owners d)"
  unfolding push_chain_def by (auto intro!: reading_moves pushDeployment_moves)

lemma push_command_moves: "(\<And>c. \<not> shouldSkipChain args c \<Longrightarrow> may c) \<Longrightarrow> moves R (push_command net args)"
  unfolding push_command_def by (intro reading_moves register_moves push_chain_moves) auto

end

definition quiet :: "cli_world \<Rightarrow> cli_world \<Rightarrow> bool" where
  "quiet w w' \<longleftrightarrow> cw_sent w' = cw_sent w \<and> cw_fs w' = cw_fs w"

definition touches :: "(string \<Rightarrow> bool) \<Rightarrow> cli_world \<Rightarrow> cli_world \<Rightarrow> bool" where
  "touches may w w' \<longleftrightarrow> cw_fs w' = cw_fs w \<and> (\<exists>ops. cw_sent w' = cw_sent w @ ops \<and> (\<forall>x \<in> set ops. may (fst x)))"

interpretation still: cli_moves quiet
  by unfold_locales (simp_all add: quiet_def)

interpretation reach: cli_sends "touches may" may for may
  by unfold_locales (auto simp: touches_def)

subsection \<open>Pushing one chain\<close>

lemma forM_append: "forM (xs @ ys) f = bindM (forM xs f) (\<lambda>_. forM ys f)"
  by (induction xs) (auto simp: fun_eq_iff bindM_def returnM_def split: prod.splits sum.splits)

text \<open>Operations are submitted in order and the first that fails ends the run.\<close>

lemma forM_submit:
  assumes "forM ops (submit net chain via) w = (r, w')"
  obtains k where "k \<le> length ops" "cw_sent w' = cw_sent w @ map (\<lambda>op. (chain, via, op)) (take k ops)"
    "cw_clock w' = cw_clock w + k" "\<And>i. Suc i < k \<or> (i < k \<and> r = Ok ()) \<Longrightarrow> nn_send net chain via (ops ! i) (cw_clock w + i) = Ok ()"
    "r = Ok () \<Longrightarrow> k = length ops"
  using assms
proof (induction ops arbitrary: w thesis)
  case Nil
  then show ?case by (simp add: returnM_def)
next
  case (Cons op ops)
  show ?case
  proof (cases "nn_send net chain via op (cw_clock w)")
    case (Inl e)
    then show ?thesis using Cons.prems(2) by (intro Cons.prems(1) [of 1]) (auto simp: bindM_def submit_def)
  next
    case (Inr u)
    let ?w = "w\<lparr>cw_clock := Suc (cw_clock w), cw_sent := cw_sent w @ [(chain, via, op)]\<rparr>"
    have "submit net chain via op w = (Ok u, ?w)" using Inr by (simp add: submit_def)
    then have "forM ops (submit net chain via) ?w = (r, w')" using Cons.prems(2) by (simp add: bindM_def)
    from Cons.IH [OF _ this] obtain k where k: "k \<le> length ops"
      "cw_sent w' = cw_sent ?w @ map (\<lambda>op. (chain, via, op)) (take k ops)" "cw_clock w' = cw_clock ?w + k"
      "\<And>i. Suc i < k \<or> (i < k \<and> r = Ok ()) \<Longrightarrow> nn_send net chain via (ops ! i) (cw_clock ?w + i) = Ok ()"
      "r = Ok () \<Longrightarrow> k = length ops" by blast
    have "nn_send net chain via ((op # ops) ! i) (cw_clock w + i) = Ok ()"
      if "Suc i < Suc k \<or> (i < Suc k \<and> r = Ok ())" for i
      using that Inr k(4) [of "i - 1"] by (cases i) auto
    then show ?thesis using k by (intro Cons.prems(1) [of "Suc k"]) auto
  qed
qed

definition owner_via :: "ntt_net \<Rightarrow> string option \<Rightarrow> string \<Rightarrow> string option" where
  "owner_via net nttOwner chain =
     (case nttOwner of
        Some own \<Rightarrow> (if own \<noteq> [] \<and> nn_platform net chain = ''Evm'' then Some own else None)
      | None \<Rightarrow> None)"

definition planned_ops :: "push_plan \<Rightarrow> chain_op list" where
  "planned_ops p = pp_txs p @ (case pp_updateOwner p of None \<Rightarrow> [] | Some op \<Rightarrow> [op])"

definition no_ownership :: "chain_op \<Rightarrow> bool" where
  "no_ownership op = (case op of SetOwner _ \<Rightarrow> False | TransferOwnership _ _ \<Rightarrow> False | _ \<Rightarrow> True)"

lemma run_plan_eq:
  "run_plan net own chain gas p =
     bindM (upgrade_manager net chain gas (pp_managerUpgrade p)) (\<lambda>_. forM (planned_ops p) (submit net chain (owner_via net own chain)))"
proof -
  have s: "signSendWaitWithOverride net own chain = submit net chain (owner_via net own chain)"
    by (rule ext) (simp add: signSendWaitWithOverride_def owner_via_def)
  have "bindM m (\<lambda>_. returnM ()) = m" for m :: "unit cli"
    by (rule ext) (simp add: bindM_def returnM_def split: prod.splits sum.splits)
  then show ?thesis unfolding run_plan_def planned_ops_def s forM_append by (cases "pp_updateOwner p") simp_all
qed

text \<open>Only the owner entry of a plan changes ownership.\<close>

definition tame :: "push_plan \<Rightarrow> bool" where
  "tame p \<longleftrightarrow> list_all no_ownership (pp_txs p)"

lemma tame_add: "tame p \<Longrightarrow> no_ownership op \<Longrightarrow> tame (add_tx op p)"
  by (simp add: tame_def add_tx_def)

lemma plan_inbound_tame: "plan_inbound net es p = Ok p' \<Longrightarrow> tame p \<Longrightarrow> tame p'"
  by (induction es arbitrary: p)
    (auto simp: bind_res_Ok_iff Let_def tame_add no_ownership_def split: if_splits)

lemma plan_wormhole_tame: "plan_wormhole net chain es p = Ok p' \<Longrightarrow> tame p \<Longrightarrow> tame p'"
  by (induction es arbitrary: p) (auto simp: bind_res_Ok_iff tame_add no_ownership_def split: if_splits)

lemma plan_transceivers_tame: "plan_transceivers net chain es p = Ok p' \<Longrightarrow> tame p \<Longrightarrow> tame p'"
proof (induction es arbitrary: p)
  case (Cons e es)
  obtain j entry where e: "e = (j, entry)" by fastforce
  consider "j = ''threshold''" | "j = ''wormhole''" using Cons.prems(1) by (auto simp: e split: if_splits)
  then show ?case
  proof cases
    case 1
    then show ?thesis using Cons by (auto simp: e tame_add no_ownership_def split: option.splits)
  next
    case 2
    then show ?thesis using Cons by (auto simp: e bind_res_Ok_iff dest: plan_wormhole_tame)
  qed
qed simp

lemma plan_limits_tame:
  assumes "plan_limits net entry p = Ok p'" and "tame p"
  shows "tame p'"
proof -
  let ?out = "json_opt_get ''push'' (json_opt_get ''outbound'' (Some entry))"
  let ?in = "json_opt_get ''inbound'' (Some entry)"
  obtain p1 where p1: "(if json_truthy ?out then bind_res (bind_res (as_text ?out) read_limit) (\<lambda>limit. Ok (add_tx (SetOutboundLimit limit) p))
      else Ok p) = Ok p1" and p': "(if json_truthy ?in then plan_inbound net (entries_of (the ?in)) p1 else Ok p1) = Ok p'"
    using assms(1) unfolding plan_limits_def Let_def bind_res_Ok_iff by blast
  have no: "no_ownership (SetOutboundLimit n)" for n by (simp add: no_ownership_def)
  have "tame p1"
  proof (cases "json_truthy ?out")
    case True
    then obtain n where "p1 = add_tx (SetOutboundLimit n) p" using p1 by (auto simp: bind_res_Ok_iff)
    then show ?thesis using tame_add [OF assms(2) no] by simp
  qed (use p1 assms(2) in simp)
  then show ?thesis using p' plan_inbound_tame by (cases "json_truthy ?in") auto
qed

lemma plan_owner_tame: "plan_owner net chain one entry p = Ok p' \<Longrightarrow> tame p \<Longrightarrow> tame p'"
  by (auto simp: plan_owner_def bind_res_Ok_iff tame_def)

lemma plan_field_tame:
  assumes "plan_field net chain one k entry p = Ok p'" and "tame p"
  shows "tame p'"
proof -
  have if_OkE: "(if b then x else y) = Ok v \<Longrightarrow> (x = Ok v \<Longrightarrow> P) \<Longrightarrow> (y = Ok v \<Longrightarrow> P) \<Longrightarrow> P" for b x y P and v :: push_plan
    by (simp split: if_splits)
  have up: "tame (p\<lparr>pp_managerUpgrade := u\<rparr>)" for u using assms(2) by (simp add: tame_def)
  have pause: "no_ownership (if b then PauseOp else UnpauseOp)" for b by (simp add: no_ownership_def)
  show ?thesis using assms(1) unfolding plan_field_def
  proof (elim if_OkE)
    assume "plan_owner net chain one entry p = Ok p'" then show ?thesis using plan_owner_tame assms(2) by blast
  next
    assume "plan_limits net entry p = Ok p'" then show ?thesis using plan_limits_tame assms(2) by blast
  next
    assume "plan_transceivers net chain (entries_of entry) p = Ok p'" then show ?thesis using plan_transceivers_tame assms(2) by blast
  next
    assume "bind_res (universal_push net chain (Some entry)) (\<lambda>address. Ok (add_tx (SetPauser address) p)) = Ok p'"
    then show ?thesis using assms(2) by (auto simp: bind_res_Ok_iff tame_add no_ownership_def)
  qed (use up tame_add [OF assms(2) pause] in auto)
qed

lemma plan_fields_tame: "plan_fields net chain one es p = Ok p' \<Longrightarrow> tame p \<Longrightarrow> tame p'"
proof (induction es arbitrary: p)
  case (Cons e es)
  obtain k entry where e: "e = (k, entry)" by fastforce
  obtain q where "plan_field net chain one k entry p = Ok q" "plan_fields net chain one es q = Ok p'"
    using Cons.prems(1) by (auto simp: e bind_res_Ok_iff)
  then show ?case using Cons plan_field_tame by blast
qed simp

lemma quiet_bind:
  assumes "bindM m f w = (r, w')" and "moves quiet m"
  shows "(\<exists>e. r = Throw e \<and> quiet w w') \<or> (\<exists>x w1. m w = (Ok x, w1) \<and> quiet w w1 \<and> f x w1 = (r, w'))"
  using assms(1)
proof (cases rule: bindM_cases)
  case (1 e)
  then show ?thesis using movesD [OF assms(2)] by blast
next
  case (2 x w1)
  then show ?thesis using movesD [OF assms(2)] by blast
qed

text \<open>An upgrade is at most one operation, on the chain.\<close>

lemma upgrade_once:
  assumes "upgrade net chain v mv payer binary gas w = (r, w')"
  shows "\<exists>us. length us \<le> 1 \<and> cw_sent w' = cw_sent w @ us \<and> (\<forall>x \<in> set us. fst x = chain \<and> no_ownership (snd (snd x)))"
proof -
  have "(\<exists>e. r = Throw e \<and> quiet w w') \<or> (\<exists>worktree w1. quiet w w1 \<and>
      (cw_sent w' = cw_sent w1 \<or> (\<exists>op. no_ownership op \<and> cw_sent w' = cw_sent w1 @ [(chain, None, op)])))"
    using quiet_bind [OF assms [unfolded upgrade_def Let_def] still.worktree_moves(2)]
    by (elim disjE exE conjE) (auto simp: bindM_def submit_def throwM_def on_fs_def existsSync_def no_ownership_def
        split: prod.splits sum.splits if_splits option.splits)
  then show ?thesis by (elim disjE exE conjE) (auto simp: quiet_def intro: exI [of _ "[]"])
qed

lemma upgrade_manager_once:
  assumes "upgrade_manager net chain gas u w = (r, w')"
  shows "\<exists>us. length us \<le> 1 \<and> cw_sent w' = cw_sent w @ us \<and> (us \<noteq> [] \<longrightarrow> u \<noteq> None) \<and>
    list_all (\<lambda>x. fst x = chain \<and> no_ownership (snd (snd x))) us"
proof (cases u)
  case None
  then show ?thesis using assms by (auto simp: upgrade_manager_def returnM_def)
next
  case (Some ft)
  obtain frm to where ft: "ft = (frm, to)" by fastforce
  have "bindM (liftM (case to of None \<Rightarrow> Ok None | Some v \<Rightarrow> bind_res (as_text to) (\<lambda>s. Ok (Some s)))) (\<lambda>toVersion.
      upgrade net chain toVersion None None gas None) w = (r, w')"
    using assms by (simp add: upgrade_manager_def Some ft)
  from quiet_bind [OF this still.moves_pure(3)] show ?thesis
  proof (elim disjE exE conjE)
    fix e assume "quiet w w'" then show ?thesis by (intro exI [of _ "[]"]) (simp add: quiet_def)
  next
    fix v w1 assume "quiet w w1" "upgrade net chain v None None gas None w1 = (r, w')"
    then show ?thesis using upgrade_once [of net chain v None None gas None w1] Some by (auto simp: quiet_def list_all_iff)
  qed
qed

lemma pushed_plan:
  assumes run: "run_plan net own c gas p w = (r, w')" and plan: "plan_fields net c one diff no_plan = Ok p"
  shows "\<exists>us ops. cw_sent w' = cw_sent w @ us @ map (\<lambda>op. (c, owner_via net own c, op)) ops \<and>
    length us \<le> 1 \<and> list_all (\<lambda>x. fst x = c \<and> no_ownership (snd (snd x))) us \<and>
    (us \<noteq> [] \<longrightarrow> pp_managerUpgrade p \<noteq> None) \<and> ops = take (length ops) (planned_ops p) \<and>
    (r = Ok () \<longrightarrow> ops = planned_ops p) \<and>
    (\<forall>i. Suc i < length ops \<longrightarrow> no_ownership (ops ! i) \<and>
       nn_send net c (owner_via net own c) (ops ! i) (cw_clock w' - length ops + i) = Ok ())"
proof -
  have "tame p" using plan_fields_tame [OF plan] by (simp add: tame_def no_plan_def)
  then have last_only: "no_ownership (planned_ops p ! i)" if "Suc i < length (planned_ops p)" for i
    using that by (auto simp: planned_ops_def tame_def list_all_length nth_append split: option.splits)
  from run show ?thesis unfolding run_plan_eq
  proof (cases rule: bindM_cases)
    case (1 e)
    then show ?thesis using upgrade_manager_once [OF 1(1)]
      by (elim exE) (rule exI, rule exI [of _ "[]"], auto)
  next
    case (2 u w1)
    obtain us where us: "length us \<le> 1" "cw_sent w1 = cw_sent w @ us"
      "us \<noteq> [] \<longrightarrow> pp_managerUpgrade p \<noteq> None" "list_all (\<lambda>x. fst x = c \<and> no_ownership (snd (snd x))) us"
      using upgrade_manager_once [OF 2(1)] by blast
    from 2(2) obtain k where k: "k \<le> length (planned_ops p)"
      "cw_sent w' = cw_sent w1 @ map (\<lambda>op. (c, owner_via net own c, op)) (take k (planned_ops p))"
      "cw_clock w' = cw_clock w1 + k"
      "\<And>i. Suc i < k \<or> (i < k \<and> r = Ok ()) \<Longrightarrow> nn_send net c (owner_via net own c) (planned_ops p ! i) (cw_clock w1 + i) = Ok ()"
      "r = Ok () \<Longrightarrow> k = length (planned_ops p)" by (rule forM_submit) blast
    show ?thesis
      using us k last_only by (intro exI [of _ us] exI [of _ "take k (planned_ops p)"]) auto
  qed
qed

text \<open>C33: A push of one chain sends nothing when the configurations agree or when the diff has a field
  that cannot be pushed: the whole diff is translated first. Otherwise it sends the upgrade, if the
  version differs, and then the planned operations in order, stopping at the first that fails; the
  transfer of ownership is the last of all and only follows when every operation before it was accepted, so
  that a failing push does not lock its sender out. A push that returns has sent the whole plan.\<close>

theorem push_owner_last:
  assumes "pushDeployment net own yes gas one d w = (r, w')"
  shows "\<exists>us ops. cw_sent w' = cw_sent w @ us @ map (\<lambda>op. (dp_chain d, owner_via net own (dp_chain d), op)) ops \<and>
    length us \<le> 1 \<and> list_all (\<lambda>x. fst x = dp_chain d \<and> no_ownership (snd (snd x))) us \<and>
    (deployment_diff d = [] \<longrightarrow> us = [] \<and> ops = [] \<and> r = Ok ()) \<and>
    (case plan_fields net (dp_chain d) one (deployment_diff d) no_plan of
       Inl e \<Rightarrow> us = [] \<and> ops = []
     | Inr p \<Rightarrow> (us \<noteq> [] \<longrightarrow> pp_managerUpgrade p \<noteq> None) \<and> ops = take (length ops) (planned_ops p) \<and>
         (r = Ok () \<longrightarrow> deployment_diff d = [] \<or> ops = planned_ops p)) \<and>
    (\<forall>i. Suc i < length ops \<longrightarrow> no_ownership (ops ! i) \<and>
       nn_send net (dp_chain d) (owner_via net own (dp_chain d)) (ops ! i) (cw_clock w' - length ops + i) = Ok ())"
    (is "\<exists>us ops. ?P us ops")
proof -
  let ?c = "dp_chain d" and ?diff = "deployment_diff d"
  let ?plan = "plan_fields net ?c one ?diff no_plan"
  have none: "?P [] []" if "cw_sent w' = cw_sent w" "?diff = [] \<or> (\<exists>e. r = Throw e)" "?diff = [] \<Longrightarrow> r = Ok ()"
    using that by (auto split: sum.splits)
  show ?thesis
  proof (cases "?diff = []")
    case True
    then have "r = Ok ()" "w' = w" using assms by (simp_all add: pushDeployment_def returnM_def)
    with True none show ?thesis by blast
  next
    case False
    then have run: "bindM (if yes then returnM () else askForConfirmation net) (\<lambda>_. bindM (rd (nn_signer net ?c)) (\<lambda>_.
        bindM (liftM ?plan) (\<lambda>p. run_plan net own ?c gas p))) w = (r, w')"
      using assms by (simp add: pushDeployment_def Let_def)
    have threw: "\<exists>us ops. ?P us ops" if "quiet w w'" "r = Throw e" for e
      using none that False by (auto simp: quiet_def)
    have mv: "moves quiet (if yes then returnM () else askForConfirmation net)" by (intro still.reading_moves)
    from quiet_bind [OF run mv] show ?thesis
    proof (elim disjE exE conjE)
      fix u w1
      assume q1: "quiet w w1" and "bindM (rd (nn_signer net ?c)) (\<lambda>_. bindM (liftM ?plan) (\<lambda>p. run_plan net own ?c gas p)) w1 = (r, w')"
      from quiet_bind [OF this(2) still.rd_moves] show ?thesis
      proof (elim disjE exE conjE)
        fix e assume "r = Throw e" "quiet w1 w'" then show ?thesis using q1 by (intro threw [of e]) (simp_all add: quiet_def)
      next
        fix sg w2
        assume q2: "quiet w1 w2" and r2: "bindM (liftM ?plan) (\<lambda>p. run_plan net own ?c gas p) w2 = (r, w')"
        show ?thesis
        proof (cases ?plan)
          case (Inl e)
          then show ?thesis using r2 q1 q2 by (intro threw [of e]) (auto simp: bindM_def liftM_def quiet_def)
        next
          case (Inr p)
          then have rp: "run_plan net own ?c gas p w2 = (r, w')" using r2 by (simp add: bindM_def liftM_def)
          show ?thesis using pushed_plan [OF rp Inr] q1 q2 False by (simp add: quiet_def Inr)
        qed
      qed
    qed (use threw in blast)
  qed
qed

text \<open>Two EVM chains that are registered with each other and answer the same at all times.\<close>

definition demo_net :: ntt_net where
  "demo_net = \<lparr>nn_chains = [''A'', ''B''], nn_platform = (\<lambda>_. ''Evm''), nn_toUniversal = (\<lambda>_ a. Ok a), nn_canonical = (\<lambda>_ a. a),
     nn_collate = (\<lambda>_. 0), nn_tags = (\<lambda>_. ''v1.0.0+evm''), nn_tag = (\<lambda>_ v. v), nn_exec = (\<lambda>_ _. Ok ()), nn_confirm = (\<lambda>_. True),
     nn_signer = (\<lambda>_ _. Ok ''o''), nn_code = (\<lambda>_ _ _. Ok ''0x''), nn_supportsOwner = (\<lambda>_ _ _. Ok True),
     nn_verify = (\<lambda>_ _. Ok \<lparr>ca_token = ''t'', ca_wormhole = ''x''\<rparr>), nn_mode = (\<lambda>_ _. Ok ''burning''),
     nn_outboundLimit = (\<lambda>_ _. Ok 0), nn_threshold = (\<lambda>_ _. Ok 1), nn_decimals = (\<lambda>_ _. Ok 2), nn_paused = (\<lambda>_ _. Ok False),
     nn_owner = (\<lambda>_ _. Ok ''o''), nn_pauser = (\<lambda>_ _. Ok None), nn_version = (\<lambda>_. ''1.0.0''), nn_transceiver = (\<lambda>_ _. Ok True),
     nn_transceiverPauser = (\<lambda>_ _. Ok None), nn_transceiverAddress = (\<lambda>_ _. Ok ''x''),
     nn_peer = (\<lambda>_ _ _. Ok (Some \<lparr>pi_address = ''m'', pi_decimals = 2, pi_limit = 0\<rparr>)),
     nn_transceiverPeer = (\<lambda>_ _ _. Ok (Some ''x'')), nn_isEvmChain = (\<lambda>_ _ _. Ok True),
     nn_wormholeRelaying = (\<lambda>_ _ _. Ok True), nn_specialRelaying = (\<lambda>_ _ _. Ok True), nn_registeredSelf = (\<lambda>_ _. Ok True),
     nn_lutOutdated = (\<lambda>_ _. Ok False), nn_send = (\<lambda>_ _ _ _. Ok ()), nn_deploy = (\<lambda>_ _ _ _ _. Ok ''m'')\<rparr>"

definition demo_cli_world :: "json \<Rightarrow> cli_world" where
  "demo_cli_world j = \<lparr>cw_fs = (\<lambda>p. if p = ''.'' then Some Dir else if p = ''d.json'' then Some (Json_file j) else None),
     cw_clock = 0, cw_sent = []\<rparr>"

definition demo_dep :: deployment where
  "demo_dep = \<lparr>dp_chain = ''A'', dp_manager = ''m'', dp_decimals = 2,
     dp_remote = JObject [(''owner'', JString ''o''), (''paused'', JBool False)],
     dp_local = JObject [(''owner'', JString ''p''), (''paused'', JBool True)]\<rparr>"

theorem push_owner_last_witness:
  "map (snd \<circ> snd) (cw_sent (snd (pushDeployment demo_net None True None False demo_dep (demo_cli_world JNull)))) = [PauseOp, SetOwner ''p'']"
proof -
  let ?w = "demo_cli_world JNull"
  obtain r w' where run: "pushDeployment demo_net None True None False demo_dep ?w = (r, w')" by fastforce
  have r: "r = Ok ()"
  proof -
    have "fst (pushDeployment demo_net None True None False demo_dep (demo_cli_world JNull)) = Ok ()" by code_simp
    then show ?thesis by (simp add: run)
  qed
  have p: "plan_fields demo_net (dp_chain demo_dep) False (deployment_diff demo_dep) no_plan =
      Ok \<lparr>pp_txs = [PauseOp], pp_updateOwner = Some (SetOwner ''p''), pp_managerUpgrade = None\<rparr>" by code_simp
  have d: "deployment_diff demo_dep \<noteq> []" by code_simp
  have "cw_sent ?w = []" by (simp add: demo_cli_world_def)
  then have "map (snd \<circ> snd) (cw_sent w') = [PauseOp, SetOwner ''p'']"
    using push_owner_last [OF run] r d by (auto simp: p planned_ops_def)
  then show ?thesis by (simp add: run)
qed

subsection \<open>The push command\<close>

definition push_rest :: "ntt_net \<Rightarrow> push_args \<Rightarrow> json \<Rightarrow> deployment list \<Rightarrow> (string \<times> missing_config) list \<Rightarrow> unit cli" where
  "push_rest net args deployments deps missing =
     bindM (liftM (checkConfigErrors net deps)) (\<lambda>errors.
     if errors \<noteq> 0 then throwM (process_exit 1)
     else
       bindM (collectM (chain_owner net args) deps) (\<lambda>owners.
       bindM (forM missing (register_chain net args (map_of owners))) (\<lambda>_.
       bindM (pullDeployments net deployments) (\<lambda>depsAfter.
         forM depsAfter (push_chain net args (map_of owners))))))"

lemma push_command_eq:
  "push_command net args =
     bindM (loadConfig (pa_path args)) (\<lambda>deployments.
     bindM (pullDeployments net deployments) (\<lambda>deps.
     bindM (missingConfigs net deps) (\<lambda>missing. push_rest net args deployments deps missing)))"
  unfolding push_command_def push_rest_def ..

text \<open>C34: The \<open>push\<close> command leaves the deployment file alone and sends operations only to chains that
  \<open>--only-chain\<close> and \<open>--skip-chain\<close> select, and none at all when a limit in the file has the wrong number
  of decimals.\<close>

theorem push_respects_selection:
  assumes "push_command net args w = (r, w')"
  shows "\<exists>ops. cw_sent w' = cw_sent w @ ops \<and> cw_fs w' = cw_fs w \<and>
    list_all (\<lambda>(chain, _). \<not> shouldSkipChain args chain) ops \<and>
    (ops \<noteq> [] \<longrightarrow> (\<exists>j w1 deps w2. loadConfig (pa_path args) w = (Ok j, w1) \<and> pullDeployments net j w1 = (Ok deps, w2) \<and>
       checkConfigErrors net deps = Ok 0))"
proof -
  have "moves (touches (\<lambda>c. \<not> shouldSkipChain args c)) (push_command net args)"
    by (rule reach.push_command_moves) simp
  then have "touches (\<lambda>c. \<not> shouldSkipChain args c) w w'" using assms by (rule movesD)
  then obtain ops where ops: "cw_sent w' = cw_sent w @ ops" "cw_fs w' = cw_fs w" "\<forall>x \<in> set ops. \<not> shouldSkipChain args (fst x)"
    unfolding touches_def by blast
  have "\<exists>j w1 deps w2. loadConfig (pa_path args) w = (Ok j, w1) \<and> pullDeployments net j w1 = (Ok deps, w2) \<and>
       checkConfigErrors net deps = Ok 0" if "ops \<noteq> []"
  proof -
    have notq: "\<not> quiet w w'" using that ops(1) by (simp add: quiet_def)
    have tr: "quiet a b \<Longrightarrow> quiet b c \<Longrightarrow> quiet a c" for a b c by (simp add: quiet_def)
    obtain j w1 where j: "loadConfig (pa_path args) w = (Ok j, w1)" "quiet w w1"
      "bindM (pullDeployments net j) (\<lambda>deps. bindM (missingConfigs net deps) (\<lambda>missing. push_rest net args j deps missing)) w1 = (r, w')"
      using quiet_bind [OF assms [unfolded push_command_eq] still.loadConfig_moves] notq by blast
    obtain deps w2 where d: "pullDeployments net j w1 = (Ok deps, w2)" "quiet w1 w2"
      "bindM (missingConfigs net deps) (\<lambda>missing. push_rest net args j deps missing) w2 = (r, w')"
      using quiet_bind [OF j(3) still.pullDeployments_moves] notq j(2) tr by blast
    obtain missing w3 where m: "quiet w2 w3" "push_rest net args j deps missing w3 = (r, w')"
      using quiet_bind [OF d(3) still.missingConfigs_moves] notq j(2) d(2) tr by blast
    have "checkConfigErrors net deps = Ok 0"
    proof (rule ccontr)
      assume bad: "checkConfigErrors net deps \<noteq> Ok 0"
      have "quiet w3 w'" using m(2) bad unfolding push_rest_def quiet_def
        by (cases "checkConfigErrors net deps") (auto simp: bindM_def liftM_def throwM_def split: if_splits)
      then show False using notq j(2) d(2) m(1) tr by blast
    qed
    then show ?thesis using j(1) d(1) by blast
  qed
  then show ?thesis using ops by (auto simp: list_all_iff)
qed

definition demo_chain_json :: "bool \<Rightarrow> string \<Rightarrow> json" where
  "demo_chain_json paused other = JObject [(''version'', JString ''1.0.0''), (''mode'', JString ''burning''), (''paused'', JBool paused),
     (''owner'', JString ''o''), (''manager'', JString ''m''), (''token'', JString ''t''),
     (''transceivers'', JObject [(''threshold'', JNumber (Num 1)), (''wormhole'', JObject [(''address'', JString ''x'')])]),
     (''limits'', JObject [(''outbound'', JString ''0.00''), (''inbound'', JObject [(other, JString ''0.00'')])])]"

definition demo_file :: "bool \<Rightarrow> json" where
  "demo_file paused = JObject [(''network'', JString ''Testnet''),
     (''chains'', JObject [(''A'', demo_chain_json paused ''B''), (''B'', demo_chain_json paused ''A'')])]"

definition demo_push :: push_args where
  "demo_push = \<lparr>pa_path = ''d.json'', pa_yes = True, pa_skipChains = [''B''], pa_onlyChains = [], pa_gasEstimateMultiplier = None, pa_oneStep = False\<rparr>"

theorem push_respects_selection_witness:
  "list_all (\<lambda>(chain, _). chain \<noteq> ''B'') (cw_sent (snd (push_command demo_net demo_push (demo_cli_world (demo_file True))))) \<and>
   cw_fs (snd (push_command demo_net demo_push (demo_cli_world (demo_file True)))) = cw_fs (demo_cli_world (demo_file True))"
proof -
  have "shouldSkipChain demo_push ''B''" by (simp add: shouldSkipChain_def demo_push_def)
  moreover have "cw_sent (demo_cli_world (demo_file True)) = []" by (simp add: demo_cli_world_def)
  ultimately show ?thesis
    using push_respects_selection [OF prod.collapse [symmetric], of demo_net demo_push "demo_cli_world (demo_file True)"]
    by (fastforce simp: list_all_iff)
qed

end
