(* ===== verification/Cli_Sync.thy ===== *)
theory Cli_Sync
  imports Cli_Correct
begin

section \<open>Pull, status and add-chain\<close>

text \<open>
  The reads of a deployment give configurations of a fixed shape (\<open>remote_shape\<close>); with it, \<open>pull\<close> brings the
  file to what the chains said, \<open>status\<close> reports success only for a deployment that is registered and in
  agreement, and \<open>add-chain\<close> keeps to one locking chain.
\<close>

subsection \<open>What a pulled deployment looks like\<close>

definition remote_shape :: "json \<Rightarrow> bool" where
  "remote_shape conf \<longleftrightarrow> json_plain conf \<and> (\<exists>r l i. conf = JObject r \<and> has_transceiver r \<and>
     map_of r ''limits'' = Some (JObject l) \<and> map_of l ''inbound'' = Some (JObject i))"

lemma json_plain_obj_set: "json_plain (JObject kvs) \<Longrightarrow> json_plain v \<Longrightarrow> json_plain (JObject (obj_set k v kvs))"
  using set_obj_set [of k v kvs] by (fastforce simp: distinct_obj_set list_all_iff)

lemma remote_config_shape:
  "remote_shape (remote_config net cl addresses version mode paused own threshold limit tp pauser)"
proof -
  have o: "optional_field k v = [] \<or> (\<exists>s. optional_field k v = [(k, JString s)])" for k v
    by (auto simp: optional_field_def split: option.splits list.splits)
  show ?thesis
    using o [of "''pauser''" tp] o [of "''pauser''" pauser] by (auto simp: remote_shape_def remote_config_def has_transceiver_def)
qed

lemma inbound_set_shape:
  assumes "remote_shape conf"
  shows "\<exists>conf'. setNestedValue [''limits'', ''inbound'', c] (JString s) conf = Ok conf' \<and> remote_shape conf'"
proof -
  obtain r l i where conf: "conf = JObject r" "has_transceiver r" "json_plain (JObject r)"
    and l: "map_of r ''limits'' = Some (JObject l)" and i: "map_of l ''inbound'' = Some (JObject i)"
    using assms by (auto simp: remote_shape_def simp del: json_plain.simps)
  note pl = json_plain_member [OF conf(3) l]
  note pi = json_plain_member [OF pl i]
  let ?l = "obj_set ''inbound'' (JObject (obj_set c (JString s) i)) l"
  let ?r = "obj_set ''limits'' (JObject ?l) r"
  have d: "distinct (map fst r)" "distinct (map fst l)" using json_plain_ok [OF conf(3)] json_plain_ok [OF pl] by simp_all
  have "setNestedValue [''limits'', ''inbound'', c] (JString s) conf = Ok (JObject ?r)"
    using l i by (simp add: conf assign_prop_def json_get_def jfield_def map_of_rev d json_truthy_def)
  moreover have "json_plain (JObject ?r)"
    by (intro json_plain_obj_set conf(3) pl pi) simp
  then have "remote_shape (JObject ?r)"
    using conf(2) by (auto simp: remote_shape_def has_transceiver_def map_of_obj_set simp del: json_plain.simps)
  ultimately show ?thesis by blast
qed

lemma inbound_limits_shape:
  "inbound_limits net cl dec cs conf w = (Ok conf', w') \<Longrightarrow> remote_shape conf \<Longrightarrow> remote_shape conf'"
proof (induction cs arbitrary: conf w)
  case (Cons c cs)
  show ?case
  proof (cases "fst cl = c")
    case False
    then obtain s conf1 w1 where "setNestedValue [''limits'', ''inbound'', c] (JString s) conf = Ok conf1"
      "inbound_limits net cl dec cs conf1 w1 = (Ok conf', w')"
      using Cons.prems(1) by (auto simp: bindM_Ok_iff Let_def liftM_def)
    then show ?thesis using Cons.IH inbound_set_shape [OF Cons.prems(2), of c s] by auto
  qed (use Cons in simp)
qed (simp add: returnM_def)

lemma pullInbound_shape:
  "pullInboundLimits net names cfs w = (Ok confs, w') \<Longrightarrow> list_all (\<lambda>(_, conf). remote_shape conf) cfs \<Longrightarrow>
   length confs = length cfs \<and> list_all remote_shape confs"
proof (induction cfs arbitrary: w confs)
  case (Cons x cfs)
  obtain cl conf where x: "x = (cl, conf)" by fastforce
  obtain dec conf' w1 w2 confs' where "inbound_limits net cl dec names conf w1 = (Ok conf', w2)"
    "pullInboundLimits net names cfs w2 = (Ok confs', w')" "confs = conf' # confs'"
    using Cons.prems(1) by (auto simp: x bindM_Ok_iff returnM_def)
  then show ?case using Cons.IH Cons.prems(2) inbound_limits_shape by (auto simp: x)
qed (simp add: returnM_def)

lemma collectM_Ok:
  "collectM f xs w = (Ok ys, w') \<Longrightarrow> y \<in> set ys \<Longrightarrow> \<exists>x \<in> set xs. \<exists>w1 w2. f x w1 = (Ok (Some y), w2)"
proof (induction xs arbitrary: w ys)
  case (Cons x xs)
  obtain oy w1 zs where "f x w = (Ok oy, w1)" "collectM f xs w1 = (Ok zs, w')" "ys = (case oy of None \<Rightarrow> zs | Some b \<Rightarrow> b # zs)"
    using Cons.prems(1) by (auto simp: bindM_Ok_iff returnM_def)
  then show ?case using Cons.IH Cons.prems(2) by (fastforce split: option.splits)
qed (simp add: returnM_def)

lemma collectM_distinct:
  assumes "\<And>x w y w'. f x w = (Ok (Some y), w') \<Longrightarrow> ky y = kx x"
  shows "collectM f xs w = (Ok ys, w') \<Longrightarrow> distinct (map kx xs) \<Longrightarrow> distinct (map ky ys)"
proof (induction xs arbitrary: w ys)
  case (Cons x xs)
  obtain oy w1 zs where o: "f x w = (Ok oy, w1)" "collectM f xs w1 = (Ok zs, w')" "ys = (case oy of None \<Rightarrow> zs | Some b \<Rightarrow> b # zs)"
    using Cons.prems(1) by (auto simp: bindM_Ok_iff returnM_def)
  have "ky ` set zs \<subseteq> kx ` set xs" using collectM_Ok [OF o(2)] assms by blast
  then show ?case using o Cons.IH Cons.prems(2) assms [of x w _ w1] by (auto split: option.splits)
qed (simp add: returnM_def)

lemma collectM_none:
  "collectM f xs w = (Ok [], w') \<Longrightarrow> x \<in> set xs \<Longrightarrow> \<exists>w1 w2. f x w1 = (Ok None, w2)"
  by (induction xs arbitrary: w) (auto simp: bindM_Ok_iff returnM_def split: option.splits)

text \<open>A deployment as pulled from an entry of the file.\<close>

definition pulled_from :: "json js_object \<Rightarrow> deployment \<Rightarrow> bool" where
  "pulled_from entries d \<longleftrightarrow> (dp_chain d, dp_local d) \<in> set entries \<and> (\<exists>kvs. dp_local d = JObject kvs) \<and> remote_shape (dp_remote d)"

lemma pull_chain_Ok:
  assumes "pull_chain net (chain, local) w = (Ok (Some d), w')"
  shows "dp_chain d = chain \<and> dp_local d = local \<and> (\<exists>kvs. local = JObject kvs) \<and> remote_shape (dp_remote d)"
proof -
  obtain v manager w1 remote dec w2 where v: "json_get ''manager'' (Some local) = Ok (Some v)"
    and c: "pullChainConfig net (chain, manager) w1 = (Ok (remote, dec), w2)"
    and d: "d = \<lparr>dp_chain = chain, dp_manager = manager, dp_decimals = dec, dp_remote = remote, dp_local = local\<rparr>"
    using assms by (auto simp: pull_chain_def bindM_Ok_iff liftM_def returnM_def throwM_def split: if_splits)
  have "\<exists>kvs. local = JObject kvs" using v by (cases local) (auto simp: json_get_def jfield_def)
  moreover have "remote_shape remote" using c remote_config_shape
    unfolding pullChainConfig_def bindM_Ok_iff by (elim exE conjE) (auto simp: returnM_def)
  ultimately show ?thesis using d by simp
qed

lemma pullDeployments_Ok:
  assumes "pullDeployments net (JObject kvs) w = (Ok deps, w')" and "json_ok (JObject kvs)"
  obtains cs where "obj_entries (map_of kvs ''chains'') = Ok cs" "distinct (map dp_chain deps)"
    "\<And>d. d \<in> set deps \<Longrightarrow> pulled_from cs d"
proof -
  obtain cs ds w1 w2 remotes where cs: "bind_res (json_get ''chains'' (Some (JObject kvs))) obj_entries = Ok cs"
    and ds: "collectM (pull_chain net) cs w = (Ok ds, w1)"
    and rs: "pullInboundLimits net (map dp_chain ds) (map (\<lambda>d. (dp_client d, dp_remote d)) ds) w1 = (Ok remotes, w2)"
    and deps: "deps = map2 (\<lambda>d r. d\<lparr>dp_remote := r\<rparr>) ds remotes"
    using assms(1) by (auto simp: pullDeployments_def bindM_Ok_iff liftM_def returnM_def)
  have e: "obj_entries (map_of kvs ''chains'') = Ok cs" using cs by (simp add: json_get_def jfield_object [OF assms(2)])
  have dcs: "distinct (map fst cs)"
    using e json_ok_member [OF assms(2), of "''chains''"] by (auto simp: obj_entries_def split: option.splits json.splits)
  have p: "pulled_from cs d" if "d \<in> set ds" for d
    using collectM_Ok [OF ds that] pull_chain_Ok by (fastforce simp: pulled_from_def)
  have "list_all (\<lambda>(_, conf). remote_shape conf) (map (\<lambda>d. (dp_client d, dp_remote d)) ds)"
    using p by (auto simp: list_all_iff pulled_from_def)
  from pullInbound_shape [OF rs this] have l: "length remotes = length ds" "list_all remote_shape remotes" by simp_all
  have "distinct (map dp_chain ds)"
    by (rule collectM_distinct [where kx = fst, OF _ ds dcs]) (metis pull_chain_Ok prod.collapse)
  moreover have "map dp_chain deps = map dp_chain ds"
    using l(1) by (intro nth_equalityI) (simp_all add: deps)
  moreover have "pulled_from cs d" if d: "d \<in> set deps" for d
  proof -
    obtain d0 r where "(d0, r) \<in> set (zip ds remotes)" "d = d0\<lparr>dp_remote := r\<rparr>" using d by (auto simp: deps)
    then show ?thesis using p l(2) by (auto simp: pulled_from_def list_all_iff dest: set_zip_leftD set_zip_rightD)
  qed
  ultimately show ?thesis using e that by simp
qed

subsection \<open>Pull\<close>

definition local_only :: "string list set" where
  "local_only = {[''transceivers'', ''wormhole'', ''executor''], [''managerVariant'']}"

definition in_sync :: "deployment \<Rightarrow> json js_object \<Rightarrow> bool" where
  "in_sync d c \<longleftrightarrow> diffObjects EXCLUDED_DIFF_PATHS [] c (entries_of (dp_remote d)) = [] \<and>
     (\<forall>p v. p \<in> local_only \<and> json_at p (dp_local d) = Some v \<longrightarrow> json_at p (JObject c) = Some v)"

text \<open>A deployment file as an object with an object of chains.\<close>

lemma set_chain_entry:
  fixes c :: string
  assumes "json_ok (JObject kvs)" "map_of kvs ''chains'' = Some (JObject cs)" "json_ok conf"
  defines "cs' \<equiv> obj_set c conf cs" and "kvs' \<equiv> obj_set ''chains'' (JObject (obj_set c conf cs)) kvs"
  shows "setNestedValue [''chains'', c] conf (JObject kvs) = Ok (JObject kvs')" "json_ok (JObject kvs')"
    "map_of kvs' ''chains'' = Some (JObject cs')" "k \<noteq> ''chains'' \<Longrightarrow> map_of kvs' k = map_of kvs k"
    "map_of cs' = (map_of cs)(c \<mapsto> conf)"
proof -
  have "json_ok (JObject cs)" using json_ok_member [OF assms(1,2)] .
  then show "json_ok (JObject kvs')" unfolding kvs'_def using assms by (intro json_ok_obj_set)
  show "setNestedValue [''chains'', c] conf (JObject kvs) = Ok (JObject kvs')"
    using assms(1,2) by (simp add: kvs'_def json_get_def jfield_def map_of_rev assign_prop_def json_truthy_def)
qed (simp_all add: kvs'_def cs'_def map_of_obj_set)

lemma apply_pull_spec:
  assumes "json_ok (JObject kvs)" "map_of kvs ''chains'' = Some (JObject cs)" "distinct (map dp_chain ds)"
    and "\<And>d. d \<in> set ds \<Longrightarrow> pulled_from cs d"
  shows "\<exists>kvs' cs' ch. apply_pull ds (JObject kvs) = Ok (JObject kvs', ch) \<and> json_ok (JObject kvs') \<and>
    map_of kvs' ''chains'' = Some (JObject cs') \<and> (\<forall>k. k \<noteq> ''chains'' \<longrightarrow> map_of kvs' k = map_of kvs k) \<and>
    (\<forall>k. k \<notin> dp_chain ` set ds \<longrightarrow> map_of cs' k = map_of cs k) \<and>
    (\<forall>d \<in> set ds. \<exists>c. map_of cs' (dp_chain d) = Some (JObject c) \<and> in_sync d c)"
  using assms
proof (induction ds arbitrary: kvs cs)
  case Nil
  then show ?case by (intro exI [of _ kvs] exI [of _ cs] exI [of _ False]) simp
next
  case (Cons d ds)
  have okcs: "json_ok (JObject cs)" using json_ok_member [OF Cons.prems(1,2)] .
  obtain l r where l: "dp_local d = JObject l" "map_of cs (dp_chain d) = Some (JObject l)"
    and r: "dp_remote d = JObject r" "json_plain (JObject r)" "has_transceiver r"
    using Cons.prems(4) [of d] okcs
    by (auto simp: pulled_from_def remote_shape_def simp del: json_plain.simps dest!: map_of_is_SomeI [rotated])
  have okl: "json_ok (JObject l)" using json_ok_member [OF okcs l(2)] .
  obtain conf doc where step: "apply_pull (d # ds) (JObject kvs) = (if deployment_diff d = [] then apply_pull ds doc
      else bind_res (apply_pull ds doc) (\<lambda>(f, _). Ok (f, True)))" and ok: "json_ok (JObject conf)" "in_sync d conf"
    and doc: "doc = JObject kvs \<and> conf = l \<or> setNestedValue [''chains'', dp_chain d] (JObject conf) (JObject kvs) = Ok doc"
  proof (cases "deployment_diff d = []")
    case True
    then show ?thesis using that [of "JObject kvs" l] okl l r by (simp add: in_sync_def deployment_diff_def entries_of_def)
  next
    case False
    obtain c where c: "preserve_excluded EXCLUDED_DIFF_PATHS (dp_local d) (JObject r) = Ok (JObject c)"
      "json_ok (JObject c)" "diffObjects EXCLUDED_DIFF_PATHS [] c r = []"
      "\<And>p v. p \<in> local_only \<Longrightarrow> json_at p (dp_local d) = Some v \<Longrightarrow> json_at p (JObject c) = Some v"
      using preserved_config [OF r(2,3), of "dp_local d"] okl unfolding l(1) local_only_def by metis
    note st = set_chain_entry(1) [OF Cons.prems(1,2) c(2)]
    show ?thesis
      by (rule that [OF _ c(2) _ disjI2 [OF st]]) (use c False r st in \<open>simp_all add: in_sync_def entries_of_def del: setNestedValue.simps\<close>)
  qed
  have nd: "dp_chain d \<notin> dp_chain ` set ds" "distinct (map dp_chain ds)" using Cons.prems(3) by auto
  obtain kvs1 cs1 where f1: "doc = JObject kvs1" "json_ok (JObject kvs1)" "map_of kvs1 ''chains'' = Some (JObject cs1)"
    "\<And>k. k \<noteq> ''chains'' \<Longrightarrow> map_of kvs1 k = map_of kvs k" "map_of cs1 = (map_of cs)(dp_chain d \<mapsto> JObject conf)"
    using doc
  proof
    assume "doc = JObject kvs \<and> conf = l"
    then show ?thesis using that [of kvs cs] Cons.prems(1,2) l(2) by (simp add: fun_upd_idem)
  next
    assume st: "setNestedValue [''chains'', dp_chain d] (JObject conf) (JObject kvs) = Ok doc"
    note sc = set_chain_entry [OF Cons.prems(1,2) ok(1), where c = "dp_chain d"]
    show ?thesis by (rule that [OF _ sc(2,3,4,5)]) (use st sc(1) in simp)
  qed
  have "pulled_from cs1 d'" if "d' \<in> set ds" for d'
  proof -
    have "map_of cs (dp_chain d') = Some (dp_local d')"
      using Cons.prems(4) [of d'] that okcs by (auto simp: pulled_from_def intro: map_of_is_SomeI)
    moreover have "dp_chain d' \<noteq> dp_chain d" using nd(1) that by (metis imageI)
    ultimately have "map_of cs1 (dp_chain d') = Some (dp_local d')" by (simp add: f1(5))
    then show ?thesis using Cons.prems(4) [of d'] that by (auto simp: pulled_from_def dest: map_of_SomeD)
  qed
  from Cons.IH [OF f1(2,3) nd(2) this] obtain kvs' cs' ch' where ih: "apply_pull ds doc = Ok (JObject kvs', ch')"
    "json_ok (JObject kvs')" "map_of kvs' ''chains'' = Some (JObject cs')" "\<forall>k. k \<noteq> ''chains'' \<longrightarrow> map_of kvs' k = map_of kvs1 k"
    "\<forall>k. k \<notin> dp_chain ` set ds \<longrightarrow> map_of cs' k = map_of cs1 k"
    "\<forall>d \<in> set ds. \<exists>c. map_of cs' (dp_chain d) = Some (JObject c) \<and> in_sync d c" unfolding f1(1) by blast
  have "map_of cs' (dp_chain d) = Some (JObject conf)" using ih(5) nd(1) f1(5) by simp
  then show ?case using ih ok(2) f1(4,5) step
    by (intro exI [of _ kvs'] exI [of _ cs'] exI [of _ "deployment_diff d \<noteq> [] \<or> ch'"]) (simp split: if_splits)
qed

text \<open>C35: A \<open>pull\<close> that writes leaves every chain it reached in agreement with what was read from it, so that
  a \<open>pull\<close>, \<open>status\<close> or \<open>push\<close> right after finds no difference, and keeps the fields that exist only in the
  file. Chains it did not reach and everything else in the file stay as they were, and no transaction is sent.\<close>

theorem pull_reaches_chain:
  assumes "pull_command net path yes w = (Ok (), w')" and "cw_fs w path = Some (Json_file (JObject kvs))"
    and "json_ok (JObject kvs)"
  shows "\<exists>deps w1 f. pullDeployments net (JObject kvs) w = (Ok deps, w1) \<and>
    cw_fs w' = (cw_fs w)(path \<mapsto> Json_file f) \<and> cw_sent w' = cw_sent w \<and>
    (\<forall>d. d \<in> set deps \<longrightarrow> (\<exists>c. json_at [''chains'', dp_chain d] f = Some (JObject c) \<and> in_sync d c)) \<and>
    (\<forall>c. c \<notin> dp_chain ` set deps \<longrightarrow> json_at [''chains'', c] f = json_at [''chains'', c] (JObject kvs)) \<and>
    (\<forall>k. k \<noteq> ''chains'' \<longrightarrow> json_at [k] f = json_at [k] (JObject kvs))"
proof -
  have load: "loadConfig path w = (Ok (JObject kvs), w)"
    using assms(2) by (simp add: loadConfig_def bindM_def on_fs_def existsSync_def readJson_def)
  obtain deps w1 f w2 where d: "pullDeployments net (JObject kvs) w = (Ok deps, w1)"
    and f: "apply_pull deps (JObject kvs) = Ok (f, True)"
    and c: "(if yes then returnM () else askForConfirmation net) w1 = (Ok (), w2)"
    and wr: "on_fs (writeJson path f) w2 = (Ok (), w')"
    using assms(1) unfolding pull_command_def bindM_def load
    by (auto simp: liftM_def throwM_def split: prod.splits sum.splits if_splits)
  have "moves quiet (if yes then returnM () else askForConfirmation net)" by (intro still.reading_moves)
  from movesD [OF this c] movesD [OF still.pullDeployments_moves d] have q: "quiet w w1" "quiet w1 w2" by simp_all
  obtain cs where cs: "obj_entries (map_of kvs ''chains'') = Ok cs" "distinct (map dp_chain deps)"
    "\<And>d. d \<in> set deps \<Longrightarrow> pulled_from cs d" using pullDeployments_Ok [OF d assms(3)] by metis
  have "deps \<noteq> []" using f by auto
  then have "cs \<noteq> []" using cs(3) [of "hd deps"] by (auto simp: pulled_from_def)
  then have "map_of kvs ''chains'' = Some (JObject cs)"
    using cs(1) by (auto simp: obj_entries_def split: option.splits json.splits)
  from apply_pull_spec [OF assms(3) this cs(2,3)] obtain kvs' cs' where
    k: "f = JObject kvs'" "json_ok (JObject kvs')" "map_of kvs' ''chains'' = Some (JObject cs')"
    "\<forall>k. k \<noteq> ''chains'' \<longrightarrow> map_of kvs' k = map_of kvs k" "\<forall>k. k \<notin> dp_chain ` set deps \<longrightarrow> map_of cs' k = map_of cs k"
    "\<forall>d \<in> set deps. \<exists>c. map_of cs' (dp_chain d) = Some (JObject c) \<and> in_sync d c" using f by auto
  have at: "json_at [''chains'', c] f = map_of cs' c" "json_at [''chains'', c] (JObject kvs) = map_of cs c" for c
    using k \<open>map_of kvs ''chains'' = Some (JObject cs)\<close> jfield_object [OF json_ok_member [OF k(2,3)]]
      jfield_object [OF json_ok_member [OF assms(3) \<open>map_of kvs ''chains'' = Some (JObject cs)\<close>]]
    by (simp_all add: jfield_object [OF k(2)] jfield_object [OF assms(3)] option.case_eq_if del: json_ok.simps)
  have at1: "json_at [x] f = map_of kvs' x" "json_at [x] (JObject kvs) = map_of kvs x" for x
    using k(1) by (simp_all add: jfield_object [OF k(2)] jfield_object [OF assms(3)] option.case_eq_if del: json_ok.simps)
  have "cw_fs w' = (cw_fs w)(path \<mapsto> Json_file f)" "cw_sent w' = cw_sent w"
    using wr q by (auto simp: on_fs_def writeJson_def quiet_def split: if_splits)
  then show ?thesis using d k(4-6) unfolding at at1 [symmetric]
    by (intro exI [of _ deps] exI [of _ w1] exI [of _ f]) (simp add: at at1 del: json_at.simps)
qed

subsection \<open>Status\<close>

lemma retry_Ok: "retryWithExponentialBackoff n f w = (Ok x, w') \<Longrightarrow> \<exists>k. f k = Ok x"
  by (induction n arbitrary: w) (auto simp: attemptM_def rd_def returnM_def split: sum.splits prod.splits)

definition pair_registered :: "ntt_net \<Rightarrow> deployment \<Rightarrow> deployment \<Rightarrow> bool" where
  "pair_registered net from to \<longleftrightarrow>
     (\<exists>k p. nn_peer net (dp_client from) (dp_chain to) k = Ok (Some p)) \<and>
     (\<exists>k a. nn_transceiverPeer net (dp_client from) (dp_chain to) k = Ok (Some a)) \<and>
     (nn_platform net (dp_chain from) = ''Evm'' \<and> nn_platform net (dp_chain to) = ''Evm'' \<longrightarrow>
        (\<exists>k. nn_isEvmChain net (dp_client from) (dp_chain to) k = Ok True) \<and>
        (\<exists>k b. nn_wormholeRelaying net (dp_client from) (dp_chain to) k = Ok b \<and> desired_relaying (dp_local from) = Ok b)) \<and>
     (nn_platform net (dp_chain from) = ''Evm'' \<and> nn_platform net (dp_chain to) = ''Solana'' \<longrightarrow>
        (\<exists>k b. nn_specialRelaying net (dp_client from) (dp_chain to) k = Ok b \<and> desired_relaying (dp_local from) = Ok b))"

lemma nothing_missing_iff:
  "m = nothing_missing \<longleftrightarrow> mc_managerPeers m = [] \<and> mc_transceiverPeers m = [] \<and> mc_evmChains m = [] \<and>
     mc_standardRelaying m = [] \<and> mc_specialRelaying m = [] \<and> \<not> mc_solanaWormholeTransceiver m \<and> \<not> mc_solanaUpdateLUT m"
  by (cases m) (simp add: nothing_missing_def)

lemma missing_manager_none:
  assumes "missing_manager net a b m w = (Ok nothing_missing, w')"
  shows "m = nothing_missing \<and> (\<exists>k p. nn_peer net (dp_client a) (dp_chain b) k = Ok (Some p))"
proof -
  obtain peer w1 where p: "retryWithExponentialBackoff 5 (nn_peer net (dp_client a) (dp_chain b)) w = (Ok peer, w1)"
    and rest: "(case peer of None \<Rightarrow> bindM (liftM (config_limit (dp_local a) (dp_chain b))) (\<lambda>limit.
        returnM (m\<lparr>mc_managerPeers := mc_managerPeers m @ [((dp_chain b, dp_manager b), dp_decimals b, limit)]\<rparr>))
      | Some _ \<Rightarrow> returnM m) w1 = (Ok nothing_missing, w')"
    using assms unfolding missing_manager_def bindM_Ok_iff by blast
  show ?thesis
  proof (cases peer)
    case None
    then obtain x where "m\<lparr>mc_managerPeers := mc_managerPeers m @ [x]\<rparr> = nothing_missing"
      using rest by (auto simp: bindM_Ok_iff returnM_def)
    then show ?thesis unfolding nothing_missing_iff by simp
  next
    case (Some q)
    then show ?thesis using rest retry_Ok [OF p] by (auto simp: returnM_def)
  qed
qed

lemma missing_transceiver_none:
  assumes "missing_transceiver net a b m w = (Ok nothing_missing, w')"
  shows "m = nothing_missing \<and> (\<exists>k p. nn_transceiverPeer net (dp_client a) (dp_chain b) k = Ok (Some p))"
proof -
  obtain peer w1 x where p: "retryWithExponentialBackoff 5 (nn_transceiverPeer net (dp_client a) (dp_chain b)) w = (Ok peer, w1)"
    and rest: "(case peer of None \<Rightarrow> m\<lparr>mc_transceiverPeers := mc_transceiverPeers m @ [x]\<rparr> | Some _ \<Rightarrow> m) = nothing_missing"
    using assms unfolding missing_transceiver_def bindM_Ok_iff by (auto simp: returnM_def)
  show ?thesis
  proof (cases peer)
    case None
    then show ?thesis using rest unfolding nothing_missing_iff by simp
  next
    case (Some q)
    then show ?thesis using rest retry_Ok [OF p] by auto
  qed
qed

lemma rd_Ok: "rd f w = (Ok x, w') \<Longrightarrow> \<exists>k. f k = Ok x"
  by (auto simp: rd_def)

lemma missing_evm_none:
  assumes "missing_evm net a b m w = (Ok nothing_missing, w')"
  shows "m = nothing_missing \<and>
    (nn_platform net (dp_chain a) = ''Evm'' \<and> nn_platform net (dp_chain b) = ''Evm'' \<longrightarrow>
        (\<exists>k. nn_isEvmChain net (dp_client a) (dp_chain b) k = Ok True) \<and>
        (\<exists>k v. nn_wormholeRelaying net (dp_client a) (dp_chain b) k = Ok v \<and> desired_relaying (dp_local a) = Ok v)) \<and>
    (nn_platform net (dp_chain a) = ''Evm'' \<and> nn_platform net (dp_chain b) = ''Solana'' \<longrightarrow>
        (\<exists>k v. nn_specialRelaying net (dp_client a) (dp_chain b) k = Ok v \<and> desired_relaying (dp_local a) = Ok v))"
proof -
  consider "nn_platform net (dp_chain a) \<noteq> ''Evm''"
    | (evm) "nn_platform net (dp_chain a) = ''Evm''" "nn_platform net (dp_chain b) = ''Evm''"
    | (solana) "nn_platform net (dp_chain a) = ''Evm''" "nn_platform net (dp_chain b) = ''Solana''"
    | (other) "nn_platform net (dp_chain a) = ''Evm''" "nn_platform net (dp_chain b) \<noteq> ''Evm''" "nn_platform net (dp_chain b) \<noteq> ''Solana''"
    by blast
  then show ?thesis
  proof cases
    case evm
    then obtain is_evm w1 w2 std w3 want where r: "rd (nn_isEvmChain net (dp_client a) (dp_chain b)) w1 = (Ok is_evm, w2)"
      "rd (nn_wormholeRelaying net (dp_client a) (dp_chain b)) w2 = (Ok std, w3)" "desired_relaying (dp_local a) = Ok want"
      and m: "m\<lparr>mc_evmChains := mc_evmChains m @ (if is_evm then [] else [dp_chain b]),
        mc_standardRelaying := mc_standardRelaying m @ (if std \<noteq> want then [(dp_chain b, want)] else [])\<rparr> = nothing_missing"
      using assms by (auto simp: missing_evm_def Let_def bindM_Ok_iff liftM_def returnM_def)
    have "m = nothing_missing" "is_evm" "std = want" using m unfolding nothing_missing_iff by (auto split: if_splits)
    then show ?thesis using rd_Ok [OF r(1)] rd_Ok [OF r(2)] r(3) evm by auto
  next
    case solana
    then obtain w1 w2 spc want where r: "rd (nn_specialRelaying net (dp_client a) (dp_chain b)) w1 = (Ok spc, w2)"
      "desired_relaying (dp_local a) = Ok want"
      and m: "m\<lparr>mc_specialRelaying := mc_specialRelaying m @ (if spc \<noteq> want then [(dp_chain b, want)] else [])\<rparr> = nothing_missing"
      using assms by (auto simp: missing_evm_def Let_def bindM_Ok_iff liftM_def returnM_def)
    have "m = nothing_missing" "spc = want" using m unfolding nothing_missing_iff by (auto split: if_splits)
    then show ?thesis using rd_Ok [OF r(1)] r(2) solana by auto
  next
    case other
    then show ?thesis using assms by (auto simp: missing_evm_def Let_def bindM_Ok_iff returnM_def)
  qed (use assms in \<open>simp add: missing_evm_def returnM_def\<close>)
qed

lemma missing_pair_none:
  assumes "missing_pair net a b m w = (Ok nothing_missing, w')"
  shows "m = nothing_missing \<and> (dp_chain a \<noteq> dp_chain b \<longrightarrow> pair_registered net a b)"
proof (cases "dp_chain a = dp_chain b")
  case True
  then show ?thesis using assms by (auto simp: missing_pair_def bindM_Ok_iff returnM_def)
next
  case False
  then obtain m1 m2 w1 w2 w3 where "missing_manager net a b m w1 = (Ok m1, w2)" "missing_evm net a b m1 w2 = (Ok m2, w3)"
    "missing_transceiver net a b m2 w3 = (Ok nothing_missing, w')"
    using assms by (auto simp: missing_pair_def bindM_Ok_iff)
  then show ?thesis
    using missing_transceiver_none missing_evm_none missing_manager_none unfolding pair_registered_def by metis
qed

lemma missing_pairs_none:
  "missing_pairs net a bs m w = (Ok nothing_missing, w') \<Longrightarrow>
   m = nothing_missing \<and> (\<forall>b \<in> set bs. dp_chain a \<noteq> dp_chain b \<longrightarrow> pair_registered net a b)"
proof (induction bs arbitrary: m w)
  case (Cons b bs)
  then obtain m1 w1 where p: "missing_pair net a b m w = (Ok m1, w1)" "missing_pairs net a bs m1 w1 = (Ok nothing_missing, w')"
    by (auto simp: bindM_Ok_iff)
  note ih = Cons.IH [OF p(2)]
  then show ?case using missing_pair_none [of net a b m w w1] p(1) by simp
qed (simp add: returnM_def)

text \<open>C36: When \<open>status\<close> exits with 0, every chain it pulled agrees with the file and every two of them are
  registered with each other: a manager peer and a transceiver peer were read from the chain, EVM chains
  know each other as such, and relaying is what the file asks for. (That a registered peer is the
  right one is printed but does not count.)\<close>

theorem status_ok_means_synced:
  assumes "status_command net path w = (Ok 0, w')"
  shows "\<exists>j w1 deps w2. loadConfig path w = (Ok j, w1) \<and> pullDeployments net j w1 = (Ok deps, w2) \<and>
    checkConfigErrors net deps = Ok 0 \<and> (\<forall>d. d \<in> set deps \<longrightarrow> deployment_diff d = []) \<and>
    (\<forall>a b. a \<in> set deps \<and> b \<in> set deps \<and> dp_chain a \<noteq> dp_chain b \<longrightarrow> pair_registered net a b)"
proof -
  obtain j w1 deps w2 errors w3 missing where r: "loadConfig path w = (Ok j, w1)" "pullDeployments net j w1 = (Ok deps, w2)"
    "checkConfigErrors net deps = Ok 0" "missingConfigs net deps w3 = (Ok missing, w')"
    "0 = (if 0 < length (filter (\<lambda>d. deployment_diff d \<noteq> []) deps) + (if missing \<noteq> [] then 1 else 0) then 1 else 0 :: nat)"
    using assms unfolding status_command_def Let_def bindM_Ok_iff by (auto simp: liftM_def throwM_def returnM_def bindM_Ok_iff split: if_splits)
  have none: "missing = []" "filter (\<lambda>d. deployment_diff d \<noteq> []) deps = []" using r(5) by (auto split: if_splits)
  have "pair_registered net a b" if a: "a \<in> set deps" "b \<in> set deps" "dp_chain a \<noteq> dp_chain b" for a b
  proof -
    obtain u v where "missing_from net deps a u = (Ok None, v)"
      using collectM_none [OF r(4) [unfolded none(1) missingConfigs_def] a(1)] by blast
    then obtain m x where "missing_pairs net a deps m x = (Ok nothing_missing, v)"
      by (auto simp: missing_from_def bindM_Ok_iff returnM_def split: if_splits)
    then show ?thesis using missing_pairs_none a by blast
  qed
  then show ?thesis using r(1-3) none(2) by (auto simp: filter_empty_conv)
qed

subsection \<open>Add-chain\<close>

definition has_locking :: "json js_object \<Rightarrow> bool" where
  "has_locking existing \<longleftrightarrow> (\<exists>c conf. (c, conf) \<in> set existing \<and> jfield ''mode'' conf = Some (JString ''locking''))"

lemma add_mode_Ok: "add_mode existing mode = Ok m \<Longrightarrow> (has_locking existing \<longrightarrow> m = ''burning'') \<and> (\<not> has_locking existing \<longrightarrow> mode = Some m)"
  by (auto simp: add_mode_def has_locking_def list_ex_iff Let_def split: if_splits option.splits list.splits)

lemma checks_quiet: "moves quiet (add_chain_checks net args j)"
  unfolding add_chain_checks_def Let_def by (intro still.reading_moves)

lemma checks_Ok:
  assumes "add_chain_checks net args j w = (Ok (version, mode, token), w')"
  obtains network existing where "json_get ''network'' (Some j) = Ok (Some (JString network))"
    "bind_res (json_get ''chains'' (Some j)) obj_entries = Ok existing" "map_of existing (aa_chain args) = None"
    "\<not> (network = ''Testnet'' \<and> aa_chain args = ''Ethereum'')"
    "has_locking existing \<longrightarrow> mode = ''burning''" "\<not> has_locking existing \<longrightarrow> aa_mode args = Some mode" "aa_token args = Some token"
proof -
  have as_str: "as_text v = Ok s \<Longrightarrow> v = Some (JString s)" for v s
    by (auto simp: as_text_def split: option.splits json.splits)
  have lift: "liftM x w = (Ok y, w') \<longleftrightarrow> x = Ok y \<and> w' = w" for x y and w w' :: cli_world
    by (auto simp: liftM_def)
  obtain network existing where e: "bind_res (json_get ''network'' (Some j)) as_text = Ok network"
    "bind_res (json_get ''chains'' (Some j)) obj_entries = Ok existing" "map_of existing (aa_chain args) = None"
    "validateChain net network (aa_chain args) = Ok ()" "add_mode existing (aa_mode args) = Ok mode"
    "(case aa_token args of Some (c # cs) \<Rightarrow> Ok (c # cs) | _ \<Rightarrow> Throw (process_exit 1)) = Ok token"
  proof -
    from assms show thesis unfolding add_chain_checks_def Let_def bindM_Ok_iff lift
      by (elim exE conjE) (auto simp: throwM_def bindM_Ok_iff lift returnM_def intro!: that split: if_splits)
  qed
  show ?thesis
    by (rule that [OF _ e(2,3)])
      (use e as_str add_mode_Ok [OF e(5)] in \<open>auto simp: bind_res_Ok_iff validateChain_Ok split: option.splits list.splits\<close>)
qed

lemma deploy_sends:
  assumes "bindM (deploy net c version mode token) (add_chain_record net args j) w = (r, w')"
  shows "cw_sent w' = cw_sent w @ [(c, None, Deploy version mode token)]"
proof -
  have rec: "cw_sent v' = cw_sent v" if "add_chain_record net args j m v = (s, v')" for m v s v'
  proof -
    from quiet_bind [OF that [unfolded add_chain_record_def] still.pullChainConfig_moves] show ?thesis
      by (elim disjE exE conjE)
        (auto simp: quiet_def bindM_def liftM_def on_fs_def split: prod.splits sum.splits)
  qed
  from assms show ?thesis
  proof (cases rule: bindM_cases)
    case (1 e)
    then show ?thesis by (auto simp: deploy_def)
  next
    case (2 m w1)
    then show ?thesis using rec [OF 2(2)] by (auto simp: deploy_def)
  qed
qed

text \<open>C37: \<open>add-chain\<close> deploys at most once, on a chain that is not in the file yet, never on deprecated Testnet
  Ethereum, and in burning mode as soon as the file has a locking chain: a deployment gets one locking
  chain at most.\<close>

theorem add_chain_one_locking:
  assumes "add_chain_command net args w = (r, w')"
  shows "cw_sent w' = cw_sent w \<or>
    (\<exists>j w1 network existing version mode token. loadConfig (aa_path args) w = (Ok j, w1) \<and>
       json_get ''network'' (Some j) = Ok (Some (JString network)) \<and>
       bind_res (json_get ''chains'' (Some j)) obj_entries = Ok existing \<and>
       cw_sent w' = cw_sent w @ [(aa_chain args, None, Deploy version mode token)] \<and>
       map_of existing (aa_chain args) = None \<and> \<not> (network = ''Testnet'' \<and> aa_chain args = ''Ethereum'') \<and>
       (has_locking existing \<longrightarrow> mode = ''burning'') \<and> (\<not> has_locking existing \<longrightarrow> aa_mode args = Some mode) \<and>
       aa_token args = Some token)"
proof -
  from quiet_bind [OF assms [unfolded add_chain_command_def] still.loadConfig_moves] show ?thesis
  proof (elim disjE exE conjE)
    fix e assume "quiet w w'" then show ?thesis by (simp add: quiet_def)
  next
    fix j w1
    assume j: "loadConfig (aa_path args) w = (Ok j, w1)" "quiet w w1"
      and "bindM (add_chain_checks net args j) (\<lambda>(version, mode, token).
        bindM (deploy net (aa_chain args) version mode token) (add_chain_record net args j)) w1 = (r, w')"
    from quiet_bind [OF this(3) checks_quiet] show ?thesis
    proof (elim disjE exE conjE)
      fix e assume "quiet w1 w'" then show ?thesis using j(2) by (simp add: quiet_def)
    next
      fix x w2
      assume x: "add_chain_checks net args j w1 = (Ok x, w2)" "quiet w1 w2"
        and d: "(case x of (version, mode, token) \<Rightarrow>
          bindM (deploy net (aa_chain args) version mode token) (add_chain_record net args j)) w2 = (r, w')"
      obtain version mode token where v: "x = (version, mode, token)" by (cases x)
      have "cw_sent w' = cw_sent w2 @ [(aa_chain args, None, Deploy version mode token)]"
        using deploy_sends d by (simp add: v)
      then show ?thesis using checks_Ok [OF x(1) [unfolded v]] j x(2) by (simp add: quiet_def) blast
    qed
  qed
qed

subsection \<open>Runs on the small network\<close>

lemmas run_simps = bindM_def returnM_def liftM_def rd_def throwM_def attemptM_def

definition demo_pulled :: "bool \<Rightarrow> string \<Rightarrow> string \<Rightarrow> deployment" where
  "demo_pulled paused c other = \<lparr>dp_chain = c, dp_manager = ''m'', dp_decimals = 2, dp_remote = demo_chain_json False other,
     dp_local = demo_chain_json paused other\<rparr>"

lemma demo_pullChainConfig:
  "pullChainConfig demo_net (c, ''m'') w =
     (Ok (remote_config demo_net (c, ''m'') \<lparr>ca_token = ''t'', ca_wormhole = ''x''\<rparr> ''1.0.0'' ''burning'' False ''o'' 1 ''0.00'' None None, 2),
      w\<lparr>cw_clock := cw_clock w + 9\<rparr>)"
  by (simp add: pullChainConfig_def run_simps demo_net_def getVersion_def formatNumber_def numeral_2_eq_2 remote_config_def)

lemma demo_peer:
  "retryWithExponentialBackoff 5 (nn_peer demo_net cl c) w =
     (Ok (Some \<lparr>pi_address = ''m'', pi_decimals = 2, pi_limit = 0\<rparr>), w\<lparr>cw_clock := Suc (cw_clock w)\<rparr>)"
  "retryWithExponentialBackoff 5 (nn_transceiverPeer demo_net cl c) w = (Ok (Some ''x''), w\<lparr>cw_clock := Suc (cw_clock w)\<rparr>)"
  by (simp_all add: eval_nat_numeral run_simps demo_net_def)

lemma demo_pull_chain:
  assumes "c \<in> {''A'', ''B''}"
  shows "pull_chain demo_net (c, demo_chain_json paused other) w =
    (Ok (Some \<lparr>dp_chain = c, dp_manager = ''m'', dp_decimals = 2,
       dp_remote = remote_config demo_net (c, ''m'') \<lparr>ca_token = ''t'', ca_wormhole = ''x''\<rparr> ''1.0.0'' ''burning'' False ''o'' 1 ''0.00'' None None,
       dp_local = demo_chain_json paused other\<rparr>), w\<lparr>cw_clock := cw_clock w + 10\<rparr>)"
proof -
  have m: "json_get ''manager'' (Some (demo_chain_json paused other)) = Ok (Some (JString ''m''))"
    by (simp add: json_get_def demo_chain_json_def jfield_def)
  have "nn_toUniversal demo_net c ''m'' = Ok ''m''" "nn_transceiver demo_net (c, ''m'') k = Ok True"
    "assertChain (nn_chains demo_net) c = Ok ()" for k
    using assms by (auto simp: demo_net_def assertChain_def)
  then show ?thesis by (simp add: pull_chain_def run_simps m as_text_def demo_pullChainConfig)
qed

lemma demo_inbound:
  assumes "c \<noteq> other"
  shows "inbound_limits demo_net (c, ''m'') 2 [c, other]
      (remote_config demo_net (c, ''m'') \<lparr>ca_token = ''t'', ca_wormhole = ''x''\<rparr> ''1.0.0'' ''burning'' False ''o'' 1 ''0.00'' None None) w =
    (Ok (demo_chain_json False other), w\<lparr>cw_clock := Suc (cw_clock w)\<rparr>)"
    "inbound_limits demo_net (c, ''m'') 2 [other, c]
      (remote_config demo_net (c, ''m'') \<lparr>ca_token = ''t'', ca_wormhole = ''x''\<rparr> ''1.0.0'' ''burning'' False ''o'' 1 ''0.00'' None None) w =
    (Ok (demo_chain_json False other), w\<lparr>cw_clock := Suc (cw_clock w)\<rparr>)"
proof -
  have "nn_canonical demo_net c ''m'' = ''m''" by (simp add: demo_net_def)
  then have "setNestedValue [''limits'', ''inbound'', other] (JString (formatNumber 0 2))
      (remote_config demo_net (c, ''m'') \<lparr>ca_token = ''t'', ca_wormhole = ''x''\<rparr> ''1.0.0'' ''burning'' False ''o'' 1 ''0.00'' None None) =
      Ok (demo_chain_json False other)"
    by (simp add: remote_config_def demo_chain_json_def optional_field_def json_get_def jfield_def json_truthy_def assign_prop_def
        formatNumber_def numeral_2_eq_2)
  then show "inbound_limits demo_net (c, ''m'') 2 [c, other]
      (remote_config demo_net (c, ''m'') \<lparr>ca_token = ''t'', ca_wormhole = ''x''\<rparr> ''1.0.0'' ''burning'' False ''o'' 1 ''0.00'' None None) w =
    (Ok (demo_chain_json False other), w\<lparr>cw_clock := Suc (cw_clock w)\<rparr>)"
    "inbound_limits demo_net (c, ''m'') 2 [other, c]
      (remote_config demo_net (c, ''m'') \<lparr>ca_token = ''t'', ca_wormhole = ''x''\<rparr> ''1.0.0'' ''burning'' False ''o'' 1 ''0.00'' None None) w =
    (Ok (demo_chain_json False other), w\<lparr>cw_clock := Suc (cw_clock w)\<rparr>)"
    using assms by (simp_all add: demo_peer run_simps del: setNestedValue.simps)
qed

lemma demo_pullDeployments:
  "\<exists>w'. pullDeployments demo_net (demo_file paused) w = (Ok [demo_pulled paused ''A'' ''B'', demo_pulled paused ''B'' ''A''], w')"
proof -
  have "bind_res (json_get ''chains'' (Some (demo_file paused))) obj_entries =
      Ok [(''A'', demo_chain_json paused ''B''), (''B'', demo_chain_json paused ''A'')]"
    by (simp add: demo_file_def json_get_def jfield_def obj_entries_def)
  moreover have "nn_decimals demo_net cl k = Ok 2" "assertChain (nn_chains demo_net) ''A'' = Ok ()"
    "assertChain (nn_chains demo_net) ''B'' = Ok ()" for cl k by (simp_all add: demo_net_def assertChain_def)
  ultimately show ?thesis
    using demo_inbound(1) [of "''A''" "''B''"] demo_inbound(2) [of "''B''" "''A''"]
    by (simp add: pullDeployments_def run_simps demo_pull_chain dp_client_def demo_pulled_def)
qed

theorem pull_reaches_chain_witness:
  "\<exists>f c. cw_fs (snd (pull_command demo_net ''d.json'' True (demo_cli_world (demo_file True)))) ''d.json'' = Some (Json_file f) \<and>
     json_at [''chains'', ''A''] f = Some (JObject c) \<and> in_sync (demo_pulled True ''A'' ''B'') c"
proof -
  let ?w = "demo_cli_world (demo_file True)"
  obtain w1 where d: "pullDeployments demo_net (demo_file True) ?w = (Ok [demo_pulled True ''A'' ''B'', demo_pulled True ''B'' ''A''], w1)"
    using demo_pullDeployments by blast
  have q: "cw_fs w1 = cw_fs ?w" using movesD [OF still.pullDeployments_moves d] by (simp add: quiet_def)
  have "case apply_pull [demo_pulled True ''A'' ''B'', demo_pulled True ''B'' ''A''] (demo_file True) of Inr (f, ch) \<Rightarrow> ch | Inl _ \<Rightarrow> False"
    by code_simp
  then obtain f where f: "apply_pull [demo_pulled True ''A'' ''B'', demo_pulled True ''B'' ''A''] (demo_file True) = Ok (f, True)"
    by (auto split: sum.splits)
  have load: "loadConfig ''d.json'' ?w = (Ok (demo_file True), ?w)"
    by (simp add: loadConfig_def bindM_def on_fs_def existsSync_def readJson_def demo_cli_world_def)
  have p: "parent_dir ''d.json'' = ''.''" by (simp add: parent_dir_def)
  have fs: "cw_fs ?w ''d.json'' = Some (Json_file (demo_file True))" "cw_fs ?w ''.'' = Some Dir" by (simp_all add: demo_cli_world_def)
  have run: "pull_command demo_net ''d.json'' True ?w = (Ok (), w1\<lparr>cw_fs := (cw_fs ?w)(''d.json'' \<mapsto> Json_file f)\<rparr>)"
    unfolding pull_command_def by (simp add: run_simps load d f on_fs_def writeJson_def q p fs del: apply_pull.simps)
  obtain kvs where kvs: "demo_file True = JObject kvs" by (simp add: demo_file_def)
  have ok: "json_ok (JObject kvs)" unfolding kvs [symmetric] by (simp add: demo_file_def demo_chain_json_def)
  have fs1: "cw_fs ?w ''d.json'' = Some (Json_file (JObject kvs))" by (subst kvs [symmetric]) (rule fs(1))
  have d1: "pullDeployments demo_net (JObject kvs) ?w = (Ok [demo_pulled True ''A'' ''B'', demo_pulled True ''B'' ''A''], w1)"
    by (subst kvs [symmetric]) (rule d)
  obtain deps w2 g where g: "pullDeployments demo_net (JObject kvs) ?w = (Ok deps, w2)"
    "cw_fs (w1\<lparr>cw_fs := (cw_fs ?w)(''d.json'' \<mapsto> Json_file f)\<rparr>) = (cw_fs ?w)(''d.json'' \<mapsto> Json_file g)"
    "\<forall>d. d \<in> set deps \<longrightarrow> (\<exists>c. json_at [''chains'', dp_chain d] g = Some (JObject c) \<and> in_sync d c)"
    using pull_reaches_chain [OF run fs1 ok] by blast
  have "deps = [demo_pulled True ''A'' ''B'', demo_pulled True ''B'' ''A'']" using d1 g(1) by simp
  then obtain c where "json_at [''chains'', dp_chain (demo_pulled True ''A'' ''B'')] g = Some (JObject c)" "in_sync (demo_pulled True ''A'' ''B'') c"
    using g(3) by (meson list.set_intros(1))
  then show ?thesis using g(2) unfolding run
    by (intro exI [of _ g] exI [of _ c]) (simp add: demo_pulled_def del: json_at.simps)
qed

lemma demo_reads:
  "nn_platform demo_net c = ''Evm''" "nn_transceiver demo_net cl k = Ok True" "nn_isEvmChain demo_net cl c k = Ok True"
  "nn_wormholeRelaying demo_net cl c k = Ok True" "nn_transceiverAddress demo_net cl k = Ok ''x''"
  "assertChain (nn_chains demo_net) ''A'' = Ok ()" "assertChain (nn_chains demo_net) ''B'' = Ok ()"
  by (simp_all add: demo_net_def assertChain_def)

lemma demo_missing:
  assumes "c' = ''A'' \<or> c' = ''B''"
  shows "\<exists>w'. missing_pair demo_net (demo_pulled p c other) (demo_pulled p c' other') nothing_missing w = (Ok nothing_missing, w')"
proof -
  have r: "desired_relaying (demo_chain_json p other) = Ok True"
    by (simp add: desired_relaying_def demo_chain_json_def json_get_def jfield_def json_truthy_def)
  have [simp]: "nothing_missing\<lparr>mc_evmChains := mc_evmChains nothing_missing, mc_standardRelaying := mc_standardRelaying nothing_missing\<rparr> = nothing_missing"
    by (simp add: nothing_missing_def)
  let ?a = "demo_pulled p c other" and ?b = "demo_pulled p c' other'"
  obtain w1 where 1: "missing_manager demo_net ?a ?b nothing_missing w = (Ok nothing_missing, w1)"
    by (simp add: missing_manager_def run_simps demo_peer)
  obtain w2 where 2: "missing_evm demo_net ?a ?b nothing_missing w1 = (Ok nothing_missing, w2)"
    by (simp add: missing_evm_def Let_def run_simps demo_reads demo_pulled_def r)
  obtain w3 where 3: "missing_transceiver demo_net ?a ?b nothing_missing w2 = (Ok nothing_missing, w3)"
    by (simp add: missing_transceiver_def run_simps demo_peer demo_reads)
  have "assertChain (nn_chains demo_net) (dp_chain ?b) = Ok ()" using assms demo_reads by (auto simp: demo_pulled_def)
  then show ?thesis using 1 2 3 by (simp add: missing_pair_def run_simps)
qed

lemma demo_missingConfigs:
  "\<exists>w'. missingConfigs demo_net [demo_pulled p ''A'' ''B'', demo_pulled p ''B'' ''A''] w = (Ok [], w')"
proof -
  let ?ds = "[demo_pulled p ''A'' ''B'', demo_pulled p ''B'' ''A'']"
  have "\<exists>w'. missing_from demo_net ?ds (demo_pulled p c other) u = (Ok None, w')" if c: "c = ''A'' \<or> c = ''B''" for c other u
  proof -
    obtain u1 where 1: "missing_pair demo_net (demo_pulled p c other) (demo_pulled p ''A'' ''B'') nothing_missing u = (Ok nothing_missing, u1)"
      using demo_missing by blast
    obtain u2 where 2: "missing_pair demo_net (demo_pulled p c other) (demo_pulled p ''B'' ''A'') nothing_missing u1 = (Ok nothing_missing, u2)"
      using demo_missing by blast
    have "assertChain (nn_chains demo_net) c = Ok ()" using c demo_reads by blast
    then have "assertChain (nn_chains demo_net) (dp_chain (demo_pulled p c other)) = Ok ()" by (simp add: demo_pulled_def)
    then show ?thesis using 1 2 by (simp add: missing_from_def missing_solana_def run_simps demo_reads)
  qed
  then obtain w1 w2 where "missing_from demo_net ?ds (demo_pulled p ''A'' ''B'') w = (Ok None, w1)"
    "missing_from demo_net ?ds (demo_pulled p ''B'' ''A'') w1 = (Ok None, w2)" by metis
  then show ?thesis by (simp add: missingConfigs_def run_simps)
qed

theorem status_ok_means_synced_witness:
  "fst (status_command demo_net ''d.json'' (demo_cli_world (demo_file False))) = Ok 0 \<and>
   pair_registered demo_net (demo_pulled False ''A'' ''B'') (demo_pulled False ''B'' ''A'')"
proof -
  let ?w = "demo_cli_world (demo_file False)"
  let ?ds = "[demo_pulled False ''A'' ''B'', demo_pulled False ''B'' ''A'']"
  obtain w1 where d: "pullDeployments demo_net (demo_file False) ?w = (Ok ?ds, w1)" using demo_pullDeployments by blast
  obtain w2 where m: "missingConfigs demo_net ?ds w1 = (Ok [], w2)" using demo_missingConfigs by blast
  have load: "loadConfig ''d.json'' ?w = (Ok (demo_file False), ?w)"
    by (simp add: loadConfig_def bindM_def on_fs_def existsSync_def readJson_def demo_cli_world_def)
  have e: "checkConfigErrors demo_net ?ds = Ok 0" "map_res (\<lambda>d. assertChain (nn_chains demo_net) (dp_chain d)) ?ds = Ok [(), ()]"
    by code_simp+
  have f: "deployment_diff (demo_pulled False ''A'' ''B'') = []" "deployment_diff (demo_pulled False ''B'' ''A'') = []" by code_simp+
  have run: "status_command demo_net ''d.json'' ?w = (Ok 0, w2)"
    unfolding status_command_def by (simp add: run_simps load d e m f del: map_res.simps)
  obtain j u1 deps u2 where s: "loadConfig ''d.json'' ?w = (Ok j, u1)" "pullDeployments demo_net j u1 = (Ok deps, u2)"
    "\<forall>a b. a \<in> set deps \<and> b \<in> set deps \<and> dp_chain a \<noteq> dp_chain b \<longrightarrow> pair_registered demo_net a b"
    using status_ok_means_synced [OF run] by blast
  have "deps = ?ds" using s(1,2) load d by auto
  then show ?thesis using s(3) run by (simp add: demo_pulled_def)
qed

definition demo_add :: add_chain_args where
  "demo_add = \<lparr>aa_path = ''d.json'', aa_chain = ''B'', aa_latest = True, aa_ver = None, aa_local = False, aa_mode = Some ''burning'',
     aa_token = Some ''t'', aa_yes = True, aa_executor = None, aa_managerVariant = None\<rparr>"

definition demo_locking :: json where
  "demo_locking = JObject [(''network'', JString ''Testnet''), (''chains'', JObject [(''A'', JObject [(''mode'', JString ''locking'')])])]"

theorem add_chain_one_locking_witness:
  "\<exists>version token. cw_sent (snd (add_chain_command demo_net demo_add (demo_cli_world demo_locking))) = [(''B'', None, Deploy version ''burning'' token)]"
proof -
  let ?w = "demo_cli_world demo_locking"
  have "map fst (cw_sent (snd (add_chain_command demo_net demo_add (demo_cli_world demo_locking)))) = [''B'']" by code_simp
  then have ne: "cw_sent (snd (add_chain_command demo_net demo_add ?w)) \<noteq> cw_sent ?w" by (auto simp: demo_cli_world_def)
  have aa: "aa_path demo_add = ''d.json''" "aa_chain demo_add = ''B''" by (simp_all add: demo_add_def)
  obtain j w1 existing version mode token where a: "loadConfig ''d.json'' ?w = (Ok j, w1)"
    "bind_res (json_get ''chains'' (Some j)) obj_entries = Ok existing"
    "cw_sent (snd (add_chain_command demo_net demo_add ?w)) = cw_sent ?w @ [(''B'', None, Deploy version mode token)]"
    "has_locking existing \<longrightarrow> mode = ''burning''"
    using add_chain_one_locking [OF prod.collapse [symmetric], of demo_net demo_add ?w, unfolded aa] ne by blast
  have "j = demo_locking" using a(1)
    by (simp add: loadConfig_def bindM_def on_fs_def existsSync_def readJson_def demo_cli_world_def)
  then have "has_locking existing" using a(2) by (auto simp: demo_locking_def json_get_def jfield_def obj_entries_def has_locking_def)
  then show ?thesis using a(3,4) by (auto simp: demo_cli_world_def)
qed

end
