(* ===== verification/Spec2Isabelle.thy ===== *)
theory Spec2Isabelle
  imports Worker_Progress Worker_Run Cron_Correct Listener_Correct Relay_Path Quoter_Correct Oracle_Correct
    Redis_Queue_Correct Relayer_Main Ntt_Amounts Route_Config Route_Correct Cli_Sync
begin

text \<open>
  A verification development of the off-chain TypeScript of Native Token Transfers: the relayer bot
  (\<open>src/relayer-bot\<close>), the quoter (\<open>src/quoter-service\<close>), the oracle (\<open>src/oracle-service\<close>) and the
  amounts, configuration and tracking of the SDK (\<open>src/sdk\<close>).

  \<^bold>\<open>The program.\<close> The relayer bot delivers cross-chain messages. Its listener scans source chains
  for \<open>ExecutionRequested\<close> events, correlates each with the message the Core bridge published in the
  same transaction, records it in Postgres and publishes it to a queue. Its worker takes a message,
  fetches and checks the VAA, reserves a wallet nonce, commits the intent, broadcasts and settles the
  message. Its cron reconciles rows that got stuck. The quoter signs price quotes read from a
  contract; the oracle pushes prices to that contract. The SDK's routes run in a wallet or a web page:
  they choose a token and a destination, fix the amount, and follow a transfer from its origin to its
  completion. The parts meet in the contracts and in the formats they share, not in memory.

  \<^bold>\<open>How code becomes definitions.\<close> An exception is a value (\<open>js_error\<close>, \<open>res\<close>); an async function over
  shared state is an effect (\<open>Effects\<close>) that returns a result and the state it reached, also when it
  throws. Strings are ASCII character lists, \<open>Uint8Array\<close> a list of bytes, \<open>bigint\<close> an \<open>int\<close>. A
  \<open>number\<close> is a \<open>nat\<close> or \<open>int\<close> where the code only counts with it and an exact rational in prices;
  the rounding of doubles is not modelled. What is not in this repository (ethers, Postgres, Redis,
  HTTP servers, RPC nodes, contracts) is a record of functions given as an argument, by attempt or by
  time where its answers vary, so a theorem holds for all its answers; the hypotheses on it are named
  (\<open>ethers_hex_laws\<close>, \<open>ethers_text_laws\<close>, \<open>core_log_laws\<close>, \<open>redis_laws\<close>, \<open>message_codec\<close>, \<open>sdk_amount_laws\<close>,
  \<open>wh_token_laws\<close>, \<open>guard_laws\<close>) and the witnesses instantiate it with concrete functions
  (\<open>Demo_Eth\<close>, \<open>Demo_Env\<close>, \<open>Demo_Relay\<close> and the definitions named \<open>demo_\<close> of each theory).

  \<^bold>\<open>Shared.\<close> \<open>Prelude\<close> (errors, numerals, bytes), \<open>Js_Values\<close> (\<open>Number\<close>, JSON, environment
  variables), \<open>Retry_Policy\<close> (\<open>retry.ts\<close> of the three services and \<open>queue/backoff.ts\<close>: the attempt that
  decides the result, bounds of the delays, the copies agree), \<open>Retry_Calls\<close> (retried calls as the
  services use them).

  \<^bold>\<open>Relayer bot, state.\<close> \<open>Relay_Types\<close> (\<open>types.ts\<close>, \<open>chains.ts\<close>, \<open>relay/interfaces.ts\<close>),
  \<open>Transactions_Repo\<close> (\<open>db/transactions.ts\<close>, \<open>db/blockTracker.ts\<close>: the statements over the tables; the
  locale \<open>db_statement\<close> is interpreted by every statement, so the table stays well formed and rows only
  move forward), \<open>Message_Queue\<close> (\<open>queue/queue.ts\<close>, \<open>queue/inMemory.ts\<close>; the locale \<open>relay_queue\<close> is the
  interface, interpreted by the in-process queue), \<open>Wallet_Pool\<close> (\<open>wallet/walletPool.ts\<close>,
  \<open>db/advisoryLock.ts\<close>: nonce reservation), \<open>Redis_Queue\<close> (\<open>queue/redisStreams.ts\<close>: every operation as the
  sequence of Redis commands it sends, any of which may fail) with \<open>Redis_Queue_Correct\<close> (an \<open>inductive\<close>
  step relation of the operations, also interrupted ones; by rule induction every published message is
  acknowledged, dead-lettered or still in a stream, the retry set or a pending list).

  \<^bold>\<open>Relayer bot, start and operation.\<close> \<open>Relayer_Config\<close> (\<open>config.ts\<close>: what is loaded is well typed and in
  range), \<open>Relayer_Ops\<close> (\<open>logger.ts\<close>, \<open>alerts/alerter.ts\<close>, \<open>wallet/balanceMonitor.ts\<close>,
  \<open>wallet/secretStore.ts\<close>, \<open>health.ts\<close>: redaction, de-duplication), \<open>Db_Migrate\<close> (\<open>db/pool.ts\<close>, \<open>db/migrate.ts\<close>: a migration is applied once and whole or
  not at all), \<open>Relayer_Main\<close> (\<open>bin.ts\<close>: a role starts only after its checks).

  \<^bold>\<open>Relayer bot, roles.\<close> \<open>Role_World\<close> is the state the roles share with an environment that may change
  the database and the queue between any two of a role's interactions; the locale \<open>role_moves\<close> collects
  what each of its primitives keeps. \<open>Worker\<close> (\<open>roles/worker.ts\<close>), \<open>Cron\<close> (\<open>roles/cron.ts\<close>) and
  \<open>Listener\<close> (\<open>roles/listener.ts\<close>) are the roles. Proved: a worker broadcasts only on a wallet and
  nonce a committed row holds (\<open>Worker_Nonce\<close>), settles each message once (\<open>Worker_Settle\<close>),
  acknowledges only what moved on (\<open>Worker_Progress\<close>), keeps the table, spends its budget and stops on
  abort (\<open>Worker_Run\<close>); the cron and the listener likewise (\<open>Cron_Correct\<close>, \<open>Listener_Correct\<close>).
  \<open>Role_Quiet\<close> has the statements' effect when nothing else writes.

  \<^bold>\<open>Relayer bot, relay modules.\<close> \<open>Vaa\<close> (\<open>relay/vaa.ts\<close>: byte layout, round trip, exact rejection),
  \<open>Rpc\<close> (the provider and ABI coders), \<open>Vaa_Fetcher\<close> (\<open>relay/vaaFetcher.ts\<close>; the locale
  \<open>vaa_fetcher\<close> is the interface, interpreted by both fetchers), \<open>Event_Source\<close>
  (\<open>relay/correlator.ts\<close>, \<open>relay/eventSource.ts\<close>, \<open>relay/receiptProvider.ts\<close>) with
  \<open>Event_Source_Correct\<close>, \<open>Delivery_Module\<close> (\<open>relay/delivery.ts\<close>, \<open>abi.ts\<close>) with \<open>Delivery_Correct\<close>,
  and \<open>Relay_Path\<close>: what correlation stores is what the delivery checks accept.

  \<^bold>\<open>Quoter.\<close> \<open>Signed_Quote\<close> (\<open>signedQuote.ts\<close>: layout and round trip), \<open>Quoter_Service\<close> (\<open>quoter.ts\<close>,
  \<open>server.ts\<close>, \<open>config.ts\<close>) and \<open>Quoter_Correct\<close> (a 200 carries the quote that was signed; which
  status each failure gives).

  \<^bold>\<open>Oracle.\<close> \<open>Oracle_Scaling\<close> (\<open>scaling.ts\<close>: exact rounding), \<open>Price_Source\<close> (\<open>priceSource.ts\<close>: bounds
  of the average), \<open>Oracle_Config\<close> (\<open>config.ts\<close>: loaded configurations are well typed),
  \<open>Oracle_Writer\<close> (\<open>oracle.ts\<close>) with \<open>Oracle_Nonce\<close> (an \<open>inductive\<close> step relation of the writer's
  operations; nonces and replacement fees by rule induction; the locale \<open>price_writer\<close> is what the
  runner relies on), \<open>Oracle_Runner\<close> (\<open>runner.ts\<close>, the startup of \<open>bin.ts\<close>) with \<open>Oracle_Correct\<close> (a tick
  writes all or nothing of what it read; the loop goes on until stopped).

  \<^bold>\<open>SDK.\<close> \<open>Ntt_Amounts\<close> (trimmed amounts, the prefix and fee of the additional payload and the amount
  a route sends: no dust, round trips), \<open>Route_Config\<close> (the configured tokens: each offered destination
  resolves to one token of the same group), \<open>Axelar\<close> (\<open>sdk/definitions/src/axelar.ts\<close>: status and fee of a
  transfer), \<open>Route_Track\<close> (the \<open>track\<close> generators of the manual, automatic and multi-token routes; a
  generator is the list of what it yields with its final result, type \<open>gen\<close>) and \<open>Route_Correct\<close> (the
  locale \<open>receipt_order\<close> states when receipts only advance and is interpreted on the states of a
  transfer; each route yields receipts in that order).

  \<^bold>\<open>Loops.\<close> A loop over a finite list is a recursive function; \<open>retry_loop\<close> terminates by a measure on
  the attempts. The role loops that wait on an abort signal are \<open>partial_function (option)\<close>: \<open>None\<close>
  is not returning, and that they return once the signal stays raised is proved
  (\<open>worker_partition_loop_stops\<close>, \<open>cron_loop_stops\<close>); the startup sweep is shown to return in general
  and not to return on one input. The multi-token route's polling is also a \<open>partial_function (option)\<close>
  and \<open>mt_track_ends\<close> proves that it returns, since each round takes some of its time budget. The oracle's loop is a step relation, as its timer is.

  \<^bold>\<open>Not modelled.\<close> Signal handling and the clean-up order at exit (\<open>bin.ts\<close>), the process entry points
  of the quoter and the oracle beyond what \<open>Oracle_Runner\<close> has, and the \<open>index.ts\<close> files, which only
  export. Of the SDK: the layouts that the Wormhole SDK's serializer interprets, the routes'
  validation, quoting, initiation and resumption and the executor routes, which compose calls of
  the Wormhole SDK whose behaviour is not in the repository. The chain clients (\<open>evm/ts\<close>,
  \<open>solana/ts\<close>, \<open>sui/ts\<close>) build transactions for contracts and consist largely of generated bindings, and
  the command line (\<open>cli/\<close>) runs external tools; the contracts themselves are in other languages.
\<close>

section \<open>Properties across components\<close>

text \<open>One settling call of the in-process queue keeps the messages it owns, less an acknowledged one.\<close>

lemma in_memory_settles_once:
  assumes "im_invar q" and "(receiptHandle x, message x) \<in> set (im_tracked q)"
    and "settles (in_memory_ops t) x e q = Some (Ok (), q')"
  shows "im_invar q' \<and> (if e = EvAck x then im_owned q = add_mset (message x) (im_owned q') else im_owned q' = im_owned q)"
proof (cases e)
  case (EvAck y)
  then have "y = x" "q_ack (in_memory_ops t) x q = (Ok (), q')"
    using assms(3) by (simp_all add: settles_def split: if_splits)
  then show ?thesis
    using im.ack_law [OF assms(1)] im.ack_drops_one [OF assms(1,2)] EvAck by (simp add: im_owned_eq)
next
  case (EvNack y ms)
  then have "q_nack (in_memory_ops t) x ms q = (Ok (), q')" using assms(3) by (simp add: settles_def split: if_splits)
  then show ?thesis
    using im.nack_law [OF assms(1,2)] im.nack_keeps_owned [OF assms(1,2)] EvNack by (simp add: im_owned_eq)
next
  case (EvDeadLetter y why)
  then have "q_deadLetter (in_memory_ops t) x why q = (Ok (), q')" using assms(3) by (simp add: settles_def split: if_splits)
  then show ?thesis
    using im.deadLetter_law [OF assms(1)] im.deadLetter_keeps_owned [OF assms(1,2)] EvDeadLetter by (simp add: im_owned_eq)
qed (use assms(3) in \<open>simp_all add: settles_def\<close>)

text \<open>C5: With the in-process queue, processing a delivery neither loses nor duplicates messages:
  the queue and its dead-letter list together hold the same messages afterwards, less exactly
  the processed message when the worker acknowledged it. A worker that throws leaves the
  message in the queue for redelivery.\<close>

theorem worker_conserves_messages:
  assumes "\<And>k. re_queue deps k = in_memory_ops (tm k)" and "im_invar (wq w)"
    and "(receiptHandle x, message x) \<in> set (im_tracked (wq w))"
    and "processDelivery deps x w = (res, w')"
  shows "im_invar (wq w') \<and>
    (if settlements w' = settlements w @ [EvAck x]
     then im_owned (wq w) = add_mset (message x) (im_owned (wq w'))
     else im_owned (wq w') = im_owned (wq w))"
proof -
  have never: "settles (in_memory_ops t) x e q \<noteq> Some (Throw err, q')" for t e q q' err
    by (auto simp: settles_def in_memory_ops_def im_ack_def im_nack_def im_deadLetter_def
        split: event.splits option.splits if_splits)
  have "unsettled (wq w) (settlements w) w" by (simp add: unsettled_def)
  note run = validD [OF settle_process [unfolded settles_delivery_def, rule_format] this]
  show ?thesis
  proof (cases res)
    case (Inl err)
    then have "settle_failed deps x (wq w) (settlements w) w'" using run(2) assms(4) by blast
    then have "wq w' = wq w" "settlements w' = settlements w"
      using never unfolding settle_failed_def assms(1) by blast+
    then show ?thesis using assms(2) by simp
  next
    case (Inr u)
    then obtain k e where e: "settles (in_memory_ops (tm k)) x e (wq w) = Some (Ok (), wq w')"
      "settlements w' = settlements w @ [e]"
      using run(1) assms(1,4) unfolding settled_once_def by (metis old.unit.exhaust)
    show ?thesis using in_memory_settles_once [OF assms(2,3) e(1)] e(2) by simp
  qed
qed

theorem worker_conserves_messages_witness:
  "im_owned demo_queue = add_mset demo_message
     (im_owned (wq (snd (processDelivery (demo_deps (Ok AlreadyConsumed) (Ok [])) demo_delivery demo_world))))"
proof -
  let ?D = "demo_deps (Ok AlreadyConsumed) (Ok []) :: in_memory_queue worker_deps"
  have q: "\<And>k. re_queue ?D k = in_memory_ops (int k)" by (simp add: demo_deps_def)
  have w: "wq demo_world = demo_queue" "message demo_delivery = demo_message"
    by (simp_all add: demo_world_def demo_delivery_def)
  have i: "im_invar (wq demo_world)"
    and t: "(receiptHandle demo_delivery, message demo_delivery) \<in> set (im_tracked (wq demo_world))"
    by (simp_all add: demo_defs im_publish_def new_queue_def im_invar_def im_tracked_def)
  have "settlements (snd (processDelivery ?D demo_delivery demo_world)) = settlements demo_world @ [EvAck demo_delivery]"
    by code_simp
  then show ?thesis
    using worker_conserves_messages [OF q i t prod.collapse [symmetric]] w by simp
qed

end
